(* ===== verification/Prelude.thy ===== *)
theory Prelude
  imports Main "HOL-Library.Word" "HOL-Library.Monad_Syntax"
begin

unbundle bit_operations_syntax

text \<open>
  Shared types, combinators and lemmas of the NANDFS development.

  C integers are words of their width.  A C byte buffer is a function from offsets to bytes;
  which offsets belong to the object is fixed by the object (2112 bytes for a page buffer, 64 for
  a spare area), and every operation below writes only offsets inside it.  A C function that may
  stop the program (a failed \<open>assert\<close>, \<open>exit\<close>, an access outside an array, a loop that has
  used up its fuel) returns \<open>None\<close> in that case; otherwise it returns \<open>Some\<close> of its result
  and the new state.
\<close>

type_synonym u8 = "8 word"
type_synonym u16 = "16 word"
type_synonym u32 = "32 word"
type_synonym u64 = "64 word"

type_synonym buf = "nat \<Rightarrow> u8"

named_theorems frame \<open>fields an operation leaves alone\<close>
named_theorems geometry \<open>address arithmetic of the chip and of the slots\<close>

section \<open>Stopping and copying\<close>

definition assert_c :: "bool \<Rightarrow> unit option" where
  "assert_c b = (if b then Some () else None)"

lemma assert_c_simps [simp]:
  "assert_c True = Some ()"
  "assert_c False = None"
  "(assert_c b = Some u) = b"
  "(assert_c b = None) = (\<not> b)"
  by (auto simp: assert_c_def)

lemma assert_c_bind [simp]: "Option.bind (assert_c b) f = (if b then f () else None)"
  by (simp add: assert_c_def)

text \<open>The bytes \<open>src[so..so+n-1]\<close> copied to \<open>dst[d..d+n-1]\<close>, the two buffers being distinct objects.\<close>

definition buf_copy :: "buf \<Rightarrow> nat \<Rightarrow> buf \<Rightarrow> nat \<Rightarrow> nat \<Rightarrow> buf" where
  "buf_copy dst d src so n = (\<lambda>i. if d \<le> i \<and> i < d + n then src (so + (i - d)) else dst i)"

definition buf_fill :: "buf \<Rightarrow> nat \<Rightarrow> nat \<Rightarrow> u8 \<Rightarrow> buf" where
  "buf_fill b d n v = (\<lambda>i. if d \<le> i \<and> i < d + n then v else b i)"

lemma buf_copy_inside [simp]: "d \<le> i \<Longrightarrow> i < d + n \<Longrightarrow> buf_copy dst d src so n i = src (so + (i - d))"
  by (simp add: buf_copy_def)

lemma buf_copy_outside [simp]: "\<not> (d \<le> i \<and> i < d + n) \<Longrightarrow> buf_copy dst d src so n i = dst i"
  by (auto simp: buf_copy_def)

lemma buf_fill_inside [simp]: "d \<le> i \<Longrightarrow> i < d + n \<Longrightarrow> buf_fill b d n v i = v"
  by (simp add: buf_fill_def)

lemma buf_fill_outside [simp]: "\<not> (d \<le> i \<and> i < d + n) \<Longrightarrow> buf_fill b d n v i = b i"
  by (auto simp: buf_fill_def)

section \<open>Words\<close>

text \<open>Two words of 32 bits are equal when they agree on unsigned values; the masks of the source are powers of two.\<close>

lemma unat_and_mask_le: "unat (x AND m :: u32) \<le> unat m"
  by (simp add: word_le_nat_alt [symmetric] word_and_le1)

lemma unat_mod_word: "unat (x AND mask n :: u32) = unat x mod 2 ^ n"
proof -
  have "unat (x AND mask n) = unat (take_bit n x)" by (simp add: take_bit_eq_mask)
  also have "\<dots> = take_bit n (unat x)" by (rule unsigned_take_bit_eq)
  finally show ?thesis by (simp only: take_bit_eq_mod)
qed

lemma unat_drop_bit_u32: "unat (drop_bit n x :: u32) = unat x div 2 ^ n"
proof -
  have "unat (drop_bit n x) = drop_bit n (unat x)" by (rule unat_drop_bit_eq)
  then show ?thesis by (simp only: drop_bit_eq_div)
qed

lemma unat_push_bit_u32: "unat (push_bit n x :: u32) = (unat x * 2 ^ n) mod 2 ^ 32"
proof -
  have "unat (push_bit n x) = take_bit 32 (push_bit n (unat x))"
    by (simp add: unsigned_push_bit_eq)
  then show ?thesis by (simp only: take_bit_eq_mod push_bit_eq_mult)
qed

lemma unat_plus_u32: "unat (x + y :: u32) = (unat x + unat y) mod 2 ^ 32"
  by (simp add: unat_word_ariths)

lemma unat_lt_u32: "unat (x :: u32) < 2 ^ 32"
  using unsigned_less [of x] by simp

lemma unat_less_u8: "unat (x :: u8) < 256"
  using unsigned_less [of x] by simp

lemma lt8_cases: "n < (8::nat) \<Longrightarrow> n = 0 \<or> n = 1 \<or> n = 2 \<or> n = 3 \<or> n = 4 \<or> n = 5 \<or> n = 6 \<or> n = 7"
  by linarith

text \<open>Below the sign bit, signed and unsigned values and comparisons agree.\<close>

lemma unat_small: "unat (x :: u32) < 0x80000000 \<longleftrightarrow> uint x < 0x80000000"
  using word_less_nat_alt [of x "0x80000000"] word_less_def [of x "0x80000000"] by simp

lemma sint_small: "unat (x :: u32) < 0x80000000 \<Longrightarrow> sint x = int (unat x)"
proof -
  assume "unat x < 0x80000000"
  then have "uint x < 2 ^ 31" by (simp add: unat_small)
  moreover have "- (2 ^ 31) \<le> uint x" by (rule order.trans [of _ 0]) simp_all
  ultimately have "signed_take_bit 31 (uint x) = uint x" by (intro signed_take_bit_int_eq_self)
  then show ?thesis by (simp add: sint_uint)
qed

lemma signed_small:
  "unat (x :: u32) < 0x80000000 \<Longrightarrow> unat (y :: u32) < 0x80000000 \<Longrightarrow> x <s y \<longleftrightarrow> unat x < unat y"
  "unat (x :: u32) < 0x80000000 \<Longrightarrow> unat (y :: u32) < 0x80000000 \<Longrightarrow> x \<le>s y \<longleftrightarrow> unat x \<le> unat y"
  by (simp_all only: word_sless_alt word_sle_eq sint_small of_nat_less_iff of_nat_le_iff)

end
