(* ===== verification/Ecc.thy ===== *)
theory Ecc
  imports Prelude
begin

text \<open>
  The error-correcting code of \<^verbatim>\<open>SIM/utils/yaffs_ecc.c\<close>: three bytes of parity for 256 bytes of
  data.  \<open>yaffs_ECCCalculate\<close> computes the code, \<open>yaffs_ECCCorrect\<close> compares a stored code with a
  computed one and repairs the data.  The lemmas show that the code is linear over XOR and that
  every single flipped bit is located and repaired.
\<close>

unbundle bit_operations_syntax

definition column_parity_table :: "u8 list" where
  "column_parity_table = [
  0x00, 0x55, 0x59, 0x0c, 0x65, 0x30, 0x3c, 0x69, 0x69, 0x3c, 0x30, 0x65, 0x0c, 0x59, 0x55, 0x00,
  0x95, 0xc0, 0xcc, 0x99, 0xf0, 0xa5, 0xa9, 0xfc, 0xfc, 0xa9, 0xa5, 0xf0, 0x99, 0xcc, 0xc0, 0x95,
  0x99, 0xcc, 0xc0, 0x95, 0xfc, 0xa9, 0xa5, 0xf0, 0xf0, 0xa5, 0xa9, 0xfc, 0x95, 0xc0, 0xcc, 0x99,
  0x0c, 0x59, 0x55, 0x00, 0x69, 0x3c, 0x30, 0x65, 0x65, 0x30, 0x3c, 0x69, 0x00, 0x55, 0x59, 0x0c,
  0xa5, 0xf0, 0xfc, 0xa9, 0xc0, 0x95, 0x99, 0xcc, 0xcc, 0x99, 0x95, 0xc0, 0xa9, 0xfc, 0xf0, 0xa5,
  0x30, 0x65, 0x69, 0x3c, 0x55, 0x00, 0x0c, 0x59, 0x59, 0x0c, 0x00, 0x55, 0x3c, 0x69, 0x65, 0x30,
  0x3c, 0x69, 0x65, 0x30, 0x59, 0x0c, 0x00, 0x55, 0x55, 0x00, 0x0c, 0x59, 0x30, 0x65, 0x69, 0x3c,
  0xa9, 0xfc, 0xf0, 0xa5, 0xcc, 0x99, 0x95, 0xc0, 0xc0, 0x95, 0x99, 0xcc, 0xa5, 0xf0, 0xfc, 0xa9,
  0xa9, 0xfc, 0xf0, 0xa5, 0xcc, 0x99, 0x95, 0xc0, 0xc0, 0x95, 0x99, 0xcc, 0xa5, 0xf0, 0xfc, 0xa9,
  0x3c, 0x69, 0x65, 0x30, 0x59, 0x0c, 0x00, 0x55, 0x55, 0x00, 0x0c, 0x59, 0x30, 0x65, 0x69, 0x3c,
  0x30, 0x65, 0x69, 0x3c, 0x55, 0x00, 0x0c, 0x59, 0x59, 0x0c, 0x00, 0x55, 0x3c, 0x69, 0x65, 0x30,
  0xa5, 0xf0, 0xfc, 0xa9, 0xc0, 0x95, 0x99, 0xcc, 0xcc, 0x99, 0x95, 0xc0, 0xa9, 0xfc, 0xf0, 0xa5,
  0x0c, 0x59, 0x55, 0x00, 0x69, 0x3c, 0x30, 0x65, 0x65, 0x30, 0x3c, 0x69, 0x00, 0x55, 0x59, 0x0c,
  0x99, 0xcc, 0xc0, 0x95, 0xfc, 0xa9, 0xa5, 0xf0, 0xf0, 0xa5, 0xa9, 0xfc, 0x95, 0xc0, 0xcc, 0x99,
  0x95, 0xc0, 0xcc, 0x99, 0xf0, 0xa5, 0xa9, 0xfc, 0xfc, 0xa9, 0xa5, 0xf0, 0x99, 0xcc, 0xc0, 0x95,
  0x00, 0x55, 0x59, 0x0c, 0x65, 0x30, 0x3c, 0x69, 0x69, 0x3c, 0x30, 0x65, 0x0c, 0x59, 0x55, 0x00]"

function yaffs_CountBits32 :: "u32 \<Rightarrow> nat" where
  "yaffs_CountBits32 x =
     (if x = 0 then 0 else (if x AND 1 \<noteq> 0 then 1 else 0) + yaffs_CountBits32 (drop_bit 1 x))"
  by pat_completeness auto
termination
proof (relation "measure unat", goal_cases)
  case (2 x)
  then have "unat x \<noteq> 0" by (simp add: unat_eq_zero)
  then show ?case by (simp add: unat_drop_bit_u32)
qed simp

declare yaffs_CountBits32.simps [simp del]

text \<open>One turn of the loop over the 256 bytes: the column parity and the two line parities.\<close>

definition ecc_step :: "(nat \<Rightarrow> u8) \<Rightarrow> u32 \<times> u32 \<times> u32 \<Rightarrow> nat \<Rightarrow> u32 \<times> u32 \<times> u32" where
  "ecc_step data = (\<lambda>(col_parity, line_parity, line_parity_prime) i.
     let b = ucast (column_parity_table ! unat (data i)) in
     (col_parity XOR b,
      if b AND 1 \<noteq> 0 then line_parity XOR of_nat i else line_parity,
      if b AND 1 \<noteq> 0 then line_parity_prime XOR NOT (of_nat i) else line_parity_prime))"

text \<open>The eight tests that interleave four bits of the two line parities into the byte \<open>t\<close>.\<close>

definition ecc_interleave :: "u32 \<Rightarrow> u32 \<Rightarrow> u32 \<Rightarrow> u32 \<Rightarrow> u32 \<Rightarrow> u32 \<Rightarrow> u32" where
  "ecc_interleave lp lpp m7 m5 m3 m1 =
     (if lp AND m7 \<noteq> 0 then 0x80 else 0) OR (if lpp AND m7 \<noteq> 0 then 0x40 else 0) OR
     (if lp AND m5 \<noteq> 0 then 0x20 else 0) OR (if lpp AND m5 \<noteq> 0 then 0x10 else 0) OR
     (if lp AND m3 \<noteq> 0 then 0x08 else 0) OR (if lpp AND m3 \<noteq> 0 then 0x04 else 0) OR
     (if lp AND m1 \<noteq> 0 then 0x02 else 0) OR (if lpp AND m1 \<noteq> 0 then 0x01 else 0)"

definition yaffs_ECCCalculate :: "(nat \<Rightarrow> u8) \<Rightarrow> u8 \<times> u8 \<times> u8" where
  "yaffs_ECCCalculate data =
     (let (col_parity, line_parity, line_parity_prime) = foldl (ecc_step data) (0, 0, 0) [0..<256];
          ecc2 = ucast (NOT col_parity OR 0x03);
          ecc1 = ucast (NOT (ecc_interleave line_parity line_parity_prime 0x80 0x40 0x20 0x10));
          ecc0 = ucast (NOT (ecc_interleave line_parity line_parity_prime 0x08 0x04 0x02 0x01))
      in (ecc0, ecc1, ecc2))"

text \<open>
  \<open>yaffs_ECCCorrect data read_ecc test_ecc\<close> returns the code's return value, the data and the
  \<open>read_ecc\<close> bytes, both of which it may change.
\<close>

definition yaffs_ECCCorrect ::
  "(nat \<Rightarrow> u8) \<Rightarrow> u8 \<times> u8 \<times> u8 \<Rightarrow> u8 \<times> u8 \<times> u8 \<Rightarrow> int \<times> (nat \<Rightarrow> u8) \<times> (u8 \<times> u8 \<times> u8)" where
  "yaffs_ECCCorrect data read_ecc test_ecc =
     (let (r0, r1, r2) = read_ecc; (t0, t1, t2) = test_ecc;
          d0 = ucast (r0 XOR t0) :: u32; d1 = ucast (r1 XOR t1) :: u32; d2 = ucast (r2 XOR t2) :: u32 in
      if d0 OR d1 OR d2 = 0 then (0, data, read_ecc)
      else if (d0 XOR drop_bit 1 d0) AND 0x55 = 0x55 \<and> (d1 XOR drop_bit 1 d1) AND 0x55 = 0x55 \<and>
              (d2 XOR drop_bit 1 d2) AND 0x54 = 0x54 then
        (let byte = (if d1 AND 0x80 \<noteq> 0 then 0x80 else 0) OR (if d1 AND 0x20 \<noteq> 0 then 0x40 else 0) OR
                    (if d1 AND 0x08 \<noteq> 0 then 0x20 else 0) OR (if d1 AND 0x02 \<noteq> 0 then 0x10 else 0) OR
                    (if d0 AND 0x80 \<noteq> 0 then 0x08 else 0) OR (if d0 AND 0x20 \<noteq> 0 then 0x04 else 0) OR
                    (if d0 AND 0x08 \<noteq> 0 then 0x02 else 0) OR (if d0 AND 0x02 \<noteq> 0 then 0x01 else 0) :: u32;
             bit = (if d2 AND 0x80 \<noteq> 0 then 0x04 else 0) OR (if d2 AND 0x20 \<noteq> 0 then 0x02 else 0) OR
                   (if d2 AND 0x08 \<noteq> 0 then 0x01 else 0) :: u32
         in (1, data(unat byte := data (unat byte) XOR push_bit (unat bit) 1), read_ecc))
      else if yaffs_CountBits32 d0 + yaffs_CountBits32 d1 + yaffs_CountBits32 d2 = 1
        then (1, data, test_ecc)
      else (-1, data, read_ecc))"

section \<open>The column parity is linear\<close>

definition col_basis :: "nat \<Rightarrow> u8" where
  "col_basis k = [0x55, 0x59, 0x65, 0x69, 0x95, 0x99, 0xa5, 0xa9] ! k"

fun col_linear_upto :: "nat \<Rightarrow> u8 \<Rightarrow> u8" where
  "col_linear_upto 0 b = 0"
| "col_linear_upto (Suc k) b = (if bit b k then col_basis k else 0) XOR col_linear_upto k b"

lemma column_parity_table_linear_list:
  "list_all (\<lambda>n. column_parity_table ! n = col_linear_upto 8 (of_nat n)) [0..<256]"
  by code_simp

lemma column_parity_table_linear: "column_parity_table ! unat b = col_linear_upto 8 b"
proof -
  have "unat b \<in> set [0..<256]" using unat_less_u8 [of b] by simp
  with column_parity_table_linear_list
  have "column_parity_table ! unat b = col_linear_upto 8 (of_nat (unat b))"
    by (simp only: list_all_iff)
  then show ?thesis by simp
qed

lemma flip_bit_u8: "bit (b XOR 2 ^ k :: u8) j = (if j = k \<and> k < 8 then \<not> bit b j else bit b j)"
  by (auto simp: bit_simps bit_exp_iff possible_bit_def)

lemma col_linear_upto_flip:
  "k < 8 \<Longrightarrow> col_linear_upto n (b XOR 2 ^ k) = (if k < n then col_basis k else 0) XOR col_linear_upto n b"
proof (induction n)
  case (Suc n)
  show ?case
  proof (cases "k = n")
    case True
    with Suc show ?thesis by (auto simp: flip_bit_u8 xor.assoc [symmetric])
  next
    case False
    with Suc show ?thesis by (auto simp: flip_bit_u8 less_Suc_eq xor.left_commute)
  qed
qed simp

lemma column_parity_flip:
  "k < 8 \<Longrightarrow> column_parity_table ! unat (b XOR 2 ^ k :: u8) = col_basis k XOR column_parity_table ! unat b"
  using col_linear_upto_flip [of k 8 b] by (simp only: column_parity_table_linear if_True)

lemma col_basis_odd: "k < 8 \<Longrightarrow> bit (col_basis k) 0"
  by (auto simp: col_basis_def dest!: lt8_cases)

subsection \<open>Bits of the interleaved byte\<close>


lemma u32_mask_bit:
  "((x::u32) AND 0x80 = 0) = (\<not> bit x 7)" "(x AND 0x40 = 0) = (\<not> bit x 6)"
  "(x AND 0x20 = 0) = (\<not> bit x 5)" "(x AND 0x10 = 0) = (\<not> bit x 4)"
  "(x AND 8 = 0) = (\<not> bit x 3)" "(x AND 4 = 0) = (\<not> bit x 2)"
  "(x AND 2 = 0) = (\<not> bit x 1)" "(x AND 1 = 0) = (\<not> bit x 0)"
  using and_exp_eq_0_iff_not_bit [of x 7] and_exp_eq_0_iff_not_bit [of x 6]
    and_exp_eq_0_iff_not_bit [of x 5] and_exp_eq_0_iff_not_bit [of x 4]
    and_exp_eq_0_iff_not_bit [of x 3] and_exp_eq_0_iff_not_bit [of x 2]
    and_exp_eq_0_iff_not_bit [of x 1] and_exp_eq_0_iff_not_bit [of x 0]
  by simp_all

lemma interleave_high_bit:
  "bit (ecc_interleave lp lpp 0x80 0x40 0x20 0x10) 7 = bit lp 7"
  "bit (ecc_interleave lp lpp 0x80 0x40 0x20 0x10) 6 = bit lpp 7"
  "bit (ecc_interleave lp lpp 0x80 0x40 0x20 0x10) 5 = bit lp 6"
  "bit (ecc_interleave lp lpp 0x80 0x40 0x20 0x10) 4 = bit lpp 6"
  "bit (ecc_interleave lp lpp 0x80 0x40 0x20 0x10) 3 = bit lp 5"
  "bit (ecc_interleave lp lpp 0x80 0x40 0x20 0x10) 2 = bit lpp 5"
  "bit (ecc_interleave lp lpp 0x80 0x40 0x20 0x10) 1 = bit lp 4"
  "bit (ecc_interleave lp lpp 0x80 0x40 0x20 0x10) 0 = bit lpp 4"
  by (simp_all add: ecc_interleave_def u32_mask_bit bit_or_iff if_distrib [of "\<lambda>w. bit w _"] cong: if_cong)

lemma interleave_low_bit:
  "bit (ecc_interleave lp lpp 8 4 2 1) 7 = bit lp 3"
  "bit (ecc_interleave lp lpp 8 4 2 1) 6 = bit lpp 3"
  "bit (ecc_interleave lp lpp 8 4 2 1) 5 = bit lp 2"
  "bit (ecc_interleave lp lpp 8 4 2 1) 4 = bit lpp 2"
  "bit (ecc_interleave lp lpp 8 4 2 1) 3 = bit lp 1"
  "bit (ecc_interleave lp lpp 8 4 2 1) 2 = bit lpp 1"
  "bit (ecc_interleave lp lpp 8 4 2 1) 1 = bit lp 0"
  "bit (ecc_interleave lp lpp 8 4 2 1) 0 = bit lpp 0"
  by (simp_all add: ecc_interleave_def u32_mask_bit bit_or_iff if_distrib [of "\<lambda>w. bit w _"] cong: if_cong)

subsection \<open>One flipped bit\<close>

lemma ecc_step_xor:
  "ecc_step data (c XOR x, l XOR y, p XOR z) i =
   (case ecc_step data (c, l, p) i of (c', l', p') \<Rightarrow> (c' XOR x, l' XOR y, p' XOR z))"
  by (simp add: ecc_step_def Let_def ac_simps xor.left_commute)

lemma ecc_step_cong: "data i = data' i \<Longrightarrow> ecc_step data s i = ecc_step data' s i"
  by (cases s) (simp add: ecc_step_def)

lemma ecc_step_other: "i \<noteq> n \<Longrightarrow> ecc_step (data(n := v)) s i = ecc_step data s i"
  by (rule ecc_step_cong) simp

lemma ecc_step_flip:
  assumes "k < 8"
  shows "ecc_step (data(n := data n XOR 2 ^ k)) (c, l, p) n =
   (case ecc_step data (c, l, p) n of (c', l', p') \<Rightarrow>
      (c' XOR ucast (col_basis k), l' XOR of_nat n, p' XOR NOT (of_nat n)))"
proof -
  let ?b = "column_parity_table ! unat (data n)"
  have u: "ucast (col_basis k XOR ?b) = (ucast (col_basis k) XOR ucast ?b :: u32)"
    by (simp add: unsigned_xor_eq)
  have odd: "bit (ucast (col_basis k) XOR ucast ?b :: u32) 0 = (\<not> bit (ucast ?b :: u32) 0)"
    using col_basis_odd [OF assms] by (simp only: bit_simps) simp
  have flip: "column_parity_table ! unat ((data(n := data n XOR 2 ^ k)) n) = col_basis k XOR ?b"
    by (simp only: column_parity_flip [OF assms] fun_upd_same)
  show ?thesis
    unfolding ecc_step_def Let_def u32_mask_bit flip u odd prod.case not_not
    by (cases "bit (ucast ?b :: u32) 0") (simp_all add: ac_simps del: bit_0)
qed

lemma ecc_fold_flip:
  assumes "k < 8"
  shows "foldl (ecc_step (data(n := data n XOR 2 ^ k))) s [0..<m] =
    (case foldl (ecc_step data) s [0..<m] of (c, l, p) \<Rightarrow>
      if n < m then (c XOR ucast (col_basis k), l XOR of_nat n, p XOR NOT (of_nat n)) else (c, l, p))"
proof (induction m)
  case 0
  then show ?case by (simp split: prod.splits)
next
  case (Suc m)
  obtain c l p where f: "foldl (ecc_step data) s [0..<m] = (c, l, p)"
    by (cases "foldl (ecc_step data) s [0..<m]") auto
  consider "m < n" | "m = n" | "n < m" by linarith
  then show ?case
  proof cases
    case 1
    then show ?thesis using Suc f
      by (simp add: ecc_step_other del: fun_upd_apply split: prod.splits)
  next
    case 2
    then show ?thesis using Suc f ecc_step_flip [OF assms, of data n c l p]
      by (simp del: fun_upd_apply split: prod.splits)
  next
    case 3
    then show ?thesis
      using Suc f ecc_step_xor [of data c "ucast (col_basis k)" l "of_nat n" p "NOT (of_nat n)" m]
      by (simp add: ecc_step_other del: fun_upd_apply split: prod.splits)
  qed
qed

lemma bit_ucast_u8: "bit (ucast (x::u32) :: u8) j = (j < 8 \<and> bit x j)"
  by (auto simp: bit_simps)

lemma bit_u8_fc: "bit (0xfc::u8) j = (j < 8 \<and> j \<noteq> 0 \<and> j \<noteq> 1)"
proof -
  have "(0xfc::u8) = push_bit 2 (mask 6)" by (simp add: mask_eq_exp_minus_1)
  then have "bit (0xfc::u8) j = bit (push_bit 2 (mask 6) :: u8) j" by (simp only:)
  also have "\<dots> = (j < 8 \<and> j \<noteq> 0 \<and> j \<noteq> 1)"
    unfolding bit_push_bit_iff bit_mask_iff possible_bit_def by auto
  finally show ?thesis .
qed

lemma ecc_delta:
  assumes k: "k < 8" and n: "n < 256"
    and r: "yaffs_ECCCalculate data = (r0, r1, r2)"
    and t: "yaffs_ECCCalculate (data(n := data n XOR 2 ^ k)) = (t0, t1, t2)"
  shows "bit (r0 XOR t0) 7 = bit n 3" "bit (r0 XOR t0) 6 = (\<not> bit n 3)"
    "bit (r0 XOR t0) 5 = bit n 2" "bit (r0 XOR t0) 4 = (\<not> bit n 2)"
    "bit (r0 XOR t0) 3 = bit n 1" "bit (r0 XOR t0) 2 = (\<not> bit n 1)"
    "bit (r0 XOR t0) 1 = bit n 0" "bit (r0 XOR t0) 0 = (\<not> bit n 0)"
    "bit (r1 XOR t1) 7 = bit n 7" "bit (r1 XOR t1) 6 = (\<not> bit n 7)"
    "bit (r1 XOR t1) 5 = bit n 6" "bit (r1 XOR t1) 4 = (\<not> bit n 6)"
    "bit (r1 XOR t1) 3 = bit n 5" "bit (r1 XOR t1) 2 = (\<not> bit n 5)"
    "bit (r1 XOR t1) 1 = bit n 4" "bit (r1 XOR t1) 0 = (\<not> bit n 4)"
    "r2 XOR t2 = col_basis k AND 0xfc"
proof -
  obtain c l p where f: "foldl (ecc_step data) (0, 0, 0) [0..<256] = (c, l, p)"
    by (cases "foldl (ecc_step data) (0, 0, 0) [0..<256]") auto
  have t': "t0 = ucast (NOT (ecc_interleave (l XOR of_nat n) (p XOR NOT (of_nat n)) 8 4 2 1))"
    "t1 = ucast (NOT (ecc_interleave (l XOR of_nat n) (p XOR NOT (of_nat n)) 0x80 0x40 0x20 0x10))"
    "t2 = ucast (NOT (c XOR ucast (col_basis k)) OR 3)"
    using t n by (simp_all add: yaffs_ECCCalculate_def ecc_fold_flip [OF k] f Let_def)
  have r': "r0 = ucast (NOT (ecc_interleave l p 8 4 2 1))"
    "r1 = ucast (NOT (ecc_interleave l p 0x80 0x40 0x20 0x10))"
    "r2 = ucast (NOT c OR 3)"
    using r by (simp_all add: yaffs_ECCCalculate_def f Let_def)
  note bits = bit_xor_iff bit_not_iff bit_ucast_u8 interleave_high_bit interleave_low_bit
    interleave_high_bit [unfolded One_nat_def] interleave_low_bit [unfolded One_nat_def] bit_simps
  show "bit (r0 XOR t0) 7 = bit n 3" "bit (r0 XOR t0) 6 = (\<not> bit n 3)"
    "bit (r0 XOR t0) 5 = bit n 2" "bit (r0 XOR t0) 4 = (\<not> bit n 2)"
    "bit (r0 XOR t0) 3 = bit n 1" "bit (r0 XOR t0) 2 = (\<not> bit n 1)"
    "bit (r0 XOR t0) 1 = bit n 0" "bit (r0 XOR t0) 0 = (\<not> bit n 0)"
    unfolding t' r' by (auto simp: bits simp del: bit_0)
  show "bit (r1 XOR t1) 7 = bit n 7" "bit (r1 XOR t1) 6 = (\<not> bit n 7)"
    "bit (r1 XOR t1) 5 = bit n 6" "bit (r1 XOR t1) 4 = (\<not> bit n 6)"
    "bit (r1 XOR t1) 3 = bit n 5" "bit (r1 XOR t1) 2 = (\<not> bit n 5)"
    "bit (r1 XOR t1) 1 = bit n 4" "bit (r1 XOR t1) 0 = (\<not> bit n 4)"
    unfolding t' r' by (auto simp: bits simp del: bit_0)
  have three: "bit (3::u32) j = (j < 2)" for j
  proof -
    have "(3::u32) = mask 2" by (simp add: mask_eq_exp_minus_1)
    then have "bit (3::u32) j = bit (mask 2 :: u32) j" by (simp only:)
    then show ?thesis unfolding bit_mask_iff possible_bit_def by auto
  qed
  show "r2 XOR t2 = col_basis k AND 0xfc"
    unfolding t' r'
  proof (rule bit_word_eqI)
    fix j
    assume "j < LENGTH(8)"
    moreover have "bit (ucast (col_basis k) :: u32) j = bit (col_basis k) j"
      by (auto simp: bit_simps dest: bit_imp_le_length)
    ultimately show "bit (ucast (NOT c OR 3) XOR ucast (NOT (c XOR ucast (col_basis k)) OR 3) :: u8) j =
        bit (col_basis k AND 0xfc) j"
      by (simp only: bit_xor_iff bit_ucast_u8 bit_or_iff bit_not_iff three bit_and_iff bit_u8_fc possible_bit_def) auto
  qed
qed

lemma bit_u32_55: "bit (0x55::u32) j = (j = 0 \<or> j = 2 \<or> j = 4 \<or> j = 6)"
proof -
  have "(0x55::u32) = 2 ^ 0 OR 2 ^ 2 OR 2 ^ 4 OR 2 ^ 6" by simp
  then show ?thesis by (simp only: bit_or_iff bit_exp_iff possible_bit_def) auto
qed

lemma bit_u32_54: "bit (0x54::u32) j = (j = 2 \<or> j = 4 \<or> j = 6)"
proof -
  have "(0x54::u32) = 2 ^ 2 OR 2 ^ 4 OR 2 ^ 6" by simp
  then show ?thesis by (simp only: bit_or_iff bit_exp_iff possible_bit_def) auto
qed

lemma and_eq_mask_iff: "(x AND m = m) = (\<forall>j. bit m j \<longrightarrow> bit (x::u32) j)"
proof
  assume "x AND m = m"
  then have "bit m j = (bit x j \<and> bit m j)" for j by (metis bit_and_iff)
  then show "\<forall>j. bit m j \<longrightarrow> bit x j" by blast
next
  assume "\<forall>j. bit m j \<longrightarrow> bit x j"
  then show "x AND m = m" by (auto intro!: bit_word_eqI simp: bit_and_iff)
qed

lemma and_55: "(x AND 0x55 = (0x55::u32)) = (bit x 0 \<and> bit x 2 \<and> bit x 4 \<and> bit x 6)"
  by (simp only: and_eq_mask_iff bit_u32_55) blast

lemma and_54: "(x AND 0x54 = (0x54::u32)) = (bit x 2 \<and> bit x 4 \<and> bit x 6)"
  by (simp only: and_eq_mask_iff bit_u32_54) blast

text \<open>The byte number, put together from the tests on the two deltas.\<close>

definition byte_of_bits :: "bool \<Rightarrow> bool \<Rightarrow> bool \<Rightarrow> bool \<Rightarrow> bool \<Rightarrow> bool \<Rightarrow> bool \<Rightarrow> bool \<Rightarrow> u32" where
  "byte_of_bits b7 b6 b5 b4 b3 b2 b1 b0 =
     (if b7 then 0x80 else 0) OR (if b6 then 0x40 else 0) OR (if b5 then 0x20 else 0) OR
     (if b4 then 0x10 else 0) OR (if b3 then 8 else 0) OR (if b2 then 4 else 0) OR
     (if b1 then 2 else 0) OR (if b0 then 1 else 0)"

lemma unat_byte_of_bits:
  "unat (byte_of_bits b7 b6 b5 b4 b3 b2 b1 b0) =
     (if b7 then 128 else 0) + (if b6 then 64 else 0) + (if b5 then 32 else 0) + (if b4 then 16 else 0) +
     (if b3 then 8 else 0) + (if b2 then 4 else 0) + (if b1 then 2 else 0) + (if b0 then 1 else 0)"
  unfolding byte_of_bits_def
  by (cases b7; cases b6; cases b5; cases b4; cases b3; cases b2; cases b1; cases b0) simp_all

lemma nat_bits_8:
  assumes "n < 256"
  shows "n = (if bit n 7 then 128 else 0) + (if bit n 6 then 64 else 0) + (if bit n 5 then 32 else 0) +
     (if bit n 4 then 16 else 0) + (if bit n 3 then 8 else 0) + (if bit n 2 then 4 else 0) +
     (if bit n 1 then 2 else 0) + (if bit n 0 then 1 else (0::nat))"
proof -
  have "n = take_bit (Suc (Suc (Suc (Suc (Suc (Suc (Suc (Suc 0)))))))) n"
    using assms by (simp add: take_bit_nat_eq_self)
  also have "\<dots> = (if bit n 7 then 128 else 0) + (if bit n 6 then 64 else 0) + (if bit n 5 then 32 else 0) +
     (if bit n 4 then 16 else 0) + (if bit n 3 then 8 else 0) + (if bit n 2 then 4 else 0) +
     (if bit n 1 then 2 else 0) + (if bit n 0 then 1 else (0::nat))"
    unfolding take_bit_Suc_from_most by (simp add: eval_nat_numeral)
  finally show ?thesis .
qed

lemma unat_byte_of_nat_bits:
  "n < 256 \<Longrightarrow> unat (byte_of_bits (bit n 7) (bit n 6) (bit n 5) (bit n 4) (bit n 3) (bit n 2) (bit n 1) (bit n 0)) = n"
  using nat_bits_8 [of n] by (simp only: unat_byte_of_bits)

lemma bit_of_basis:
  "k < 8 \<Longrightarrow> unat (byte_of_bits False False False False False (bit (col_basis k) 7) (bit (col_basis k) 5) (bit (col_basis k) 3)) = k"
  by (auto simp: col_basis_def unat_byte_of_bits dest!: lt8_cases)

lemma col_basis_mixed:
  "k < 8 \<Longrightarrow> bit (col_basis k) 2 \<noteq> bit (col_basis k) 3 \<and> bit (col_basis k) 4 \<noteq> bit (col_basis k) 5 \<and>
     bit (col_basis k) 6 \<noteq> bit (col_basis k) 7"
  by (auto simp: col_basis_def dest!: lt8_cases)

text \<open>What \<open>yaffs_ECCCorrect\<close> does when the two codes differ as a flipped bit \<open>k\<close> of byte \<open>n\<close> makes them differ.\<close>

lemma ECCCorrect_delta:
  fixes r0 r1 r2 t0 t1 t2 :: u8
  assumes k: "k < 8" and n: "n < 256"
    and b0: "bit (r0 XOR t0) 7 = bit n 3" "bit (r0 XOR t0) 6 = (\<not> bit n 3)"
    "bit (r0 XOR t0) 5 = bit n 2" "bit (r0 XOR t0) 4 = (\<not> bit n 2)"
    "bit (r0 XOR t0) 3 = bit n 1" "bit (r0 XOR t0) 2 = (\<not> bit n 1)"
    "bit (r0 XOR t0) 1 = bit n 0" "bit (r0 XOR t0) 0 = (\<not> bit n 0)"
    and b1: "bit (r1 XOR t1) 7 = bit n 7" "bit (r1 XOR t1) 6 = (\<not> bit n 7)"
    "bit (r1 XOR t1) 5 = bit n 6" "bit (r1 XOR t1) 4 = (\<not> bit n 6)"
    "bit (r1 XOR t1) 3 = bit n 5" "bit (r1 XOR t1) 2 = (\<not> bit n 5)"
    "bit (r1 XOR t1) 1 = bit n 4" "bit (r1 XOR t1) 0 = (\<not> bit n 4)"
    and b2: "r2 XOR t2 = col_basis k AND 0xfc"
  shows "yaffs_ECCCorrect d (r0, r1, r2) (t0, t1, t2) = (1, d(n := d n XOR 2 ^ k), (r0, r1, r2))"
proof -
  define x0 where "x0 = (ucast (r0 XOR t0) :: u32)"
  define x1 where "x1 = (ucast (r1 XOR t1) :: u32)"
  define x2 where "x2 = (ucast (r2 XOR t2) :: u32)"
  have u: "bit (ucast (w::u8) :: u32) j = bit w j" for w j
    by (auto simp: bit_simps dest: bit_imp_le_length)
  have b2': "bit (r2 XOR t2) j = (bit (col_basis k) j \<and> j < 8 \<and> j \<noteq> 0 \<and> j \<noteq> 1)" for j
    by (simp only: b2 bit_and_iff bit_u8_fc)
  have mixed: "(x0 XOR drop_bit 1 x0) AND 0x55 = 0x55" "(x1 XOR drop_bit 1 x1) AND 0x55 = 0x55"
    "(x2 XOR drop_bit 1 x2) AND 0x54 = 0x54"
    unfolding x0_def x1_def x2_def and_55 and_54 bit_xor_iff [of "ucast _"] bit_drop_bit_eq u
    using b0 b1 col_basis_mixed [OF k] by (simp_all add: b2' numeral_3_eq_3)
  have nz: "x0 OR x1 OR x2 \<noteq> 0"
  proof
    assume "x0 OR x1 OR x2 = 0"
    then have "\<not> bit (x0 OR x1 OR x2) j" for j by simp
    from this [of 7] this [of 6] have "\<not> bit x0 7" "\<not> bit x0 6" by (simp_all add: bit_or_iff)
    with b0 show False by (simp add: x0_def u)
  qed
  have byte: "unat (byte_of_bits (bit x1 7) (bit x1 5) (bit x1 3) (bit x1 1) (bit x0 7) (bit x0 5) (bit x0 3) (bit x0 1)) = n"
    unfolding x0_def x1_def u b0 b1 by (rule unat_byte_of_nat_bits [OF n])
  have bt: "unat (byte_of_bits False False False False False (bit x2 7) (bit x2 5) (bit x2 3)) = k"
    unfolding x2_def u using bit_of_basis [OF k] by (simp add: b2')
  show ?thesis
    unfolding yaffs_ECCCorrect_def Let_def prod.case x0_def [symmetric] x1_def [symmetric] x2_def [symmetric] u32_mask_bit
    using mixed nz byte bt by (simp add: byte_of_bits_def del: bit_0)
qed


lemma ECCCorrect_codes:
  assumes "k < 8" and "n < 256"
  shows "yaffs_ECCCorrect D (yaffs_ECCCalculate data)
     (yaffs_ECCCalculate (data(n := data n XOR 2 ^ k))) = (1, D(n := D n XOR 2 ^ k), yaffs_ECCCalculate data)"
proof -
  obtain r0 r1 r2 where r: "yaffs_ECCCalculate data = (r0, r1, r2)" by (cases "yaffs_ECCCalculate data") auto
  obtain t0 t1 t2 where t: "yaffs_ECCCalculate (data(n := data n XOR 2 ^ k)) = (t0, t1, t2)"
    by (cases "yaffs_ECCCalculate (data(n := data n XOR 2 ^ k))") auto
  show ?thesis
    unfolding r t by (rule ECCCorrect_delta [OF assms ecc_delta [OF assms r t]])
qed

text \<open>A flipped data bit changes every byte of the code.\<close>

lemma ecc_flip_all_bytes:
  assumes "k < 8" and "n < 256"
    and r: "yaffs_ECCCalculate data = (r0, r1, r2)"
    and t: "yaffs_ECCCalculate (data(n := data n XOR 2 ^ k)) = (t0, t1, t2)"
  shows "r0 \<noteq> t0" "r1 \<noteq> t1" "r2 \<noteq> t2"
proof -
  note delta = ecc_delta [OF assms]
  have "bit (r0 XOR t0) 7 \<noteq> bit (r0 XOR t0) 6" "bit (r1 XOR t1) 7 \<noteq> bit (r1 XOR t1) 6"
    by (simp_all only: delta) simp_all
  then show "r0 \<noteq> t0" "r1 \<noteq> t1" by auto
  have "bit (r2 XOR t2) 7 \<noteq> bit (r2 XOR t2) 6"
    unfolding delta(17) bit_and_iff bit_u8_fc using col_basis_mixed [OF assms(1)] by simp
  then show "r2 \<noteq> t2" by auto
qed

section \<open>The interface the chip driver uses\<close>

text \<open>
  What a reader of a protected chunk relies on: an undamaged chunk passes, one flipped bit of the
  data or of the stored code is repaired, and the code depends on the chunk's bytes only.
\<close>

definition ecc_flip :: "nat \<Rightarrow> u8 \<times> u8 \<times> u8 \<Rightarrow> u8 \<times> u8 \<times> u8" where
  "ecc_flip j = (\<lambda>(r0, r1, r2).
     if j < 8 then (r0 XOR 2 ^ j, r1, r2)
     else if j < 16 then (r0, r1 XOR 2 ^ (j - 8), r2)
     else (r0, r1, r2 XOR 2 ^ (j - 16)))"

lemma CountBits32_pow_u8_list: "list_all (\<lambda>j. yaffs_CountBits32 (ucast (2 ^ j :: u8)) = 1) [0..<8]"
  by code_simp

lemma CountBits32_pow_u8: "j < 8 \<Longrightarrow> yaffs_CountBits32 (ucast (2 ^ j :: u8)) = 1"
  using CountBits32_pow_u8_list by (simp only: list_all_iff) simp

lemma CountBits32_0: "yaffs_CountBits32 0 = 0"
  by (subst yaffs_CountBits32.simps) simp

lemma pow_u8_nonzero: "j < 8 \<Longrightarrow> (ucast (2 ^ j :: u8) :: u32) \<noteq> 0"
  by (drule lt8_cases) auto

lemma ECCCorrect_code_flip:
  assumes "j < 24"
  shows "yaffs_ECCCorrect d (ecc_flip j c) c = (1, d, c)"
proof -
  obtain c0 c1 c2 where c: "c = (c0, c1, c2)" by (cases c) auto
  have x: "(a XOR b) XOR a = b" for a b :: u8 by (simp add: xor.assoc xor.left_commute [of a])
  consider "j < 8" | "8 \<le> j" "j - 8 < 8" "j < 16" | "16 \<le> j" "j - 16 < 8" using assms by linarith
  then show ?thesis
  proof cases
    case 1
    then show ?thesis using CountBits32_pow_u8 [OF 1] pow_u8_nonzero [OF 1]
      by (simp add: yaffs_ECCCorrect_def ecc_flip_def c x Let_def CountBits32_0)
  next
    case 2
    then show ?thesis using CountBits32_pow_u8 [OF 2(2)] pow_u8_nonzero [OF 2(2)]
      by (simp add: yaffs_ECCCorrect_def ecc_flip_def c x Let_def CountBits32_0)
  next
    case 3
    then show ?thesis using CountBits32_pow_u8 [OF 3(2)] pow_u8_nonzero [OF 3(2)]
      by (simp add: yaffs_ECCCorrect_def ecc_flip_def c x Let_def CountBits32_0)
  qed
qed

lemma ECCCorrect_clean: "yaffs_ECCCorrect d c c = (0, d, c)"
  by (cases c) (simp add: yaffs_ECCCorrect_def Let_def)

lemma ECCCalculate_local:
  assumes "\<And>i. i < 256 \<Longrightarrow> d i = d' i"
  shows "yaffs_ECCCalculate d = yaffs_ECCCalculate d'"
proof -
  have "m \<le> 256 \<Longrightarrow> foldl (ecc_step d) s [0..<m] = foldl (ecc_step d') s [0..<m]" for m s
    by (induction m) (auto simp: assms intro: ecc_step_cong)
  then show ?thesis by (simp add: yaffs_ECCCalculate_def)
qed

locale block_code =
  fixes calc :: "(nat \<Rightarrow> u8) \<Rightarrow> 'e"
    and correct :: "(nat \<Rightarrow> u8) \<Rightarrow> 'e \<Rightarrow> 'e \<Rightarrow> int \<times> (nat \<Rightarrow> u8) \<times> 'e"
    and flip :: "nat \<Rightarrow> 'e \<Rightarrow> 'e"
    and bytes :: nat and code_bits :: nat
  assumes clean: "correct d c c = (0, d, c)"
    and repair: "k < 8 \<Longrightarrow> n < bytes \<Longrightarrow>
      correct D (calc d) (calc (d(n := d n XOR 2 ^ k))) = (1, D(n := D n XOR 2 ^ k), calc d)"
    and code_repair: "j < code_bits \<Longrightarrow> correct d (flip j c) c = (1, d, c)"
    and local_code: "(\<And>i. i < bytes \<Longrightarrow> d i = d' i) \<Longrightarrow> calc d = calc d'"
begin

text \<open>The chunk \<open>d'\<close> read for the chunk \<open>d\<close> written, and the code read for it, with at most one bit flipped.\<close>

definition one_flip :: "(nat \<Rightarrow> u8) \<Rightarrow> (nat \<Rightarrow> u8) \<Rightarrow> 'e \<Rightarrow> bool" where
  "one_flip d d' c = (((\<forall>i<bytes. d' i = d i) \<and> (c = calc d \<or> (\<exists>j<code_bits. c = flip j (calc d)))) \<or>
     (c = calc d \<and> (\<exists>k<8. \<exists>n<bytes. \<forall>i<bytes. d' i = (d(n := d n XOR 2 ^ k)) i)))"

lemma one_flip_cases:
  assumes "one_flip d d' c"
  obtains (same) "calc d' = c" "\<And>i. i < bytes \<Longrightarrow> d' i = d i"
    | (code) j where "j < code_bits" "c = flip j (calc d')" "\<And>D. correct D c (calc d') = (1, D, calc d')"
        "\<And>i. i < bytes \<Longrightarrow> d' i = d i"
    | (data) k n where "k < 8" "n < bytes" "c = calc d" "calc d' = calc (d(n := d n XOR 2 ^ k))"
        "\<And>D. correct D c (calc d') = (1, D(n := D n XOR 2 ^ k), c)"
        "\<And>i. i < bytes \<Longrightarrow> (d'(n := d' n XOR 2 ^ k)) i = d i"
proof -
  consider (1) "\<forall>i<bytes. d' i = d i" "c = calc d" | (2) j where "\<forall>i<bytes. d' i = d i" "j < code_bits" "c = flip j (calc d)"
    | (3) k n where "c = calc d" "k < 8" "n < bytes" "\<forall>i<bytes. d' i = (d(n := d n XOR 2 ^ k)) i"
    using assms by (auto simp: one_flip_def)
  then show ?thesis
  proof cases
    case 1
    then have "calc d' = calc d" by (auto intro: local_code)
    with 1 show ?thesis by (auto intro: same)
  next
    case 2
    then have "calc d' = calc d" by (auto intro: local_code)
    with 2 code_repair show ?thesis by (auto intro: code)
  next
    case 3
    then have eq: "calc d' = calc (d(n := d n XOR 2 ^ k))" by (auto intro: local_code)
    show ?thesis
      by (rule data [of k n]) (use 3 eq repair [of k n] in \<open>auto simp: xor.assoc\<close>)
  qed
qed

lemma outside: "n \<ge> bytes \<Longrightarrow> calc (d(n := v)) = calc d"
  by (rule local_code) auto

end

interpretation ecc: block_code yaffs_ECCCalculate yaffs_ECCCorrect ecc_flip 256 24
  by (rule block_code.intro)
    (rule ECCCorrect_clean, erule (1) ECCCorrect_codes, erule ECCCorrect_code_flip,
     rule ECCCalculate_local)

section \<open>Properties\<close>

text \<open>C22: a page chunk of 256 bytes with one flipped bit is repaired, whatever the data, the byte and the bit.\<close>

theorem ECCCorrect_single_bit:
  assumes "k < 8" and "n < 256"
  shows "yaffs_ECCCorrect (data(n := data n XOR 2 ^ k)) (yaffs_ECCCalculate data)
     (yaffs_ECCCalculate (data(n := data n XOR 2 ^ k))) = (1, data, yaffs_ECCCalculate data)"
  using ECCCorrect_codes [OF assms, of "data(n := data n XOR 2 ^ k)" data] by (simp add: xor.assoc)

theorem ECCCorrect_single_bit_witness:
  "yaffs_ECCCorrect ((\<lambda>i. of_nat i)(70 := of_nat 70 XOR 2 ^ 3)) (yaffs_ECCCalculate (\<lambda>i. of_nat i))
     (yaffs_ECCCalculate ((\<lambda>i. of_nat i)(70 := of_nat 70 XOR 2 ^ 3)))
   = (1, \<lambda>i. of_nat i, yaffs_ECCCalculate (\<lambda>i. of_nat i))"
  using ECCCorrect_single_bit [of 3 70 "\<lambda>i. of_nat i"] by simp

end
