(* ===== verification/Nand.thy ===== *)
theory Nand
  imports Ecc
begin

text \<open>
  The simulated NAND chip of \<^verbatim>\<open>SIM/peripherals/nand.c\<close> with the flag accessors of
  \<^verbatim>\<open>SIM/peripherals/nand.h\<close>, in the \<^verbatim>\<open>LARGE_PAGE\<close> and \<^verbatim>\<open>DO_ECC\<close> configuration of
  \<^verbatim>\<open>NANDFS/tests.mk\<close>: pages of 2048 bytes with 64 spare bytes, 64 pages in an erase unit, 2^19
  pages, one simulation file.

  The state holds the file's contents page by page, the two arrays that count the writes to the
  main and the spare area, whether the file pointer is open, and the global erase buffer.
  \<open>rd_fail\<close> and \<open>wr_fail\<close> are the environment: the pages on which \<open>fread\<close> and \<open>fwrite\<close> (or the
  \<open>fseek\<close> before them) fail; a failing call moves no data.  \<open>junk\<close> is what an uninitialised
  local buffer holds.
\<close>

unbundle bit_operations_syntax

abbreviation (input) NAND_PAGE_SIZE :: nat where "NAND_PAGE_SIZE \<equiv> 2048"
abbreviation (input) NAND_SPARE_SIZE :: nat where "NAND_SPARE_SIZE \<equiv> 64"
abbreviation (input) NAND_TOTAL_SIZE :: nat where "NAND_TOTAL_SIZE \<equiv> 2112"
abbreviation (input) NAND_PAGES_PER_ERASE_UNIT :: nat where "NAND_PAGES_PER_ERASE_UNIT \<equiv> 64"
abbreviation (input) NAND_EU_MASK :: u32 where "NAND_EU_MASK \<equiv> 0xffffffc0"
abbreviation (input) NAND_PAGE_COUNT :: u32 where "NAND_PAGE_COUNT \<equiv> 0x80000"
abbreviation (input) PAGES_PER_GIGA :: u32 where "PAGES_PER_GIGA \<equiv> 0x80000"
abbreviation (input) GIGA_SIZE :: u32 where "GIGA_SIZE \<equiv> 1107296256"
abbreviation (input) ECC_LOCATION :: nat where "ECC_LOCATION \<equiv> 9"
abbreviation (input) OBS_LOCATION :: nat where "OBS_LOCATION \<equiv> 63"
abbreviation (input) NAND_BAD_EU_FLAG_BYTE_NUM :: nat where "NAND_BAD_EU_FLAG_BYTE_NUM \<equiv> 6"
abbreviation (input) NAND_DEVICE_ID :: u32 where "NAND_DEVICE_ID \<equiv> 0x00000f0f"

record nand =
  cells :: "u32 \<Rightarrow> buf"
  main_area_writes :: "u32 \<Rightarrow> u8"
  spare_writes :: "u32 \<Rightarrow> u8"
  fps :: bool
  erase_buf :: buf
  rd_fail :: "u32 \<Rightarrow> bool"
  wr_fail :: "u32 \<Rightarrow> bool"
  junk :: buf

section \<open>The simulation file\<close>

definition file_byte :: "'z nand_scheme \<Rightarrow> nat \<Rightarrow> u8" where
  "file_byte s pos = cells s (of_nat (pos div NAND_TOTAL_SIZE)) (pos mod NAND_TOTAL_SIZE)"

text \<open>\<open>fread\<close> of \<open>len\<close> bytes at \<open>pos\<close>: the number of bytes read, short at the end of the file, and the buffer.\<close>

definition fread :: "buf \<Rightarrow> nat \<Rightarrow> nat \<Rightarrow> 'z nand_scheme \<Rightarrow> nat \<times> buf" where
  "fread b pos len s =
     (let n = min len (unat GIGA_SIZE - pos) in (n, \<lambda>i. if i < n then file_byte s (pos + i) else b i))"

definition fwrite :: "buf \<Rightarrow> nat \<Rightarrow> nat \<Rightarrow> 'z nand_scheme \<Rightarrow> 'z nand_scheme" where
  "fwrite b pos len s = s\<lparr>cells := \<lambda>p i.
     (let q = unat p * NAND_TOTAL_SIZE + i in
      if i < NAND_TOTAL_SIZE \<and> pos \<le> q \<and> q < pos + len then b (q - pos) else cells s p i)\<rparr>"

definition get_fp :: "u32 \<Rightarrow> 'z nand_scheme \<Rightarrow> bool option" where
  "get_fp page s = (if page div PAGES_PER_GIGA > 0 then None else Some (fps s))"

section \<open>The error-correcting code of a page\<close>

definition chunk :: "buf \<Rightarrow> nat \<Rightarrow> (nat \<Rightarrow> u8)" where
  "chunk b i = (\<lambda>n. b (i * 256 + n))"

definition stored_ecc :: "buf \<Rightarrow> nat \<Rightarrow> u8 \<times> u8 \<times> u8" where
  "stored_ecc b i = (b (NAND_PAGE_SIZE + ECC_LOCATION + i * 3), b (NAND_PAGE_SIZE + ECC_LOCATION + i * 3 + 1),
     b (NAND_PAGE_SIZE + ECC_LOCATION + i * 3 + 2))"

fun ecc_byte :: "nat \<Rightarrow> u8 \<times> u8 \<times> u8 \<Rightarrow> u8" where
  "ecc_byte j (e0, e1, e2) = (if j = 0 then e0 else if j = 1 then e1 else e2)"

text \<open>The loop over the three bytes of one chunk: the code calls the correction once for each byte that differs.\<close>

fun verifyECC_bytes :: "nat list \<Rightarrow> u8 \<times> u8 \<times> u8 \<Rightarrow> u8 \<times> u8 \<times> u8 \<Rightarrow> (nat \<Rightarrow> u8) \<Rightarrow> int \<times> (nat \<Rightarrow> u8)" where
  "verifyECC_bytes [] expected_ecc read_ecc d = (0, d)"
| "verifyECC_bytes (j # js) expected_ecc read_ecc d =
     (if ecc_byte j expected_ecc \<noteq> ecc_byte j read_ecc then
        (let (r, d', read') = yaffs_ECCCorrect d read_ecc expected_ecc in
         if r = -1 then (1, d') else verifyECC_bytes js expected_ecc read' d')
      else verifyECC_bytes js expected_ecc read_ecc d)"

fun verifyECC_chunks :: "nat list \<Rightarrow> buf \<Rightarrow> int \<times> buf" where
  "verifyECC_chunks [] b = (0, b)"
| "verifyECC_chunks (i # is) b =
     (let (e, d) = verifyECC_bytes [0, 1, 2] (yaffs_ECCCalculate (chunk b i)) (stored_ecc b i) (chunk b i);
          b' = buf_copy b (i * 256) d 0 256
      in if e \<noteq> 0 then (1, b') else verifyECC_chunks is b')"

definition verifyECC :: "buf \<Rightarrow> int \<times> buf" where
  "verifyECC b = verifyECC_chunks [0..<8] b"

definition setECC_chunk :: "nat \<Rightarrow> buf \<Rightarrow> buf" where
  "setECC_chunk i b = (let (e0, e1, e2) = yaffs_ECCCalculate (chunk b i);
      p = NAND_PAGE_SIZE + (i * 3 + ECC_LOCATION)
    in b(p := e0, p + 1 := e1, p + 2 := e2))"

definition setECC :: "buf \<Rightarrow> buf" where
  "setECC b = fold setECC_chunk [0..<8] b"

section \<open>Operations of the chip\<close>

definition nandReadPage :: "buf \<Rightarrow> u32 \<Rightarrow> u32 \<Rightarrow> u32 \<Rightarrow> 'z nand_scheme \<Rightarrow> (int \<times> buf) option" where
  "nandReadPage b page offset len s = do {
     fp \<leftarrow> get_fp page s;
     if \<not> fp then Some (1, b)
     else if page \<ge> NAND_PAGE_COUNT then Some (1, b)
     else do {
       let pos = (page mod PAGES_PER_GIGA) * 2112 + offset;
       assert_c (pos < GIGA_SIZE);
       if rd_fail s page then Some (1, b)
       else (let (n, b1) = fread b (unat pos) (unat len) s in
         if n \<noteq> unat len then Some (1, b1)
         else (let (e, b2) = verifyECC b1 in Some (if e \<noteq> 0 then 1 else 0, b2)))
     }
   }"

definition nandReadPageSpare :: "buf \<Rightarrow> u32 \<Rightarrow> u32 \<Rightarrow> u32 \<Rightarrow> 'z nand_scheme \<Rightarrow> (int \<times> buf) option" where
  "nandReadPageSpare b page offset len s = do {
     fp \<leftarrow> get_fp page s;
     if \<not> fp then Some (1, b)
     else do {
       assert_c (page < NAND_PAGE_COUNT);
       if offset > 64 then Some (1, b)
       else do {
         let len' = (if offset + len > 64 then 64 - offset else len);
         let pos = (page mod PAGES_PER_GIGA) * 2112 + 2048 + offset;
         assert_c (pos < GIGA_SIZE);
         if rd_fail s page then Some (1, b)
         else (let (n, b1) = fread b (unat pos) (unat len') s in Some (if n \<noteq> unat len' then 1 else 0, b1))
       }
     }
   }"

definition nandReadPageTotal :: "buf \<Rightarrow> u32 \<Rightarrow> 'z nand_scheme \<Rightarrow> (int \<times> buf) option" where
  "nandReadPageTotal b phy_addr s = nandReadPage b phy_addr 0 2112 s"

definition nandReadPageFlags :: "buf \<Rightarrow> u32 \<Rightarrow> 'z nand_scheme \<Rightarrow> (int \<times> buf) option" where
  "nandReadPageFlags b phy_addr s = nandReadPageSpare b phy_addr 0 64 s"

text \<open>The three programming commands return the error, the buffer (the code writes the ECC into it) and the state.\<close>

definition nandProgramPageA ::
  "buf \<Rightarrow> u32 \<Rightarrow> u32 \<Rightarrow> u32 \<Rightarrow> 'z nand_scheme \<Rightarrow> (int \<times> buf \<times> 'z nand_scheme) option" where
  "nandProgramPageA b page offset len s = do {
     fp \<leftarrow> get_fp page s;
     if \<not> fp then Some (1, b, s)
     else if page \<ge> NAND_PAGE_COUNT then Some (1, b, s)
     else do {
       assert_c (main_area_writes s page = 0);
       let b1 = (if len \<ge> 2111 then setECC b else b);
       let len' = (if offset mod 2112 + len > 2112 then 2112 - offset mod 2112 else len);
       let pos = (page mod PAGES_PER_GIGA) * 2112 + offset;
       assert_c (pos < GIGA_SIZE);
       if wr_fail s page \<or> len' = 0 then Some (1, b1, s)
       else (let s1 = fwrite b1 (unat pos) (unat len') s;
                 s2 = s1\<lparr>main_area_writes := (main_area_writes s1)(page := 1)\<rparr>
             in Some (0, b1, if len' = 2112 then s2\<lparr>spare_writes := (spare_writes s2)(page := 1)\<rparr> else s2))
     }
   }"

definition nandProgramPageB ::
  "buf \<Rightarrow> u32 \<Rightarrow> u32 \<Rightarrow> u32 \<Rightarrow> 'z nand_scheme \<Rightarrow> (int \<times> buf \<times> 'z nand_scheme) option" where
  "nandProgramPageB b page offset len s = do {
     fp \<leftarrow> get_fp page s;
     if \<not> fp then Some (1, b, s)
     else if page \<ge> NAND_PAGE_COUNT then Some (1, b, s)
     else do {
       let b1 = (if len > 1024 then setECC b else b);
       let len' = (if 1024 + offset mod 2112 + len > 2112 then 2112 - (1024 + offset mod 2112) else len);
       let pos = (page mod PAGES_PER_GIGA) * 2112 + 1024 + offset;
       assert_c (pos < GIGA_SIZE);
       if wr_fail s page \<or> len' = 0 then Some (1, b1, s)
       else Some (0, b1, fwrite b1 (unat pos) (unat len') s)
     }
   }"

definition nandProgramPageC ::
  "buf \<Rightarrow> u32 \<Rightarrow> u32 \<Rightarrow> u32 \<Rightarrow> 'z nand_scheme \<Rightarrow> (int \<times> 'z nand_scheme) option" where
  "nandProgramPageC b page offset len s = do {
     fp \<leftarrow> get_fp page s;
     if \<not> fp then Some (1, s)
     else do {
       assert_c (spare_writes s page = 0);
       if page \<ge> NAND_PAGE_COUNT then Some (1, s)
       else do {
         let len' = (if 2048 + offset mod 2112 + len > 2112 then 2112 - (offset mod 2112 + 2048) else len);
         let pos = (page mod PAGES_PER_GIGA) * 2112 + 2048 + offset;
         assert_c (pos < GIGA_SIZE);
         if wr_fail s page \<or> len' = 0 then Some (1, s)
         else (let s1 = fwrite b (unat pos) (unat len') s
               in Some (0, s1\<lparr>spare_writes := (spare_writes s1)(page := 1)\<rparr>))
       }
     }
   }"

definition nandCheckEuStatus :: "u32 \<Rightarrow> 'z nand_scheme \<Rightarrow> int option" where
  "nandCheckEuStatus phy_addr s = do {
     fp \<leftarrow> get_fp phy_addr s;
     if \<not> fp then Some 1
     else do {
       (_, spare_buf) \<leftarrow> nandReadPageSpare (junk s) (phy_addr AND NAND_EU_MASK) 0 64 s;
       if spare_buf 5 = 0xff then do {
         (_, spare_buf') \<leftarrow> nandReadPageSpare spare_buf ((phy_addr AND NAND_EU_MASK) + 1) 0 64 s;
         Some (if spare_buf' 5 = 0xff then 1 else 0)
       } else Some 0
     }
   }"

text \<open>\<open>markEuAsBad\<close> as written returns 1 when the mark was programmed and 0 when the programming failed.\<close>

definition markEuAsBad :: "u32 \<Rightarrow> 'z nand_scheme \<Rightarrow> (int \<times> 'z nand_scheme) option" where
  "markEuAsBad page_addr s = do {
     ok \<leftarrow> nandCheckEuStatus page_addr s;
     if ok = 0 then Some (1, s)
     else do {
       (e, s') \<leftarrow> nandProgramPageC (\<lambda>_. 0x00) (page_addr AND NAND_EU_MASK) 5 1 s;
       Some (if e \<noteq> 0 then 0 else 1, s')
     }
   }"

text \<open>The loop of the erase: it resets the page's write counts and rewrites the page, and stops at a failing write.\<close>

fun erase_loop :: "u32 \<Rightarrow> nat list \<Rightarrow> 'z nand_scheme \<Rightarrow> int \<times> 'z nand_scheme" where
  "erase_loop eu [] s = (0, s)"
| "erase_loop eu (j # js) s =
     (let p = eu + of_nat j;
          s1 = s\<lparr>main_area_writes := (main_area_writes s)(p := 0), spare_writes := (spare_writes s)(p := 0)\<rparr>
      in if wr_fail s1 p then (1, s1)
         else erase_loop eu js (fwrite (erase_buf s1) (unat p * NAND_TOTAL_SIZE) NAND_TOTAL_SIZE s1))"

definition nandErase :: "u32 \<Rightarrow> 'z nand_scheme \<Rightarrow> (int \<times> 'z nand_scheme) option" where
  "nandErase page_in_erase_unit s = do {
     fp \<leftarrow> get_fp page_in_erase_unit s;
     if \<not> fp then Some (1, s)
     else if page_in_erase_unit \<ge> NAND_PAGE_COUNT then Some (1, s)
     else do {
       let eu = page_in_erase_unit AND NAND_EU_MASK;
       res \<leftarrow> nandCheckEuStatus eu s;
       if res = 0 then Some (0, s)
       else do {
         assert_c ((eu mod PAGES_PER_GIGA) * 2112 < GIGA_SIZE);
         Some (erase_loop eu [0..<NAND_PAGES_PER_ERASE_UNIT] s)
       }
     }
   }"

text \<open>The erase of the test build, which does not look at the status of the unit.\<close>

definition nandBruteErase :: "u32 \<Rightarrow> 'z nand_scheme \<Rightarrow> (int \<times> 'z nand_scheme) option" where
  "nandBruteErase page_in_erase_unit s = do {
     fp \<leftarrow> get_fp page_in_erase_unit s;
     if \<not> fp then Some (1, s)
     else if page_in_erase_unit \<ge> NAND_PAGE_COUNT then Some (1, s)
     else do {
       let eu = page_in_erase_unit AND NAND_EU_MASK;
       assert_c ((eu mod PAGES_PER_GIGA) * 2112 < GIGA_SIZE);
       Some (erase_loop eu [0..<NAND_PAGES_PER_ERASE_UNIT] s)
     }
   }"

definition nandReadID :: u32 where "nandReadID = NAND_DEVICE_ID"

definition nandReadStatus :: int where "nandReadStatus = 0"

text \<open>
  \<open>nandInit\<close>: \<open>exists_sim_file\<close> tells whether the first \<open>fopen\<close> succeeds and \<open>can_open\<close> whether
  the later ones do.  Both branches overwrite the whole file with the erase buffer.  Only the
  branch of an existing file resets the write counts.
\<close>

fun init_loop :: "bool \<Rightarrow> nat list \<Rightarrow> 'z nand_scheme \<Rightarrow> int \<times> 'z nand_scheme" where
  "init_loop resets [] s = (0, s)"
| "init_loop resets (i # is) s =
     (let p = of_nat i;
          s1 = (if resets then s\<lparr>main_area_writes := (main_area_writes s)(p := 0), spare_writes := (spare_writes s)(p := 0)\<rparr> else s)
      in if wr_fail s1 p then (1, s1)
         else init_loop resets is (fwrite (erase_buf s1) (i * NAND_TOTAL_SIZE) NAND_TOTAL_SIZE s1))"

definition nandInit :: "bool \<Rightarrow> bool \<Rightarrow> 'z nand_scheme \<Rightarrow> int \<times> 'z nand_scheme" where
  "nandInit exists_sim_file can_open s =
     (let s1 = s\<lparr>erase_buf := buf_fill (erase_buf s) 0 NAND_TOTAL_SIZE 0xff\<rparr> in
      if \<not> can_open then (1, s1\<lparr>fps := False\<rparr>)
      else if \<not> exists_sim_file then init_loop False [0..<unat NAND_PAGE_COUNT] (s1\<lparr>fps := True\<rparr>)
      else init_loop True [0..<unat NAND_PAGE_COUNT] (s1\<lparr>fps := True\<rparr>))"

text \<open>
  \<open>markBadEuFile\<close>: the list of bad erase units, as \<open>fscanf\<close> parses it (\<open>None\<close> when the file
  cannot be opened; the device id, \<open>None\<close> when it does not parse; the page numbers).
\<close>

fun markBad_loop :: "u32 list \<Rightarrow> 'z nand_scheme \<Rightarrow> (int \<times> 'z nand_scheme) option" where
  "markBad_loop [] s = Some (1, s)"
| "markBad_loop (eu_first_page # es) s = do {
     ok \<leftarrow> nandCheckEuStatus eu_first_page s;
     if ok = 0 then markBad_loop es s
     else do {
       (e, s1) \<leftarrow> nandProgramPageC (\<lambda>_. 0x00) eu_first_page 5 1 s;
       if e \<noteq> 0 then Some (1, s1)
       else do {
         (_, b) \<leftarrow> nandReadPageSpare (erase_buf s1) eu_first_page 0 64 s1;
         markBad_loop es (s1\<lparr>erase_buf := b\<rparr>)
       }
     }
   }"

definition markBadEuFile :: "(u32 option \<times> u32 list) option \<Rightarrow> 'z nand_scheme \<Rightarrow> (int \<times> 'z nand_scheme) option" where
  "markBadEuFile file s = (case file of
       None \<Rightarrow> Some (1, s)
     | Some (None, _) \<Rightarrow> Some (1, s)
     | Some (Some device_id, eus) \<Rightarrow>
         if device_id \<noteq> NAND_DEVICE_ID then Some (1, s) else markBad_loop eus s)"

section \<open>Addresses\<close>

lemma page_pos:
  assumes "p < NAND_PAGE_COUNT" "unat k < 2112"
  shows "unat ((p mod PAGES_PER_GIGA) * 2112 + k) = unat p * NAND_TOTAL_SIZE + unat k"
    "(p mod PAGES_PER_GIGA) * 2112 + k < GIGA_SIZE"
proof -
  have p: "unat p < 524288" using assms(1) by (simp add: word_less_nat_alt)
  have m: "p mod PAGES_PER_GIGA = p" using p by (simp add: unat_arith_simps)
  show u: "unat ((p mod PAGES_PER_GIGA) * 2112 + k) = unat p * NAND_TOTAL_SIZE + unat k"
    using p assms(2) by (simp only: m) (simp add: unat_word_ariths)
  show "(p mod PAGES_PER_GIGA) * 2112 + k < GIGA_SIZE"
    using p assms(2) u by (simp add: word_less_nat_alt)
qed

lemma get_fp_ok [simp]: "p < NAND_PAGE_COUNT \<Longrightarrow> get_fp p s = Some (fps s)"
proof -
  assume "p < NAND_PAGE_COUNT"
  then have "p div PAGES_PER_GIGA = 0" by (simp add: unat_arith_simps)
  then show ?thesis by (simp add: get_fp_def)
qed

lemma get_fp_exit: "NAND_PAGE_COUNT \<le> p \<Longrightarrow> get_fp p s = None"
proof -
  assume "NAND_PAGE_COUNT \<le> p"
  then have "p div PAGES_PER_GIGA \<noteq> 0" by (simp add: unat_arith_simps)
  then show ?thesis by (simp add: get_fp_def word_gt_0)
qed

lemma file_byte_page: "i < NAND_TOTAL_SIZE \<Longrightarrow> file_byte s (unat p * NAND_TOTAL_SIZE + i) = cells s p i"
  by (simp add: file_byte_def)

lemma fread_page:
  assumes "p < NAND_PAGE_COUNT" "off + n \<le> NAND_TOTAL_SIZE"
  shows "fread b (unat p * NAND_TOTAL_SIZE + off) n s = (n, buf_copy b 0 (cells s p) off n)"
proof -
  have p: "unat p < 524288" using assms(1) by (simp add: word_less_nat_alt)
  then have "min n (unat GIGA_SIZE - (unat p * NAND_TOTAL_SIZE + off)) = n" using assms(2) by simp
  moreover have "file_byte s (unat p * NAND_TOTAL_SIZE + off + i) = cells s p (off + i)" if "i < n" for i
    using file_byte_page [of "off + i" s p] that assms(2) by (simp add: add.assoc)
  ultimately show ?thesis by (simp add: fread_def Let_def buf_copy_def fun_eq_iff)
qed

lemma fwrite_page:
  assumes "off + n \<le> NAND_TOTAL_SIZE"
  shows "fwrite b (unat p * NAND_TOTAL_SIZE + off) n s =
    s\<lparr>cells := (cells s)(p := buf_copy (cells s p) off b 0 n)\<rparr>"
proof -
  have "(i < NAND_TOTAL_SIZE \<and> unat p * NAND_TOTAL_SIZE + off \<le> unat q * NAND_TOTAL_SIZE + i \<and>
       unat q * NAND_TOTAL_SIZE + i < unat p * NAND_TOTAL_SIZE + off + n) = (q = p \<and> off \<le> i \<and> i < off + n)" for q i
  proof -
    have q: "unat q = unat p" if "i < NAND_TOTAL_SIZE" "unat p * NAND_TOTAL_SIZE + off \<le> unat q * NAND_TOTAL_SIZE + i"
      "unat q * NAND_TOTAL_SIZE + i < unat p * NAND_TOTAL_SIZE + off + n"
      using that assms by linarith
    show ?thesis
    proof (cases "unat q = unat p")
      case True
      then show ?thesis using assms by (auto simp: word_unat_eq_iff)
    next
      case False
      then show ?thesis using q by (auto simp: word_unat_eq_iff)
    qed
  qed
  then show ?thesis
    unfolding fwrite_def Let_def by (intro arg_cong2 [where f = "\<lambda>c s. s\<lparr>cells := c\<rparr>"] refl ext) (auto simp: buf_copy_def)
qed


lemma eu_push_drop: "p AND NAND_EU_MASK = push_bit 6 (drop_bit 6 p)"
proof (rule bit_word_eqI)
  have m: "NAND_EU_MASK = NOT (mask 6)" by (simp add: mask_eq_exp_minus_1)
  fix j
  assume "j < LENGTH(32)"
  then show "bit (p AND NAND_EU_MASK) j = bit (push_bit 6 (drop_bit 6 p)) j"
    unfolding m by (auto simp: bit_simps)
qed

lemma unat_eu [geometry]: "unat (p AND NAND_EU_MASK) = 64 * (unat p div 64)"
proof -
  have "64 * (unat p div 64) \<le> unat p" by simp
  then have "64 * (unat p div 64) < 2 ^ 32" using unat_lt_u32 [of p] by linarith
  then show ?thesis
    unfolding eu_push_drop unat_push_bit_u32 unat_drop_bit_u32 by (simp add: mult.commute)
qed

lemma eu_plus:
  assumes "p < NAND_PAGE_COUNT" "j < 64"
  shows "unat ((p AND NAND_EU_MASK) + of_nat j) = 64 * (unat p div 64) + j"
    "(p AND NAND_EU_MASK) + of_nat j < NAND_PAGE_COUNT"
proof -
  have p: "unat p < 524288" using assms(1) by (simp add: word_less_nat_alt)
  then have "unat p div 64 < 8192" by (rule less_mult_imp_div_less [of _ 8192 64, simplified])
  with assms(2) have "64 * (unat p div 64) + j < 524288" by linarith
  then show "unat ((p AND NAND_EU_MASK) + of_nat j) = 64 * (unat p div 64) + j"
    using assms(2) by (simp add: unat_word_ariths unat_eu unat_of_nat)
  then show "(p AND NAND_EU_MASK) + of_nat j < NAND_PAGE_COUNT"
    using \<open>64 * (unat p div 64) + j < 524288\<close> by (simp add: word_less_nat_alt)
qed

lemma eu_le: "p < NAND_PAGE_COUNT \<Longrightarrow> p AND NAND_EU_MASK < NAND_PAGE_COUNT"
  using eu_plus(2) [of p 0] by simp

lemma same_eu_iff: "(p AND NAND_EU_MASK = q AND NAND_EU_MASK) = (unat p div 64 = unat q div 64)"
  by (simp add: word_unat_eq_iff unat_eu)

lemma eu_idem [simp]: "(p AND NAND_EU_MASK) AND NAND_EU_MASK = p AND NAND_EU_MASK"
  by (simp add: and.assoc)

lemma eu_plus_eu:
  assumes "p < NAND_PAGE_COUNT" "j < 64"
  shows "((p AND NAND_EU_MASK) + of_nat j) AND NAND_EU_MASK = p AND NAND_EU_MASK"
  unfolding same_eu_iff eu_plus [OF assms] using assms(2) by simp

section \<open>What the operations do to a page\<close>

text \<open>The chip is usable at page \<open>p\<close>: the page exists, the file is open and the file access succeeds.\<close>

definition page_ok :: "u32 \<Rightarrow> 'z nand_scheme \<Rightarrow> bool" where
  "page_ok p s = (p < NAND_PAGE_COUNT \<and> fps s \<and> \<not> rd_fail s p \<and> \<not> wr_fail s p)"

lemma page_pos_spare:
  assumes "p < NAND_PAGE_COUNT" "unat k < 64"
  shows "unat ((p mod PAGES_PER_GIGA) * 2112 + 2048 + k) = unat p * NAND_TOTAL_SIZE + (NAND_PAGE_SIZE + unat k)"
    "(p mod PAGES_PER_GIGA) * 2112 + 2048 + k < GIGA_SIZE"
proof -
  have k: "unat (2048 + k) = 2048 + unat k" using assms(2) by (simp add: unat_word_ariths)
  show "unat ((p mod PAGES_PER_GIGA) * 2112 + 2048 + k) = unat p * NAND_TOTAL_SIZE + (NAND_PAGE_SIZE + unat k)"
    "(p mod PAGES_PER_GIGA) * 2112 + 2048 + k < GIGA_SIZE"
    using page_pos [of p "2048 + k"] assms k by (simp_all add: add.assoc)
qed

lemma page_le: "p < NAND_PAGE_COUNT \<Longrightarrow> (NAND_PAGE_COUNT \<le> p) = False"
  by (simp add: not_le)

lemma nandReadPageFlags_simp:
  assumes "p < NAND_PAGE_COUNT" "fps s"
  shows "nandReadPageFlags b p s =
    Some (if rd_fail s p then (1, b) else (0, buf_copy b 0 (cells s p) NAND_PAGE_SIZE NAND_SPARE_SIZE))"
  using assms page_pos_spare [of p 0] fread_page [of p NAND_PAGE_SIZE NAND_SPARE_SIZE b s]
  by (simp add: nandReadPageFlags_def nandReadPageSpare_def)

lemma nandReadPageTotal_simp:
  assumes "p < NAND_PAGE_COUNT" "fps s"
  shows "nandReadPageTotal b p s =
    Some (if rd_fail s p then (1, b) else
       (let (e, b') = verifyECC (buf_copy b 0 (cells s p) 0 NAND_TOTAL_SIZE) in (if e \<noteq> 0 then 1 else 0, b')))"
  using assms page_pos [of p 0] fread_page [of p 0 NAND_TOTAL_SIZE b s] 
  by (simp add: page_le [OF assms(1)] nandReadPageTotal_def nandReadPage_def Let_def split: prod.splits)

lemma nandProgramPageA_simp:
  assumes "p < NAND_PAGE_COUNT" "fps s" "unat off + unat len \<le> NAND_TOTAL_SIZE" "0 < len"
  shows "nandProgramPageA b p off len s =
    (if main_area_writes s p \<noteq> 0 then None
     else let b1 = (if len \<ge> 2111 then setECC b else b) in
       Some (if wr_fail s p then (1, b1, s) else
         (0, b1, s\<lparr>cells := (cells s)(p := buf_copy (cells s p) (unat off) b1 0 (unat len)),
            main_area_writes := (main_area_writes s)(p := 1),
            spare_writes := (if len = 2112 then (spare_writes s)(p := 1) else spare_writes s)\<rparr>)))"
proof -
  have off: "unat off < 2112" using assms(3,4) by (simp add: word_less_nat_alt)
  then have "off mod 2112 = off" by (simp add: unat_arith_simps)
  moreover have "\<not> off + len > 2112" using assms(3) by (simp add: word_less_nat_alt unat_word_ariths)
  moreover have "len \<noteq> 0" using assms(4) by auto
  ultimately show ?thesis
    using assms page_pos [of p off] off fwrite_page [of "unat off" "unat len" _ p s]
    by (simp add: page_le [OF assms(1)] nandProgramPageA_def Let_def)
qed

lemma nandProgramPageC_simp:
  assumes "p < NAND_PAGE_COUNT" "fps s" "unat off + unat len \<le> NAND_SPARE_SIZE" "0 < len"
  shows "nandProgramPageC b p off len s =
    (if spare_writes s p \<noteq> 0 then None
     else Some (if wr_fail s p then (1, s) else
         (0, s\<lparr>cells := (cells s)(p := buf_copy (cells s p) (NAND_PAGE_SIZE + unat off) b 0 (unat len)),
            spare_writes := (spare_writes s)(p := 1)\<rparr>)))"
proof -
  have l: "0 < unat len" using assms(4) by (simp add: word_less_nat_alt)
  then have off: "unat off < 64" using assms(3) by simp
  then have "off mod 2112 = off" by (simp add: unat_arith_simps)
  moreover have "\<not> 2048 + off + len > 2112" using assms(3) off by (simp add: word_less_nat_alt unat_word_ariths)
  moreover have "len \<noteq> 0" using assms(4) by auto
  ultimately show ?thesis
    using assms page_pos_spare [of p off] off fwrite_page [of "NAND_PAGE_SIZE + unat off" "unat len" _ p s] l
    by (simp add: page_le [OF assms(1)] nandProgramPageC_def Let_def)
qed

lemma if_Some_and: "(if A then Some (if B then x else y) else Some y) = Some (if A \<and> B then x else y)"
  by simp

lemma nandCheckEuStatus_simp:
  assumes "p < NAND_PAGE_COUNT" "fps s"
  shows "nandCheckEuStatus p s =
    Some (let eu = p AND NAND_EU_MASK;
              b1 = (if rd_fail s eu then junk s else buf_copy (junk s) 0 (cells s eu) NAND_PAGE_SIZE NAND_SPARE_SIZE);
              b2 = (if rd_fail s (eu + 1) then b1 else buf_copy b1 0 (cells s (eu + 1)) NAND_PAGE_SIZE NAND_SPARE_SIZE)
          in if b1 5 = 0xff \<and> b2 5 = 0xff then 1 else 0)"
proof -
  have "(p AND NAND_EU_MASK) + 1 < NAND_PAGE_COUNT" using eu_plus(2) [OF assms(1), of 1] by simp
  from nandReadPageFlags_simp [OF this assms(2)] nandReadPageFlags_simp [OF eu_le [OF assms(1)] assms(2)]
  have spare: "nandReadPageSpare b (p AND NAND_EU_MASK) 0 64 s =
      Some (if rd_fail s (p AND NAND_EU_MASK) then (1, b)
        else (0, buf_copy b 0 (cells s (p AND NAND_EU_MASK)) NAND_PAGE_SIZE NAND_SPARE_SIZE))"
    "nandReadPageSpare b ((p AND NAND_EU_MASK) + 1) 0 64 s =
      Some (if rd_fail s ((p AND NAND_EU_MASK) + 1) then (1, b)
        else (0, buf_copy b 0 (cells s ((p AND NAND_EU_MASK) + 1)) NAND_PAGE_SIZE NAND_SPARE_SIZE))" for b
    unfolding nandReadPageFlags_def by blast+
  show ?thesis
    unfolding nandCheckEuStatus_def get_fp_ok [OF assms(1)] spare bind.bind_lunit Let_def
    by (cases "rd_fail s (p AND NAND_EU_MASK)"; cases "rd_fail s ((p AND NAND_EU_MASK) + 1)")
      (simp_all only: assms(2) if_True if_False not_True_eq_False not_False_eq_True prod.case bind.bind_lunit if_Some_and)
qed


text \<open>A readable erase unit is good when the bad-unit bytes of its first two pages are erased.\<close>

definition eu_good :: "u32 \<Rightarrow> 'z nand_scheme \<Rightarrow> bool" where
  "eu_good p s = (cells s (p AND NAND_EU_MASK) 2053 = 0xff \<and> cells s ((p AND NAND_EU_MASK) + 1) 2053 = 0xff)"

definition eu_readable :: "u32 \<Rightarrow> 'z nand_scheme \<Rightarrow> bool" where
  "eu_readable p s = (\<not> rd_fail s (p AND NAND_EU_MASK) \<and> \<not> rd_fail s ((p AND NAND_EU_MASK) + 1))"

lemma nandCheckEuStatus_good:
  assumes "p < NAND_PAGE_COUNT" "fps s" "eu_readable p s"
  shows "nandCheckEuStatus p s = Some (if eu_good p s then 1 else 0)"
proof -
  have "buf_copy b 0 c NAND_PAGE_SIZE NAND_SPARE_SIZE 5 = c 2053" for b c by (simp add: buf_copy_def)
  with assms(3) show ?thesis
    unfolding nandCheckEuStatus_simp [OF assms(1,2)] eu_readable_def eu_good_def Let_def
    by (simp only: if_False)
qed

section \<open>Erasing\<close>

definition erased :: "(u32 \<Rightarrow> bool) \<Rightarrow> 'z nand_scheme \<Rightarrow> 'z nand_scheme" where
  "erased P s = s\<lparr>cells := (\<lambda>q. if P q then buf_copy (cells s q) 0 (erase_buf s) 0 NAND_TOTAL_SIZE else cells s q),
     main_area_writes := (\<lambda>q. if P q then 0 else main_area_writes s q),
     spare_writes := (\<lambda>q. if P q then 0 else spare_writes s q)\<rparr>"

lemma erased_step:
  "fwrite (erase_buf s) (unat p * NAND_TOTAL_SIZE) NAND_TOTAL_SIZE
     (s\<lparr>main_area_writes := (main_area_writes s)(p := 0), spare_writes := (spare_writes s)(p := 0)\<rparr>)
   = erased (\<lambda>q. q = p) s"
  using fwrite_page [of 0 NAND_TOTAL_SIZE "erase_buf s" p
    "s\<lparr>main_area_writes := (main_area_writes s)(p := 0), spare_writes := (spare_writes s)(p := 0)\<rparr>"]
  by (auto simp: erased_def fun_eq_iff intro!: nand.fold_congs)

lemma erased_erased: "erased P (erased Q s) = erased (\<lambda>q. P q \<or> Q q) s"
  by (auto simp: erased_def fun_eq_iff buf_copy_def intro!: nand.fold_congs)

lemma erased_sel [simp]:
  "erase_buf (erased P s) = erase_buf s" "wr_fail (erased P s) = wr_fail s" "rd_fail (erased P s) = rd_fail s"
  "fps (erased P s) = fps s" "junk (erased P s) = junk s"
  by (simp_all add: erased_def)

lemma erase_loop_ok:
  "(\<And>j. j \<in> set js \<Longrightarrow> \<not> wr_fail s (eu + of_nat j)) \<Longrightarrow>
   erase_loop eu js s = (0, erased (\<lambda>q. \<exists>j\<in>set js. q = eu + of_nat j) s)"
proof (induction js arbitrary: s)
  case Nil
  then show ?case by (simp add: erased_def)
next
  case (Cons j js)
  have "\<not> wr_fail s (eu + of_nat j)" using Cons.prems by simp
  then show ?case
    using Cons by (simp add: Let_def erased_step erased_erased disj_commute)
qed

lemma in_eu_iff:
  assumes "p < NAND_PAGE_COUNT"
  shows "(\<exists>j\<in>set [0..<64]. q = (p AND NAND_EU_MASK) + of_nat j) = (q AND NAND_EU_MASK = p AND NAND_EU_MASK)"
proof
  assume "\<exists>j\<in>set [0..<64]. q = (p AND NAND_EU_MASK) + of_nat j"
  then show "q AND NAND_EU_MASK = p AND NAND_EU_MASK" using eu_plus_eu [OF assms] by auto
next
  assume "q AND NAND_EU_MASK = p AND NAND_EU_MASK"
  then have d: "unat q div 64 = unat p div 64" by (simp only: same_eu_iff)
  have "unat q mod 64 < 64" by simp
  moreover have "unat ((p AND NAND_EU_MASK) + of_nat (unat q mod 64)) = unat q"
    by (subst eu_plus(1) [OF assms]) (simp_all only: d [symmetric] mult_div_mod_eq mod_less_divisor zero_less_numeral)
  ultimately show "\<exists>j\<in>set [0..<64]. q = (p AND NAND_EU_MASK) + of_nat j"
    by (intro bexI [where x = "unat q mod 64"]) (simp_all add: word_unat_eq_iff)
qed

lemma nandErase_simp:
  assumes "p < NAND_PAGE_COUNT" "fps s" "eu_readable p s"
    and "\<And>q. q AND NAND_EU_MASK = p AND NAND_EU_MASK \<Longrightarrow> \<not> wr_fail s q"
  shows "nandErase p s =
    Some (0, if eu_good p s then erased (\<lambda>q. q AND NAND_EU_MASK = p AND NAND_EU_MASK) s else s)"
proof -
  have st: "nandCheckEuStatus (p AND NAND_EU_MASK) s = Some (if eu_good p s then 1 else 0)"
    using nandCheckEuStatus_good [of "p AND NAND_EU_MASK" s] eu_le [OF assms(1)] assms
    by (simp add: eu_readable_def eu_good_def)
  have pos: "(p AND NAND_EU_MASK) mod PAGES_PER_GIGA * 2112 < GIGA_SIZE"
    using page_pos [of "p AND NAND_EU_MASK" 0] eu_le [OF assms(1)] by simp
  have loop: "erase_loop (p AND NAND_EU_MASK) [0..<64] s =
      (0, erased (\<lambda>q. q AND NAND_EU_MASK = p AND NAND_EU_MASK) s)"
    using erase_loop_ok [of "[0..<64]" s "p AND NAND_EU_MASK"] eu_plus_eu [OF assms(1)] assms(4)
    by (simp only: in_eu_iff [OF assms(1)]) auto
  show ?thesis
    using assms(1,2) st pos loop by (simp add: nandErase_def page_le [OF assms(1)] Let_def)
qed

section \<open>The code of a page\<close>

lemma setECC_fold_other:
  "\<not> (2057 \<le> i \<and> i < 2057 + 3 * n) \<Longrightarrow> fold setECC_chunk [0..<n] b i = b i"
  by (induction n) (auto simp: setECC_chunk_def Let_def split: prod.splits)

lemma chunk_fold_setECC:
  "k < 8 \<Longrightarrow> yaffs_ECCCalculate (chunk (fold setECC_chunk [0..<n] b) k) = yaffs_ECCCalculate (chunk b k)"
  by (rule ECCCalculate_local) (simp add: chunk_def setECC_fold_other)

lemma stored_setECC_chunk: "stored_ecc (setECC_chunk n b) n = yaffs_ECCCalculate (chunk b n)"
  by (simp add: setECC_chunk_def stored_ecc_def Let_def split: prod.splits)

lemma stored_fold_setECC:
  "n \<le> 8 \<Longrightarrow> k < n \<Longrightarrow> stored_ecc (fold setECC_chunk [0..<n] b) k = yaffs_ECCCalculate (chunk b k)"
proof (induction n)
  case (Suc n)
  let ?b = "fold setECC_chunk [0..<n] b"
  have c: "yaffs_ECCCalculate (chunk ?b n) = yaffs_ECCCalculate (chunk b n)"
    using Suc.prems by (intro chunk_fold_setECC) simp
  show ?case
  proof (cases "k = n")
    case True
    then show ?thesis
      using c by (simp add: stored_setECC_chunk)
  next
    case False
    then have "k < n" using Suc.prems by simp
    then have "stored_ecc (setECC_chunk n ?b) k = stored_ecc ?b k"
      by (auto simp: setECC_chunk_def stored_ecc_def Let_def split: prod.splits)
    with Suc \<open>k < n\<close> show ?thesis by simp
  qed
qed simp

lemma setECC_other [simp]: "\<not> (2057 \<le> i \<and> i < 2081) \<Longrightarrow> setECC b i = b i"
  using setECC_fold_other [of i 8 b] by (simp add: setECC_def)

lemma stored_setECC: "k < 8 \<Longrightarrow> stored_ecc (setECC b) k = yaffs_ECCCalculate (chunk (setECC b) k)"
  by (simp add: setECC_def stored_fold_setECC chunk_fold_setECC)

lemma buf_copy_chunk [simp]: "buf_copy b (i * 256) (chunk b i) 0 256 = b"
  by (auto simp: buf_copy_def chunk_def fun_eq_iff)

lemma verifyECC_bytes_same: "verifyECC_bytes js e e d = (0, d)"
  by (induction js) auto

lemma verifyECC_bytes_one_flip:
  assumes "ecc.one_flip d d' c"
  obtains d'' where "verifyECC_bytes [0, 1, 2] (yaffs_ECCCalculate d') c d' = (0, d'')"
    "\<And>i. i < 256 \<Longrightarrow> d'' i = d i"
  using assms
proof (cases rule: ecc.one_flip_cases)
  case same
  then show ?thesis by (auto simp: verifyECC_bytes_same intro: that)
next
  case (code j)
  obtain e0 e1 e2 where e: "yaffs_ECCCalculate d' = (e0, e1, e2)" by (cases "yaffs_ECCCalculate d'") auto
  have "verifyECC_bytes [0, 1, 2] (e0, e1, e2) (ecc_flip j (e0, e1, e2)) d' = (0, d')"
    using code e by (simp add: ecc_flip_def)
  with code e show ?thesis by (auto intro: that)
next
  case (data k n)
  obtain e0 e1 e2 where e: "yaffs_ECCCalculate d' = (e0, e1, e2)" by (cases "yaffs_ECCCalculate d'") auto
  obtain c0 c1 c2 where c: "c = (c0, c1, c2)" by (cases c) auto
  have "c0 \<noteq> e0" "c1 \<noteq> e1" "c2 \<noteq> e2"
    using ecc_flip_all_bytes [of k n d c0 c1 c2 e0 e1 e2] data e c by auto
  then have "verifyECC_bytes [0, 1, 2] (e0, e1, e2) (c0, c1, c2) d' = (0, d'(n := d' n XOR 2 ^ k))"
    using data(5) e c by (simp add: xor.assoc)
  with data e c show ?thesis by (auto intro: that)
qed

lemma verifyECC_chunks_repair:
  assumes "\<And>i. i \<in> set is \<Longrightarrow> i < 8 \<and> ecc.one_flip (chunk b i) (chunk b' i) (stored_ecc b' i)" "distinct is"
  shows "verifyECC_chunks is b' = (0, \<lambda>j. if j div 256 \<in> set is then b j else b' j)"
  using assms
proof (induction "is" arbitrary: b')
  case (Cons i "is")
  then obtain d'' where v: "verifyECC_bytes [0, 1, 2] (yaffs_ECCCalculate (chunk b' i)) (stored_ecc b' i) (chunk b' i) = (0, d'')"
    and d'': "\<And>n. n < 256 \<Longrightarrow> d'' n = chunk b i n"
    using verifyECC_bytes_one_flip [of "chunk b i" "chunk b' i" "stored_ecc b' i"] by auto
  define b1 where "b1 = buf_copy b' (i * 256) d'' 0 256"
  have b1: "b1 j = (if j div 256 = i then b j else b' j)" for j
  proof -
    have "(i * 256 \<le> j \<and> j < i * 256 + 256) = (j div 256 = i)" by (auto simp: div_nat_eqI)
    then show ?thesis by (auto simp: b1_def buf_copy_def d'' chunk_def)
  qed
  have "verifyECC_chunks is b1 = (0, \<lambda>j. if j div 256 \<in> set is then b j else b1 j)"
  proof (rule Cons.IH)
    fix k
    assume k: "k \<in> set is"
    then have ki: "k \<noteq> i" "k < 8" "i < 8" using Cons.prems by auto
    have st: "stored_ecc b1 k = stored_ecc b' k"
      using ki by (auto simp: stored_ecc_def b1)
    have ch: "chunk b1 k n = chunk b' k n" if "n < 256" for n
      using ki that by (simp add: chunk_def b1)
    show "k < 8 \<and> ecc.one_flip (chunk b k) (chunk b1 k) (stored_ecc b1 k)"
      using Cons.prems(1) [of k] k st ch by (simp add: ecc.one_flip_def)
  qed (use Cons.prems in simp)
  then show ?case
    using v by (auto simp: Let_def b1_def [symmetric] b1 fun_eq_iff)
qed auto


lemma div_256_less_8: "j div 256 \<in> set [0..<8] \<longleftrightarrow> j < 2048" for j :: nat
  by (auto simp: div_less_iff_less_mult)

lemma verifyECC_repair:
  assumes "\<And>k. k < 8 \<Longrightarrow> ecc.one_flip (chunk b k) (chunk b' k) (stored_ecc b' k)"
  shows "verifyECC b' = (0, \<lambda>j. if j < 2048 then b j else b' j)"
proof -
  have "verifyECC_chunks [0..<8] b' = (0, \<lambda>j. if j div 256 \<in> set [0..<8] then b j else b' j)"
    by (rule verifyECC_chunks_repair) (use assms in auto)
  then show ?thesis unfolding verifyECC_def div_256_less_8 .
qed

lemma verifyECC_clean:
  assumes "\<And>k. k < 8 \<Longrightarrow> stored_ecc b k = yaffs_ECCCalculate (chunk b k)"
  shows "verifyECC b = (0, b)"
proof -
  have "verifyECC b = (0, \<lambda>j. if j < 2048 then b j else b j)"
    by (rule verifyECC_repair) (simp add: ecc.one_flip_def assms)
  then show ?thesis by simp
qed

text \<open>The code of an erased page: 256 bytes \<open>0xff\<close> have the code \<open>0xff, 0xff, 0xff\<close>.\<close>

lemma ECCCalculate_ff: "yaffs_ECCCalculate (\<lambda>_. 0xff) = (0xff, 0xff, 0xff)"
  by code_simp

lemma verifyECC_erased:
  assumes "\<And>i. i < NAND_TOTAL_SIZE \<Longrightarrow> b i = 0xff"
  shows "verifyECC b = (0, b)"
proof (rule verifyECC_clean)
  fix k :: nat
  assume k: "k < 8"
  have "yaffs_ECCCalculate (chunk b k) = yaffs_ECCCalculate (\<lambda>_. 0xff)"
    by (rule ECCCalculate_local) (use k assms in \<open>simp add: chunk_def\<close>)
  then show "stored_ecc b k = yaffs_ECCCalculate (chunk b k)"
    unfolding ECCCalculate_ff using k assms by (simp add: stored_ecc_def)
qed

section \<open>Program and read back\<close>

text \<open>
  What a page holds for its readers: the data and the stored code agree.  Reading such a page
  returns it byte for byte.
\<close>

definition page_sound :: "buf \<Rightarrow> bool" where
  "page_sound b = (\<forall>k<8. stored_ecc b k = yaffs_ECCCalculate (chunk b k))"

lemma page_sound_cong:
  assumes "\<And>i. i < 2081 \<Longrightarrow> b i = b' i"
  shows "page_sound b = page_sound b'"
proof -
  have "yaffs_ECCCalculate (chunk b k) = yaffs_ECCCalculate (chunk b' k)" if "k < 8" for k
    by (rule ECCCalculate_local) (use that assms in \<open>simp add: chunk_def\<close>)
  then show ?thesis using assms by (auto simp: page_sound_def stored_ecc_def)
qed

lemma page_sound_setECC: "page_sound (setECC b)"
  by (simp add: page_sound_def stored_setECC)

lemma nandReadPageTotal_sound:
  assumes "p < NAND_PAGE_COUNT" "fps s" "\<not> rd_fail s p" "page_sound (cells s p)"
  shows "nandReadPageTotal b p s = Some (0, buf_copy b 0 (cells s p) 0 NAND_TOTAL_SIZE)"
proof -
  have "page_sound (buf_copy b 0 (cells s p) 0 NAND_TOTAL_SIZE)"
    using assms(4) by (subst page_sound_cong [of _ "cells s p"]) simp_all
  then have "verifyECC (buf_copy b 0 (cells s p) 0 NAND_TOTAL_SIZE) = (0, buf_copy b 0 (cells s p) 0 NAND_TOTAL_SIZE)"
    by (intro verifyECC_clean) (simp add: page_sound_def)
  with assms show ?thesis by (simp add: nandReadPageTotal_simp)
qed

section \<open>Properties\<close>

text \<open>A chip just initialised, for the witnesses.\<close>

definition blank_chip :: nand where
  "blank_chip = \<lparr>cells = \<lambda>_ _. 0xff, main_area_writes = \<lambda>_. 0, spare_writes = \<lambda>_. 0, fps = True,
     erase_buf = \<lambda>_. 0xff, rd_fail = \<lambda>_. False, wr_fail = \<lambda>_. False, junk = \<lambda>_. 0\<rparr>"

lemma blank_chip_sel [simp]:
  "cells blank_chip = (\<lambda>_ _. 0xff)" "main_area_writes blank_chip = (\<lambda>_. 0)" "spare_writes blank_chip = (\<lambda>_. 0)"
  "fps blank_chip" "erase_buf blank_chip = (\<lambda>_. 0xff)" "rd_fail blank_chip = (\<lambda>_. False)"
  "wr_fail blank_chip = (\<lambda>_. False)" "junk blank_chip = (\<lambda>_. 0)"
  by (simp_all add: blank_chip_def)

text \<open>
  C21: a page read back with at most one flipped bit in each of its eight 256-byte chunks (in the
  chunk's data or in its stored code) passes the check, and the main area delivered to the reader
  is the one that was written.  The spare area is delivered as read.
\<close>

theorem verifyECC_repairs_page:
  assumes "\<And>k. k < 8 \<Longrightarrow> ecc.one_flip (chunk written k) (chunk b k) (stored_ecc b k)"
  shows "verifyECC b = (0, \<lambda>i. if i < 2048 then written i else b i)"
  using assms by (rule verifyECC_repair)

theorem verifyECC_repairs_page_witness:
  "verifyECC ((\<lambda>_. 0xff)(700 := 0xff XOR 2 ^ 5)) =
     (0, \<lambda>i. if i < 2048 then 0xff else ((\<lambda>_. 0xff)(700 := 0xff XOR 2 ^ 5)) i)"
proof (rule verifyECC_repairs_page)
  let ?b = "(\<lambda>_. 0xff)(700 := 0xff XOR 2 ^ 5) :: buf"
  fix k :: nat
  assume k: "k < 8"
  have st: "stored_ecc ?b k = yaffs_ECCCalculate (chunk (\<lambda>_. 0xff) k)"
    by (simp add: stored_ecc_def chunk_def ECCCalculate_ff)
  show "ecc.one_flip (chunk (\<lambda>i. 0xff) k) (chunk ?b k) (stored_ecc ?b k)"
  proof (cases "k = 2")
    case True
    have "chunk ?b 2 i = ((chunk (\<lambda>i. 0xff) 2)(188 := chunk (\<lambda>i. 0xff) 2 188 XOR 2 ^ 5)) i" for i
      by (auto simp: chunk_def)
    with True st show ?thesis
      unfolding ecc.one_flip_def by (intro disjI2 conjI exI [of _ "5::nat"] exI [of _ "188::nat"]) auto
  next
    case False
    have "chunk ?b k i = chunk (\<lambda>i. 0xff) k i" if "i < 256" for i
      using False k that by (auto simp: chunk_def)
    with st show ?thesis by (simp add: ecc.one_flip_def)
  qed
qed

text \<open>
  C28: programming a page that was not written since its erase succeeds, changes no other page, and
  reading it back gives every byte of the buffer apart from the code, which the chip computes, and
  the last byte of the spare area, which the program command leaves alone for the obsolete mark.
\<close>

theorem nandProgramPageA_read_back:
  assumes "page_ok p s" "main_area_writes s p = 0"
  shows "\<exists>b' s' r. nandProgramPageA b p 0 2111 s = Some (0, b', s') \<and>
     nandReadPageTotal c p s' = Some (0, r) \<and>
     (\<forall>i<2111. (i < 2057 \<or> 2081 \<le> i) \<longrightarrow> r i = b i) \<and> r 2111 = cells s p 2111 \<and>
     main_area_writes s' p = 1 \<and> (\<forall>q. q \<noteq> p \<longrightarrow> cells s' q = cells s q)"
proof -
  let ?s = "s\<lparr>cells := (cells s)(p := buf_copy (cells s p) 0 (setECC b) 0 2111),
      main_area_writes := (main_area_writes s)(p := 1)\<rparr>"
  have ok: "p < NAND_PAGE_COUNT" "fps s" "\<not> rd_fail s p" "\<not> wr_fail s p"
    using assms(1) by (simp_all add: page_ok_def)
  have prog: "nandProgramPageA b p 0 2111 s = Some (0, setECC b, ?s)"
    using nandProgramPageA_simp [of p s 0 2111 b] ok assms(2) by (simp add: Let_def)
  have "page_sound (cells ?s p)"
    using page_sound_setECC [of b] by (subst page_sound_cong [of _ "setECC b"]) simp_all
  then have read: "nandReadPageTotal c p ?s = Some (0, buf_copy c 0 (cells ?s p) 0 NAND_TOTAL_SIZE)"
    using ok by (intro nandReadPageTotal_sound) simp_all
  show ?thesis
    by (intro exI conjI, rule prog, rule read) auto
qed

theorem nandProgramPageA_read_back_witness:
  "\<exists>b' s' r. nandProgramPageA (\<lambda>i. of_nat i) 77 0 2111 blank_chip = Some (0, b', s') \<and>
     nandReadPageTotal (\<lambda>_. 0) 77 s' = Some (0, r) \<and>
     (\<forall>i<2111. (i < 2057 \<or> 2081 \<le> i) \<longrightarrow> r i = of_nat i) \<and> r 2111 = cells blank_chip 77 2111 \<and>
     main_area_writes s' 77 = 1 \<and> (\<forall>q. q \<noteq> 77 \<longrightarrow> cells s' q = cells blank_chip q)"
  by (rule nandProgramPageA_read_back) (simp_all add: page_ok_def)

text \<open>
  C29: erasing a good, accessible erase unit resets the 64 pages of that unit to the erase buffer,
  clears their write counts, and touches nothing else; erasing a bad unit reports success and
  changes nothing.
\<close>

theorem nandErase_erases:
  assumes "p < NAND_PAGE_COUNT" "fps s" "eu_readable p s"
    and "\<And>q. q AND NAND_EU_MASK = p AND NAND_EU_MASK \<Longrightarrow> \<not> wr_fail s q"
  shows "\<exists>s'. nandErase p s = Some (0, s') \<and>
     (\<forall>q. let hit = eu_good p s \<and> q AND NAND_EU_MASK = p AND NAND_EU_MASK in
        (\<forall>i<2112. cells s' q i = (if hit then erase_buf s i else cells s q i)) \<and>
        main_area_writes s' q = (if hit then 0 else main_area_writes s q) \<and>
        spare_writes s' q = (if hit then 0 else spare_writes s q))"
  by (intro exI conjI, rule nandErase_simp [OF assms]) (auto simp: erased_def Let_def)

theorem nandErase_erases_witness:
  "\<exists>s'. nandErase 130 blank_chip = Some (0, s') \<and>
     (\<forall>q. let hit = eu_good 130 blank_chip \<and> q AND NAND_EU_MASK = 130 AND NAND_EU_MASK in
        (\<forall>i<2112. cells s' q i = (if hit then erase_buf blank_chip i else cells blank_chip q i)) \<and>
        main_area_writes s' q = (if hit then 0 else main_area_writes blank_chip q) \<and>
        spare_writes s' q = (if hit then 0 else spare_writes blank_chip q))"
  by (rule nandErase_erases) (simp_all add: eu_readable_def)

text \<open>
  C30: marking a good erase unit bad takes effect at once: the unit's status becomes bad, and no
  erase issued to any of its pages changes the chip any more.
\<close>

theorem markEuAsBad_protects:
  assumes "p < NAND_PAGE_COUNT" "fps s" "eu_readable p s" "eu_good p s"
    and "\<not> wr_fail s (p AND NAND_EU_MASK)" "spare_writes s (p AND NAND_EU_MASK) = 0"
  shows "\<exists>s'. markEuAsBad p s = Some (1, s') \<and> nandCheckEuStatus p s' = Some 0 \<and>
     (\<forall>q. q < NAND_PAGE_COUNT \<longrightarrow> q AND NAND_EU_MASK = p AND NAND_EU_MASK \<longrightarrow> nandErase q s' = Some (0, s'))"
proof -
  let ?e = "p AND NAND_EU_MASK"
  let ?s = "s\<lparr>cells := (cells s)(?e := buf_copy (cells s ?e) 2053 (\<lambda>_. 0) 0 1),
      spare_writes := (spare_writes s)(?e := 1)\<rparr>"
  have mark: "markEuAsBad p s = Some (1, ?s)"
    using nandCheckEuStatus_good [OF assms(1-3)] nandProgramPageC_simp [of ?e s 5 1 "\<lambda>_. 0"]
      eu_le [OF assms(1)] assms
    by (simp add: markEuAsBad_def)
  have bad: "\<not> eu_good q ?s" if "q AND NAND_EU_MASK = ?e" for q
    using that by (simp add: eu_good_def)
  have st: "nandCheckEuStatus q ?s = Some 0" if "q < NAND_PAGE_COUNT" "q AND NAND_EU_MASK = ?e" for q
    using nandCheckEuStatus_good [of q ?s] bad [OF that(2)] that assms(2,3) by (simp add: eu_readable_def)
  have "nandErase q ?s = Some (0, ?s)" if "q < NAND_PAGE_COUNT" "q AND NAND_EU_MASK = ?e" for q
    using st [of ?e] eu_le [OF assms(1)] that assms(2)
    by (simp add: nandErase_def page_le Let_def)
  with mark st [of p] assms(1) show ?thesis by blast
qed

theorem markEuAsBad_protects_witness:
  "\<exists>s'. markEuAsBad 200 blank_chip = Some (1, s') \<and> nandCheckEuStatus 200 s' = Some 0 \<and>
     (\<forall>q. q < NAND_PAGE_COUNT \<longrightarrow> q AND NAND_EU_MASK = 200 AND NAND_EU_MASK \<longrightarrow> nandErase q s' = Some (0, s'))"
  by (rule markEuAsBad_protects) (simp_all add: eu_readable_def eu_good_def)

end
