(* ===== verification/Spare.thy ===== *)
theory Spare
  imports Nand
begin

text \<open>
  The flags of a page: the accessor macros of \<^verbatim>\<open>SIM/system.h\<close> and \<^verbatim>\<open>SIM/peripherals/nand.h\<close> over
  the spare area, and those of the segment header at the start of the main area.  A pointer to a
  spare area is a buffer with an offset: 0 for a separate 64-byte buffer, 2048 for the spare area
  of a page buffer.  The locale \<open>spare_field\<close> states what the users of a flag rely on: what was
  set is what is read, setting changes only the field's own bits, and reading looks at nothing else.
\<close>

unbundle bit_operations_syntax

definition GET_BYTE :: "buf \<Rightarrow> nat \<Rightarrow> nat \<Rightarrow> u32" where
  "GET_BYTE b base k = ucast (b (base + k))"

definition SET_BYTE :: "buf \<Rightarrow> nat \<Rightarrow> nat \<Rightarrow> u32 \<Rightarrow> buf" where
  "SET_BYTE b base k v = b(base + k := ucast v)"

definition GET_BIT :: "buf \<Rightarrow> nat \<Rightarrow> nat \<Rightarrow> nat \<Rightarrow> u32" where
  "GET_BIT b base n off = drop_bit (n mod 8) (ucast (b (base + (n div 8 + off)))) AND 1"

definition SET_BIT :: "buf \<Rightarrow> nat \<Rightarrow> nat \<Rightarrow> nat \<Rightarrow> u32 \<Rightarrow> buf" where
  "SET_BIT b base n off v = (let i = base + (n div 8 + off) in
     if v \<noteq> 0 then b(i := b i OR push_bit (n mod 8) 1) else b(i := b i AND NOT (push_bit (n mod 8) 1)))"

definition GET_PREV_BLOCK :: "buf \<Rightarrow> nat \<Rightarrow> u32" where
  "GET_PREV_BLOCK b base = GET_BYTE b base 0 OR push_bit 8 (GET_BYTE b base 1) OR push_bit 16 (GET_BYTE b base 2)"

definition SET_PREV_BLOCK :: "buf \<Rightarrow> nat \<Rightarrow> u32 \<Rightarrow> buf" where
  "SET_PREV_BLOCK b base v =
     SET_BYTE (SET_BYTE (SET_BYTE b base 0 v) base 1 (drop_bit 8 v)) base 2 (drop_bit 16 v)"

definition GET_COPY_BACK_FLAG :: "buf \<Rightarrow> nat \<Rightarrow> u32" where
  "GET_COPY_BACK_FLAG b base = GET_BIT b base 7 3"

definition SET_COPY_BACK_FLAG :: "buf \<Rightarrow> nat \<Rightarrow> u32 \<Rightarrow> buf" where
  "SET_COPY_BACK_FLAG b base v = SET_BIT b base 7 3 v"

definition GET_CHECKPOINT_FLAG :: "buf \<Rightarrow> nat \<Rightarrow> u32" where
  "GET_CHECKPOINT_FLAG b base = GET_BIT b base 6 4 OR push_bit 1 (GET_BIT b base 7 4)"

definition SET_CHECKPOINT_FLAG :: "buf \<Rightarrow> nat \<Rightarrow> u32 \<Rightarrow> buf" where
  "SET_CHECKPOINT_FLAG b base v = SET_BIT (SET_BIT b base 6 4 (v AND 1)) base 7 4 (v AND 2)"

definition GET_VOTS_FLAG :: "buf \<Rightarrow> nat \<Rightarrow> u32" where
  "GET_VOTS_FLAG b base = GET_BIT b base 4 4 OR push_bit 1 (GET_BIT b base 5 4)"

definition SET_VOTS_FLAG :: "buf \<Rightarrow> nat \<Rightarrow> u32 \<Rightarrow> buf" where
  "SET_VOTS_FLAG b base v = SET_BIT (SET_BIT b base 4 4 (v AND 1)) base 5 4 (v AND 2)"

definition GET_COPY_FLAG :: "buf \<Rightarrow> nat \<Rightarrow> u32" where
  "GET_COPY_FLAG b base = GET_BIT b base 3 4"

definition SET_COPY_FLAG :: "buf \<Rightarrow> nat \<Rightarrow> u32 \<Rightarrow> buf" where
  "SET_COPY_FLAG b base v = SET_BIT b base 3 4 v"

definition GET_SEG_TYPE_FLAG :: "buf \<Rightarrow> nat \<Rightarrow> u32" where
  "GET_SEG_TYPE_FLAG b base = GET_BIT b base 0 4 OR push_bit 1 (GET_BIT b base 1 4) OR push_bit 2 (GET_BIT b base 2 4)"

definition SET_SEG_TYPE_FLAG :: "buf \<Rightarrow> nat \<Rightarrow> u32 \<Rightarrow> buf" where
  "SET_SEG_TYPE_FLAG b base v =
     SET_BIT (SET_BIT (SET_BIT b base 0 4 (v AND 1)) base 1 4 (v AND 2)) base 2 4 (v AND 4)"

definition GET_BAD_EU :: "buf \<Rightarrow> nat \<Rightarrow> u32" where
  "GET_BAD_EU b base = GET_BYTE b base 5"

definition SET_BAD_EU :: "buf \<Rightarrow> nat \<Rightarrow> u32 \<Rightarrow> buf" where
  "SET_BAD_EU b base v = SET_BYTE b base 5 v"

definition GET_SLOT_EU_OFFSET :: "buf \<Rightarrow> nat \<Rightarrow> u32" where
  "GET_SLOT_EU_OFFSET b base = GET_BYTE b base 6 OR push_bit 8 (GET_BYTE b base 7) OR push_bit 16 (GET_BYTE b base 8)"

definition SET_SLOT_EU_OFFSET :: "buf \<Rightarrow> nat \<Rightarrow> u32 \<Rightarrow> buf" where
  "SET_SLOT_EU_OFFSET b base v =
     SET_BYTE (SET_BYTE (SET_BYTE b base 6 v) base 7 (drop_bit 8 v)) base 8 (drop_bit 16 v)"

definition GET_OBS_FLAG :: "buf \<Rightarrow> nat \<Rightarrow> u32" where
  "GET_OBS_FLAG b base = GET_BIT b base 7 OBS_LOCATION"

definition SET_OBS_FLAG :: "buf \<Rightarrow> nat \<Rightarrow> u32 \<Rightarrow> buf" where
  "SET_OBS_FLAG b base v = SET_BIT b base 7 OBS_LOCATION v"

text \<open>
  The segment header: a 64-bit sequence number at offset 0 and a 16-bit segment id at offset 8,
  little endian.  \<open>le_bytes n b i\<close> is the word of the \<open>n\<close> bytes from \<open>i\<close> on.
\<close>

primrec le_bytes :: "nat \<Rightarrow> buf \<Rightarrow> nat \<Rightarrow> 'a::len word" where
  "le_bytes 0 b i = 0"
| "le_bytes (Suc n) b i = le_bytes n b i OR push_bit (8 * n) (ucast (b (i + n)))"

definition GET_HEADER_SEQUENCE_NUM :: "buf \<Rightarrow> u64" where
  "GET_HEADER_SEQUENCE_NUM b = le_bytes 8 b 0"

definition GET_HEADER_SEGMENT_ID :: "buf \<Rightarrow> u16" where
  "GET_HEADER_SEGMENT_ID b = le_bytes 2 b 8"

definition SET_HEADER_SEQUENCE_NUM :: "buf \<Rightarrow> u64 \<Rightarrow> buf" where
  "SET_HEADER_SEQUENCE_NUM b v = (\<lambda>i. if i < 8 then ucast (drop_bit (8 * i) v) else b i)"

definition SET_HEADER_SEGMENT_ID :: "buf \<Rightarrow> u16 \<Rightarrow> buf" where
  "SET_HEADER_SEGMENT_ID b v = (\<lambda>i. if 8 \<le> i \<and> i < 10 then ucast (drop_bit (8 * (i - 8)) v) else b i)"

section \<open>The interface of a flag\<close>

locale spare_field =
  fixes get :: "buf \<Rightarrow> nat \<Rightarrow> u32" and set_to :: "buf \<Rightarrow> nat \<Rightarrow> u32 \<Rightarrow> buf"
    and owns :: "nat \<Rightarrow> nat \<Rightarrow> bool" and valid :: "u32 \<Rightarrow> bool"
  assumes get_set: "valid v \<Longrightarrow> get (set_to b base v) base = v"
    and set_frame: "\<not> (base \<le> i \<and> owns (i - base) j) \<Longrightarrow> bit (set_to b base v i) j = bit (b i) j"
    and get_local: "(\<And>i j. owns i j \<Longrightarrow> bit (b (base + i)) j = bit (b' (base' + i)) j) \<Longrightarrow> get b base = get b' base'"
begin

lemma set_byte_frame: "(\<And>j. \<not> (base \<le> i \<and> owns (i - base) j)) \<Longrightarrow> set_to b base v i = b i"
  by (rule bit_word_eqI) (simp add: set_frame)

lemma get_same_bytes: "(\<And>i j. owns i j \<Longrightarrow> b (base + i) = b' (base' + i)) \<Longrightarrow> get b base = get b' base'"
  by (rule get_local) simp

lemma get_set_other:
  assumes "\<And>i j. owns i j \<Longrightarrow> bit (b' (base + i)) j = bit (set_to b base v (base + i)) j" "valid v"
  shows "get b' base = v"
  using get_local [of b' base "set_to b base v" base] get_set [of v b base] assms by simp

end

text \<open>Two flags that share no bit are independent.\<close>

lemma fields_independent:
  assumes "spare_field g s f v" "spare_field g' s' f' v'" "\<And>i j. f i j \<Longrightarrow> \<not> f' i j"
  shows "g (s' b base x) base = g b base"
  by (rule spare_field.get_local [OF assms(1)])
    (use assms(3) in \<open>auto intro!: spare_field.set_frame [OF assms(2)]\<close>)

section \<open>Bits\<close>

lemma GET_BIT_bit: "GET_BIT b base n off = (if bit (b (base + (n div 8 + off))) (n mod 8) then 1 else 0)"
proof (rule bit_word_eqI)
  fix j
  assume "j < LENGTH(32)"
  show "bit (GET_BIT b base n off) j = bit (if bit (b (base + (n div 8 + off))) (n mod 8) then 1 else 0 :: u32) j"
    by (cases "j = 0") (auto simp: GET_BIT_def bit_and_iff bit_drop_bit_eq bit_1_iff bit_unsigned_iff simp del: bit_0 dest: bit_imp_le_length)
qed

lemma SET_BIT_bit:
  "bit (SET_BIT b base n off v i) j =
     (if i = base + (n div 8 + off) \<and> j = n mod 8 then v \<noteq> 0 else bit (b i) j)"
proof -
  have "n mod 8 < 8" by simp
  then have p: "bit (push_bit (n mod 8) (1::u8)) k = (k = n mod 8)" for k
    by (auto simp: bit_push_bit_iff bit_1_iff possible_bit_def simp del: push_bit_of_1)
  have lt: "bit (b q) k \<Longrightarrow> k < 8" for q k using bit_imp_le_length [of "b q" k] by simp
  show ?thesis
    by (cases "v = 0") (auto simp: SET_BIT_def Let_def bit_or_iff bit_and_iff bit_not_iff p possible_bit_def
      simp del: push_bit_of_1 dest: lt)
qed

lemma SET_BIT_other: "i \<noteq> base + (n div 8 + off) \<Longrightarrow> SET_BIT b base n off v i = b i"
  by (simp add: SET_BIT_def Let_def)

lemma bits_of_small:
  "v < 2 \<Longrightarrow> v = 0 \<or> v = (1::u32)" "v < 4 \<Longrightarrow> v = 0 \<or> v = 1 \<or> v = 2 \<or> v = (3::u32)"
  "v < 8 \<Longrightarrow> v = 0 \<or> v = 1 \<or> v = 2 \<or> v = 3 \<or> v = 4 \<or> v = 5 \<or> v = 6 \<or> v = (7::u32)"
proof -
  show "v < 2 \<Longrightarrow> v = 0 \<or> v = (1::u32)" by (simp add: unat_arith_simps) linarith
  show "v < 4 \<Longrightarrow> v = 0 \<or> v = 1 \<or> v = 2 \<or> v = (3::u32)" by (simp add: unat_arith_simps) linarith
  show "v < 8 \<Longrightarrow> v = 0 \<or> v = 1 \<or> v = 2 \<or> v = 3 \<or> v = 4 \<or> v = 5 \<or> v = 6 \<or> v = (7::u32)"
    by (simp add: unat_arith_simps) linarith
qed

lemma bit_le_bytes:
  "bit (le_bytes n b i :: 'a::len word) j = (j < LENGTH('a) \<and> j < 8 * n \<and> bit (b (i + j div 8)) (j mod 8))"
proof (induction n)
  case (Suc n)
  show ?case
  proof (cases "8 * n \<le> j \<and> j < 8 * Suc n \<and> j < LENGTH('a)")
    case True
    then have "j div 8 = n" by (simp add: div_nat_eqI)
    moreover from this have "j mod 8 = j - 8 * n" by (simp add: minus_div_mult_eq_mod [symmetric])
    ultimately show ?thesis
      using Suc True by (auto simp: bit_or_iff bit_push_bit_iff bit_unsigned_iff possible_bit_def)
  next
    case False
    have "bit (b (i + n)) (j - 8 * n) \<Longrightarrow> j - 8 * n < 8" using bit_imp_le_length [of "b (i + n)" "j - 8 * n"] by simp
    then have "\<not> bit (push_bit (8 * n) (ucast (b (i + n))) :: 'a word) j"
      using False by (auto simp: bit_push_bit_iff bit_unsigned_iff possible_bit_def)
    then show ?thesis using Suc False by (auto simp: bit_or_iff)
  qed
qed simp


section \<open>The fields of the spare area\<close>

text \<open>The bits each field owns, by byte of the spare area.\<close>

definition in_bits :: "nat \<Rightarrow> nat \<Rightarrow> nat \<Rightarrow> nat \<Rightarrow> nat \<Rightarrow> bool" where
  "in_bits k lo n i j = (i = k \<and> lo \<le> j \<and> j < lo + n)"

definition in_bytes :: "nat \<Rightarrow> nat \<Rightarrow> nat \<Rightarrow> nat \<Rightarrow> bool" where
  "in_bytes k n i j = (k \<le> i \<and> i < k + n)"

lemmas field_defs = in_bits_def in_bytes_def

lemma one_bit_field:
  assumes "n < 8"
  shows "spare_field (\<lambda>b base. GET_BIT b base n k) (\<lambda>b base. SET_BIT b base n k) (in_bits k n 1) (\<lambda>v. v < 2)"
proof
  fix v :: u32 and b :: buf and base :: nat
  assume "v < 2"
  then have "v = 0 \<or> v = 1" by (rule bits_of_small)
  then show "GET_BIT (SET_BIT b base n k v) base n k = v"
    by (auto simp: GET_BIT_bit SET_BIT_bit)
next
  fix base i j v and b :: buf
  assume "\<not> (base \<le> i \<and> in_bits k n 1 (i - base) j)"
  then show "bit (SET_BIT b base n k v i) j = bit (b i) j"
    using assms by (auto simp: SET_BIT_bit in_bits_def)
next
  fix b b' :: buf and base base'
  assume "\<And>i j. in_bits k n 1 i j \<Longrightarrow> bit (b (base + i)) j = bit (b' (base' + i)) j"
  from this [of k n] show "GET_BIT b base n k = GET_BIT b' base' n k"
    using assms by (simp add: GET_BIT_bit in_bits_def)
qed

lemma three_byte_get:
  "GET_BYTE b base k OR push_bit 8 (GET_BYTE b base (k + 1)) OR push_bit 16 (GET_BYTE b base (k + 2)) = le_bytes 3 b (base + k)"
  by (simp add: GET_BYTE_def numeral_3_eq_3 or.assoc)

lemma three_byte_field:
  "spare_field (\<lambda>b base. le_bytes 3 b (base + k))
     (\<lambda>b base v. SET_BYTE (SET_BYTE (SET_BYTE b base k v) base (k + 1) (drop_bit 8 v)) base (k + 2) (drop_bit 16 v))
     (in_bytes k 3) (\<lambda>v. v < 0x1000000)"
proof
  fix v :: u32 and b :: buf and base :: nat
  assume v: "v < 0x1000000"
  have high: "\<not> bit v j" if "24 \<le> j" for j
  proof -
    have "unat v < 2 ^ 24" using v by (simp add: word_less_nat_alt)
    then have "v = take_bit 24 v"
      by (simp add: word_unat_eq_iff unsigned_take_bit_eq take_bit_nat_eq_self)
    then show ?thesis using that by (metis bit_take_bit_iff leD)
  qed
  show "le_bytes 3 (SET_BYTE (SET_BYTE (SET_BYTE b base k v) base (k + 1) (drop_bit 8 v)) base (k + 2) (drop_bit 16 v)) (base + k) = v"
  proof (rule bit_word_eqI)
    fix j
    assume "j < LENGTH(32)"
    have d: "j div 8 = 1 \<and> j mod 8 = j - 8" if "8 \<le> j" "j < 16" using that by presburger
    have d': "j div 8 = 2 \<and> j mod 8 = j - 16" if "16 \<le> j" "j < 24" using that by presburger
    consider "j < 8" | "8 \<le> j" "j < 16" "j div 8 = 1" "j mod 8 = j - 8"
      | "16 \<le> j" "j < 24" "j div 8 = 2" "j mod 8 = j - 16" | "24 \<le> j"
      using d d' by linarith
    then show "bit (le_bytes 3 (SET_BYTE (SET_BYTE (SET_BYTE b base k v) base (k + 1) (drop_bit 8 v)) base (k + 2) (drop_bit 16 v)) (base + k) :: u32) j = bit v j"
      using \<open>j < LENGTH(32)\<close>
      by cases (auto simp: bit_le_bytes SET_BYTE_def bit_unsigned_iff bit_drop_bit_eq possible_bit_def high)
  qed
next
  fix base i j v and b :: buf
  assume "\<not> (base \<le> i \<and> in_bytes k 3 (i - base) j)"
  then show "bit (SET_BYTE (SET_BYTE (SET_BYTE b base k v) base (k + 1) (drop_bit 8 v)) base (k + 2) (drop_bit 16 v) i) j = bit (b i) j"
    by (auto simp: SET_BYTE_def in_bytes_def)
next
  fix b b' :: buf and base base'
  assume eq: "\<And>i j. in_bytes k 3 i j \<Longrightarrow> bit (b (base + i)) j = bit (b' (base' + i)) j"
  show "le_bytes 3 b (base + k) = (le_bytes 3 b' (base' + k) :: u32)"
  proof (rule bit_word_eqI)
    fix j
    assume "j < LENGTH(32)"
    have "bit (b (base + k + j div 8)) (j mod 8) = bit (b' (base' + k + j div 8)) (j mod 8)" if "j < 24"
      using eq [of "k + j div 8" "j mod 8"] that by (simp add: in_bytes_def add.assoc)
    then show "bit (le_bytes 3 b (base + k) :: u32) j = bit (le_bytes 3 b' (base' + k) :: u32) j"
      by (auto simp: bit_le_bytes)
  qed
qed


lemma two_bit_field:
  assumes "n < 7"
  shows "spare_field (\<lambda>b base. GET_BIT b base n k OR push_bit 1 (GET_BIT b base (n + 1) k))
     (\<lambda>b base v. SET_BIT (SET_BIT b base n k (v AND 1)) base (n + 1) k (v AND 2)) (in_bits k n 2) (\<lambda>v. v < 4)"
proof
  fix v :: u32 and b :: buf and base :: nat
  assume "v < 4"
  then have "v = 0 \<or> v = 1 \<or> v = 2 \<or> v = 3" by (rule bits_of_small)
  then show "GET_BIT (SET_BIT (SET_BIT b base n k (v AND 1)) base (n + 1) k (v AND 2)) base n k OR
      push_bit 1 (GET_BIT (SET_BIT (SET_BIT b base n k (v AND 1)) base (n + 1) k (v AND 2)) base (n + 1) k) = v"
    using assms by (auto simp: GET_BIT_bit SET_BIT_bit)
next
  fix base i j v and b :: buf
  assume "\<not> (base \<le> i \<and> in_bits k n 2 (i - base) j)"
  then show "bit (SET_BIT (SET_BIT b base n k (v AND 1)) base (n + 1) k (v AND 2) i) j = bit (b i) j"
    using assms by (auto simp: SET_BIT_bit in_bits_def)
next
  fix b b' :: buf and base base'
  assume "\<And>i j. in_bits k n 2 i j \<Longrightarrow> bit (b (base + i)) j = bit (b' (base' + i)) j"
  from this [of k n] this [of k "n + 1"]
  show "GET_BIT b base n k OR push_bit 1 (GET_BIT b base (n + 1) k) =
      GET_BIT b' base' n k OR push_bit 1 (GET_BIT b' base' (n + 1) k)"
    using assms by (simp add: GET_BIT_bit in_bits_def)
qed

lemma three_bit_field:
  assumes "n < 6"
  shows "spare_field (\<lambda>b base. GET_BIT b base n k OR push_bit 1 (GET_BIT b base (n + 1) k) OR push_bit 2 (GET_BIT b base (n + 2) k))
     (\<lambda>b base v. SET_BIT (SET_BIT (SET_BIT b base n k (v AND 1)) base (n + 1) k (v AND 2)) base (n + 2) k (v AND 4))
     (in_bits k n 3) (\<lambda>v. v < 8)"
proof
  fix v :: u32 and b :: buf and base :: nat
  assume "v < 8"
  then have "v = 0 \<or> v = 1 \<or> v = 2 \<or> v = 3 \<or> v = 4 \<or> v = 5 \<or> v = 6 \<or> v = 7" by (rule bits_of_small)
  then show "GET_BIT (SET_BIT (SET_BIT (SET_BIT b base n k (v AND 1)) base (n + 1) k (v AND 2)) base (n + 2) k (v AND 4)) base n k OR
      push_bit 1 (GET_BIT (SET_BIT (SET_BIT (SET_BIT b base n k (v AND 1)) base (n + 1) k (v AND 2)) base (n + 2) k (v AND 4)) base (n + 1) k) OR
      push_bit 2 (GET_BIT (SET_BIT (SET_BIT (SET_BIT b base n k (v AND 1)) base (n + 1) k (v AND 2)) base (n + 2) k (v AND 4)) base (n + 2) k) = v"
    using assms by (auto simp: GET_BIT_bit SET_BIT_bit)
next
  fix base i j v and b :: buf
  assume "\<not> (base \<le> i \<and> in_bits k n 3 (i - base) j)"
  then show "bit (SET_BIT (SET_BIT (SET_BIT b base n k (v AND 1)) base (n + 1) k (v AND 2)) base (n + 2) k (v AND 4) i) j = bit (b i) j"
    using assms by (auto simp: SET_BIT_bit in_bits_def)
next
  fix b b' :: buf and base base'
  assume "\<And>i j. in_bits k n 3 i j \<Longrightarrow> bit (b (base + i)) j = bit (b' (base' + i)) j"
  from this [of k n] this [of k "n + 1"] this [of k "n + 2"]
  show "GET_BIT b base n k OR push_bit 1 (GET_BIT b base (n + 1) k) OR push_bit 2 (GET_BIT b base (n + 2) k) =
      GET_BIT b' base' n k OR push_bit 1 (GET_BIT b' base' (n + 1) k) OR push_bit 2 (GET_BIT b' base' (n + 2) k)"
    using assms by (simp add: GET_BIT_bit in_bits_def)
qed

text \<open>Every accessor pair of the spare area is an instance of the interface.\<close>

interpretation prev_block: spare_field GET_PREV_BLOCK SET_PREV_BLOCK "in_bytes 0 3" "\<lambda>v. v < 0x1000000"
  using three_byte_field [of 0] three_byte_get [of _ _ 0]
  by (simp add: numeral_2_eq_2 GET_PREV_BLOCK_def [abs_def] SET_PREV_BLOCK_def [abs_def])

interpretation slot_eu: spare_field GET_SLOT_EU_OFFSET SET_SLOT_EU_OFFSET "in_bytes 6 3" "\<lambda>v. v < 0x1000000"
  using three_byte_field [of 6] three_byte_get [of _ _ 6]
  by (simp add: GET_SLOT_EU_OFFSET_def [abs_def] SET_SLOT_EU_OFFSET_def [abs_def])

interpretation copy_back: spare_field GET_COPY_BACK_FLAG SET_COPY_BACK_FLAG "in_bits 3 7 1" "\<lambda>v. v < 2"
  using one_bit_field [of 7 3] by (simp add: GET_COPY_BACK_FLAG_def [abs_def] SET_COPY_BACK_FLAG_def [abs_def])

interpretation cp_flag: spare_field GET_CHECKPOINT_FLAG SET_CHECKPOINT_FLAG "in_bits 4 6 2" "\<lambda>v. v < 4"
  using two_bit_field [of 6 4] by (simp add: GET_CHECKPOINT_FLAG_def [abs_def] SET_CHECKPOINT_FLAG_def [abs_def])

interpretation vots_flag: spare_field GET_VOTS_FLAG SET_VOTS_FLAG "in_bits 4 4 2" "\<lambda>v. v < 4"
  using two_bit_field [of 4 4] by (simp add: GET_VOTS_FLAG_def [abs_def] SET_VOTS_FLAG_def [abs_def])

interpretation copy_flag: spare_field GET_COPY_FLAG SET_COPY_FLAG "in_bits 4 3 1" "\<lambda>v. v < 2"
  using one_bit_field [of 3 4] by (simp add: GET_COPY_FLAG_def [abs_def] SET_COPY_FLAG_def [abs_def])

interpretation seg_type: spare_field GET_SEG_TYPE_FLAG SET_SEG_TYPE_FLAG "in_bits 4 0 3" "\<lambda>v. v < 8"
  using three_bit_field [of 0 4] by (simp add: numeral_2_eq_2 GET_SEG_TYPE_FLAG_def [abs_def] SET_SEG_TYPE_FLAG_def [abs_def])

interpretation obs_flag: spare_field GET_OBS_FLAG SET_OBS_FLAG "in_bits 63 7 1" "\<lambda>v. v < 2"
  using one_bit_field [of 7 63] by (simp add: GET_OBS_FLAG_def [abs_def] SET_OBS_FLAG_def [abs_def])

interpretation bad_eu: spare_field GET_BAD_EU SET_BAD_EU "in_bytes 5 1" "\<lambda>v. v < 0x100"
proof
  fix v :: u32 and b :: buf and base :: nat
  assume "v < 0x100"
  then have "unat v < 256" by (simp add: word_less_nat_alt)
  then show "GET_BAD_EU (SET_BAD_EU b base v) base = v"
    by (simp add: GET_BAD_EU_def SET_BAD_EU_def GET_BYTE_def SET_BYTE_def word_unat_eq_iff unsigned_ucast_eq unsigned_take_bit_eq take_bit_nat_eq_self)
next
  fix base i j v and b :: buf
  assume "\<not> (base \<le> i \<and> in_bytes 5 1 (i - base) j)"
  then show "bit (SET_BAD_EU b base v i) j = bit (b i) j"
    by (auto simp: SET_BAD_EU_def SET_BYTE_def in_bytes_def)
next
  fix b b' :: buf and base base'
  assume "\<And>i j. in_bytes 5 1 i j \<Longrightarrow> bit (b (base + i)) j = bit (b' (base' + i)) j"
  then have "b (base + 5) = b' (base' + 5)" by (intro bit_word_eqI) (simp add: in_bytes_def)
  then show "GET_BAD_EU b base = GET_BAD_EU b' base'" by (simp add: GET_BAD_EU_def GET_BYTE_def)
qed

text \<open>No two fields share a bit, so each field survives every write to another one.\<close>

lemma SET_PREV_BLOCK_frame [simp]:
  "GET_SLOT_EU_OFFSET (SET_PREV_BLOCK b base v) base = GET_SLOT_EU_OFFSET b base"
  "GET_COPY_BACK_FLAG (SET_PREV_BLOCK b base v) base = GET_COPY_BACK_FLAG b base"
  "GET_CHECKPOINT_FLAG (SET_PREV_BLOCK b base v) base = GET_CHECKPOINT_FLAG b base"
  "GET_VOTS_FLAG (SET_PREV_BLOCK b base v) base = GET_VOTS_FLAG b base"
  "GET_COPY_FLAG (SET_PREV_BLOCK b base v) base = GET_COPY_FLAG b base"
  "GET_SEG_TYPE_FLAG (SET_PREV_BLOCK b base v) base = GET_SEG_TYPE_FLAG b base"
  "GET_OBS_FLAG (SET_PREV_BLOCK b base v) base = GET_OBS_FLAG b base"
  "GET_BAD_EU (SET_PREV_BLOCK b base v) base = GET_BAD_EU b base"
  by (rule fields_independent [OF _ prev_block.spare_field_axioms], unfold_locales, auto simp: field_defs)+

lemma SET_SLOT_EU_OFFSET_frame [simp]:
  "GET_PREV_BLOCK (SET_SLOT_EU_OFFSET b base v) base = GET_PREV_BLOCK b base"
  "GET_COPY_BACK_FLAG (SET_SLOT_EU_OFFSET b base v) base = GET_COPY_BACK_FLAG b base"
  "GET_CHECKPOINT_FLAG (SET_SLOT_EU_OFFSET b base v) base = GET_CHECKPOINT_FLAG b base"
  "GET_VOTS_FLAG (SET_SLOT_EU_OFFSET b base v) base = GET_VOTS_FLAG b base"
  "GET_COPY_FLAG (SET_SLOT_EU_OFFSET b base v) base = GET_COPY_FLAG b base"
  "GET_SEG_TYPE_FLAG (SET_SLOT_EU_OFFSET b base v) base = GET_SEG_TYPE_FLAG b base"
  "GET_OBS_FLAG (SET_SLOT_EU_OFFSET b base v) base = GET_OBS_FLAG b base"
  "GET_BAD_EU (SET_SLOT_EU_OFFSET b base v) base = GET_BAD_EU b base"
  by (rule fields_independent [OF _ slot_eu.spare_field_axioms], unfold_locales, auto simp: field_defs)+

lemma SET_COPY_BACK_FLAG_frame [simp]:
  "GET_PREV_BLOCK (SET_COPY_BACK_FLAG b base v) base = GET_PREV_BLOCK b base"
  "GET_SLOT_EU_OFFSET (SET_COPY_BACK_FLAG b base v) base = GET_SLOT_EU_OFFSET b base"
  "GET_CHECKPOINT_FLAG (SET_COPY_BACK_FLAG b base v) base = GET_CHECKPOINT_FLAG b base"
  "GET_VOTS_FLAG (SET_COPY_BACK_FLAG b base v) base = GET_VOTS_FLAG b base"
  "GET_COPY_FLAG (SET_COPY_BACK_FLAG b base v) base = GET_COPY_FLAG b base"
  "GET_SEG_TYPE_FLAG (SET_COPY_BACK_FLAG b base v) base = GET_SEG_TYPE_FLAG b base"
  "GET_OBS_FLAG (SET_COPY_BACK_FLAG b base v) base = GET_OBS_FLAG b base"
  "GET_BAD_EU (SET_COPY_BACK_FLAG b base v) base = GET_BAD_EU b base"
  by (rule fields_independent [OF _ copy_back.spare_field_axioms], unfold_locales, auto simp: field_defs)+

lemma SET_CHECKPOINT_FLAG_frame [simp]:
  "GET_PREV_BLOCK (SET_CHECKPOINT_FLAG b base v) base = GET_PREV_BLOCK b base"
  "GET_SLOT_EU_OFFSET (SET_CHECKPOINT_FLAG b base v) base = GET_SLOT_EU_OFFSET b base"
  "GET_COPY_BACK_FLAG (SET_CHECKPOINT_FLAG b base v) base = GET_COPY_BACK_FLAG b base"
  "GET_VOTS_FLAG (SET_CHECKPOINT_FLAG b base v) base = GET_VOTS_FLAG b base"
  "GET_COPY_FLAG (SET_CHECKPOINT_FLAG b base v) base = GET_COPY_FLAG b base"
  "GET_SEG_TYPE_FLAG (SET_CHECKPOINT_FLAG b base v) base = GET_SEG_TYPE_FLAG b base"
  "GET_OBS_FLAG (SET_CHECKPOINT_FLAG b base v) base = GET_OBS_FLAG b base"
  "GET_BAD_EU (SET_CHECKPOINT_FLAG b base v) base = GET_BAD_EU b base"
  by (rule fields_independent [OF _ cp_flag.spare_field_axioms], unfold_locales, auto simp: field_defs)+

lemma SET_VOTS_FLAG_frame [simp]:
  "GET_PREV_BLOCK (SET_VOTS_FLAG b base v) base = GET_PREV_BLOCK b base"
  "GET_SLOT_EU_OFFSET (SET_VOTS_FLAG b base v) base = GET_SLOT_EU_OFFSET b base"
  "GET_COPY_BACK_FLAG (SET_VOTS_FLAG b base v) base = GET_COPY_BACK_FLAG b base"
  "GET_CHECKPOINT_FLAG (SET_VOTS_FLAG b base v) base = GET_CHECKPOINT_FLAG b base"
  "GET_COPY_FLAG (SET_VOTS_FLAG b base v) base = GET_COPY_FLAG b base"
  "GET_SEG_TYPE_FLAG (SET_VOTS_FLAG b base v) base = GET_SEG_TYPE_FLAG b base"
  "GET_OBS_FLAG (SET_VOTS_FLAG b base v) base = GET_OBS_FLAG b base"
  "GET_BAD_EU (SET_VOTS_FLAG b base v) base = GET_BAD_EU b base"
  by (rule fields_independent [OF _ vots_flag.spare_field_axioms], unfold_locales, auto simp: field_defs)+

lemma SET_COPY_FLAG_frame [simp]:
  "GET_PREV_BLOCK (SET_COPY_FLAG b base v) base = GET_PREV_BLOCK b base"
  "GET_SLOT_EU_OFFSET (SET_COPY_FLAG b base v) base = GET_SLOT_EU_OFFSET b base"
  "GET_COPY_BACK_FLAG (SET_COPY_FLAG b base v) base = GET_COPY_BACK_FLAG b base"
  "GET_CHECKPOINT_FLAG (SET_COPY_FLAG b base v) base = GET_CHECKPOINT_FLAG b base"
  "GET_VOTS_FLAG (SET_COPY_FLAG b base v) base = GET_VOTS_FLAG b base"
  "GET_SEG_TYPE_FLAG (SET_COPY_FLAG b base v) base = GET_SEG_TYPE_FLAG b base"
  "GET_OBS_FLAG (SET_COPY_FLAG b base v) base = GET_OBS_FLAG b base"
  "GET_BAD_EU (SET_COPY_FLAG b base v) base = GET_BAD_EU b base"
  by (rule fields_independent [OF _ copy_flag.spare_field_axioms], unfold_locales, auto simp: field_defs)+

lemma SET_SEG_TYPE_FLAG_frame [simp]:
  "GET_PREV_BLOCK (SET_SEG_TYPE_FLAG b base v) base = GET_PREV_BLOCK b base"
  "GET_SLOT_EU_OFFSET (SET_SEG_TYPE_FLAG b base v) base = GET_SLOT_EU_OFFSET b base"
  "GET_COPY_BACK_FLAG (SET_SEG_TYPE_FLAG b base v) base = GET_COPY_BACK_FLAG b base"
  "GET_CHECKPOINT_FLAG (SET_SEG_TYPE_FLAG b base v) base = GET_CHECKPOINT_FLAG b base"
  "GET_VOTS_FLAG (SET_SEG_TYPE_FLAG b base v) base = GET_VOTS_FLAG b base"
  "GET_COPY_FLAG (SET_SEG_TYPE_FLAG b base v) base = GET_COPY_FLAG b base"
  "GET_OBS_FLAG (SET_SEG_TYPE_FLAG b base v) base = GET_OBS_FLAG b base"
  "GET_BAD_EU (SET_SEG_TYPE_FLAG b base v) base = GET_BAD_EU b base"
  by (rule fields_independent [OF _ seg_type.spare_field_axioms], unfold_locales, auto simp: field_defs)+

lemma SET_OBS_FLAG_frame [simp]:
  "GET_PREV_BLOCK (SET_OBS_FLAG b base v) base = GET_PREV_BLOCK b base"
  "GET_SLOT_EU_OFFSET (SET_OBS_FLAG b base v) base = GET_SLOT_EU_OFFSET b base"
  "GET_COPY_BACK_FLAG (SET_OBS_FLAG b base v) base = GET_COPY_BACK_FLAG b base"
  "GET_CHECKPOINT_FLAG (SET_OBS_FLAG b base v) base = GET_CHECKPOINT_FLAG b base"
  "GET_VOTS_FLAG (SET_OBS_FLAG b base v) base = GET_VOTS_FLAG b base"
  "GET_COPY_FLAG (SET_OBS_FLAG b base v) base = GET_COPY_FLAG b base"
  "GET_SEG_TYPE_FLAG (SET_OBS_FLAG b base v) base = GET_SEG_TYPE_FLAG b base"
  "GET_BAD_EU (SET_OBS_FLAG b base v) base = GET_BAD_EU b base"
  by (rule fields_independent [OF _ obs_flag.spare_field_axioms], unfold_locales, auto simp: field_defs)+

lemma SET_BAD_EU_frame [simp]:
  "GET_PREV_BLOCK (SET_BAD_EU b base v) base = GET_PREV_BLOCK b base"
  "GET_SLOT_EU_OFFSET (SET_BAD_EU b base v) base = GET_SLOT_EU_OFFSET b base"
  "GET_COPY_BACK_FLAG (SET_BAD_EU b base v) base = GET_COPY_BACK_FLAG b base"
  "GET_CHECKPOINT_FLAG (SET_BAD_EU b base v) base = GET_CHECKPOINT_FLAG b base"
  "GET_VOTS_FLAG (SET_BAD_EU b base v) base = GET_VOTS_FLAG b base"
  "GET_COPY_FLAG (SET_BAD_EU b base v) base = GET_COPY_FLAG b base"
  "GET_SEG_TYPE_FLAG (SET_BAD_EU b base v) base = GET_SEG_TYPE_FLAG b base"
  "GET_OBS_FLAG (SET_BAD_EU b base v) base = GET_OBS_FLAG b base"
  by (rule fields_independent [OF _ bad_eu.spare_field_axioms], unfold_locales, auto simp: field_defs)+


lemmas flag_get_set [simp] = prev_block.get_set slot_eu.get_set copy_back.get_set cp_flag.get_set vots_flag.get_set copy_flag.get_set seg_type.get_set obs_flag.get_set bad_eu.get_set

text \<open>The flags of a page read into a spare buffer are the flags of the page.\<close>

lemma flags_of_copy [simp]:
  "GET_PREV_BLOCK (buf_copy c d src so 64) d = GET_PREV_BLOCK src so"
  "GET_SLOT_EU_OFFSET (buf_copy c d src so 64) d = GET_SLOT_EU_OFFSET src so"
  "GET_COPY_BACK_FLAG (buf_copy c d src so 64) d = GET_COPY_BACK_FLAG src so"
  "GET_CHECKPOINT_FLAG (buf_copy c d src so 64) d = GET_CHECKPOINT_FLAG src so"
  "GET_VOTS_FLAG (buf_copy c d src so 64) d = GET_VOTS_FLAG src so"
  "GET_COPY_FLAG (buf_copy c d src so 64) d = GET_COPY_FLAG src so"
  "GET_SEG_TYPE_FLAG (buf_copy c d src so 64) d = GET_SEG_TYPE_FLAG src so"
  "GET_OBS_FLAG (buf_copy c d src so 64) d = GET_OBS_FLAG src so"
  "GET_BAD_EU (buf_copy c d src so 64) d = GET_BAD_EU src so"
proof -
  show "GET_PREV_BLOCK (buf_copy c d src so 64) d = GET_PREV_BLOCK src so"
    by (rule prev_block.get_same_bytes) (auto simp: field_defs)
  show "GET_SLOT_EU_OFFSET (buf_copy c d src so 64) d = GET_SLOT_EU_OFFSET src so"
    by (rule slot_eu.get_same_bytes) (auto simp: field_defs)
  show "GET_COPY_BACK_FLAG (buf_copy c d src so 64) d = GET_COPY_BACK_FLAG src so"
    by (rule copy_back.get_same_bytes) (auto simp: field_defs)
  show "GET_CHECKPOINT_FLAG (buf_copy c d src so 64) d = GET_CHECKPOINT_FLAG src so"
    by (rule cp_flag.get_same_bytes) (auto simp: field_defs)
  show "GET_VOTS_FLAG (buf_copy c d src so 64) d = GET_VOTS_FLAG src so"
    by (rule vots_flag.get_same_bytes) (auto simp: field_defs)
  show "GET_COPY_FLAG (buf_copy c d src so 64) d = GET_COPY_FLAG src so"
    by (rule copy_flag.get_same_bytes) (auto simp: field_defs)
  show "GET_SEG_TYPE_FLAG (buf_copy c d src so 64) d = GET_SEG_TYPE_FLAG src so"
    by (rule seg_type.get_same_bytes) (auto simp: field_defs)
  show "GET_OBS_FLAG (buf_copy c d src so 64) d = GET_OBS_FLAG src so"
    by (rule obs_flag.get_same_bytes) (auto simp: field_defs)
  show "GET_BAD_EU (buf_copy c d src so 64) d = GET_BAD_EU src so"
    by (rule bad_eu.get_same_bytes) (auto simp: field_defs)
qed

text \<open>A page buffer read from a page, seen at its spare area.\<close>

lemma flags_of_page_copy [simp]:
  "GET_PREV_BLOCK (buf_copy c 0 src 0 2112) 2048 = GET_PREV_BLOCK src 2048"
  "GET_SLOT_EU_OFFSET (buf_copy c 0 src 0 2112) 2048 = GET_SLOT_EU_OFFSET src 2048"
  "GET_COPY_BACK_FLAG (buf_copy c 0 src 0 2112) 2048 = GET_COPY_BACK_FLAG src 2048"
  "GET_CHECKPOINT_FLAG (buf_copy c 0 src 0 2112) 2048 = GET_CHECKPOINT_FLAG src 2048"
  "GET_VOTS_FLAG (buf_copy c 0 src 0 2112) 2048 = GET_VOTS_FLAG src 2048"
  "GET_COPY_FLAG (buf_copy c 0 src 0 2112) 2048 = GET_COPY_FLAG src 2048"
  "GET_SEG_TYPE_FLAG (buf_copy c 0 src 0 2112) 2048 = GET_SEG_TYPE_FLAG src 2048"
  "GET_OBS_FLAG (buf_copy c 0 src 0 2112) 2048 = GET_OBS_FLAG src 2048"
  "GET_BAD_EU (buf_copy c 0 src 0 2112) 2048 = GET_BAD_EU src 2048"
proof -
  show "GET_PREV_BLOCK (buf_copy c 0 src 0 2112) 2048 = GET_PREV_BLOCK src 2048"
    by (rule prev_block.get_same_bytes) (auto simp: field_defs)
  show "GET_SLOT_EU_OFFSET (buf_copy c 0 src 0 2112) 2048 = GET_SLOT_EU_OFFSET src 2048"
    by (rule slot_eu.get_same_bytes) (auto simp: field_defs)
  show "GET_COPY_BACK_FLAG (buf_copy c 0 src 0 2112) 2048 = GET_COPY_BACK_FLAG src 2048"
    by (rule copy_back.get_same_bytes) (auto simp: field_defs)
  show "GET_CHECKPOINT_FLAG (buf_copy c 0 src 0 2112) 2048 = GET_CHECKPOINT_FLAG src 2048"
    by (rule cp_flag.get_same_bytes) (auto simp: field_defs)
  show "GET_VOTS_FLAG (buf_copy c 0 src 0 2112) 2048 = GET_VOTS_FLAG src 2048"
    by (rule vots_flag.get_same_bytes) (auto simp: field_defs)
  show "GET_COPY_FLAG (buf_copy c 0 src 0 2112) 2048 = GET_COPY_FLAG src 2048"
    by (rule copy_flag.get_same_bytes) (auto simp: field_defs)
  show "GET_SEG_TYPE_FLAG (buf_copy c 0 src 0 2112) 2048 = GET_SEG_TYPE_FLAG src 2048"
    by (rule seg_type.get_same_bytes) (auto simp: field_defs)
  show "GET_OBS_FLAG (buf_copy c 0 src 0 2112) 2048 = GET_OBS_FLAG src 2048"
    by (rule obs_flag.get_same_bytes) (auto simp: field_defs)
  show "GET_BAD_EU (buf_copy c 0 src 0 2112) 2048 = GET_BAD_EU src 2048"
    by (rule bad_eu.get_same_bytes) (auto simp: field_defs)
qed

section \<open>The segment header\<close>

lemma header_sequence_num [simp]:
  "GET_HEADER_SEQUENCE_NUM (SET_HEADER_SEQUENCE_NUM b v) = v"
  "GET_HEADER_SEQUENCE_NUM (SET_HEADER_SEGMENT_ID b w) = GET_HEADER_SEQUENCE_NUM b"
proof -
  show "GET_HEADER_SEQUENCE_NUM (SET_HEADER_SEQUENCE_NUM b v) = v"
  proof (rule bit_word_eqI)
    fix j
    assume j: "j < LENGTH(64)"
    then have "j div 8 < 8" by (simp add: less_mult_imp_div_less)
    then show "bit (GET_HEADER_SEQUENCE_NUM (SET_HEADER_SEQUENCE_NUM b v)) j = bit v j"
      using j by (simp add: GET_HEADER_SEQUENCE_NUM_def SET_HEADER_SEQUENCE_NUM_def bit_le_bytes bit_unsigned_iff
        bit_drop_bit_eq possible_bit_def)
  qed
  show "GET_HEADER_SEQUENCE_NUM (SET_HEADER_SEGMENT_ID b w) = GET_HEADER_SEQUENCE_NUM b"
    by (rule bit_word_eqI) (auto simp: GET_HEADER_SEQUENCE_NUM_def SET_HEADER_SEGMENT_ID_def bit_le_bytes)
qed

lemma header_segment_id [simp]:
  "GET_HEADER_SEGMENT_ID (SET_HEADER_SEGMENT_ID b v) = v"
  "GET_HEADER_SEGMENT_ID (SET_HEADER_SEQUENCE_NUM b w) = GET_HEADER_SEGMENT_ID b"
proof -
  show "GET_HEADER_SEGMENT_ID (SET_HEADER_SEGMENT_ID b v) = v"
  proof (rule bit_word_eqI)
    fix j
    assume j: "j < LENGTH(16)"
    then have "j div 8 < 2" by (simp add: less_mult_imp_div_less)
    then show "bit (GET_HEADER_SEGMENT_ID (SET_HEADER_SEGMENT_ID b v)) j = bit v j"
      using j by (simp add: GET_HEADER_SEGMENT_ID_def SET_HEADER_SEGMENT_ID_def bit_le_bytes bit_unsigned_iff
        bit_drop_bit_eq possible_bit_def)
  qed
  show "GET_HEADER_SEGMENT_ID (SET_HEADER_SEQUENCE_NUM b w) = GET_HEADER_SEGMENT_ID b"
    by (rule bit_word_eqI) (auto simp: GET_HEADER_SEGMENT_ID_def SET_HEADER_SEQUENCE_NUM_def bit_le_bytes)
qed

section \<open>Properties\<close>

definition set_all_flags :: "buf \<Rightarrow> nat \<Rightarrow> u32 \<Rightarrow> u32 \<Rightarrow> u32 \<Rightarrow> u32 \<Rightarrow> u32 \<Rightarrow> u32 \<Rightarrow> u32 \<Rightarrow> u32 \<Rightarrow> buf" where
  "set_all_flags b base prev slot cb cp vots copy ty obs =
     SET_OBS_FLAG (SET_SEG_TYPE_FLAG (SET_COPY_FLAG (SET_VOTS_FLAG (SET_CHECKPOINT_FLAG (SET_COPY_BACK_FLAG
       (SET_SLOT_EU_OFFSET (SET_PREV_BLOCK b base prev) base slot) base cb) base cp) base vots) base copy) base ty) base obs"

text \<open>
  A spare area filled flag by flag delivers every flag as it was set, the three fields that
  share the checkpoint byte and the three-byte addresses included, and the error-correcting code,
  the bad-unit byte and the remaining bytes are left alone.
\<close>

theorem spare_flags_round_trip:
  assumes "prev < 0x1000000" "slot < 0x1000000" "cb < 2" "cp < 4" "vots < 4" "copy < 2" "ty < 8" "obs < 2"
  shows "let b' = set_all_flags b base prev slot cb cp vots copy ty obs in
     GET_PREV_BLOCK b' base = prev \<and> GET_SLOT_EU_OFFSET b' base = slot \<and> GET_COPY_BACK_FLAG b' base = cb \<and>
     GET_CHECKPOINT_FLAG b' base = cp \<and> GET_VOTS_FLAG b' base = vots \<and> GET_COPY_FLAG b' base = copy \<and>
     GET_SEG_TYPE_FLAG b' base = ty \<and> GET_OBS_FLAG b' base = obs \<and>
     GET_BAD_EU b' base = GET_BAD_EU b base \<and> (\<forall>i. 9 \<le> i \<and> i < 63 \<longrightarrow> b' (base + i) = b (base + i))"
proof -
  have "set_all_flags b base prev slot cb cp vots copy ty obs (base + i) = b (base + i)" if "9 \<le> i" "i < 63" for i
    using that
    by (simp add: set_all_flags_def obs_flag.set_byte_frame seg_type.set_byte_frame copy_flag.set_byte_frame
      vots_flag.set_byte_frame cp_flag.set_byte_frame copy_back.set_byte_frame slot_eu.set_byte_frame
      prev_block.set_byte_frame field_defs)
  then show ?thesis using assms by (simp add: set_all_flags_def)
qed

theorem spare_flags_round_trip_witness:
  "let b' = set_all_flags (\<lambda>_. 0xff) 2048 0x123456 0xabcdef 0 2 1 1 3 1 in
     GET_PREV_BLOCK b' 2048 = 0x123456 \<and> GET_SLOT_EU_OFFSET b' 2048 = 0xabcdef \<and> GET_COPY_BACK_FLAG b' 2048 = 0 \<and>
     GET_CHECKPOINT_FLAG b' 2048 = 2 \<and> GET_VOTS_FLAG b' 2048 = 1 \<and> GET_COPY_FLAG b' 2048 = 1 \<and>
     GET_SEG_TYPE_FLAG b' 2048 = 3 \<and> GET_OBS_FLAG b' 2048 = 1 \<and>
     GET_BAD_EU b' 2048 = GET_BAD_EU (\<lambda>_. 0xff) 2048 \<and> (\<forall>i. 9 \<le> i \<and> i < 63 \<longrightarrow> b' (2048 + i) = (\<lambda>_. 0xff) (2048 + i))"
  by (rule spare_flags_round_trip) simp_all

end
