(* ===== verification/Addr.thy ===== *)
theory Addr
  imports Spare
begin

text \<open>
  Addresses of the sequencing layer (\<^verbatim>\<open>NANDFS/src/sequencing/sequencing.h\<close> and the address helpers of
  \<^verbatim>\<open>sequencingUtils.c\<close>).  A logical address is a struct of four bytes: a 12-bit offset, a 12-bit
  segment and a spare byte.  A physical address is the number of a page: 512 slots of 16 erase
  units of 64 pages.
\<close>

unbundle bit_operations_syntax

section \<open>Logical addresses\<close>

record logical_addr =
  byte0 :: u8
  byte1 :: u8
  byte2 :: u8
  byte3 :: u8

definition GET_LOGICAL_OFFSET :: "logical_addr \<Rightarrow> u32" where
  "GET_LOGICAL_OFFSET a = ucast (byte0 a) OR push_bit 8 (ucast (byte1 a) AND 0x0f)"

definition GET_LOGICAL_SEGMENT :: "logical_addr \<Rightarrow> u32" where
  "GET_LOGICAL_SEGMENT a = push_bit 4 (ucast (byte2 a)) OR drop_bit 4 (ucast (byte1 a) AND 0xf0)"

definition GET_LOGICAL_SPARE :: "logical_addr \<Rightarrow> u32" where
  "GET_LOGICAL_SPARE a = ucast (byte3 a)"

definition setLogicalOffset :: "logical_addr \<Rightarrow> u32 \<Rightarrow> logical_addr" where
  "setLogicalOffset a offset =
     (let a1 = a\<lparr>byte0 := ucast (offset AND 0xff)\<rparr>
      in a1\<lparr>byte1 := ucast (drop_bit 8 (offset AND 0xf00) OR (ucast (byte1 a1) AND 0xf0))\<rparr>)"

definition setLogicalSegment :: "logical_addr \<Rightarrow> u32 \<Rightarrow> logical_addr" where
  "setLogicalSegment a seg_num =
     (let a1 = a\<lparr>byte1 := ucast ((ucast (byte1 a) AND 0x0f) OR push_bit 4 (seg_num AND 0x0f))\<rparr>
      in a1\<lparr>byte2 := ucast (drop_bit 4 (seg_num AND 0xff0))\<rparr>)"

definition SET_LOGICAL_SPARE :: "logical_addr \<Rightarrow> u32 \<Rightarrow> logical_addr" where
  "SET_LOGICAL_SPARE a spare = a\<lparr>byte3 := ucast (spare AND 0xff)\<rparr>"

text \<open>\<open>init_logical_address\<close> is \<open>init_struct\<close> on the four bytes.\<close>

definition init_logical_address :: logical_addr where
  "init_logical_address = \<lparr>byte0 = 0xff, byte1 = 0xff, byte2 = 0xff, byte3 = 0xff\<rparr>"

text \<open>Both copies return the new contents of \<open>to\<close>.\<close>

definition copyLogicalAddress :: "logical_addr \<Rightarrow> logical_addr \<Rightarrow> logical_addr" where
  "copyLogicalAddress to from =
     SET_LOGICAL_SPARE (setLogicalSegment (setLogicalOffset to (GET_LOGICAL_OFFSET from)) (GET_LOGICAL_SEGMENT from))
       (GET_LOGICAL_SPARE from)"

definition copyTruncatedLogicalAddress :: "logical_addr \<Rightarrow> logical_addr \<Rightarrow> logical_addr" where
  "copyTruncatedLogicalAddress to from =
     setLogicalSegment (setLogicalOffset to (GET_LOGICAL_OFFSET from)) (GET_LOGICAL_SEGMENT from)"

text \<open>A logical address stored in a byte buffer, as the casts of the previous-block field see it.\<close>

definition addr_at :: "buf \<Rightarrow> nat \<Rightarrow> logical_addr" where
  "addr_at b i = \<lparr>byte0 = b i, byte1 = b (i + 1), byte2 = b (i + 2), byte3 = b (i + 3)\<rparr>"

definition addr_put :: "buf \<Rightarrow> nat \<Rightarrow> logical_addr \<Rightarrow> buf" where
  "addr_put b i a = b(i := byte0 a, i + 1 := byte1 a, i + 2 := byte2 a, i + 3 := byte3 a)"

definition copyPrevAddressToFlags :: "buf \<Rightarrow> nat \<Rightarrow> logical_addr \<Rightarrow> buf" where
  "copyPrevAddressToFlags b base prev = addr_put b base (copyTruncatedLogicalAddress (addr_at b base) prev)"

definition extract_prev_address :: "buf \<Rightarrow> nat \<Rightarrow> logical_addr \<Rightarrow> logical_addr" where
  "extract_prev_address b base prev = copyTruncatedLogicalAddress prev (addr_at b base)"

section \<open>Physical addresses\<close>

abbreviation (input) SEQ_N_SLOTS_COUNT :: u32 where "SEQ_N_SLOTS_COUNT \<equiv> 512"
abbreviation (input) SEQ_K_RESERVE_SLOTS :: u32 where "SEQ_K_RESERVE_SLOTS \<equiv> 2"
abbreviation (input) SEQ_PAGES_PER_SLOT :: u32 where "SEQ_PAGES_PER_SLOT \<equiv> 1024"
abbreviation (input) SEQ_MAX_LOGICAL_OFFSET :: u32 where "SEQ_MAX_LOGICAL_OFFSET \<equiv> 1023"
abbreviation (input) SEQ_EUS_PER_SLOT :: u32 where "SEQ_EUS_PER_SLOT \<equiv> 16"
abbreviation (input) SEQ_FIRST_RESERVE_SEGMENT :: u32 where "SEQ_FIRST_RESERVE_SEGMENT \<equiv> 510"
abbreviation (input) SEQ_SEGMENTS_COUNT :: u32 where "SEQ_SEGMENTS_COUNT \<equiv> 509"
abbreviation (input) SEQ_NEW_SEGMENT :: u32 where "SEQ_NEW_SEGMENT \<equiv> 509"
abbreviation (input) SEQ_NO_SLOT :: u32 where "SEQ_NO_SLOT \<equiv> 0xfff"
abbreviation (input) SEQ_NO_PAGE_OFFSET :: u32 where "SEQ_NO_PAGE_OFFSET \<equiv> 0xfff"
abbreviation (input) SEQ_NO_SEGMENT_NUM :: u32 where "SEQ_NO_SEGMENT_NUM \<equiv> 0xfff"
abbreviation (input) SEQ_NO_SLOT_AND_EU_OFFSET :: u32 where "SEQ_NO_SLOT_AND_EU_OFFSET \<equiv> 0xffffff"
abbreviation (input) SEQ_SLOT_EU_ID_EMPTY :: u32 where "SEQ_SLOT_EU_ID_EMPTY \<equiv> 0xffffff"
abbreviation (input) SEQ_RESERVE_EU_IS_HEADER :: u32 where "SEQ_RESERVE_EU_IS_HEADER \<equiv> 0xf0ffff"
abbreviation (input) SEQ_PHY_ADDRESS_EMPTY :: u32 where "SEQ_PHY_ADDRESS_EMPTY \<equiv> 0xffffffff"
abbreviation (input) SEQ_FIRST_PHY_ADDRESS_EMPTY :: u32 where "SEQ_FIRST_PHY_ADDRESS_EMPTY \<equiv> 0xf00fffff"

definition CALC_OFFSET_IN_EU :: "u32 \<Rightarrow> u32" where
  "CALC_OFFSET_IN_EU phy_addr = phy_addr AND 63"

definition CALC_EU_START :: "u32 \<Rightarrow> u32" where
  "CALC_EU_START phy_addr = phy_addr AND NAND_EU_MASK"

definition CALC_ADDRESS :: "u32 \<Rightarrow> u32 \<Rightarrow> u32 \<Rightarrow> u32" where
  "CALC_ADDRESS slot_id eu_offset eu_page_offset = push_bit 10 slot_id + push_bit 6 eu_offset + eu_page_offset"

definition CALC_OFFSET_IN_SLOT :: "u32 \<Rightarrow> u32" where
  "CALC_OFFSET_IN_SLOT address = address AND 1023"

definition CALC_EU_OFFSET :: "u32 \<Rightarrow> u32" where
  "CALC_EU_OFFSET address = drop_bit 6 (CALC_OFFSET_IN_SLOT address)"

definition GET_SLOT :: "u32 \<Rightarrow> u32" where
  "GET_SLOT phy_addr = drop_bit 10 phy_addr"

definition EXTRACT_SLOT :: "u32 \<Rightarrow> u32" where
  "EXTRACT_SLOT slot_eu_flag = drop_bit 13 (slot_eu_flag AND 0x3fe000)"

definition EXTRACT_EU :: "u32 \<Rightarrow> u32" where
  "EXTRACT_EU slot_eu_flag = slot_eu_flag AND 0x1fff"

definition IS_EU_START :: "u32 \<Rightarrow> bool" where
  "IS_EU_START offset = (CALC_OFFSET_IN_EU offset = CALC_OFFSET_IN_EU (CALC_EU_START offset))"

definition CALCULATE_SLOT_ID_AND_EU_OFFSET :: "u32 \<Rightarrow> u32" where
  "CALCULATE_SLOT_ID_AND_EU_OFFSET phy_addr =
     drop_bit 6 ((phy_addr AND 1023) AND NAND_EU_MASK) OR push_bit 13 (drop_bit 10 phy_addr)"

definition EXTRACT_ADDR_FROM_SLOT_ID_AND_EU_OFFSET :: "u32 \<Rightarrow> u32" where
  "EXTRACT_ADDR_FROM_SLOT_ID_AND_EU_OFFSET slot_eu_flag =
     CALC_ADDRESS (EXTRACT_SLOT slot_eu_flag) (EXTRACT_EU slot_eu_flag) 0"

text \<open>As written, the macro shifts by the 9 bits of the slot count, not by the 10 bits of a slot's pages.\<close>

definition IS_FIRST_IN_SLOT :: "u32 \<Rightarrow> bool" where
  "IS_FIRST_IN_SLOT phy_addr = (phy_addr = push_bit 9 (drop_bit 9 phy_addr))"

definition IS_PAGES_IN_IDENTICAL_EU :: "u32 \<Rightarrow> u32 \<Rightarrow> bool" where
  "IS_PAGES_IN_IDENTICAL_EU offset1 offset2 = (offset1 AND NAND_EU_MASK = offset2 AND NAND_EU_MASK)"

definition IS_PHY_ADDR_EMPTY :: "u32 \<Rightarrow> bool" where
  "IS_PHY_ADDR_EMPTY phy_addr = (phy_addr = SEQ_PHY_ADDRESS_EMPTY)"

definition IS_ADDRESS_ERROR :: "u32 \<Rightarrow> bool" where
  "IS_ADDRESS_ERROR phy_addr = (phy_addr \<ge> NAND_PAGE_COUNT)"

definition IS_ADDRESS_EMPTY :: "logical_addr \<Rightarrow> bool" where
  "IS_ADDRESS_EMPTY a = (GET_LOGICAL_SEGMENT a = SEQ_NO_SEGMENT_NUM)"

definition CALCULATE_IN_PAGES :: "u32 \<Rightarrow> u32" where
  "CALCULATE_IN_PAGES n = drop_bit 11 n + (if n AND 2047 = 0 then 0 else 1)"

definition SEQ_SHIFT_PAGE_OFFSET_TO_EU_END :: "u32 \<Rightarrow> u32" where
  "SEQ_SHIFT_PAGE_OFFSET_TO_EU_END page = page OR NOT NAND_EU_MASK"

declare bit_numeral_word_iff [simp del]
declare bit_0 [simp del]

section \<open>Parts of a logical address\<close>

locale addr_part =
  fixes get :: "logical_addr \<Rightarrow> u32" and put :: "logical_addr \<Rightarrow> u32 \<Rightarrow> logical_addr"
  assumes get_put: "get (put a v) = v AND 0xfff"
    and put_get: "put a (get a) = a"
    and put_put: "put (put a v) w = put a w"
begin

lemma get_masked: "get a AND 0xfff = get a"
  by (metis get_put put_get)

lemma get_bound: "get a \<le> 0xfff"
  by (metis get_masked word_and_le1)

lemma put_masked: "put a (v AND 0xfff) = put a v"
  by (metis get_put put_get put_put)

lemma get_put_small: "v \<le> 0xfff \<Longrightarrow> get (put a v) = v"
proof -
  assume "v \<le> 0xfff"
  then have "unat v < 2 ^ 12" by (simp add: word_le_nat_alt)
  then have "unat (v AND mask 12) = unat v" by (simp only: unat_mod_word) simp
  then show ?thesis by (simp add: get_put mask_eq_exp_minus_1 word_unat_eq_iff)
qed

end

lemma bit_u32_mask: "bit (0xf :: u32) j = (j < 4)" "bit (0xff :: u32) j = (j < 8)"
    "bit (0xfff :: u32) j = (j < 12)"
  using bit_mask_iff [of 4 j, where 'a = u32] bit_mask_iff [of 8 j, where 'a = u32] bit_mask_iff [of 12 j, where 'a = u32]
  by (auto simp: mask_eq_exp_minus_1 possible_bit_def)

lemma bit_u32_high: "bit (0xf0 :: u32) j = (4 \<le> j \<and> j < 8)" "bit (0xf00 :: u32) j = (8 \<le> j \<and> j < 12)"
    "bit (0xff0 :: u32) j = (4 \<le> j \<and> j < 12)"
proof -
  have e: "(0xf0 :: u32) = push_bit 4 (mask 4)" "(0xf00 :: u32) = push_bit 8 (mask 4)" "(0xff0 :: u32) = push_bit 4 (mask 8)"
    by (simp_all add: mask_eq_exp_minus_1)
  show "bit (0xf0 :: u32) j = (4 \<le> j \<and> j < 8)" "bit (0xf00 :: u32) j = (8 \<le> j \<and> j < 12)"
    "bit (0xff0 :: u32) j = (4 \<le> j \<and> j < 12)"
    unfolding e by (auto simp: bit_push_bit_iff bit_mask_iff possible_bit_def)
qed

lemma bit_u8_lt: "bit (b :: u8) j \<Longrightarrow> j < 8"
  using bit_imp_le_length [of b j] by simp

lemmas addr_bits = bit_or_iff bit_and_iff bit_push_bit_iff bit_drop_bit_eq bit_unsigned_iff possible_bit_def
  bit_u32_mask bit_u32_high

interpretation offset_part: addr_part GET_LOGICAL_OFFSET setLogicalOffset
proof
  fix a v w
  show "GET_LOGICAL_OFFSET (setLogicalOffset a v) = v AND 0xfff"
    by (rule bit_word_eqI) (auto simp: GET_LOGICAL_OFFSET_def setLogicalOffset_def Let_def addr_bits)
  show "setLogicalOffset a (GET_LOGICAL_OFFSET a) = a"
  proof -
    have "ucast (GET_LOGICAL_OFFSET a AND 0xff) = byte0 a"
      by (rule bit_word_eqI) (auto simp: GET_LOGICAL_OFFSET_def addr_bits)
    moreover have "ucast (drop_bit 8 (GET_LOGICAL_OFFSET a AND 0xf00) OR (ucast (byte1 a) AND 0xf0)) = byte1 a"
      by (rule bit_word_eqI) (auto simp: GET_LOGICAL_OFFSET_def addr_bits dest: bit_u8_lt)
    ultimately show ?thesis by (simp add: setLogicalOffset_def Let_def)
  qed
  have "ucast (drop_bit 8 (w AND 0xf00) OR (ucast (ucast (drop_bit 8 (v AND 0xf00) OR (ucast (byte1 a) AND 0xf0)) :: u8) AND 0xf0 :: u32)) =
      (ucast (drop_bit 8 (w AND 0xf00) OR (ucast (byte1 a) AND 0xf0)) :: u8)"
    by (rule bit_word_eqI) (auto simp: addr_bits)
  then show "setLogicalOffset (setLogicalOffset a v) w = setLogicalOffset a w"
    by (simp add: setLogicalOffset_def Let_def)
qed

interpretation segment_part: addr_part GET_LOGICAL_SEGMENT setLogicalSegment
proof
  fix a v w
  show "GET_LOGICAL_SEGMENT (setLogicalSegment a v) = v AND 0xfff"
    by (rule bit_word_eqI) (auto simp: GET_LOGICAL_SEGMENT_def setLogicalSegment_def Let_def addr_bits)
  show "setLogicalSegment a (GET_LOGICAL_SEGMENT a) = a"
  proof -
    have "ucast ((ucast (byte1 a) AND 0xf) OR push_bit 4 (GET_LOGICAL_SEGMENT a AND 0xf)) = byte1 a"
      by (rule bit_word_eqI) (auto simp: GET_LOGICAL_SEGMENT_def addr_bits dest: bit_u8_lt)
    moreover have "ucast (drop_bit 4 (GET_LOGICAL_SEGMENT a AND 0xff0)) = byte2 a"
      by (rule bit_word_eqI) (auto simp: GET_LOGICAL_SEGMENT_def addr_bits dest: bit_u8_lt)
    ultimately show ?thesis by (simp add: setLogicalSegment_def Let_def)
  qed
  have "ucast ((ucast (ucast ((ucast (byte1 a) AND 0xf) OR push_bit 4 (v AND 0xf) :: u32) :: u8) AND 0xf) OR push_bit 4 (w AND 0xf) :: u32) =
      (ucast ((ucast (byte1 a) AND 0xf) OR push_bit 4 (w AND 0xf) :: u32) :: u8)"
    by (rule bit_word_eqI) (auto simp: addr_bits)
  then show "setLogicalSegment (setLogicalSegment a v) w = setLogicalSegment a w"
    by (simp add: setLogicalSegment_def Let_def)
qed

lemma part_frames [simp]:
  "GET_LOGICAL_SEGMENT (setLogicalOffset a v) = GET_LOGICAL_SEGMENT a"
  "GET_LOGICAL_OFFSET (setLogicalSegment a v) = GET_LOGICAL_OFFSET a"
  "GET_LOGICAL_SPARE (setLogicalOffset a v) = GET_LOGICAL_SPARE a"
  "GET_LOGICAL_SPARE (setLogicalSegment a v) = GET_LOGICAL_SPARE a"
proof -
  show "GET_LOGICAL_SEGMENT (setLogicalOffset a v) = GET_LOGICAL_SEGMENT a"
    by (rule bit_word_eqI) (auto simp: GET_LOGICAL_SEGMENT_def setLogicalOffset_def Let_def addr_bits dest: bit_u8_lt)
  show "GET_LOGICAL_OFFSET (setLogicalSegment a v) = GET_LOGICAL_OFFSET a"
    by (rule bit_word_eqI) (auto simp: GET_LOGICAL_OFFSET_def setLogicalSegment_def Let_def addr_bits)
qed (simp_all add: GET_LOGICAL_SPARE_def setLogicalOffset_def setLogicalSegment_def Let_def)

lemma spare_frames [simp]:
  "GET_LOGICAL_SEGMENT (SET_LOGICAL_SPARE a v) = GET_LOGICAL_SEGMENT a"
  "GET_LOGICAL_OFFSET (SET_LOGICAL_SPARE a v) = GET_LOGICAL_OFFSET a"
  by (simp_all add: GET_LOGICAL_SEGMENT_def GET_LOGICAL_OFFSET_def SET_LOGICAL_SPARE_def)


text \<open>An address is determined by its offset, its segment and its spare byte.\<close>

lemma logical_addr_eqI:
  assumes "GET_LOGICAL_OFFSET a = GET_LOGICAL_OFFSET b" "GET_LOGICAL_SEGMENT a = GET_LOGICAL_SEGMENT b"
    "GET_LOGICAL_SPARE a = GET_LOGICAL_SPARE b"
  shows "a = b"
proof -
  have o: "bit (GET_LOGICAL_OFFSET a) j = bit (GET_LOGICAL_OFFSET b) j"
    and g: "bit (GET_LOGICAL_SEGMENT a) j = bit (GET_LOGICAL_SEGMENT b) j"
    and p: "bit (GET_LOGICAL_SPARE a) j = bit (GET_LOGICAL_SPARE b) j" for j
    using assms by simp_all
  have "byte0 a = byte0 b"
  proof (rule bit_word_eqI)
    fix j assume "j < LENGTH(8)"
    then show "bit (byte0 a) j = bit (byte0 b) j" using o [of j] by (simp add: GET_LOGICAL_OFFSET_def addr_bits)
  qed
  moreover have "byte1 a = byte1 b"
  proof (rule bit_word_eqI)
    fix j assume "j < LENGTH(8)"
    then show "bit (byte1 a) j = bit (byte1 b) j"
      using o [of "j + 8"] g [of "j - 4"] bit_u8_lt [of "byte0 a" "j + 8"] bit_u8_lt [of "byte0 b" "j + 8"]
      by (cases "j < 4") (auto simp: GET_LOGICAL_OFFSET_def GET_LOGICAL_SEGMENT_def addr_bits)
  qed
  moreover have "byte2 a = byte2 b"
  proof (rule bit_word_eqI)
    fix j assume "j < LENGTH(8)"
    then show "bit (byte2 a) j = bit (byte2 b) j"
      using g [of "j + 4"] bit_u8_lt [of "byte1 a" "j + 8"] bit_u8_lt [of "byte1 b" "j + 8"]
      by (auto simp: GET_LOGICAL_SEGMENT_def addr_bits)
  qed
  moreover have "byte3 a = byte3 b"
  proof (rule bit_word_eqI)
    fix j assume "j < LENGTH(8)"
    then show "bit (byte3 a) j = bit (byte3 b) j" using p [of j] by (simp add: GET_LOGICAL_SPARE_def addr_bits)
  qed
  ultimately show ?thesis by simp
qed

lemma spare_get_set: "GET_LOGICAL_SPARE (SET_LOGICAL_SPARE a v) = v AND 0xff"
  by (rule bit_word_eqI) (auto simp: GET_LOGICAL_SPARE_def SET_LOGICAL_SPARE_def addr_bits)

lemma spare_masked: "GET_LOGICAL_SPARE a AND 0xff = GET_LOGICAL_SPARE a"
  by (rule bit_word_eqI) (auto simp: GET_LOGICAL_SPARE_def addr_bits dest: bit_u8_lt)

lemma copyLogicalAddress_eq [simp]: "copyLogicalAddress to from = from"
  by (rule logical_addr_eqI)
    (simp_all add: copyLogicalAddress_def spare_get_set spare_masked offset_part.get_put offset_part.get_masked
      segment_part.get_put segment_part.get_masked)

lemma byte3_frames [simp]: "byte3 (setLogicalOffset a v) = byte3 a" "byte3 (setLogicalSegment a v) = byte3 a"
  by (simp_all add: setLogicalOffset_def setLogicalSegment_def Let_def)

lemma copyTruncated_parts [simp]:
  "GET_LOGICAL_OFFSET (copyTruncatedLogicalAddress to from) = GET_LOGICAL_OFFSET from"
  "GET_LOGICAL_SEGMENT (copyTruncatedLogicalAddress to from) = GET_LOGICAL_SEGMENT from"
  "byte3 (copyTruncatedLogicalAddress to from) = byte3 to"
proof -
  show "GET_LOGICAL_OFFSET (copyTruncatedLogicalAddress to from) = GET_LOGICAL_OFFSET from"
    "GET_LOGICAL_SEGMENT (copyTruncatedLogicalAddress to from) = GET_LOGICAL_SEGMENT from"
    by (simp_all add: copyTruncatedLogicalAddress_def offset_part.get_put offset_part.get_masked
      segment_part.get_put segment_part.get_masked)
  show "byte3 (copyTruncatedLogicalAddress to from) = byte3 to"
    by (simp add: copyTruncatedLogicalAddress_def)
qed

lemma addr_at_put [simp]: "addr_at (addr_put b i a) i = a"
  by (simp add: addr_at_def addr_put_def)

section \<open>Page numbers\<close>

lemma mask_u32: "(63::u32) = mask 6" "(1023::u32) = mask 10" "(0x1fff::u32) = mask 13" "(0xfff::u32) = mask 12"
    "(2047::u32) = mask 11"
  by (simp_all add: mask_eq_exp_minus_1)

lemma unat_CALC_OFFSET_IN_EU [geometry]: "unat (CALC_OFFSET_IN_EU a) = unat a mod 64"
  unfolding CALC_OFFSET_IN_EU_def mask_u32 unat_mod_word by simp

lemma unat_CALC_OFFSET_IN_SLOT [geometry]: "unat (CALC_OFFSET_IN_SLOT a) = unat a mod 1024"
  unfolding CALC_OFFSET_IN_SLOT_def mask_u32 unat_mod_word by simp

lemma unat_CALC_EU_OFFSET [geometry]: "unat (CALC_EU_OFFSET a) = unat a mod 1024 div 64"
  unfolding CALC_EU_OFFSET_def unat_drop_bit_u32 unat_CALC_OFFSET_IN_SLOT by simp

lemma unat_GET_SLOT [geometry]: "unat (GET_SLOT a) = unat a div 1024"
  unfolding GET_SLOT_def unat_drop_bit_u32 by simp

lemma unat_CALC_EU_START [geometry]: "unat (CALC_EU_START a) = 64 * (unat a div 64)"
  unfolding CALC_EU_START_def by (rule unat_eu)

lemma unat_CALC_ADDRESS [geometry]:
  assumes "unat slot * 1024 + unat eu * 64 + unat off < 2 ^ 32"
  shows "unat (CALC_ADDRESS slot eu off) = unat slot * 1024 + unat eu * 64 + unat off"
  unfolding CALC_ADDRESS_def unat_plus_u32 unat_push_bit_u32 using assms by (simp add: mult.commute)

lemma split_1024:
  fixes x :: nat
  shows "x mod 1024 div 64 = x div 64 mod 16" "x div 1024 = x div 64 div 16"
    "1024 * (x div 1024) + 64 * (x mod 1024 div 64) + x mod 64 = x"
    "1024 * (x div 1024) + 64 * (x mod 1024 div 64) = 64 * (x div 64)"
proof -
  have m: "x mod 1024 = 64 * (x div 64 mod 16) + x mod 64" using mod_mult2_eq [of x 64 16] by simp
  show a: "x mod 1024 div 64 = x div 64 mod 16" unfolding m by simp
  show b: "x div 1024 = x div 64 div 16" using div_mult2_eq [of x 64 16] by simp
  have "16 * (x div 64 div 16) + x div 64 mod 16 = x div 64" "64 * (x div 64) + x mod 64 = x"
    by (rule mult_div_mod_eq)+
  then show "1024 * (x div 1024) + 64 * (x mod 1024 div 64) + x mod 64 = x"
    "1024 * (x div 1024) + 64 * (x mod 1024 div 64) = 64 * (x div 64)"
    unfolding a b by linarith+
qed

lemma join_1024:
  fixes s e f :: nat
  assumes "e < 16" "f < 64"
  shows "(s * 1024 + e * 64 + f) div 1024 = s" "(s * 1024 + e * 64 + f) mod 1024 div 64 = e"
    "(s * 1024 + e * 64 + f) mod 64 = f" "64 * ((s * 1024 + e * 64 + f) div 64) = s * 1024 + e * 64"
proof -
  have eq: "s * 1024 + e * 64 + f = f + 64 * (s * 16 + e)" by simp
  have a: "(s * 1024 + e * 64 + f) div 64 = s * 16 + e" "(s * 1024 + e * 64 + f) mod 64 = f"
    unfolding eq div_mult_self2 mod_mult_self2 using assms(2) by simp_all
  then show "(s * 1024 + e * 64 + f) div 1024 = s" "(s * 1024 + e * 64 + f) mod 1024 div 64 = e"
    "(s * 1024 + e * 64 + f) mod 64 = f" "64 * ((s * 1024 + e * 64 + f) div 64) = s * 1024 + e * 64"
    using assms(1) by (simp_all add: split_1024(1,2))
qed

text \<open>Splitting a page number into slot, erase unit and page, and putting it together again.\<close>

lemma CALC_ADDRESS_split: "CALC_ADDRESS (GET_SLOT a) (CALC_EU_OFFSET a) (CALC_OFFSET_IN_EU a) = a"
proof -
  have e: "unat (GET_SLOT a) * 1024 + unat (CALC_EU_OFFSET a) * 64 + unat (CALC_OFFSET_IN_EU a) = unat a"
    unfolding unat_GET_SLOT unat_CALC_EU_OFFSET unat_CALC_OFFSET_IN_EU
    using split_1024(3) [of "unat a"] by linarith
  show ?thesis
    using unat_CALC_ADDRESS [of "GET_SLOT a" "CALC_EU_OFFSET a" "CALC_OFFSET_IN_EU a"] e unat_lt_u32 [of a]
    by (simp only: word_unat_eq_iff)
qed

lemma CALC_ADDRESS_parts:
  assumes "slot < 512" "eu < 16" "off < 64"
  shows "GET_SLOT (CALC_ADDRESS slot eu off) = slot" "CALC_EU_OFFSET (CALC_ADDRESS slot eu off) = eu"
    "CALC_OFFSET_IN_EU (CALC_ADDRESS slot eu off) = off" "CALC_ADDRESS slot eu off < NAND_PAGE_COUNT"
    "CALC_EU_START (CALC_ADDRESS slot eu off) = CALC_ADDRESS slot eu 0"
proof -
  have b: "unat slot < 512" "unat eu < 16" "unat off < 64" using assms by (simp_all add: word_less_nat_alt)
  then have u: "unat (CALC_ADDRESS slot eu off) = unat slot * 1024 + unat eu * 64 + unat off"
    "unat (CALC_ADDRESS slot eu 0) = unat slot * 1024 + unat eu * 64"
    by (simp_all add: unat_CALC_ADDRESS)
  show "GET_SLOT (CALC_ADDRESS slot eu off) = slot" "CALC_EU_OFFSET (CALC_ADDRESS slot eu off) = eu"
    "CALC_OFFSET_IN_EU (CALC_ADDRESS slot eu off) = off"
    "CALC_EU_START (CALC_ADDRESS slot eu off) = CALC_ADDRESS slot eu 0"
    unfolding word_unat_eq_iff unat_GET_SLOT unat_CALC_EU_OFFSET unat_CALC_OFFSET_IN_EU unat_CALC_EU_START u
    using join_1024 [of "unat eu" "unat off" "unat slot"] b by simp_all
  show "CALC_ADDRESS slot eu off < NAND_PAGE_COUNT"
    using u b by (simp add: word_less_nat_alt)
qed

lemma unat_or_push:
  assumes "unat a < 2 ^ n"
  shows "unat (a OR push_bit n b :: u32) = unat a + (unat b * 2 ^ n) mod 2 ^ 32"
proof -
  have d: "a AND push_bit n b = 0"
  proof (rule bit_word_eqI)
    fix j
    have "take_bit n a = a" using assms by (simp add: word_unat_eq_iff unsigned_take_bit_eq take_bit_nat_eq_self)
    then have "\<not> bit a j" if "n \<le> j" using that by (metis bit_take_bit_iff leD)
    then show "bit (a AND push_bit n b) j = bit (0::u32) j" by (auto simp: bit_and_iff bit_push_bit_iff)
  qed
  have "unat (a OR push_bit n b) = unat a OR unat (push_bit n b)" by (simp add: unsigned_or_eq)
  also have "\<dots> = unat a + unat (push_bit n b)"
    using d by (metis disjunctive_add_eq_or unsigned_0 unsigned_and_eq)
  finally show ?thesis by (simp only: unat_push_bit_u32)
qed

lemma unat_SLOT_ID_AND_EU [geometry]:
  assumes "a < NAND_PAGE_COUNT"
  shows "unat (CALCULATE_SLOT_ID_AND_EU_OFFSET a) = unat a mod 1024 div 64 + 8192 * (unat a div 1024)"
proof -
  have a: "unat a < 524288" using assms by (simp add: word_less_nat_alt)
  have low: "unat (drop_bit 6 ((a AND 1023) AND NAND_EU_MASK)) = unat a mod 1024 div 64"
    unfolding unat_drop_bit_u32 unat_eu mask_u32 unat_mod_word by simp
  have "unat a mod 1024 div 64 < 2 ^ 13" by (rule less_mult_imp_div_less) simp
  then have "unat (CALCULATE_SLOT_ID_AND_EU_OFFSET a) =
      unat (drop_bit 6 ((a AND 1023) AND NAND_EU_MASK)) + (unat (drop_bit 10 a) * 2 ^ 13) mod 2 ^ 32"
    unfolding CALCULATE_SLOT_ID_AND_EU_OFFSET_def by (intro unat_or_push) (simp only: low)
  then have "unat (CALCULATE_SLOT_ID_AND_EU_OFFSET a) = unat a mod 1024 div 64 + (unat a div 1024 * 8192) mod 2 ^ 32"
    unfolding low by (simp add: unat_drop_bit_u32)
  moreover have "unat a div 1024 < 512" using a by (intro less_mult_imp_div_less) simp
  ultimately show ?thesis by (simp add: mult.commute)
qed

lemma unat_EXTRACT_SLOT [geometry]: "unat (EXTRACT_SLOT f) = unat f div 8192 mod 512"
proof -
  have m: "(0x3fe000::u32) = push_bit 13 (mask 9)" by (simp add: mask_eq_exp_minus_1)
  have "EXTRACT_SLOT f = drop_bit 13 f AND mask 9"
    unfolding EXTRACT_SLOT_def m
    by (rule bit_word_eqI) (auto simp: bit_and_iff bit_drop_bit_eq bit_push_bit_iff bit_mask_iff possible_bit_def dest: bit_imp_le_length)
  then show ?thesis by (simp only: unat_mod_word unat_drop_bit_u32) simp
qed

lemma unat_EXTRACT_EU [geometry]: "unat (EXTRACT_EU f) = unat f mod 8192"
  unfolding EXTRACT_EU_def mask_u32 unat_mod_word by simp

lemma EXTRACT_CALCULATE:
  assumes "a < NAND_PAGE_COUNT"
  shows "EXTRACT_ADDR_FROM_SLOT_ID_AND_EU_OFFSET (CALCULATE_SLOT_ID_AND_EU_OFFSET a) = CALC_EU_START a"
proof -
  have a: "unat a < 524288" using assms by (simp add: word_less_nat_alt)
  let ?f = "CALCULATE_SLOT_ID_AND_EU_OFFSET a"
  have e: "unat a mod 1024 div 64 < 16" by (rule less_mult_imp_div_less) simp
  have s: "unat a div 1024 < 512" using a by (intro less_mult_imp_div_less) simp
  have "unat (EXTRACT_SLOT ?f) = unat a div 1024" "unat (EXTRACT_EU ?f) = unat a mod 1024 div 64"
    unfolding unat_EXTRACT_SLOT unat_EXTRACT_EU unat_SLOT_ID_AND_EU [OF assms] using e s by simp_all
  then have "unat (CALC_ADDRESS (EXTRACT_SLOT ?f) (EXTRACT_EU ?f) 0) = unat a div 1024 * 1024 + unat a mod 1024 div 64 * 64"
    using e s by (subst unat_CALC_ADDRESS) simp_all
  also have "\<dots> = 64 * (unat a div 64)" using split_1024(4) [of "unat a"] by linarith
  finally show ?thesis
    by (simp add: EXTRACT_ADDR_FROM_SLOT_ID_AND_EU_OFFSET_def word_unat_eq_iff unat_CALC_EU_START)
qed

lemma SLOT_ID_AND_EU_inj:
  assumes "a < NAND_PAGE_COUNT" "b < NAND_PAGE_COUNT"
  shows "(CALCULATE_SLOT_ID_AND_EU_OFFSET a = CALCULATE_SLOT_ID_AND_EU_OFFSET b) = (CALC_EU_START a = CALC_EU_START b)"
proof
  assume "CALCULATE_SLOT_ID_AND_EU_OFFSET a = CALCULATE_SLOT_ID_AND_EU_OFFSET b"
  with EXTRACT_CALCULATE [OF assms(1)] EXTRACT_CALCULATE [OF assms(2)] show "CALC_EU_START a = CALC_EU_START b" by simp
next
  assume "CALC_EU_START a = CALC_EU_START b"
  then have "unat a div 64 = unat b div 64" by (metis unat_CALC_EU_START nonzero_mult_div_cancel_left zero_neq_numeral)
  then show "CALCULATE_SLOT_ID_AND_EU_OFFSET a = CALCULATE_SLOT_ID_AND_EU_OFFSET b"
    using assms by (simp add: word_unat_eq_iff unat_SLOT_ID_AND_EU split_1024(1,2))
qed

lemma SLOT_ID_AND_EU_bound:
  assumes "a < NAND_PAGE_COUNT"
  shows "CALCULATE_SLOT_ID_AND_EU_OFFSET a < 0x400000"
proof -
  have a: "unat a < 524288" using assms by (simp add: word_less_nat_alt)
  have "unat a mod 1024 div 64 < 16" by (rule less_mult_imp_div_less) simp
  moreover have "unat a div 1024 < 512" using a by (intro less_mult_imp_div_less) simp
  ultimately show ?thesis using unat_SLOT_ID_AND_EU [OF assms] by (simp add: word_less_nat_alt)
qed


section \<open>Properties\<close>

text \<open>
  The value the layer stores in the spare area for a page names the page's erase unit: decoding
  it gives the start of the unit, two pages have the same value exactly when they lie in one unit,
  and no page's value is the mark of a free reserve unit or the mark of a reserve header.
\<close>

theorem slot_eu_round_trip:
  assumes "a < NAND_PAGE_COUNT" "b < NAND_PAGE_COUNT"
  shows "EXTRACT_ADDR_FROM_SLOT_ID_AND_EU_OFFSET (CALCULATE_SLOT_ID_AND_EU_OFFSET a) = CALC_EU_START a \<and>
     ((CALCULATE_SLOT_ID_AND_EU_OFFSET a = CALCULATE_SLOT_ID_AND_EU_OFFSET b) = (CALC_EU_START a = CALC_EU_START b)) \<and>
     CALCULATE_SLOT_ID_AND_EU_OFFSET a \<noteq> SEQ_NO_SLOT_AND_EU_OFFSET \<and>
     CALCULATE_SLOT_ID_AND_EU_OFFSET a \<noteq> SEQ_RESERVE_EU_IS_HEADER"
  using EXTRACT_CALCULATE [OF assms(1)] SLOT_ID_AND_EU_inj [OF assms] SLOT_ID_AND_EU_bound [OF assms(1)]
  by auto

theorem slot_eu_round_trip_witness:
  "EXTRACT_ADDR_FROM_SLOT_ID_AND_EU_OFFSET (CALCULATE_SLOT_ID_AND_EU_OFFSET 5000) = CALC_EU_START 5000 \<and>
     ((CALCULATE_SLOT_ID_AND_EU_OFFSET 5000 = CALCULATE_SLOT_ID_AND_EU_OFFSET 5001) = (CALC_EU_START 5000 = CALC_EU_START 5001)) \<and>
     CALCULATE_SLOT_ID_AND_EU_OFFSET 5000 \<noteq> SEQ_NO_SLOT_AND_EU_OFFSET \<and>
     CALCULATE_SLOT_ID_AND_EU_OFFSET 5000 \<noteq> SEQ_RESERVE_EU_IS_HEADER"
  by (rule slot_eu_round_trip) simp_all

text \<open>
  A page number is put together from its slot, its erase unit in the slot and its page in the
  unit, and the three parts are read back; every page number below the chip's page count arises so.
\<close>

theorem page_number_round_trip:
  assumes "slot < 512" "eu < 16" "off < 64"
  shows "GET_SLOT (CALC_ADDRESS slot eu off) = slot \<and> CALC_EU_OFFSET (CALC_ADDRESS slot eu off) = eu \<and>
     CALC_OFFSET_IN_EU (CALC_ADDRESS slot eu off) = off \<and> CALC_ADDRESS slot eu off < NAND_PAGE_COUNT \<and>
     (\<forall>a. CALC_ADDRESS (GET_SLOT a) (CALC_EU_OFFSET a) (CALC_OFFSET_IN_EU a) = a)"
  using CALC_ADDRESS_parts [OF assms] CALC_ADDRESS_split by blast

theorem page_number_round_trip_witness:
  "GET_SLOT (CALC_ADDRESS 511 15 63) = 511 \<and> CALC_EU_OFFSET (CALC_ADDRESS 511 15 63) = 15 \<and>
     CALC_OFFSET_IN_EU (CALC_ADDRESS 511 15 63) = 63 \<and> CALC_ADDRESS 511 15 63 < NAND_PAGE_COUNT \<and>
     (\<forall>a. CALC_ADDRESS (GET_SLOT a) (CALC_EU_OFFSET a) (CALC_OFFSET_IN_EU a) = a)"
  by (rule page_number_round_trip) simp_all

text \<open>
  A logical address stored in four bytes delivers the 12-bit offset and the 12-bit segment it
  was given, each setter leaves the other part alone, copying an address copies it exactly, and the
  copy through the previous-block field of the spare area keeps offset and segment.
\<close>

theorem logical_address_round_trip:
  "GET_LOGICAL_OFFSET (setLogicalSegment (setLogicalOffset a off) seg) = off AND 0xfff \<and>
   GET_LOGICAL_SEGMENT (setLogicalSegment (setLogicalOffset a off) seg) = seg AND 0xfff \<and>
   copyLogicalAddress to a = a \<and>
   GET_LOGICAL_OFFSET (extract_prev_address (copyPrevAddressToFlags b base a) base to) = GET_LOGICAL_OFFSET a \<and>
   GET_LOGICAL_SEGMENT (extract_prev_address (copyPrevAddressToFlags b base a) base to) = GET_LOGICAL_SEGMENT a \<and>
   (\<forall>i. \<not> (base \<le> i \<and> i < base + 3) \<longrightarrow> copyPrevAddressToFlags b base a i = b i)"
proof -
  have "copyPrevAddressToFlags b base a i = b i" if "\<not> (base \<le> i \<and> i < base + 3)" for i
    using that by (auto simp: copyPrevAddressToFlags_def addr_put_def) (simp add: addr_at_def)
  then show ?thesis
    by (simp add: offset_part.get_put segment_part.get_put extract_prev_address_def copyPrevAddressToFlags_def)
qed

theorem logical_address_round_trip_witness:
  "copyLogicalAddress init_logical_address (setLogicalSegment (setLogicalOffset init_logical_address 1023) 508) =
     setLogicalSegment (setLogicalOffset init_logical_address 1023) 508 \<and>
   copyPrevAddressToFlags (\<lambda>_. 0xff) 2048 init_logical_address 2051 = 0xff"
  using logical_address_round_trip [of init_logical_address 1023 508 init_logical_address "\<lambda>_. 0xff" 2048]
    logical_address_round_trip [of _ _ _ init_logical_address "\<lambda>_. 0xff" 2048]
  by simp

text \<open>
  The test for the first page of a slot holds for a page in the middle of a slot as well: it asks
  for a multiple of 512, and a slot has 1024 pages.
\<close>

theorem IS_FIRST_IN_SLOT_multiple_of_512: "IS_FIRST_IN_SLOT a = (unat a mod 512 = 0)"
proof -
  have "unat (push_bit 9 (drop_bit 9 a)) = unat a div 512 * 512"
    using unat_lt_u32 [of a] by (simp only: unat_push_bit_u32 unat_drop_bit_u32) simp
  then have "IS_FIRST_IN_SLOT a = (unat a = unat a div 512 * 512)"
    by (simp add: IS_FIRST_IN_SLOT_def word_unat_eq_iff)
  also have "\<dots> = (unat a mod 512 = 0)" using div_mult_mod_eq [of "unat a" 512] by linarith
  finally show ?thesis .
qed

lemma IS_FIRST_IN_SLOT_middle: "IS_FIRST_IN_SLOT 512 \<and> CALC_OFFSET_IN_SLOT 512 \<noteq> 0"
  by (simp add: IS_FIRST_IN_SLOT_multiple_of_512 CALC_OFFSET_IN_SLOT_def)

end
