(* ===== verification/Lfsr.thy ===== *)
theory Lfsr
  imports Prelude
begin

text \<open>
  The pseudo-random source of \<^verbatim>\<open>NANDFS/src/sequencing/lfsr.c\<close>, a 32-bit Galois shift register.  The
  layer draws from it when it counts obsolete pages approximately and when it starts wear leveling.
  The lemmas show that a step is a bijection that leaves only 0 fixed at 0, so that a register
  that starts nonzero never runs dry and returns to its initial state.
\<close>

unbundle bit_operations_syntax

definition LFSR_MASK :: u32 where "LFSR_MASK = 0x80200003"

definition LFSR_STATE_INITIAL :: u32 where "LFSR_STATE_INITIAL = 0x63478395"

definition TACT_LFSR :: "u32 \<Rightarrow> u32" where
  "TACT_LFSR lfsr_state = drop_bit 1 lfsr_state XOR (if lfsr_state AND 1 \<noteq> 0 then LFSR_MASK else 0)"

text \<open>The random bit and the number, each with the state left behind.\<close>

definition gen_rand_bit :: "nat \<Rightarrow> u32 \<Rightarrow> u32 \<times> u32" where
  "gen_rand_bit needed_prob lfsr_state =
     ((if lfsr_state AND (push_bit needed_prob 1 - 1) = 0 then 1 else 0), (TACT_LFSR ^^ needed_prob) lfsr_state)"

definition get_random_num :: "nat \<Rightarrow> u32 \<Rightarrow> u32 \<times> u32" where
  "get_random_num bits_num lfsr_state =
     ((push_bit bits_num 1 - 1) AND lfsr_state, snd (gen_rand_bit bits_num lfsr_state))"

section \<open>A step can be undone\<close>

definition untact :: "u32 \<Rightarrow> u32" where
  "untact t = (if bit t 31 then push_bit 1 (t XOR LFSR_MASK) OR 1 else push_bit 1 t)"

declare bit_numeral_word_iff [simp del]
declare bit_0 [simp del]

lemma LFSR_MASK_bit: "bit LFSR_MASK 31"
  by code_simp

lemma u32_odd_bit: "(x AND 1 \<noteq> 0) = bit (x :: u32) 0"
  using and_exp_eq_0_iff_not_bit [of x 0] by simp

lemma TACT_bit_31: "bit (TACT_LFSR s) 31 = bit s 0"
  by (auto simp: TACT_LFSR_def u32_odd_bit bit_xor_iff bit_drop_bit_eq LFSR_MASK_bit dest: bit_imp_le_length)

lemma untact_TACT: "untact (TACT_LFSR s) = s"
proof (cases "bit s 0")
  case True
  then have "TACT_LFSR s XOR LFSR_MASK = drop_bit 1 s"
    by (simp add: TACT_LFSR_def u32_odd_bit xor.assoc)
  moreover have "push_bit 1 (drop_bit 1 s) OR 1 = s"
  proof (rule bit_word_eqI)
    fix j
    assume "j < LENGTH(32)"
    then show "bit (push_bit 1 (drop_bit 1 s) OR 1) j = bit s j"
      unfolding bit_or_iff bit_push_bit_iff bit_drop_bit_eq bit_1_iff
      using True by (cases "j = 0") (auto simp: possible_bit_def)
  qed
  ultimately show ?thesis using True by (simp only: untact_def TACT_bit_31 if_True)
next
  case False
  have "push_bit 1 (drop_bit 1 s) = s"
  proof (rule bit_word_eqI)
    fix j
    assume "j < LENGTH(32)"
    then show "bit (push_bit 1 (drop_bit 1 s)) j = bit s j"
      unfolding bit_push_bit_iff bit_drop_bit_eq
      using False by (cases "j = 0") (auto simp: possible_bit_def)
  qed
  moreover have "TACT_LFSR s = drop_bit 1 s" using False by (simp add: TACT_LFSR_def u32_odd_bit)
  ultimately show ?thesis using False TACT_bit_31 [of s] by (simp only: untact_def if_False)
qed

lemma TACT_inj: "inj TACT_LFSR"
  by (rule inj_on_inverseI [where g = untact]) (rule untact_TACT)

lemma TACT_0 [simp]: "TACT_LFSR 0 = 0"
  by (simp add: TACT_LFSR_def)

lemma TACT_nonzero: "s \<noteq> 0 \<Longrightarrow> TACT_LFSR s \<noteq> 0"
  using TACT_inj [THEN injD, of s 0] by auto

lemma TACT_pow_nonzero: "s \<noteq> 0 \<Longrightarrow> (TACT_LFSR ^^ n) s \<noteq> 0"
  by (induction n) (auto simp: TACT_nonzero)

lemma rand_mask: "n < 32 \<Longrightarrow> push_bit n 1 - 1 = (mask n :: u32)"
  by (simp add: mask_eq_exp_minus_1)

lemma random_num_bound:
  assumes "n < 32"
  shows "unat (fst (get_random_num n s)) < 2 ^ n"
proof -
  have "unat (s AND mask n) = unat s mod 2 ^ n" by (rule unat_mod_word)
  then show ?thesis by (simp only: get_random_num_def fst_conv rand_mask [OF assms] and.commute) simp
qed

lemma finite_inj_recurs:
  fixes f :: "'a :: finite \<Rightarrow> 'a"
  assumes "inj f"
  shows "\<exists>n>0. (f ^^ n) x = x"
proof -
  have "\<not> inj (\<lambda>n. (f ^^ n) x)"
    using finite_imageD [of "\<lambda>n. (f ^^ n) x" UNIV] by (auto intro: finite_subset [of _ "UNIV :: 'a set"])
  then obtain m n where mn: "m \<noteq> n" "(f ^^ m) x = (f ^^ n) x" by (auto simp: inj_def)
  define k where "k = min m n"
  define d where "d = max m n - k"
  have d: "d > 0" "(f ^^ (k + d)) x = (f ^^ k) x"
    using mn by (auto simp: k_def d_def min_def max_def split: if_splits)
  have "inj (f ^^ k)" using assms by (rule inj_fn)
  with d(2) have "(f ^^ d) x = x" by (auto simp: funpow_add dest: injD)
  with d(1) show ?thesis by blast
qed

section \<open>Properties\<close>

text \<open>
  A register that holds a nonzero state never reaches 0, whatever number of bits is drawn, a
  number of \<open>n\<close> bits is below \<open>2 ^ n\<close>, a drawn bit is 1 exactly when the low bits of the state are
  all 0, and the register returns to its state after a positive number of steps.
\<close>

theorem lfsr_never_dry:
  assumes "s \<noteq> 0" "n < 32"
  shows "snd (gen_rand_bit n s) \<noteq> 0 \<and> snd (get_random_num n s) \<noteq> 0 \<and>
     unat (fst (get_random_num n s)) < 2 ^ n \<and> (fst (gen_rand_bit n s) = 1 \<longleftrightarrow> unat s mod 2 ^ n = 0) \<and>
     (\<exists>k>0. (TACT_LFSR ^^ k) s = s)"
proof -
  have m: "unat (s AND mask n) = unat s mod 2 ^ n" by (rule unat_mod_word)
  then have "(s AND mask n = 0) = (unat s mod 2 ^ n = 0)" by (simp add: word_unat_eq_iff)
  then have "fst (gen_rand_bit n s) = 1 \<longleftrightarrow> unat s mod 2 ^ n = 0"
    by (simp only: gen_rand_bit_def fst_conv rand_mask [OF assms(2)]) simp
  then show ?thesis
    using random_num_bound [OF assms(2)] TACT_pow_nonzero [OF assms(1)] finite_inj_recurs [OF TACT_inj]
    by (simp add: gen_rand_bit_def get_random_num_def)
qed

theorem lfsr_never_dry_witness:
  "snd (gen_rand_bit 9 LFSR_STATE_INITIAL) \<noteq> 0 \<and> snd (get_random_num 9 LFSR_STATE_INITIAL) \<noteq> 0 \<and>
     unat (fst (get_random_num 9 LFSR_STATE_INITIAL)) < 2 ^ 9 \<and>
     (fst (gen_rand_bit 9 LFSR_STATE_INITIAL) = 1 \<longleftrightarrow> unat LFSR_STATE_INITIAL mod 2 ^ 9 = 0) \<and>
     (\<exists>k>0. (TACT_LFSR ^^ k) LFSR_STATE_INITIAL = LFSR_STATE_INITIAL)"
  by (rule lfsr_never_dry) (simp_all add: LFSR_STATE_INITIAL_def)

end
