(* ===== verification/SegMap.thy ===== *)
theory SegMap
  imports Addr Lfsr
begin

text \<open>
  The state of the sequencing layer: the segment map, the counters of obsolete pages, the page
  buffer and the random source (\<^verbatim>\<open>NANDFS/src/sequencing/sequencing.h\<close>), on top of the chip's
  state, with the accessors of the segment map, the counters and the cache of good erase units
  (\<^verbatim>\<open>sequencingUtils.c\<close>).

  \<open>obs_mem\<close> is the memory of \<open>obs_counters_map\<close> byte by byte: 256 bytes of 4-bit counters, the two
  32-bit counts at 256 and 260, and the 8 bytes after the struct, which the checkpoint reader
  overwrites.  An access outside these 272 bytes, or outside the 512 entries of the segment map,
  is \<open>None\<close>.
\<close>

unbundle bit_operations_syntax

record seq = nand +
  seg_to_slot_map :: "nat \<Rightarrow> u16"
  reclaimed_logical_addr :: logical_addr
  previously_written_segment :: u32
  reserve_eu_addr :: u32
  nSegments :: u32
  is_eu_reserve :: u32
  new_slot_id :: u32
  valid_eus :: "u32 list"
  sequence_num :: u64
  obs_mem :: buf
  lfsr_state :: u32
  sequencing_buffer :: buf
  obsolete_byte :: u8

section \<open>The segment map\<close>

definition GET_SEG_MAP_SLOT_FOR_SEG :: "u32 \<Rightarrow> 'z seq_scheme \<Rightarrow> u32 option" where
  "GET_SEG_MAP_SLOT_FOR_SEG seg_id s =
     (if seg_id < SEQ_N_SLOTS_COUNT then Some (ucast (seg_to_slot_map s (unat seg_id))) else None)"

text \<open>The macro's parameters are the slot and then the segment; some callers pass them the other way round.\<close>

definition SET_SEG_MAP_SLOT_FOR_SEG :: "u32 \<Rightarrow> u32 \<Rightarrow> 'z seq_scheme \<Rightarrow> 'z seq_scheme option" where
  "SET_SEG_MAP_SLOT_FOR_SEG slot_id seg_id s =
     (if seg_id < SEQ_N_SLOTS_COUNT
      then Some (s\<lparr>seg_to_slot_map := (seg_to_slot_map s)(unat seg_id := ucast slot_id)\<rparr>) else None)"

definition SET_SEGMENT_TO_SLOT :: "u32 \<Rightarrow> u32 \<Rightarrow> 'z seq_scheme \<Rightarrow> 'z seq_scheme option" where
  "SET_SEGMENT_TO_SLOT seg_num slot_id s = SET_SEG_MAP_SLOT_FOR_SEG slot_id seg_num s"

definition GET_RECLAIMED_SEGMENT :: "'z seq_scheme \<Rightarrow> u32" where
  "GET_RECLAIMED_SEGMENT s = GET_LOGICAL_SEGMENT (reclaimed_logical_addr s)"

definition GET_RECLAIMED_OFFSET :: "'z seq_scheme \<Rightarrow> u32" where
  "GET_RECLAIMED_OFFSET s = GET_LOGICAL_OFFSET (reclaimed_logical_addr s)"

definition GET_RECLAIMED_SEGMENT_SLOT :: "'z seq_scheme \<Rightarrow> u32 option" where
  "GET_RECLAIMED_SEGMENT_SLOT s = GET_SEG_MAP_SLOT_FOR_SEG (GET_RECLAIMED_SEGMENT s) s"

definition SET_RECLAIMED_SEGMENT :: "u32 \<Rightarrow> 'z seq_scheme \<Rightarrow> 'z seq_scheme" where
  "SET_RECLAIMED_SEGMENT seg_num s = s\<lparr>reclaimed_logical_addr := setLogicalSegment (reclaimed_logical_addr s) seg_num\<rparr>"

definition SET_RECLAIMED_OFFSET :: "u32 \<Rightarrow> 'z seq_scheme \<Rightarrow> 'z seq_scheme" where
  "SET_RECLAIMED_OFFSET offset s = s\<lparr>reclaimed_logical_addr := setLogicalOffset (reclaimed_logical_addr s) offset\<rparr>"

definition INCREMENT_RECLAIMED_OFFSET :: "'z seq_scheme \<Rightarrow> 'z seq_scheme" where
  "INCREMENT_RECLAIMED_OFFSET s = SET_RECLAIMED_OFFSET (GET_RECLAIMED_OFFSET s + 1) s"

definition IS_STATE_RECLAMATION :: "'z seq_scheme \<Rightarrow> bool option" where
  "IS_STATE_RECLAMATION s =
     (if nSegments s = SEQ_SEGMENTS_COUNT
      then do { slot \<leftarrow> GET_RECLAIMED_SEGMENT_SLOT s; Some (new_slot_id s \<noteq> slot) } else Some False)"

definition IS_SEG_MAP_PAGE_OFFSET_OVERFLOWING :: "'z seq_scheme \<Rightarrow> bool" where
  "IS_SEG_MAP_PAGE_OFFSET_OVERFLOWING s = (GET_RECLAIMED_OFFSET s \<ge> SEQ_PAGES_PER_SLOT \<or> GET_RECLAIMED_OFFSET s = 0)"

definition IS_LAST_RECLAIMED_PAGE_START_OF_EU :: "'z seq_scheme \<Rightarrow> bool" where
  "IS_LAST_RECLAIMED_PAGE_START_OF_EU s = (CALC_OFFSET_IN_EU (GET_RECLAIMED_OFFSET s) = 0)"

definition IS_SEG_MAP_ADDR_RESERVE :: "'z seq_scheme \<Rightarrow> bool" where
  "IS_SEG_MAP_ADDR_RESERVE s = (reserve_eu_addr s \<noteq> SEQ_PHY_ADDRESS_EMPTY)"

definition ALL_SEGMENTS_ALLOCATED :: "'z seq_scheme \<Rightarrow> bool" where
  "ALL_SEGMENTS_ALLOCATED s = (nSegments s = SEQ_SEGMENTS_COUNT)"

definition IS_NO_RESERVE_EUS :: "'z seq_scheme \<Rightarrow> bool" where
  "IS_NO_RESERVE_EUS s = (is_eu_reserve s = 0 \<and> reserve_eu_addr s = SEQ_PHY_ADDRESS_EMPTY)"

definition CALC_RECLAIMED_PHYSICAL_ADDRESS :: "'z seq_scheme \<Rightarrow> u32 option" where
  "CALC_RECLAIMED_PHYSICAL_ADDRESS s =
     do { slot \<leftarrow> GET_RECLAIMED_SEGMENT_SLOT s; Some (CALC_ADDRESS slot 0 (GET_RECLAIMED_OFFSET s)) }"

definition init_struct :: "buf \<Rightarrow> nat \<Rightarrow> nat \<Rightarrow> buf" where
  "init_struct b base n = buf_fill b base n 0xff"

definition initFlags :: "buf \<Rightarrow> nat \<Rightarrow> buf" where
  "initFlags b base = init_struct b base NAND_SPARE_SIZE"

definition init_buf :: "'z seq_scheme \<Rightarrow> 'z seq_scheme" where
  "init_buf s = s\<lparr>sequencing_buffer := init_struct (sequencing_buffer s) 0 NAND_TOTAL_SIZE\<rparr>"

text \<open>\<open>init_seg_map\<close> fills the struct with \<open>0xff\<close> and then sets the fields that need another value.\<close>

definition init_seg_map :: "'z seq_scheme \<Rightarrow> 'z seq_scheme" where
  "init_seg_map s =
     (let s1 = s\<lparr>seg_to_slot_map := (\<lambda>_. 0xffff), reclaimed_logical_addr := init_logical_address,
                previously_written_segment := 0xffffffff, reserve_eu_addr := 0xffffffff,
                nSegments := 0xffffffff, is_eu_reserve := 0xffffffff, new_slot_id := 0xffffffff,
                valid_eus := replicate 32 0xffffffff, sequence_num := 0xffffffffffffffff\<rparr>;
          s2 = s1\<lparr>seg_to_slot_map := (\<lambda>i. if i < 512 then ucast SEQ_NO_SLOT else seg_to_slot_map s1 i)\<rparr>
      in s2\<lparr>is_eu_reserve := 1, nSegments := 0\<rparr>)"

fun countSegments_loop :: "nat list \<Rightarrow> u32 \<Rightarrow> 'z seq_scheme \<Rightarrow> u32" where
  "countSegments_loop [] seg_count s = seg_count"
| "countSegments_loop (i # is) seg_count s =
     countSegments_loop is (if ucast (seg_to_slot_map s i) \<noteq> SEQ_NO_SLOT then seg_count + 1 else seg_count) s"

definition countSegments :: "bool \<Rightarrow> 'z seq_scheme \<Rightarrow> u32" where
  "countSegments isReserve s =
     (if isReserve then countSegments_loop [510..<512] 0 s else countSegments_loop [0..<509] 0 s)"

definition isAddressReserve :: "u32 \<Rightarrow> 'z seq_scheme \<Rightarrow> bool" where
  "isAddressReserve phy_addr s = list_ex (\<lambda>i. GET_SLOT phy_addr = ucast (seg_to_slot_map s i)) [510..<512]"

definition findFirstEmptySlot :: "'z seq_scheme \<Rightarrow> u32" where
  "findFirstEmptySlot s = (case List.find (\<lambda>i. ucast (seg_to_slot_map s i) = SEQ_NO_SLOT) [0..<509] of
     Some i \<Rightarrow> of_nat i | None \<Rightarrow> SEQ_NO_SEGMENT_NUM)"

definition findEmptySlot :: "'z seq_scheme \<Rightarrow> u32" where
  "findEmptySlot s = (case List.find (\<lambda>slot_idx. \<not> list_ex (\<lambda>seg_idx. ucast (seg_to_slot_map s seg_idx) = (of_nat slot_idx :: u32)) [0..<512]) [0..<512] of
     Some i \<Rightarrow> of_nat i | None \<Rightarrow> SEQ_PHY_ADDRESS_EMPTY)"

section \<open>Counters of obsolete pages\<close>

abbreviation (input) OBS_COUNT_NO_OBSOLETES :: u32 where "OBS_COUNT_NO_OBSOLETES \<equiv> 0"
abbreviation (input) OBS_COUNT_LEVEL_0 :: u32 where "OBS_COUNT_LEVEL_0 \<equiv> 1"
abbreviation (input) OBS_COUNT_LEVEL_7 :: u32 where "OBS_COUNT_LEVEL_7 \<equiv> 8"
abbreviation (input) OBS_COUNT_FULL :: u32 where "OBS_COUNT_FULL \<equiv> 9"

definition obs_byte :: "nat \<Rightarrow> 'z seq_scheme \<Rightarrow> u8 option" where
  "obs_byte i s = (if i < 272 then Some (obs_mem s i) else None)"

definition get_counter_level :: "u32 \<Rightarrow> 'z seq_scheme \<Rightarrow> u32 option" where
  "get_counter_level seg_id s = do {
     b \<leftarrow> obs_byte (unat seg_id div 2) s;
     Some (if seg_id AND 1 = 0 then ucast b AND 0x0f else drop_bit 4 (ucast b AND 0xf0))
   }"

definition change_counter_level :: "u32 \<Rightarrow> u32 \<Rightarrow> 'z seq_scheme \<Rightarrow> 'z seq_scheme option" where
  "change_counter_level level seg_id s = do {
     let i = unat (drop_bit 1 seg_id);
     b \<leftarrow> obs_byte i s;
     let v = (if seg_id AND 1 = 0 then ucast ((ucast b AND 0xf0) OR level)
              else ucast ((ucast b AND 0x0f) OR push_bit 4 level));
     Some (s\<lparr>obs_mem := (obs_mem s)(i := v)\<rparr>)
   }"

definition increment_counter :: "u32 \<Rightarrow> 'z seq_scheme \<Rightarrow> 'z seq_scheme option" where
  "increment_counter seg_id s = do {
     counter_level \<leftarrow> get_counter_level seg_id s;
     if counter_level = OBS_COUNT_LEVEL_7 then Some s else change_counter_level (counter_level + 1) seg_id s
   }"

definition le_put4 :: "buf \<Rightarrow> nat \<Rightarrow> u32 \<Rightarrow> buf" where
  "le_put4 b i v = (\<lambda>j. if i \<le> j \<and> j < i + 4 then ucast (drop_bit (8 * (j - i)) v) else b j)"

definition GET_OBS_COUNT :: "'z seq_scheme \<Rightarrow> u32" where
  "GET_OBS_COUNT s = le_bytes 4 (obs_mem s) 256"

definition SET_OBS_COUNT :: "u32 \<Rightarrow> 'z seq_scheme \<Rightarrow> 'z seq_scheme" where
  "SET_OBS_COUNT v s = s\<lparr>obs_mem := le_put4 (obs_mem s) 256 v\<rparr>"

definition GET_FREE_COUNTER :: "'z seq_scheme \<Rightarrow> u32" where
  "GET_FREE_COUNTER s = le_bytes 4 (obs_mem s) 260"

definition SET_FREE_COUNTER :: "u32 \<Rightarrow> 'z seq_scheme \<Rightarrow> 'z seq_scheme" where
  "SET_FREE_COUNTER v s = s\<lparr>obs_mem := le_put4 (obs_mem s) 260 v\<rparr>"

definition INCREASE_OBS_COUNT :: "'z seq_scheme \<Rightarrow> 'z seq_scheme" where
  "INCREASE_OBS_COUNT s = SET_OBS_COUNT (GET_OBS_COUNT s + 1) s"

definition DECREMENT_OBS_COUNT :: "'z seq_scheme \<Rightarrow> 'z seq_scheme" where
  "DECREMENT_OBS_COUNT s = SET_OBS_COUNT (GET_OBS_COUNT s - 1) s"

definition INCREMENT_FREE_COUNT :: "'z seq_scheme \<Rightarrow> 'z seq_scheme" where
  "INCREMENT_FREE_COUNT s = SET_FREE_COUNTER (GET_FREE_COUNTER s + 1) s"

definition DECREMENT_FREE_COUNT :: "'z seq_scheme \<Rightarrow> 'z seq_scheme" where
  "DECREMENT_FREE_COUNT s = SET_FREE_COUNTER (GET_FREE_COUNTER s - 1) s"

definition calcTotalFreePages :: "'z seq_scheme \<Rightarrow> u32" where
  "calcTotalFreePages s = GET_OBS_COUNT s + GET_FREE_COUNTER s"

fun init_counters_loop :: "nat list \<Rightarrow> 'z seq_scheme \<Rightarrow> 'z seq_scheme option" where
  "init_counters_loop [] s = Some s"
| "init_counters_loop (i # is) s = do {
     s1 \<leftarrow> change_counter_level OBS_COUNT_NO_OBSOLETES (of_nat i) s;
     init_counters_loop is s1
   }"

definition init_obs_counters :: "'z seq_scheme \<Rightarrow> 'z seq_scheme option" where
  "init_obs_counters s = do {
     s1 \<leftarrow> init_counters_loop [0..<512] s;
     Some (SET_FREE_COUNTER 0 (SET_OBS_COUNT 0 s1))
   }"

text \<open>
  \<open>is_flash_full\<close> compares whole bytes of the packed counters, indexed by segment, with the mark of
  a full segment.
\<close>

fun is_flash_full_loop :: "nat list \<Rightarrow> 'z seq_scheme \<Rightarrow> bool option" where
  "is_flash_full_loop [] s = Some True"
| "is_flash_full_loop (i # is) s = do {
     b \<leftarrow> obs_byte i s;
     if b \<noteq> 9 then Some False else is_flash_full_loop is s
   }"

definition is_flash_full :: "'z seq_scheme \<Rightarrow> bool option" where
  "is_flash_full s = is_flash_full_loop [0..<509] s"

section \<open>Erase units known to be good\<close>

definition seq_is_eu_known_valid :: "u32 \<Rightarrow> 'z seq_scheme \<Rightarrow> bool" where
  "seq_is_eu_known_valid eu_addr s = list_ex (\<lambda>i. valid_eus s ! i = eu_addr) [0..<32]"

fun shift_loop :: "nat list \<Rightarrow> u32 list \<Rightarrow> u32 list" where
  "shift_loop [] q = q"
| "shift_loop (i # is) q = shift_loop is (q[i := q ! (i - 1)])"

definition seq_set_eu_known_valid :: "u32 \<Rightarrow> 'z seq_scheme \<Rightarrow> 'z seq_scheme" where
  "seq_set_eu_known_valid eu_addr s =
     s\<lparr>valid_eus := (shift_loop (rev [1..<32]) (valid_eus s))[0 := eu_addr]\<rparr>"

definition seq_check_eu_status :: "u32 \<Rightarrow> 'z seq_scheme \<Rightarrow> (bool \<times> 'z seq_scheme) option" where
  "seq_check_eu_status eu_addr s = (let eu = CALC_EU_START eu_addr in
     if seq_is_eu_known_valid eu s then Some (True, s)
     else do {
       ok \<leftarrow> nandCheckEuStatus eu s;
       if ok \<noteq> 0 then Some (True, seq_set_eu_known_valid eu s) else Some (False, s)
     })"

text \<open>The random draws, on the state's register.\<close>

definition draw_bit :: "nat \<Rightarrow> 'z seq_scheme \<Rightarrow> u32 \<times> 'z seq_scheme" where
  "draw_bit n s = (let (b, l) = gen_rand_bit n (lfsr_state s) in (b, s\<lparr>lfsr_state := l\<rparr>))"

definition draw_num :: "nat \<Rightarrow> 'z seq_scheme \<Rightarrow> u32 \<times> 'z seq_scheme" where
  "draw_num n s = (let (b, l) = get_random_num n (lfsr_state s) in (b, s\<lparr>lfsr_state := l\<rparr>))"

section \<open>Fields left alone\<close>

lemma seg_map_set_sel [simp]:
  "nand.truncate (SET_RECLAIMED_OFFSET v s) = nand.truncate s"
  "nand.truncate (SET_RECLAIMED_SEGMENT v s) = nand.truncate s"
  by (simp_all add: SET_RECLAIMED_OFFSET_def SET_RECLAIMED_SEGMENT_def nand.defs)

lemma reclaimed_parts [simp]:
  "GET_RECLAIMED_OFFSET (SET_RECLAIMED_OFFSET v s) = v AND 0xfff"
  "GET_RECLAIMED_SEGMENT (SET_RECLAIMED_OFFSET v s) = GET_RECLAIMED_SEGMENT s"
  "GET_RECLAIMED_SEGMENT (SET_RECLAIMED_SEGMENT v s) = v AND 0xfff"
  "GET_RECLAIMED_OFFSET (SET_RECLAIMED_SEGMENT v s) = GET_RECLAIMED_OFFSET s"
  by (simp_all add: GET_RECLAIMED_OFFSET_def GET_RECLAIMED_SEGMENT_def SET_RECLAIMED_OFFSET_def
      SET_RECLAIMED_SEGMENT_def offset_part.get_put segment_part.get_put)

section \<open>The interface of the counters\<close>

locale level_counters =
  fixes get :: "u32 \<Rightarrow> 's \<Rightarrow> u32 option" and set_level :: "u32 \<Rightarrow> u32 \<Rightarrow> 's \<Rightarrow> 's option" and size :: u32 and top :: u32
  assumes get_some: "i < size \<Longrightarrow> \<exists>v. get i s = Some v \<and> v < top"
    and set_some: "i < size \<Longrightarrow> v < top \<Longrightarrow> \<exists>s'. set_level v i s = Some s' \<and> get i s' = Some v \<and>
      (\<forall>j. j < size \<longrightarrow> j \<noteq> i \<longrightarrow> get j s' = get j s)"
begin

lemma set_cases:
  assumes "i < size" "v < top"
  obtains s' where "set_level v i s = Some s'" "get i s' = Some v"
    "\<And>j. j < size \<Longrightarrow> j \<noteq> i \<Longrightarrow> get j s' = get j s"
  using set_some [OF assms, of s] by blast

text \<open>Setting one counter after the other, as the initialisation does.\<close>

fun set_all :: "u32 \<Rightarrow> u32 list \<Rightarrow> 's \<Rightarrow> 's option" where
  "set_all v [] s = Some s"
| "set_all v (i # is) s = Option.bind (set_level v i s) (set_all v is)"

lemma set_all_get:
  assumes "v < top" "\<forall>i\<in>set is. i < size"
  shows "\<exists>s'. set_all v is s = Some s' \<and>
    (\<forall>j. j < size \<longrightarrow> get j s' = (if j \<in> set is then Some v else get j s))"
  using assms(2)
proof (induction "is" arbitrary: s)
  case (Cons i "is")
  then obtain s1 where s1: "set_level v i s = Some s1" "get i s1 = Some v"
    "\<And>j. j < size \<Longrightarrow> j \<noteq> i \<Longrightarrow> get j s1 = get j s"
    using set_cases [of i v s] assms(1) by auto
  obtain s' where s': "set_all v is s1 = Some s'"
    "\<And>j. j < size \<Longrightarrow> get j s' = (if j \<in> set is then Some v else get j s1)"
    using Cons.IH [of s1] Cons.prems by auto
  have "get j s' = (if j \<in> set (i # is) then Some v else get j s)" if "j < size" for j
    using that s1 s'(2) [OF that] by (cases "j = i") auto
  with s1 s' show ?case by auto
qed simp

end

lemma u32_even: "(x AND 1 = (0::u32)) = even (unat x)"
proof -
  have "unat (x AND mask 1) = unat x mod 2" by (simp only: unat_mod_word) simp
  then show ?thesis by (simp add: word_unat_eq_iff even_iff_mod_2_eq_zero)
qed

lemma bit_u8_low4: "v < 16 \<Longrightarrow> bit (v :: u32) j \<Longrightarrow> j < 4"
proof -
  assume v: "v < 16" and b: "bit v j"
  then have "unat v < 2 ^ 4" by (simp add: word_less_nat_alt)
  then have "v = take_bit 4 v"
    by (simp add: word_unat_eq_iff unsigned_take_bit_eq take_bit_nat_eq_self)
  with b show "j < 4" by (metis bit_take_bit_iff)
qed

lemma nibble_bounds: "ucast (b :: u8) AND 0x0f < (16 :: u32)" "drop_bit 4 (ucast (b :: u8) AND 0xf0) < (16 :: u32)"
proof -
  have "ucast b AND 0x0f \<le> (0xf :: u32)" by (rule word_and_le1)
  then show "ucast b AND 0x0f < (16 :: u32)" by (simp add: word_le_nat_alt word_less_nat_alt)
  have "unat (ucast b AND 0xf0 :: u32) \<le> 0xf0" using unat_and_mask_le [of "ucast b" "0xf0"] by simp
  then show "drop_bit 4 (ucast (b :: u8) AND 0xf0) < (16 :: u32)"
    by (simp only: word_less_nat_alt unat_drop_bit_u32) simp
qed

lemma nibble_set:
  assumes "v < (16 :: u32)"
  shows "ucast (ucast ((ucast (b :: u8) AND 0xf0) OR v) :: u8) AND 0x0f = v"
    "drop_bit 4 (ucast (ucast ((ucast b AND 0xf0) OR v) :: u8) AND 0xf0) = drop_bit 4 (ucast b AND (0xf0 :: u32))"
    "drop_bit 4 (ucast (ucast ((ucast b AND 0x0f) OR push_bit 4 v) :: u8) AND 0xf0) = v"
    "ucast (ucast ((ucast b AND 0x0f) OR push_bit 4 v) :: u8) AND 0x0f = ucast b AND (0x0f :: u32)"
  by (rule bit_word_eqI; auto simp: addr_bits dest: bit_u8_low4 [OF assms] bit_u8_lt)+

lemma seg_half: "i < SEQ_N_SLOTS_COUNT \<Longrightarrow> unat (i :: u32) div 2 < 272"
  by (simp add: word_less_nat_alt)

interpretation counters: level_counters get_counter_level change_counter_level SEQ_N_SLOTS_COUNT 16
proof
  fix i :: u32 and s :: "'z seq_scheme"
  assume "i < SEQ_N_SLOTS_COUNT"
  then show "\<exists>v. get_counter_level i s = Some v \<and> v < 16"
    using nibble_bounds by (simp add: get_counter_level_def obs_byte_def seg_half)
next
  fix i v :: u32 and s :: "'z seq_scheme"
  assume i: "i < SEQ_N_SLOTS_COUNT" and v: "v < 16"
  have h: "unat (drop_bit 1 i) = unat i div 2" by (simp only: unat_drop_bit_u32) simp
  have "get_counter_level j (s\<lparr>obs_mem := (obs_mem s)(unat i div 2 :=
      (if i AND 1 = 0 then ucast ((ucast (obs_mem s (unat i div 2)) AND 0xf0) OR v)
       else ucast ((ucast (obs_mem s (unat i div 2)) AND 0x0f) OR push_bit 4 v)))\<rparr>) =
      (if j = i then Some v else get_counter_level j s)" if "j < SEQ_N_SLOTS_COUNT" for j
  proof (cases "unat j div 2 = unat i div 2")
    case True
    have "j = i \<longleftrightarrow> (even (unat j) = even (unat i))"
      using True by (auto simp: word_unat_eq_iff) presburger
    then show ?thesis
      using True seg_half [OF i] nibble_set [OF v] by (auto simp: get_counter_level_def obs_byte_def u32_even)
  next
    case False
    then show ?thesis by (auto simp: get_counter_level_def obs_byte_def)
  qed
  then show "\<exists>s'. change_counter_level v i s = Some s' \<and> get_counter_level i s' = Some v \<and>
      (\<forall>j. j < SEQ_N_SLOTS_COUNT \<longrightarrow> j \<noteq> i \<longrightarrow> get_counter_level j s' = get_counter_level j s)"
    unfolding change_counter_level_def obs_byte_def h using i seg_half [OF i] by (simp add: Let_def)
qed


section \<open>Counters: initialisation and increment\<close>

lemma get_counter_cong: "\<forall>i<256. obs_mem s i = obs_mem t i \<Longrightarrow> j < 512 \<Longrightarrow> get_counter_level j s = get_counter_level j t"
  by (auto simp: get_counter_level_def obs_byte_def word_less_nat_alt)

lemma SET_counts_levels [simp]:
  "j < 512 \<Longrightarrow> get_counter_level j (SET_OBS_COUNT v s) = get_counter_level j s"
  "j < 512 \<Longrightarrow> get_counter_level j (SET_FREE_COUNTER v s) = get_counter_level j s"
  by (rule get_counter_cong; simp add: SET_OBS_COUNT_def SET_FREE_COUNTER_def le_put4_def)+

lemma le_bytes_put4: "le_bytes 4 (le_put4 b i v) i = (v :: u32)"
proof (rule bit_word_eqI)
  fix j
  assume j: "j < LENGTH(32)"
  then have "j div 8 < 4" by (simp add: less_mult_imp_div_less)
  then show "bit (le_bytes 4 (le_put4 b i v) i :: u32) j = bit v j"
    using j by (simp add: bit_le_bytes le_put4_def bit_unsigned_iff bit_drop_bit_eq possible_bit_def)
qed

lemma le_bytes_cong: "(\<And>k. k < n \<Longrightarrow> b (i + k) = b' (i + k)) \<Longrightarrow> le_bytes n b i = le_bytes n b' i"
  by (induction n) auto

lemma counts_get_set [simp]:
  "GET_OBS_COUNT (SET_OBS_COUNT v s) = v" "GET_FREE_COUNTER (SET_FREE_COUNTER v s) = v"
  "GET_OBS_COUNT (SET_FREE_COUNTER v s) = GET_OBS_COUNT s" "GET_FREE_COUNTER (SET_OBS_COUNT v s) = GET_FREE_COUNTER s"
proof -
  show "GET_OBS_COUNT (SET_FREE_COUNTER v s) = GET_OBS_COUNT s" "GET_FREE_COUNTER (SET_OBS_COUNT v s) = GET_FREE_COUNTER s"
    unfolding GET_OBS_COUNT_def GET_FREE_COUNTER_def
    by (rule le_bytes_cong; simp add: SET_OBS_COUNT_def SET_FREE_COUNTER_def le_put4_def)+
qed (simp_all add: GET_OBS_COUNT_def SET_OBS_COUNT_def GET_FREE_COUNTER_def SET_FREE_COUNTER_def le_bytes_put4)

lemma init_counters_loop_set_all: "init_counters_loop is s = counters.set_all OBS_COUNT_NO_OBSOLETES (map of_nat is) s"
proof (induction "is" arbitrary: s)
  case (Cons i "is")
  then show ?case by (cases "change_counter_level 0 (of_nat i) s") simp_all
qed simp

lemma init_obs_counters_levels:
  "\<exists>s'. init_obs_counters s = Some s' \<and> (\<forall>j. j < 512 \<longrightarrow> get_counter_level j s' = Some 0) \<and>
     GET_OBS_COUNT s' = 0 \<and> GET_FREE_COUNTER s' = 0"
proof -
  have small: "\<forall>i\<in>set (map of_nat [0..<512]). i < (512 :: u32)"
    by (auto simp: word_less_nat_alt unat_of_nat)
  have all: "j \<in> set (map of_nat [0..<512])" if "j < (512 :: u32)" for j
    using that by (auto simp: word_less_nat_alt intro!: image_eqI [where x = "unat j"])
  obtain s1 where "init_counters_loop [0..<512] s = Some s1" "\<And>j. j < 512 \<Longrightarrow> get_counter_level j s1 = Some 0"
    using counters.set_all_get [OF _ small, of 0 s] all unfolding init_counters_loop_set_all by auto
  then show ?thesis by (simp add: init_obs_counters_def)
qed

lemma increment_counter_simp:
  assumes "j < 512" "get_counter_level j s = Some v"
  shows "increment_counter j s = (if v = 8 then Some s else change_counter_level (v + 1) j s)"
  using assms by (simp add: increment_counter_def)

section \<open>The cache of good erase units\<close>

lemma shift_loop_length [simp]: "length (shift_loop is q) = length q"
  by (induction "is" q rule: shift_loop.induct) simp_all

lemma shift_loop_nth:
  "n < length q \<Longrightarrow> k < length q \<Longrightarrow>
   shift_loop (rev [1..<Suc n]) q ! k = (if 1 \<le> k \<and> k \<le> n then q ! (k - 1) else q ! k)"
proof (induction n arbitrary: q)
  case (Suc n)
  have "rev [1..<Suc (Suc n)] = Suc n # rev [1..<Suc n]" by simp
  then show ?case
    using Suc.IH [of "q[Suc n := q ! n]"] Suc.prems by (auto simp: nth_list_update le_Suc_eq)
qed simp

lemma seq_set_eu_known_valid_eq:
  assumes "length (valid_eus s) = 32"
  shows "seq_set_eu_known_valid e s = s\<lparr>valid_eus := e # butlast (valid_eus s)\<rparr>"
proof -
  have "(shift_loop (rev [1..<32]) (valid_eus s))[0 := e] = e # butlast (valid_eus s)"
  proof (rule nth_equalityI)
    fix k
    assume "k < length ((shift_loop (rev [1..<32]) (valid_eus s))[0 := e])"
    then have k: "k < 32" using assms by simp
    show "(shift_loop (rev [1..<32]) (valid_eus s))[0 := e] ! k = (e # butlast (valid_eus s)) ! k"
      using shift_loop_nth [of 31 "valid_eus s" k] assms k
      by (cases k) (auto simp: nth_butlast nth_list_update)
  qed (simp add: assms)
  then show ?thesis by (simp only: seq_set_eu_known_valid_def)
qed

lemma seq_is_eu_known_valid_iff:
  "length (valid_eus s) = 32 \<Longrightarrow> seq_is_eu_known_valid e s = (e \<in> set (valid_eus s))"
  by (auto simp: seq_is_eu_known_valid_def list_ex_iff in_set_conv_nth)

text \<open>
  The invariant of the cache: 32 entries, each one the empty mark or the start of a good erase unit
  of the chip.
\<close>

definition eus_ok :: "'z seq_scheme \<Rightarrow> bool" where
  "eus_ok s = (length (valid_eus s) = 32 \<and>
     (\<forall>e\<in>set (valid_eus s). e = SEQ_PHY_ADDRESS_EMPTY \<or> eu_good e s))"

lemma eu_good_start [simp]: "eu_good (CALC_EU_START a) s = eu_good a s"
  by (simp add: eu_good_def CALC_EU_START_def)

lemma eu_good_upd [simp]: "eu_good a (s\<lparr>valid_eus := q\<rparr>) = eu_good a s" "eu_readable a (s\<lparr>valid_eus := q\<rparr>) = eu_readable a s"
  by (simp_all add: eu_good_def eu_readable_def)

lemma CALC_EU_START_not_empty: "CALC_EU_START a \<noteq> SEQ_PHY_ADDRESS_EMPTY"
proof
  assume "CALC_EU_START a = SEQ_PHY_ADDRESS_EMPTY"
  then have "64 * (unat a div 64) = 4294967295" using unat_CALC_EU_START [of a] by simp
  then have "64 dvd (4294967295::nat)" by (metis dvd_triv_left)
  then show False by simp
qed

lemma seq_check_eu_status_ok:
  assumes "a < NAND_PAGE_COUNT" "fps s" "eu_readable a s" "eus_ok s"
  obtains q where "seq_check_eu_status a s = Some (eu_good a s, s\<lparr>valid_eus := q\<rparr>)" "eus_ok (s\<lparr>valid_eus := q\<rparr>)"
proof -
  let ?e = "CALC_EU_START a"
  have len: "length (valid_eus s) = 32" using assms(4) by (simp add: eus_ok_def)
  have e: "?e < NAND_PAGE_COUNT" using eu_le [OF assms(1)] by (simp add: CALC_EU_START_def)
  have r: "eu_readable ?e s" using assms(3) by (simp add: eu_readable_def CALC_EU_START_def)
  have st: "nandCheckEuStatus ?e s = Some (if eu_good a s then 1 else 0)"
    using nandCheckEuStatus_good [OF e assms(2) r] by simp
  show ?thesis
  proof (cases "?e \<in> set (valid_eus s)")
    case True
    then have "eu_good ?e s" using assms(4) CALC_EU_START_not_empty [of a] by (auto simp: eus_ok_def)
    then have "seq_check_eu_status a s = Some (eu_good a s, s\<lparr>valid_eus := valid_eus s\<rparr>)"
      using True len by (simp add: seq_check_eu_status_def seq_is_eu_known_valid_iff Let_def)
    then show ?thesis using assms(4) by (intro that [of "valid_eus s"]) simp_all
  next
    case False
    then have chk: "seq_check_eu_status a s =
        Some (eu_good a s, if eu_good a s then s\<lparr>valid_eus := ?e # butlast (valid_eus s)\<rparr> else s)"
      using len st by (simp add: seq_check_eu_status_def seq_is_eu_known_valid_iff seq_set_eu_known_valid_eq Let_def)
    show ?thesis
    proof (cases "eu_good a s")
      case True
      have "eus_ok (s\<lparr>valid_eus := ?e # butlast (valid_eus s)\<rparr>)"
        using assms(4) True by (auto simp: eus_ok_def dest: in_set_butlastD)
      with chk True show ?thesis by (intro that) simp_all
    next
      case False
      with chk assms(4) show ?thesis by (intro that [of "valid_eus s"]) simp_all
    qed
  qed
qed

section \<open>Properties\<close>

text \<open>
  The packed 4-bit counters behave as 512 separate counters.  Setting one reads back and leaves
  the 511 others alone, the initialisation sets every one to 0 together with the two page counts,
  and the increment adds 1 below level 8 and stops at level 8.
\<close>

theorem obs_counters_separate:
  assumes "i < 512" "v < 16"
  shows "(\<exists>s'. change_counter_level v i s = Some s' \<and> get_counter_level i s' = Some v \<and>
       (\<forall>j. j < 512 \<longrightarrow> j \<noteq> i \<longrightarrow> get_counter_level j s' = get_counter_level j s)) \<and>
     (\<exists>s'. init_obs_counters s = Some s' \<and> (\<forall>j. j < 512 \<longrightarrow> get_counter_level j s' = Some 0) \<and>
       GET_OBS_COUNT s' = 0 \<and> GET_FREE_COUNTER s' = 0) \<and>
     (\<forall>l. get_counter_level i s = Some l \<longrightarrow> l \<le> 8 \<longrightarrow>
       (\<exists>s'. increment_counter i s = Some s' \<and> get_counter_level i s' = Some (if l = 8 then 8 else l + 1) \<and>
         (\<forall>j. j < 512 \<longrightarrow> j \<noteq> i \<longrightarrow> get_counter_level j s' = get_counter_level j s)))"
proof (intro conjI allI impI)
  fix l
  assume l: "get_counter_level i s = Some l" "l \<le> 8"
  have "l + 1 < 16" using l(2) by (simp add: word_le_nat_alt word_less_nat_alt unat_word_ariths)
  then show "\<exists>s'. increment_counter i s = Some s' \<and> get_counter_level i s' = Some (if l = 8 then 8 else l + 1) \<and>
      (\<forall>j. j < 512 \<longrightarrow> j \<noteq> i \<longrightarrow> get_counter_level j s' = get_counter_level j s)"
    using counters.set_some [OF assms(1), of "l + 1" s] l increment_counter_simp [OF assms(1) l(1)] by auto
qed (use counters.set_some [OF assms, of s] init_obs_counters_levels in blast)+

text \<open>A sequencing layer over a blank chip just after its structs were initialised, for the witnesses.\<close>

definition blank_seq :: seq where
  "blank_seq = nand.extend blank_chip \<lparr>seg_to_slot_map = \<lambda>_. 0xfff, reclaimed_logical_addr = init_logical_address,
     previously_written_segment = 0xffffffff, reserve_eu_addr = 0xffffffff, nSegments = 0, is_eu_reserve = 1,
     new_slot_id = 0xffffffff, valid_eus = replicate 32 0xffffffff, sequence_num = 0xffffffffffffffff,
     obs_mem = \<lambda>_. 0, lfsr_state = LFSR_STATE_INITIAL, sequencing_buffer = \<lambda>_. 0xff, obsolete_byte = 0x7f\<rparr>"

lemma blank_seq_sel [simp]:
  "cells blank_seq = (\<lambda>_ _. 0xff)" "main_area_writes blank_seq = (\<lambda>_. 0)" "spare_writes blank_seq = (\<lambda>_. 0)"
  "fps blank_seq" "erase_buf blank_seq = (\<lambda>_. 0xff)" "rd_fail blank_seq = (\<lambda>_. False)"
  "wr_fail blank_seq = (\<lambda>_. False)" "junk blank_seq = (\<lambda>_. 0)"
  "seg_to_slot_map blank_seq = (\<lambda>_. 0xfff)" "reclaimed_logical_addr blank_seq = init_logical_address"
  "previously_written_segment blank_seq = 0xffffffff" "reserve_eu_addr blank_seq = 0xffffffff"
  "nSegments blank_seq = 0" "is_eu_reserve blank_seq = 1" "new_slot_id blank_seq = 0xffffffff"
  "valid_eus blank_seq = replicate 32 0xffffffff" "sequence_num blank_seq = 0xffffffffffffffff"
  "obs_mem blank_seq = (\<lambda>_. 0)" "lfsr_state blank_seq = LFSR_STATE_INITIAL"
  "sequencing_buffer blank_seq = (\<lambda>_. 0xff)" "obsolete_byte blank_seq = 0x7f"
  by (simp_all add: blank_seq_def nand.defs blank_chip_def)

theorem obs_counters_separate_witness:
  "\<exists>s'. change_counter_level 9 77 blank_seq = Some s' \<and> get_counter_level 77 s' = Some 9 \<and>
       (\<forall>j. j < 512 \<longrightarrow> j \<noteq> 77 \<longrightarrow> get_counter_level j s' = get_counter_level j blank_seq)"
  using obs_counters_separate [of 77 9 blank_seq] by simp

text \<open>
  The cached status of an erase unit is the chip's status.  For a readable unit the check
  answers whether the unit is good, changes nothing but the cache, and keeps the cache's invariant.
\<close>

theorem seq_check_eu_status_sound:
  assumes "a < NAND_PAGE_COUNT" "fps s" "eu_readable a s" "eus_ok s"
  shows "\<exists>q. seq_check_eu_status a s = Some (eu_good a s, s\<lparr>valid_eus := q\<rparr>) \<and> eus_ok (s\<lparr>valid_eus := q\<rparr>)"
  by (rule seq_check_eu_status_ok [OF assms]) blast

theorem seq_check_eu_status_sound_witness:
  "\<exists>q. seq_check_eu_status 1000 blank_seq = Some (eu_good 1000 blank_seq, blank_seq\<lparr>valid_eus := q\<rparr>) \<and>
     eus_ok (blank_seq\<lparr>valid_eus := q\<rparr>)"
  by (rule seq_check_eu_status_sound) (simp_all add: eu_readable_def eus_ok_def)

text \<open>
  A counter that was set to the mark of a full segment goes on counting, and from 15 the increment
  overflows into the neighbour's half of the byte.
\<close>

lemma increment_counter_full:
  "j < 512 \<Longrightarrow> get_counter_level j s = Some OBS_COUNT_FULL \<Longrightarrow>
   \<exists>s'. increment_counter j s = Some s' \<and> get_counter_level j s' = Some 10"
  using counters.set_some [of j 10 s] by (auto simp: increment_counter_simp)

lemma increment_counter_overflow:
  "\<exists>s'. increment_counter 4 (blank_seq\<lparr>obs_mem := \<lambda>_. 0x0f\<rparr>) = Some s' \<and> get_counter_level 5 s' = Some 1"
  by (simp add: increment_counter_def change_counter_level_def get_counter_level_def obs_byte_def drop_bit_eq_div)

text \<open>
  A chip on which every segment's counter holds the mark of a full segment is not reported full: two
  marks share a byte, and the test compares the byte with a single mark.
\<close>

lemma is_flash_full_packed:
  "\<forall>i<256. obs_mem s i = 0x99 \<Longrightarrow> is_flash_full s = Some False \<and> (\<forall>j<512. get_counter_level j s = Some OBS_COUNT_FULL)"
proof (intro conjI allI impI)
  assume full: "\<forall>i<256. obs_mem s i = 0x99"
  have "[0..<509] = 0 # [1..<509]" by (simp add: upt_rec)
  then show "is_flash_full s = Some False" using full by (simp add: is_flash_full_def obs_byte_def)
  fix j :: u32
  assume "j < 512"
  then have "unat j div 2 < 256" by (simp add: word_less_nat_alt)
  then show "get_counter_level j s = Some OBS_COUNT_FULL"
    using full by (simp add: get_counter_level_def obs_byte_def)
qed

end
