(* ===== verification/Reserve.thy ===== *)
theory Reserve
  imports SegMap
begin

text \<open>
  From logical addresses to pages, and the reserve erase units that stand in for bad ones
  (\<^verbatim>\<open>sequencingUtils.c\<close>).  Two slots hold reserve units.  Each search visits the 16 units of each
  reserve slot in a ring that starts at the offset of the unit asked for; the ring is \<open>eu_ring\<close>,
  with the loop's body as a parameter and fuel for its 16 turns.  The locale \<open>eu_search\<close> states
  what a body has to do, and its lemma turns the search into the first hit in a list.
\<close>

unbundle bit_operations_syntax

section \<open>The ring of reserve units\<close>

fun eu_ring :: "nat \<Rightarrow> (u32 \<Rightarrow> 's \<Rightarrow> ('r option \<times> 's) option) \<Rightarrow> u32 \<Rightarrow> u32 \<Rightarrow> u32 \<Rightarrow> 's \<Rightarrow> ('r option \<times> 's) option" where
  "eu_ring 0 body eu_offset reserve_slot_eu_offset reserve_slot_address st = None"
| "eu_ring (Suc n) body eu_offset reserve_slot_eu_offset reserve_slot_address st = do {
     (r, st1) \<leftarrow> body reserve_slot_address st;
     if r \<noteq> None then Some (r, st1)
     else (let off1 = reserve_slot_eu_offset + 1;
               addr1 = reserve_slot_address + 64;
               (off2, addr2) = (if off1 = SEQ_EUS_PER_SLOT then (0, addr1 - SEQ_PAGES_PER_SLOT) else (off1, addr1))
           in if off2 \<noteq> eu_offset then eu_ring n body eu_offset off2 addr2 st1 else Some (None, st1))
   }"

text \<open>The outer loop over the reserve segments; \<open>slot_of\<close> reads the segment map in the current state.\<close>

fun reserve_segs ::
  "(u32 \<Rightarrow> 's \<Rightarrow> u32 option) \<Rightarrow> (u32 \<Rightarrow> 's \<Rightarrow> ('r option \<times> 's) option) \<Rightarrow> u32 \<Rightarrow> u32 list \<Rightarrow> 's \<Rightarrow> ('r option \<times> 's) option" where
  "reserve_segs slot_of body eu_offset [] st = Some (None, st)"
| "reserve_segs slot_of body eu_offset (seg_idx # segs) st = do {
     slot \<leftarrow> slot_of seg_idx st;
     (r, st1) \<leftarrow> eu_ring 16 body eu_offset eu_offset (CALC_ADDRESS slot eu_offset 0) st;
     if r \<noteq> None then Some (r, st1) else reserve_segs slot_of body eu_offset segs st1
   }"

definition map_slot :: "u32 \<Rightarrow> buf \<times> 'z seq_scheme \<Rightarrow> u32 option" where
  "map_slot seg st = GET_SEG_MAP_SLOT_FOR_SEG seg (snd st)"

definition find_body :: "u32 \<Rightarrow> u32 \<Rightarrow> u32 \<Rightarrow> buf \<times> 'z seq_scheme \<Rightarrow> (u32 option \<times> buf \<times> 'z seq_scheme) option" where
  "find_body expected_slot_id_and_eu_offset eu_page_offset reserve_slot_address = (\<lambda>(flags, s). do {
     ok \<leftarrow> nandCheckEuStatus reserve_slot_address s;
     if ok \<noteq> 0 then do {
       (_, flags1) \<leftarrow> nandReadPageFlags (initFlags flags 0) reserve_slot_address s;
       if GET_SLOT_EU_OFFSET flags1 0 = expected_slot_id_and_eu_offset \<and> GET_COPY_BACK_FLAG flags1 0 = 1
       then Some (Some (reserve_slot_address + eu_page_offset), flags1, s)
       else Some (None, flags1, s)
     } else Some (None, flags, s)
   })"

text \<open>The search for the reserve unit that replaces a bad one: the address and the caller's flags buffer.\<close>

definition logicalAddressToReservePhysical :: "buf \<Rightarrow> u32 \<Rightarrow> 'z seq_scheme \<Rightarrow> (u32 \<times> buf) option" where
  "logicalAddressToReservePhysical flags phy_addr s = do {
     (r, flags1, _) \<leftarrow> reserve_segs map_slot
        (find_body (CALCULATE_SLOT_ID_AND_EU_OFFSET phy_addr) (CALC_OFFSET_IN_EU phy_addr))
        (CALC_EU_OFFSET phy_addr) [510, 511] (flags, s);
     Some (case r of Some a \<Rightarrow> a | None \<Rightarrow> SEQ_PHY_ADDRESS_EMPTY, flags1)
   }"

definition logicalAddressToPhysical :: "logical_addr \<Rightarrow> 'z seq_scheme \<Rightarrow> (u32 \<times> 'z seq_scheme) option" where
  "logicalAddressToPhysical logical_addr s = do {
     slot \<leftarrow> GET_SEG_MAP_SLOT_FOR_SEG (GET_LOGICAL_SEGMENT logical_addr) s;
     assert_c (slot \<noteq> SEQ_NO_SLOT);
     assert_c (GET_LOGICAL_OFFSET logical_addr < SEQ_PAGES_PER_SLOT);
     rec \<leftarrow> IS_STATE_RECLAMATION s;
     let phy_page_addr =
       (if rec \<and> GET_LOGICAL_SEGMENT logical_addr = GET_RECLAIMED_SEGMENT s \<and>
           GET_LOGICAL_OFFSET logical_addr < GET_RECLAIMED_OFFSET s
        then CALC_ADDRESS (new_slot_id s) 0 (GET_LOGICAL_OFFSET logical_addr)
        else CALC_ADDRESS slot 0 (GET_LOGICAL_OFFSET logical_addr));
     (ok, s1) \<leftarrow> seq_check_eu_status (CALC_EU_START phy_page_addr) s;
     if ok then Some (phy_page_addr, s1)
     else do {
       (r, _) \<leftarrow> logicalAddressToReservePhysical (junk s1) phy_page_addr s1;
       Some (r, s1)
     }
   }"

definition is_page_marked_obsolete :: "u32 \<Rightarrow> 'z seq_scheme \<Rightarrow> bool option" where
  "is_page_marked_obsolete phy_addr s = do {
     (_, flags) \<leftarrow> nandReadPageFlags (junk s) phy_addr s;
     Some (GET_OBS_FLAG flags 0 = 0)
   }"

text \<open>The \<open>eu_location\<close>-th good erase unit of a slot, counted from 1.\<close>

fun valid_eu_loop :: "nat \<Rightarrow> u32 \<Rightarrow> u32 \<Rightarrow> u32 \<Rightarrow> 'z seq_scheme \<Rightarrow> (u32 \<times> 'z seq_scheme) option" where
  "valid_eu_loop 0 phy_addr eu_location bound s = None"
| "valid_eu_loop (Suc n) phy_addr eu_location bound s = do {
     (ok, s1) \<leftarrow> seq_check_eu_status phy_addr s;
     let eu_location1 = (if ok then eu_location - 1 else eu_location);
     if ok \<and> eu_location1 = 0 then Some (phy_addr, s1)
     else if phy_addr + 64 < bound then valid_eu_loop n (phy_addr + 64) eu_location1 bound s1
     else Some (SEQ_PHY_ADDRESS_EMPTY, s1)
   }"

definition get_valid_eu_addr_in_location :: "u32 \<Rightarrow> u32 \<Rightarrow> 'z seq_scheme \<Rightarrow> (u32 \<times> 'z seq_scheme) option" where
  "get_valid_eu_addr_in_location slot_id eu_location s = do {
     assert_c (slot_id < SEQ_N_SLOTS_COUNT);
     valid_eu_loop 16 (CALC_ADDRESS slot_id 0 0) eu_location (CALC_ADDRESS (slot_id + 1) 0 0) s
   }"

definition GET_COPYBACK_EU :: "'z seq_scheme \<Rightarrow> (u32 \<times> 'z seq_scheme) option" where
  "GET_COPYBACK_EU s = do {
     slot \<leftarrow> GET_SEG_MAP_SLOT_FOR_SEG SEQ_FIRST_RESERVE_SEGMENT s;
     get_valid_eu_addr_in_location slot 2 s
   }"

definition alloc_body :: "u32 \<Rightarrow> u32 \<Rightarrow> u32 \<Rightarrow> buf \<times> 'z seq_scheme \<Rightarrow> (u32 option \<times> buf \<times> 'z seq_scheme) option" where
  "alloc_body cb_eu_addr eu_page_offset reserve_slot_address = (\<lambda>(flags, s). do {
     (ok, s1) \<leftarrow> seq_check_eu_status reserve_slot_address s;
     if ok \<and> cb_eu_addr \<noteq> reserve_slot_address then do {
       (_, flags1) \<leftarrow> nandReadPageFlags flags reserve_slot_address s1;
       if GET_SLOT_EU_OFFSET flags1 0 = SEQ_NO_SLOT_AND_EU_OFFSET
       then Some (Some (reserve_slot_address + eu_page_offset), flags1, s1)
       else Some (None, flags1, s1)
     } else Some (None, flags, s1)
   })"

definition allocReserveEU :: "buf \<Rightarrow> u32 \<Rightarrow> 'z seq_scheme \<Rightarrow> (u32 \<times> buf \<times> 'z seq_scheme) option" where
  "allocReserveEU flags phy_addr s = do {
     (cb_eu_addr, s1) \<leftarrow> GET_COPYBACK_EU s;
     assert_c (\<not> IS_PHY_ADDR_EMPTY cb_eu_addr);
     (r, flags1, s2) \<leftarrow> reserve_segs map_slot (alloc_body cb_eu_addr (CALC_OFFSET_IN_EU phy_addr))
        (CALC_EU_OFFSET phy_addr) [510, 511] (flags, s1);
     Some (case r of Some a \<Rightarrow> a | None \<Rightarrow> SEQ_PHY_ADDRESS_EMPTY, flags1, s2)
   }"

definition IS_PAGE_USED :: "buf \<Rightarrow> nat \<Rightarrow> bool" where
  "IS_PAGE_USED b base = (GET_SEG_TYPE_FLAG b base \<noteq> 7)"

definition replace_body :: "u32 \<Rightarrow> u32 \<Rightarrow> buf \<times> 'z seq_scheme \<Rightarrow> (int option \<times> buf \<times> 'z seq_scheme) option" where
  "replace_body expected_cb_eu reserve_slot_address = (\<lambda>(flags, s).
     if reserve_slot_address \<noteq> expected_cb_eu then do {
       (ok, s1) \<leftarrow> seq_check_eu_status reserve_slot_address s;
       if ok then do {
         (_, flags1) \<leftarrow> nandReadPageFlags flags reserve_slot_address s1;
         if \<not> IS_PAGE_USED flags1 0 then do {
           (e, s2) \<leftarrow> nandErase reserve_slot_address s1;
           Some (Some e, flags1, s2)
         } else Some (None, flags1, s1)
       } else do {
         (_, s2) \<leftarrow> nandErase reserve_slot_address s1;
         (ok2, s3) \<leftarrow> seq_check_eu_status reserve_slot_address s2;
         if ok2 then do {
           (_, flags1) \<leftarrow> nandReadPageFlags flags reserve_slot_address s3;
           if \<not> IS_PAGE_USED flags1 0 then do {
             (e, s4) \<leftarrow> nandErase reserve_slot_address s3;
             Some (Some e, flags1, s4)
           } else Some (None, flags1, s3)
         } else Some (None, flags, s3)
       }
     } else Some (None, flags, s))"

definition erasePossibleEUReplacement :: "u32 \<Rightarrow> 'z seq_scheme \<Rightarrow> (int \<times> 'z seq_scheme) option" where
  "erasePossibleEUReplacement phy_addr s = do {
     slot \<leftarrow> GET_SEG_MAP_SLOT_FOR_SEG SEQ_FIRST_RESERVE_SEGMENT s;
     (expected_cb_eu, s1) \<leftarrow> get_valid_eu_addr_in_location slot 1 s;
     if IS_PHY_ADDR_EMPTY expected_cb_eu then Some (1, s1)
     else do {
       (r, _, s2) \<leftarrow> reserve_segs map_slot (replace_body expected_cb_eu) (CALC_EU_OFFSET phy_addr) [510, 511] (junk s1, s1);
       Some (case r of Some e \<Rightarrow> e | None \<Rightarrow> 1, s2)
     }
   }"

fun count_eus_loop :: "nat \<Rightarrow> u32 \<Rightarrow> u32 \<Rightarrow> u32 \<Rightarrow> 'z seq_scheme \<Rightarrow> (u32 \<times> 'z seq_scheme) option" where
  "count_eus_loop 0 phy_addr count bound s = None"
| "count_eus_loop (Suc n) phy_addr count bound s =
     (if phy_addr < bound then do {
        (ok, s1) \<leftarrow> seq_check_eu_status phy_addr s;
        count_eus_loop n (phy_addr + 64) (if ok then count + 1 else count) bound s1
      } else Some (count, s))"

definition count_valid_eus :: "u32 \<Rightarrow> 'z seq_scheme \<Rightarrow> (u32 \<times> 'z seq_scheme) option" where
  "count_valid_eus slot_id s = count_eus_loop 17 (CALC_ADDRESS slot_id 0 0) 0 (CALC_ADDRESS (slot_id + 1) 0 0) s"

definition calc_target_phy_addr :: "'z seq_scheme \<Rightarrow> u32 option" where
  "calc_target_phy_addr s =
     (if IS_SEG_MAP_ADDR_RESERVE s then Some (reserve_eu_addr s + CALC_OFFSET_IN_EU (GET_RECLAIMED_OFFSET s))
      else do {
        rec \<leftarrow> IS_STATE_RECLAMATION s;
        if \<not> rec then CALC_RECLAIMED_PHYSICAL_ADDRESS s
        else Some (CALC_ADDRESS (new_slot_id s) 0 (GET_RECLAIMED_OFFSET s))
      })"

definition calcOriginalSlotOffset :: "buf \<Rightarrow> u32 \<Rightarrow> 'z seq_scheme \<Rightarrow> (u32 \<times> buf) option" where
  "calcOriginalSlotOffset flags reserve_addr s = do {
     (_, flags1) \<leftarrow> nandReadPageFlags flags reserve_addr s;
     Some (CALC_OFFSET_IN_SLOT (EXTRACT_ADDR_FROM_SLOT_ID_AND_EU_OFFSET (GET_SLOT_EU_OFFSET flags1 0)) +
           CALC_OFFSET_IN_EU reserve_addr, flags1)
   }"

section \<open>The ring visits sixteen units\<close>

text \<open>The units in the order the ring visits them, and a scan of a list with early exit.\<close>

definition ring_units :: "u32 \<Rightarrow> u32 \<Rightarrow> u32 list" where
  "ring_units slot e = map (\<lambda>k. CALC_ADDRESS slot (of_nat ((unat e + k) mod 16)) 0) [0..<16]"

fun scan :: "(u32 \<Rightarrow> 's \<Rightarrow> ('r option \<times> 's) option) \<Rightarrow> u32 list \<Rightarrow> 's \<Rightarrow> ('r option \<times> 's) option" where
  "scan body [] st = Some (None, st)"
| "scan body (a # as) st = do {
     (r, st1) \<leftarrow> body a st;
     if r \<noteq> None then Some (r, st1) else scan body as st1
   }"

lemma CALC_ADDRESS_next: "CALC_ADDRESS slot e 0 + 64 = CALC_ADDRESS slot (e + 1) 0"
  by (simp add: CALC_ADDRESS_def push_bit_eq_mult algebra_simps)

lemma CALC_ADDRESS_wrap: "CALC_ADDRESS slot 16 0 - SEQ_PAGES_PER_SLOT = CALC_ADDRESS slot 0 0"
  by (simp add: CALC_ADDRESS_def)

lemma of_nat_u32_eq: "i < 16 \<Longrightarrow> j < 16 \<Longrightarrow> (of_nat i = (of_nat j :: u32)) = (i = j)"
  by (simp add: word_unat_eq_iff unat_of_nat)

lemma eu_ring_scan_step:
  assumes "k < 16" "unat e < 16"
  shows "eu_ring (16 - k) body e (of_nat ((unat e + k) mod 16)) (CALC_ADDRESS slot (of_nat ((unat e + k) mod 16)) 0) st
    = scan body (map (\<lambda>k. CALC_ADDRESS slot (of_nat ((unat e + k) mod 16)) 0) [k..<16]) st"
  using assms
proof (induction "15 - k" arbitrary: k st)
  case 0
  then have k: "k = 15" by simp
  let ?o = "of_nat ((unat e + 15) mod 16) :: u32"
  have e: "e = of_nat (unat e)" by simp
  have "(if ?o + 1 = 16 then 0 else ?o + 1) = e"
  proof (cases "unat e = 0")
    case True
    then have "e = 0" by (simp add: word_unat_eq_iff)
    with True show ?thesis by simp
  next
    case False
    then have "(unat e + 15) mod 16 = unat e - 1" using 0 by (simp add: mod_if)
    moreover have "of_nat (unat e - 1) + 1 = e" using False by (simp add: word_unat_eq_iff unat_word_ariths)
    moreover have "e \<noteq> 16" using 0 by auto
    ultimately show ?thesis by simp
  qed
  then have last: "\<not> (let (off2, addr2) = (if ?o + 1 = 16 then (0, X) else (?o + 1, Y)) in off2 \<noteq> e)" for X Y :: u32
    by (simp split: if_splits)
  have fuel: "16 - 15 = Suc 0" and up: "[15..<16] = [15]" by (simp_all add: upt_rec)
  show ?case
    unfolding k fuel up eu_ring.simps(2) scan.simps list.map
    by (rule bind_option_cong) (use last in \<open>auto simp: Let_def split: prod.splits if_splits\<close>)
next
  case (Suc d)
  then have k: "k < 15" "15 - Suc k = d" "Suc k < 16" by simp_all
  let ?m = "(unat e + k) mod 16" and ?n = "(unat e + Suc k) mod 16"
  have m: "?m < 16" by simp
  have step: "(if (of_nat ?m :: u32) + 1 = 16 then (0, CALC_ADDRESS slot (of_nat ?m) 0 + 64 - SEQ_PAGES_PER_SLOT)
      else (of_nat ?m + 1, CALC_ADDRESS slot (of_nat ?m) 0 + 64)) = (of_nat ?n, CALC_ADDRESS slot (of_nat ?n) 0)"
  proof (cases "?m = 15")
    case True
    then have "?n = 0" by (simp add: mod_Suc)
    with True show ?thesis by (simp add: CALC_ADDRESS_next CALC_ADDRESS_wrap)
  next
    case False
    then have n: "?n = Suc ?m" by (simp add: mod_Suc)
    have "(of_nat ?m :: u32) + 1 = of_nat (Suc ?m)" by simp
    moreover have "(of_nat (Suc ?m) :: u32) \<noteq> 16" using False m
      by (simp add: word_unat_eq_iff unat_of_nat del: of_nat_Suc)
    ultimately show ?thesis unfolding n CALC_ADDRESS_next by (simp add: add.commute [of 1])
  qed
  have "?n \<noteq> unat e"
    using k Suc.prems by (cases "unat e + Suc k < 16") (auto simp: mod_if)
  then have ne: "(of_nat ?n :: u32) \<noteq> e"
    using Suc.prems of_nat_u32_eq [of ?n "unat e"] by simp
  have IH: "eu_ring (15 - k) body e (of_nat ?n) (CALC_ADDRESS slot (of_nat ?n) 0) st'
      = scan body (map (\<lambda>k. CALC_ADDRESS slot (of_nat ((unat e + k) mod 16)) 0) [Suc k..<16]) st'" for st'
    using Suc.hyps(1) [of "Suc k" st'] k Suc.prems by simp
  have fuel: "16 - k = Suc (15 - k)" and up: "[k..<16] = k # [Suc k..<16]" using k by (simp_all add: upt_conv_Cons)
  show ?case
    unfolding fuel eu_ring.simps step up list.map scan.simps Let_def prod.case
    using ne IH by (auto intro!: bind_option_cong split: prod.splits)
qed

lemma eu_ring_scan:
  assumes "unat e < 16"
  shows "eu_ring 16 body e e (CALC_ADDRESS slot e 0) st = scan body (ring_units slot e) st"
  using eu_ring_scan_step [of 0 e body slot st] assms by (simp add: ring_units_def)


section \<open>The interface of a search\<close>

text \<open>
  A body that, in the states of \<open>inv\<close> and on the units of \<open>can\<close>, accepts a unit or not and keeps the
  invariant.  The client lemma turns the search into \<open>List.find\<close>.
\<close>

locale eu_search =
  fixes body :: "u32 \<Rightarrow> 's \<Rightarrow> ('r option \<times> 's) option" and inv :: "'s \<Rightarrow> bool"
    and can :: "u32 \<Rightarrow> bool" and accept :: "u32 \<Rightarrow> bool" and result :: "u32 \<Rightarrow> 'r"
  assumes body_law: "inv st \<Longrightarrow> can a \<Longrightarrow>
    \<exists>st'. body a st = Some (if accept a then Some (result a) else None, st') \<and> inv st'"
begin

lemma scan_find:
  "inv st \<Longrightarrow> \<forall>a\<in>set as. can a \<Longrightarrow>
   \<exists>st'. scan body as st = Some (map_option result (List.find accept as), st') \<and> inv st'"
proof (induction as arbitrary: st)
  case (Cons a as)
  then obtain st1 where st1: "body a st = Some (if accept a then Some (result a) else None, st1)" "inv st1"
    using body_law [of st a] by auto
  then show ?case using Cons.IH [of st1] Cons.prems by (cases "accept a") auto
qed simp

lemma reserve_segs_find:
  assumes "unat e < 16" "inv st" "\<And>g st. g \<in> set segs \<Longrightarrow> inv st \<Longrightarrow> slot_of g st = Some (slot g)"
    and "\<And>g a. g \<in> set segs \<Longrightarrow> a \<in> set (ring_units (slot g) e) \<Longrightarrow> can a"
  shows "\<exists>st'. reserve_segs slot_of body e segs st =
      Some (map_option result (List.find accept (concat (map (\<lambda>g. ring_units (slot g) e) segs))), st') \<and> inv st'"
  using assms(2-)
proof (induction segs arbitrary: st)
  case (Cons g segs)
  have "slot_of g st = Some (slot g)" using Cons.prems by simp
  moreover have "\<forall>a\<in>set (ring_units (slot g) e). can a" using Cons.prems(3) [of g] by simp
  from scan_find [OF Cons.prems(1) this] obtain st1 where st1: "scan body (ring_units (slot g) e) st =
      Some (map_option result (List.find accept (ring_units (slot g) e)), st1)" "inv st1"
    by blast
  ultimately have seg: "reserve_segs slot_of body e (g # segs) st =
      (if List.find accept (ring_units (slot g) e) \<noteq> None
       then Some (map_option result (List.find accept (ring_units (slot g) e)), st1)
       else reserve_segs slot_of body e segs st1)"
    by (simp add: eu_ring_scan [OF assms(1)])
  have app: "List.find accept (xs @ ys) = (case List.find accept xs of None \<Rightarrow> List.find accept ys | Some x \<Rightarrow> Some x)" for xs ys
    by (induction xs) auto
  have "\<exists>st2. reserve_segs slot_of body e segs st1 =
      Some (map_option result (List.find accept (concat (map (\<lambda>g. ring_units (slot g) e) segs))), st2) \<and> inv st2"
    by (rule Cons.IH [OF st1(2)]) (use Cons.prems(2,3) in \<open>force+\<close>)
  then obtain st2 where "reserve_segs slot_of body e segs st1 =
      Some (map_option result (List.find accept (concat (map (\<lambda>g. ring_units (slot g) e) segs))), st2)" "inv st2"
    by blast
  with seg st1(2) show ?case
    by (cases "List.find accept (ring_units (slot g) e)") (auto simp: app)
qed simp

end

text \<open>Both searches for a reserve unit meet the interface.\<close>

definition find_inv :: "'z seq_scheme \<Rightarrow> buf \<times> 'z seq_scheme \<Rightarrow> bool" where
  "find_inv s0 st = (snd st = s0 \<and> fps s0)"

definition can_read_eu :: "'z seq_scheme \<Rightarrow> u32 \<Rightarrow> bool" where
  "can_read_eu s0 a = (a < NAND_PAGE_COUNT \<and> eu_readable a s0 \<and> \<not> rd_fail s0 a)"

definition replaces :: "u32 \<Rightarrow> 'z seq_scheme \<Rightarrow> u32 \<Rightarrow> bool" where
  "replaces phy_addr s a = (eu_good a s \<and> GET_SLOT_EU_OFFSET (cells s a) 2048 = CALCULATE_SLOT_ID_AND_EU_OFFSET phy_addr \<and>
     GET_COPY_BACK_FLAG (cells s a) 2048 = 1)"

interpretation find_search: eu_search
  "find_body (CALCULATE_SLOT_ID_AND_EU_OFFSET phy_addr) (CALC_OFFSET_IN_EU phy_addr)" "find_inv s0" "can_read_eu s0"
  "replaces phy_addr s0" "\<lambda>a. a + CALC_OFFSET_IN_EU phy_addr" for phy_addr s0
proof
  fix st a
  assume "find_inv s0 st" "can_read_eu s0 a"
  then obtain flags where st: "st = (flags, s0)" and a: "fps s0" "a < NAND_PAGE_COUNT" "eu_readable a s0" "\<not> rd_fail s0 a"
    by (cases st) (auto simp: find_inv_def can_read_eu_def)
  have "nandCheckEuStatus a s0 = Some (if eu_good a s0 then 1 else 0)"
    using nandCheckEuStatus_good a by blast
  then show "\<exists>st'. find_body (CALCULATE_SLOT_ID_AND_EU_OFFSET phy_addr) (CALC_OFFSET_IN_EU phy_addr) a st =
      Some (if replaces phy_addr s0 a then Some (a + CALC_OFFSET_IN_EU phy_addr) else None, st') \<and> find_inv s0 st'"
    using a by (auto simp: st find_body_def replaces_def nandReadPageFlags_simp find_inv_def)
qed

definition alloc_inv :: "'z seq_scheme \<Rightarrow> buf \<times> 'z seq_scheme \<Rightarrow> bool" where
  "alloc_inv s0 st = (\<exists>q. snd st = s0\<lparr>valid_eus := q\<rparr> \<and> eus_ok (snd st) \<and> fps s0)"

definition unassigned :: "u32 \<Rightarrow> 'z seq_scheme \<Rightarrow> u32 \<Rightarrow> bool" where
  "unassigned cb s a = (eu_good a s \<and> a \<noteq> cb \<and> GET_SLOT_EU_OFFSET (cells s a) 2048 = SEQ_NO_SLOT_AND_EU_OFFSET)"

interpretation alloc_search: eu_search
  "alloc_body cb off" "alloc_inv s0" "can_read_eu s0" "unassigned cb s0" "\<lambda>a. a + off" for cb off s0
proof
  fix st a
  assume "alloc_inv s0 st" "can_read_eu s0 a"
  then obtain flags q where st: "st = (flags, s0\<lparr>valid_eus := q\<rparr>)" "eus_ok (s0\<lparr>valid_eus := q\<rparr>)"
    and a: "fps s0" "a < NAND_PAGE_COUNT" "eu_readable a s0" "\<not> rd_fail s0 a"
    by (cases st) (auto simp: alloc_inv_def can_read_eu_def)
  obtain q' where q': "seq_check_eu_status a (s0\<lparr>valid_eus := q\<rparr>) = Some (eu_good a s0, s0\<lparr>valid_eus := q'\<rparr>)"
    "eus_ok (s0\<lparr>valid_eus := q'\<rparr>)"
    using seq_check_eu_status_ok [of a "s0\<lparr>valid_eus := q\<rparr>"] a st(2) by auto
  have rd: "nandReadPageFlags flags a (s0\<lparr>valid_eus := q'\<rparr>) =
      Some (0, buf_copy flags 0 (cells s0 a) NAND_PAGE_SIZE NAND_SPARE_SIZE)"
    using nandReadPageFlags_simp [of a "s0\<lparr>valid_eus := q'\<rparr>" flags] a by simp
  have inv: "alloc_inv s0 (f, s0\<lparr>valid_eus := q'\<rparr>)" for f
    using q'(2) a(1) by (auto simp: alloc_inv_def)
  show "\<exists>st'. alloc_body cb off a st =
      Some (if unassigned cb s0 a then Some (a + off) else None, st') \<and> alloc_inv s0 st'"
    using inv q'(1) rd unfolding st(1) alloc_body_def unassigned_def
    by (cases "eu_good a s0"; cases "cb = a";
        cases "GET_SLOT_EU_OFFSET (cells s0 a) 2048 = SEQ_NO_SLOT_AND_EU_OFFSET") simp_all
qed

section \<open>What the searches find\<close>

definition reserve_slot :: "'z seq_scheme \<Rightarrow> u32 \<Rightarrow> u32" where
  "reserve_slot s g = ucast (seg_to_slot_map s (unat g))"

definition reserve_units :: "'z seq_scheme \<Rightarrow> u32 \<Rightarrow> u32 list" where
  "reserve_units s phy_addr = concat (map (\<lambda>g. ring_units (reserve_slot s g) (CALC_EU_OFFSET phy_addr)) [510, 511])"

text \<open>The two reserve slots exist and their units can be read.\<close>

definition reserve_ok :: "'z seq_scheme \<Rightarrow> bool" where
  "reserve_ok s = (fps s \<and> reserve_slot s 510 < 512 \<and> reserve_slot s 511 < 512 \<and>
     (\<forall>a. a < NAND_PAGE_COUNT \<longrightarrow> isAddressReserve a s \<longrightarrow> eu_readable a s \<and> \<not> rd_fail s a))"

definition is_reserve_unit :: "'z seq_scheme \<Rightarrow> u32 \<Rightarrow> bool" where
  "is_reserve_unit s a = (a < NAND_PAGE_COUNT \<and> CALC_OFFSET_IN_EU a = 0 \<and> isAddressReserve a s)"

lemma isAddressReserve_iff:
  "isAddressReserve a s = (GET_SLOT a = reserve_slot s 510 \<or> GET_SLOT a = reserve_slot s 511)"
  by (simp add: isAddressReserve_def reserve_slot_def upt_rec)

lemma CALC_EU_OFFSET_small: "unat (CALC_EU_OFFSET a) < 16" "CALC_EU_OFFSET a < 16" "CALC_OFFSET_IN_EU a < 64"
proof -
  show "unat (CALC_EU_OFFSET a) < 16"
    unfolding unat_CALC_EU_OFFSET by (rule less_mult_imp_div_less) simp
  then show "CALC_EU_OFFSET a < 16" by (simp add: word_less_nat_alt)
  show "CALC_OFFSET_IN_EU a < 64" by (simp add: word_less_nat_alt unat_CALC_OFFSET_IN_EU)
qed

lemma set_ring_units:
  assumes "unat e < 16"
  shows "set (ring_units slot e) = (\<lambda>k. CALC_ADDRESS slot (of_nat k) 0) ` {..<16}"
proof -
  have perm: "(\<lambda>k. (unat e + k) mod 16) ` {..<16} = {..<16}"
  proof (rule card_subset_eq)
    have "inj_on (\<lambda>k. (unat e + k) mod 16) {..<16}"
    proof (rule inj_onI)
      fix x y
      assume xy: "x \<in> {..<16}" "y \<in> {..<16}" and eq: "(unat e + x) mod 16 = (unat e + y) mod 16"
      have "(unat e + z) mod 16 = (if unat e + z < 16 then unat e + z else unat e + z - 16)" if "z < 16" for z
        using that assms by (simp add: mod_if)
      with xy eq show "x = y" by (auto split: if_splits)
    qed
    then show "card ((\<lambda>k. (unat e + k) mod 16) ` {..<16}) = card {..<(16::nat)}" by (simp add: card_image)
  qed auto
  have "set (ring_units slot e) = (\<lambda>k. CALC_ADDRESS slot (of_nat k) 0) ` ((\<lambda>k. (unat e + k) mod 16) ` {..<16})"
    unfolding ring_units_def by (simp only: image_image set_map set_upt) (simp add: atLeast0LessThan)
  then show ?thesis unfolding perm .
qed

lemma unit_parts:
  assumes "slot < 512" "k < 16"
  shows "CALC_ADDRESS slot (of_nat k) 0 < NAND_PAGE_COUNT" "GET_SLOT (CALC_ADDRESS slot (of_nat k) 0) = slot"
    "CALC_OFFSET_IN_EU (CALC_ADDRESS slot (of_nat k) 0) = 0" "CALC_EU_START (CALC_ADDRESS slot (of_nat k) 0) = CALC_ADDRESS slot (of_nat k) 0"
proof -
  have "(of_nat k :: u32) < 16" using assms(2) by (simp add: word_less_nat_alt unat_of_nat)
  then show "CALC_ADDRESS slot (of_nat k) 0 < NAND_PAGE_COUNT" "GET_SLOT (CALC_ADDRESS slot (of_nat k) 0) = slot"
    "CALC_OFFSET_IN_EU (CALC_ADDRESS slot (of_nat k) 0) = 0" "CALC_EU_START (CALC_ADDRESS slot (of_nat k) 0) = CALC_ADDRESS slot (of_nat k) 0"
    using CALC_ADDRESS_parts [of slot "of_nat k" 0] assms by simp_all
qed

lemma set_reserve_units:
  assumes "reserve_ok s"
  shows "set (reserve_units s phy_addr) = {a. is_reserve_unit s a}"
proof -
  have ring: "set (ring_units slot (CALC_EU_OFFSET phy_addr)) = {a. a < NAND_PAGE_COUNT \<and> CALC_OFFSET_IN_EU a = 0 \<and> GET_SLOT a = slot}"
    if slot: "slot < 512" for slot
  proof (intro set_eqI iffI)
    fix a
    assume "a \<in> set (ring_units slot (CALC_EU_OFFSET phy_addr))"
    then show "a \<in> {a. a < NAND_PAGE_COUNT \<and> CALC_OFFSET_IN_EU a = 0 \<and> GET_SLOT a = slot}"
      using unit_parts [OF slot] by (auto simp: set_ring_units CALC_EU_OFFSET_small)
  next
    fix a
    assume "a \<in> {a. a < NAND_PAGE_COUNT \<and> CALC_OFFSET_IN_EU a = 0 \<and> GET_SLOT a = slot}"
    then have "a = CALC_ADDRESS slot (of_nat (unat (CALC_EU_OFFSET a))) 0" using CALC_ADDRESS_split [of a] by simp
    then show "a \<in> set (ring_units slot (CALC_EU_OFFSET phy_addr))"
      using CALC_EU_OFFSET_small(1) [of a] unfolding set_ring_units [OF CALC_EU_OFFSET_small(1)] by blast
  qed
  then show ?thesis
    using assms by (auto simp: reserve_units_def is_reserve_unit_def isAddressReserve_iff reserve_ok_def)
qed

lemma reserve_can_read: "reserve_ok s \<Longrightarrow> is_reserve_unit s a \<Longrightarrow> can_read_eu s a"
  by (auto simp: reserve_ok_def is_reserve_unit_def can_read_eu_def)

lemma map_slot_find: "g \<in> set [510, 511] \<Longrightarrow> find_inv s st \<Longrightarrow> map_slot g st = Some (reserve_slot s g)"
  by (auto simp: map_slot_def find_inv_def GET_SEG_MAP_SLOT_FOR_SEG_def reserve_slot_def)

lemma map_slot_alloc: "g \<in> set [510, 511] \<Longrightarrow> alloc_inv s st \<Longrightarrow> map_slot g st = Some (reserve_slot s g)"
  by (auto simp: map_slot_def alloc_inv_def GET_SEG_MAP_SLOT_FOR_SEG_def reserve_slot_def)

lemma ring_in_units:
  "g \<in> set [510, 511] \<Longrightarrow> a \<in> set (ring_units (reserve_slot s g) (CALC_EU_OFFSET phy_addr)) \<Longrightarrow> a \<in> set (reserve_units s phy_addr)"
  by (auto simp: reserve_units_def)

lemma find_None_iff: "(List.find P xs = None) = (\<forall>x\<in>set xs. \<not> P x)"
  by (induction xs) auto

lemma find_SomeD: "List.find P xs = Some x \<Longrightarrow> x \<in> set xs \<and> P x"
  by (induction xs) (auto split: if_splits)

lemma logicalAddressToReservePhysical_find:
  assumes "reserve_ok s"
  shows "\<exists>fl. logicalAddressToReservePhysical flags phy_addr s =
    Some (case List.find (replaces phy_addr s) (reserve_units s phy_addr) of
        Some a \<Rightarrow> a + CALC_OFFSET_IN_EU phy_addr | None \<Rightarrow> SEQ_PHY_ADDRESS_EMPTY, fl)"
proof -
  have "find_inv s (flags, s)" using assms by (simp add: find_inv_def reserve_ok_def)
  then have "\<exists>st. reserve_segs map_slot
        (find_body (CALCULATE_SLOT_ID_AND_EU_OFFSET phy_addr) (CALC_OFFSET_IN_EU phy_addr))
        (CALC_EU_OFFSET phy_addr) [510, 511] (flags, s) =
      Some (map_option (\<lambda>a. a + CALC_OFFSET_IN_EU phy_addr) (List.find (replaces phy_addr s) (reserve_units s phy_addr)), st) \<and>
      find_inv s st"
    unfolding reserve_units_def
    by (rule find_search.reserve_segs_find [OF CALC_EU_OFFSET_small(1) _ map_slot_find])
      (use reserve_can_read [OF assms] ring_in_units set_reserve_units [OF assms, of phy_addr] in blast)+
  then obtain st where "reserve_segs map_slot
        (find_body (CALCULATE_SLOT_ID_AND_EU_OFFSET phy_addr) (CALC_OFFSET_IN_EU phy_addr))
        (CALC_EU_OFFSET phy_addr) [510, 511] (flags, s) =
      Some (map_option (\<lambda>a. a + CALC_OFFSET_IN_EU phy_addr) (List.find (replaces phy_addr s) (reserve_units s phy_addr)), st)"
    by blast
  then show ?thesis
    by (cases st) (auto simp: logicalAddressToReservePhysical_def split: option.splits)
qed

lemma unit_plus_offset:
  assumes "is_reserve_unit s a" "off < 64"
  shows "CALC_EU_START (a + off) = a" "CALC_OFFSET_IN_EU (a + off) = off" "isAddressReserve (a + off) s"
    "a + off \<noteq> SEQ_PHY_ADDRESS_EMPTY" "a + off < NAND_PAGE_COUNT"
proof -
  have "a = CALC_ADDRESS (GET_SLOT a) (CALC_EU_OFFSET a) 0"
    using CALC_ADDRESS_split [of a] assms(1) by (simp add: is_reserve_unit_def)
  then have a: "a + off = CALC_ADDRESS (GET_SLOT a) (CALC_EU_OFFSET a) off" by (simp add: CALC_ADDRESS_def)
  have slot: "GET_SLOT a < 512"
    using assms(1) by (simp add: is_reserve_unit_def word_less_nat_alt unat_GET_SLOT less_mult_imp_div_less)
  note parts = CALC_ADDRESS_parts [OF slot CALC_EU_OFFSET_small(2) assms(2)]
  show "CALC_EU_START (a + off) = a" "CALC_OFFSET_IN_EU (a + off) = off"
    using parts a \<open>a = CALC_ADDRESS (GET_SLOT a) (CALC_EU_OFFSET a) 0\<close> by simp_all
  show "isAddressReserve (a + off) s"
    using parts(1) a assms(1) by (simp add: is_reserve_unit_def isAddressReserve_iff)
  show "a + off < NAND_PAGE_COUNT" using parts(4) a by simp
  then show "a + off \<noteq> SEQ_PHY_ADDRESS_EMPTY" by auto
qed

lemma reserve_search_result:
  assumes "reserve_ok s"
  obtains r fl where "logicalAddressToReservePhysical flags phy_addr s = Some (r, fl)"
    "(r = SEQ_PHY_ADDRESS_EMPTY) = (\<forall>a. is_reserve_unit s a \<longrightarrow> \<not> replaces phy_addr s a)"
    "r \<noteq> SEQ_PHY_ADDRESS_EMPTY \<Longrightarrow> is_reserve_unit s (CALC_EU_START r) \<and> replaces phy_addr s (CALC_EU_START r) \<and>
       CALC_OFFSET_IN_EU r = CALC_OFFSET_IN_EU phy_addr \<and> r < NAND_PAGE_COUNT"
proof -
  obtain fl where f: "logicalAddressToReservePhysical flags phy_addr s =
      Some (case List.find (replaces phy_addr s) (reserve_units s phy_addr) of
        Some a \<Rightarrow> a + CALC_OFFSET_IN_EU phy_addr | None \<Rightarrow> SEQ_PHY_ADDRESS_EMPTY, fl)"
    using logicalAddressToReservePhysical_find [OF assms] by blast
  show thesis
  proof (cases "List.find (replaces phy_addr s) (reserve_units s phy_addr)")
    case None
    then have "\<forall>a. is_reserve_unit s a \<longrightarrow> \<not> replaces phy_addr s a"
      using set_reserve_units [OF assms, of phy_addr] by (auto simp: find_None_iff)
    with None f show thesis by (intro that [of SEQ_PHY_ADDRESS_EMPTY fl]) simp_all
  next
    case (Some a)
    then have a: "is_reserve_unit s a" "replaces phy_addr s a"
      using find_SomeD [OF Some] set_reserve_units [OF assms, of phy_addr] by auto
    note off = unit_plus_offset [OF a(1) CALC_EU_OFFSET_small(3)]
    show thesis
      using Some f a off [of phy_addr] by (intro that [of "a + CALC_OFFSET_IN_EU phy_addr" fl]) auto
  qed
qed


section \<open>The n-th good unit of a slot\<close>

definition slot_units :: "u32 \<Rightarrow> nat \<Rightarrow> u32 list" where
  "slot_units slot k = map (\<lambda>k. CALC_ADDRESS slot (of_nat k) 0) [k..<16]"

definition slot_readable :: "u32 \<Rightarrow> 'z seq_scheme \<Rightarrow> bool" where
  "slot_readable slot s = (fps s \<and> slot < 512 \<and> (\<forall>a\<in>set (slot_units slot 0). eu_readable a s))"

definition nth_or_empty :: "u32 list \<Rightarrow> nat \<Rightarrow> u32" where
  "nth_or_empty as n = (if n < length as then as ! n else SEQ_PHY_ADDRESS_EMPTY)"

lemma slot_end:
  assumes "slot < 512" "k < 16"
  shows "(CALC_ADDRESS slot (of_nat k) 0 + 64 < CALC_ADDRESS (slot + 1) 0 0) = (Suc k < 16)"
    "CALC_ADDRESS slot (of_nat k) 0 + 64 = CALC_ADDRESS slot (of_nat (Suc k)) 0"
proof -
  have b: "unat slot < 512" using assms(1) by (simp add: word_less_nat_alt)
  show n: "CALC_ADDRESS slot (of_nat k) 0 + 64 = CALC_ADDRESS slot (of_nat (Suc k)) 0"
    by (simp add: CALC_ADDRESS_next add.commute [of 1])
  have "unat (CALC_ADDRESS slot (of_nat (Suc k)) 0) = unat slot * 1024 + Suc k * 64"
    using b assms(2) by (subst unat_CALC_ADDRESS) (simp_all add: unat_of_nat del: of_nat_Suc)
  moreover have "unat (CALC_ADDRESS (slot + 1) 0 0) = (unat slot + 1) * 1024"
    using b by (subst unat_CALC_ADDRESS) (simp_all add: unat_word_ariths)
  ultimately show "(CALC_ADDRESS slot (of_nat k) 0 + 64 < CALC_ADDRESS (slot + 1) 0 0) = (Suc k < 16)"
    unfolding n by (simp add: word_less_nat_alt)
qed

lemma valid_eu_loop_nth:
  assumes "slot < 512" "k < 16" "0 < l" "fps s" "eus_ok s" "\<forall>a\<in>set (slot_units slot k). eu_readable a s"
  shows "\<exists>q. valid_eu_loop (16 - k) (CALC_ADDRESS slot (of_nat k) 0) l (CALC_ADDRESS (slot + 1) 0 0) s =
      Some (nth_or_empty (filter (\<lambda>a. eu_good a s) (slot_units slot k)) (unat l - 1), s\<lparr>valid_eus := q\<rparr>) \<and>
      eus_ok (s\<lparr>valid_eus := q\<rparr>)"
  using assms(2-)
proof (induction "15 - k" arbitrary: k l s)
  case (0 k l s)
  then have k: "k = 15" by simp
  define a where "a = CALC_ADDRESS slot (of_nat 15) 0"
  have fuel: "16 - 15 = Suc 0" and up: "slot_units slot 15 = [a]"
    by (simp_all add: slot_units_def upt_rec a_def)
  have a: "a < NAND_PAGE_COUNT" using unit_parts [OF assms(1), of 15] by (simp add: a_def)
  obtain q where q: "seq_check_eu_status a s = Some (eu_good a s, s\<lparr>valid_eus := q\<rparr>)" "eus_ok (s\<lparr>valid_eus := q\<rparr>)"
    using seq_check_eu_status_ok [OF a] 0 k up by auto
  have l: "(l - 1 = 0) = (unat l - 1 = 0)" using \<open>0 < l\<close> by (auto simp: word_less_nat_alt unat_arith_simps)
  have last: "\<not> a + 64 < CALC_ADDRESS (slot + 1) 0 0" using slot_end(1) [OF assms(1), of 15] by (simp add: a_def)
  have "valid_eu_loop (16 - 15) a l (CALC_ADDRESS (slot + 1) 0 0) s =
      Some (if eu_good a s \<and> l - 1 = 0 then a else SEQ_PHY_ADDRESS_EMPTY, s\<lparr>valid_eus := q\<rparr>)"
    unfolding fuel valid_eu_loop.simps(2) q(1) using last by simp
  then show ?case
    unfolding k up a_def [symmetric] using q(2) l by (intro exI [of _ q]) (simp add: nth_or_empty_def)
next
  case (Suc d k l s)
  let ?a = "CALC_ADDRESS slot (of_nat k) 0"
  have k: "Suc k < 16" "15 - Suc k = d" and fuel: "16 - k = Suc (16 - Suc k)" using Suc.hyps(2) Suc.prems(1) by simp_all
  have up: "slot_units slot k = ?a # slot_units slot (Suc k)"
    using Suc.prems(1) by (simp add: slot_units_def upt_conv_Cons)
  obtain q where q: "seq_check_eu_status ?a s = Some (eu_good ?a s, s\<lparr>valid_eus := q\<rparr>)" "eus_ok (s\<lparr>valid_eus := q\<rparr>)"
    using seq_check_eu_status_ok [of ?a s] unit_parts [OF assms(1) Suc.prems(1)] Suc.prems up by auto
  have l: "(l - 1 = 0) = (unat l = 1)" "unat (l - 1) = unat l - 1"
    using Suc.prems(2) by (auto simp: word_less_nat_alt unat_arith_simps)
  have IH: "\<exists>q. valid_eu_loop (16 - Suc k) (CALC_ADDRESS slot (of_nat (Suc k)) 0) m (CALC_ADDRESS (slot + 1) 0 0) (s\<lparr>valid_eus := q'\<rparr>) =
      Some (nth_or_empty (filter (\<lambda>a. eu_good a s) (slot_units slot (Suc k))) (unat m - 1), s\<lparr>valid_eus := q\<rparr>) \<and>
      eus_ok (s\<lparr>valid_eus := q\<rparr>)" if "0 < m" "eus_ok (s\<lparr>valid_eus := q'\<rparr>)" for m q'
    using Suc.hyps(1) [of "Suc k" m "s\<lparr>valid_eus := q'\<rparr>"] k that Suc.prems up by simp
  have lt: "CALC_ADDRESS slot (of_nat (Suc k)) 0 < CALC_ADDRESS (slot + 1) 0 0"
    using slot_end(1) [OF assms(1) Suc.prems(1)] k(1) unfolding slot_end(2) [OF assms(1) Suc.prems(1)] by blast
  have unfold: "valid_eu_loop (16 - k) ?a l (CALC_ADDRESS (slot + 1) 0 0) s =
      (let l1 = (if eu_good ?a s then l - 1 else l) in
       if eu_good ?a s \<and> l1 = 0 then Some (?a, s\<lparr>valid_eus := q\<rparr>)
       else valid_eu_loop (16 - Suc k) (CALC_ADDRESS slot (of_nat (Suc k)) 0) l1 (CALC_ADDRESS (slot + 1) 0 0) (s\<lparr>valid_eus := q\<rparr>))"
    unfolding fuel valid_eu_loop.simps q(1) slot_end(2) [OF assms(1) Suc.prems(1)]
    by (cases "eu_good ?a s"; cases "l - 1 = 0") (simp_all only: bind.bind_lunit prod.case Let_def lt if_True if_False simp_thms)
  show ?case
  proof (cases "eu_good ?a s \<and> l - 1 = 0")
    case True
    then have "unat l - 1 = 0" using l(1) by simp
    with True q(2) show ?thesis unfolding unfold up by (intro exI [of _ q]) (simp add: nth_or_empty_def Let_def)
  next
    case False
    show ?thesis
    proof (cases "eu_good ?a s")
      case True
      with False have m: "0 < l - 1" "unat l - 1 = Suc (unat (l - 1) - 1)"
        using l Suc.prems(2) by (auto simp: word_less_nat_alt)
      show ?thesis unfolding unfold up using IH [OF m(1) q(2)] True False m(2)
        by (auto simp: nth_or_empty_def Let_def)
    next
      case F: False
      then show ?thesis unfolding unfold up using IH [OF Suc.prems(2) q(2)] by auto
    qed
  qed
qed

lemma get_valid_eu_nth:
  assumes "slot_readable slot s" "eus_ok s" "0 < l"
  shows "\<exists>q. get_valid_eu_addr_in_location slot l s =
      Some (nth_or_empty (filter (\<lambda>a. eu_good a s) (slot_units slot 0)) (unat l - 1), s\<lparr>valid_eus := q\<rparr>) \<and>
      eus_ok (s\<lparr>valid_eus := q\<rparr>)"
  using valid_eu_loop_nth [of slot 0 l s] assms by (simp add: slot_readable_def get_valid_eu_addr_in_location_def)

text \<open>The unit kept for copying back: the second good unit of the first reserve slot.\<close>

definition copyback_unit :: "'z seq_scheme \<Rightarrow> u32" where
  "copyback_unit s = nth_or_empty (filter (\<lambda>a. eu_good a s) (slot_units (reserve_slot s 510) 0)) 1"

lemma reserve_slot_readable: "reserve_ok s \<Longrightarrow> slot_readable (reserve_slot s 510) s"
  using unit_parts [of "reserve_slot s 510"]
  by (auto simp: reserve_ok_def slot_readable_def slot_units_def isAddressReserve_iff)

lemma GET_COPYBACK_EU_unit:
  assumes "reserve_ok s" "eus_ok s"
  shows "\<exists>q. GET_COPYBACK_EU s = Some (copyback_unit s, s\<lparr>valid_eus := q\<rparr>) \<and> eus_ok (s\<lparr>valid_eus := q\<rparr>)"
  using get_valid_eu_nth [OF reserve_slot_readable [OF assms(1)] assms(2), of 2]
  by (simp add: GET_COPYBACK_EU_def GET_SEG_MAP_SLOT_FOR_SEG_def copyback_unit_def reserve_slot_def)

lemma reserve_ok_upd [simp]: "reserve_ok (s\<lparr>valid_eus := q\<rparr>) = reserve_ok s"
  "reserve_slot (s\<lparr>valid_eus := q\<rparr>) = reserve_slot s" "isAddressReserve a (s\<lparr>valid_eus := q\<rparr>) = isAddressReserve a s"
  "replaces p (s\<lparr>valid_eus := q\<rparr>) = replaces p s" "is_reserve_unit (s\<lparr>valid_eus := q\<rparr>) = is_reserve_unit s"
  "can_read_eu (s\<lparr>valid_eus := q\<rparr>) = can_read_eu s" "unassigned c (s\<lparr>valid_eus := q\<rparr>) = unassigned c s"
  "reserve_units (s\<lparr>valid_eus := q\<rparr>) = reserve_units s" "slot_readable g (s\<lparr>valid_eus := q\<rparr>) = slot_readable g s"
  by (auto simp: reserve_ok_def reserve_slot_def isAddressReserve_def replaces_def is_reserve_unit_def can_read_eu_def
      unassigned_def reserve_units_def slot_readable_def fun_eq_iff)

lemma allocReserveEU_result:
  assumes "reserve_ok s" "eus_ok s" "copyback_unit s \<noteq> SEQ_PHY_ADDRESS_EMPTY"
  obtains r fl q where "allocReserveEU flags phy_addr s = Some (r, fl, s\<lparr>valid_eus := q\<rparr>)" "eus_ok (s\<lparr>valid_eus := q\<rparr>)"
    "(r = SEQ_PHY_ADDRESS_EMPTY) = (\<forall>a. is_reserve_unit s a \<longrightarrow> \<not> unassigned (copyback_unit s) s a)"
    "r \<noteq> SEQ_PHY_ADDRESS_EMPTY \<Longrightarrow> is_reserve_unit s (CALC_EU_START r) \<and> unassigned (copyback_unit s) s (CALC_EU_START r) \<and>
       CALC_OFFSET_IN_EU r = CALC_OFFSET_IN_EU phy_addr \<and> r < NAND_PAGE_COUNT"
proof -
  let ?c = "copyback_unit s" and ?off = "CALC_OFFSET_IN_EU phy_addr"
  obtain q1 where cb: "GET_COPYBACK_EU s = Some (?c, s\<lparr>valid_eus := q1\<rparr>)" "eus_ok (s\<lparr>valid_eus := q1\<rparr>)"
    using GET_COPYBACK_EU_unit [OF assms(1,2)] by blast
  have "alloc_inv s (flags, s\<lparr>valid_eus := q1\<rparr>)" using cb(2) assms(1) by (auto simp: alloc_inv_def reserve_ok_def)
  then have "\<exists>st. reserve_segs map_slot (alloc_body ?c ?off) (CALC_EU_OFFSET phy_addr) [510, 511] (flags, s\<lparr>valid_eus := q1\<rparr>) =
      Some (map_option (\<lambda>a. a + ?off) (List.find (unassigned ?c s) (reserve_units s phy_addr)), st) \<and> alloc_inv s st"
    unfolding reserve_units_def
    by (rule alloc_search.reserve_segs_find [OF CALC_EU_OFFSET_small(1) _ map_slot_alloc])
      (use reserve_can_read [OF assms(1)] ring_in_units set_reserve_units [OF assms(1), of phy_addr] in blast)+
  then obtain fl q where st: "reserve_segs map_slot (alloc_body ?c ?off) (CALC_EU_OFFSET phy_addr) [510, 511] (flags, s\<lparr>valid_eus := q1\<rparr>) =
      Some (map_option (\<lambda>a. a + ?off) (List.find (unassigned ?c s) (reserve_units s phy_addr)), fl, s\<lparr>valid_eus := q\<rparr>)"
    "eus_ok (s\<lparr>valid_eus := q\<rparr>)"
    by (auto simp: alloc_inv_def)
  have run: "allocReserveEU flags phy_addr s =
      Some (case List.find (unassigned ?c s) (reserve_units s phy_addr) of Some a \<Rightarrow> a + ?off | None \<Rightarrow> SEQ_PHY_ADDRESS_EMPTY,
        fl, s\<lparr>valid_eus := q\<rparr>)"
    using cb(1) st(1) assms(3) by (auto simp: allocReserveEU_def IS_PHY_ADDR_EMPTY_def simp del: reserve_segs.simps split: option.splits)
  show thesis
  proof (cases "List.find (unassigned ?c s) (reserve_units s phy_addr)")
    case None
    then have "\<forall>a. is_reserve_unit s a \<longrightarrow> \<not> unassigned ?c s a"
      using set_reserve_units [OF assms(1), of phy_addr] by (auto simp: find_None_iff)
    with None run st(2) show thesis by (intro that [of SEQ_PHY_ADDRESS_EMPTY fl q]) simp_all
  next
    case (Some a)
    then have a: "is_reserve_unit s a" "unassigned ?c s a"
      using find_SomeD [OF Some] set_reserve_units [OF assms(1), of phy_addr] by auto
    note off = unit_plus_offset [OF a(1) CALC_EU_OFFSET_small(3)]
    show thesis
      using Some run st(2) a off [of phy_addr] by (intro that [of "a + ?off" fl q]) auto
  qed
qed


text \<open>
  The page of a logical address before bad units are looked at: the page at its offset of the slot of its segment, or of the
  new slot for the pages of the reclaimed segment that have been copied.
\<close>

definition plain_page :: "logical_addr \<Rightarrow> 'z seq_scheme \<Rightarrow> u32 option" where
  "plain_page la s = do {
     slot \<leftarrow> GET_SEG_MAP_SLOT_FOR_SEG (GET_LOGICAL_SEGMENT la) s;
     assert_c (slot \<noteq> SEQ_NO_SLOT \<and> GET_LOGICAL_OFFSET la < SEQ_PAGES_PER_SLOT);
     rec \<leftarrow> IS_STATE_RECLAMATION s;
     Some (CALC_ADDRESS (if rec \<and> GET_LOGICAL_SEGMENT la = GET_RECLAIMED_SEGMENT s \<and>
             GET_LOGICAL_OFFSET la < GET_RECLAIMED_OFFSET s then new_slot_id s else slot) 0 (GET_LOGICAL_OFFSET la))
   }"

lemma logicalAddressToPhysical_plain:
  assumes "plain_page la s = Some p" "seq_check_eu_status (CALC_EU_START p) s = Some (ok, s1)"
  shows "logicalAddressToPhysical la s = (if ok then Some (p, s1)
     else do { (r, _) \<leftarrow> logicalAddressToReservePhysical (junk s1) p s1; Some (r, s1) })"
proof -
  obtain slot where slot: "GET_SEG_MAP_SLOT_FOR_SEG (GET_LOGICAL_SEGMENT la) s = Some slot"
    using assms(1) by (cases "GET_SEG_MAP_SLOT_FOR_SEG (GET_LOGICAL_SEGMENT la) s") (simp_all add: plain_page_def)
  have c: "slot \<noteq> SEQ_NO_SLOT" "GET_LOGICAL_OFFSET la < SEQ_PAGES_PER_SLOT"
    using assms(1) unfolding plain_page_def slot bind.bind_lunit assert_c_bind by (auto split: if_split_asm)
  obtain rec where rec: "IS_STATE_RECLAMATION s = Some rec"
    using assms(1) c by (cases "IS_STATE_RECLAMATION s") (simp_all add: plain_page_def slot)
  have p: "CALC_ADDRESS (if rec \<and> GET_LOGICAL_SEGMENT la = GET_RECLAIMED_SEGMENT s \<and>
      GET_LOGICAL_OFFSET la < GET_RECLAIMED_OFFSET s then new_slot_id s else slot) 0 (GET_LOGICAL_OFFSET la) = p"
    using assms(1) unfolding plain_page_def slot rec bind.bind_lunit assert_c_bind using c by (simp only: simp_thms if_True option.inject)
  have "(if rec \<and> GET_LOGICAL_SEGMENT la = GET_RECLAIMED_SEGMENT s \<and> GET_LOGICAL_OFFSET la < GET_RECLAIMED_OFFSET s
      then CALC_ADDRESS (new_slot_id s) 0 (GET_LOGICAL_OFFSET la) else CALC_ADDRESS slot 0 (GET_LOGICAL_OFFSET la)) = p"
    unfolding p [symmetric] by (simp only: if_distrib [of "\<lambda>x. CALC_ADDRESS x 0 (GET_LOGICAL_OFFSET la)"])
  then show ?thesis using assms(2) slot c rec by (simp add: logicalAddressToPhysical_def Let_def)
qed

section \<open>Properties\<close>

text \<open>
  C16: the reserve replacement of a page is found when there is one.  The search returns the empty
  address exactly when no reserve unit carries the page's unit in its first page without a
  copy-back mark; otherwise it returns the page at the same offset of such a good reserve unit.
\<close>

theorem logicalAddressToReservePhysical_correct:
  assumes "reserve_ok s"
  shows "\<exists>r fl. logicalAddressToReservePhysical flags phy_addr s = Some (r, fl) \<and>
    (r = SEQ_PHY_ADDRESS_EMPTY) = (\<forall>a. is_reserve_unit s a \<longrightarrow> \<not> replaces phy_addr s a) \<and>
    (r \<noteq> SEQ_PHY_ADDRESS_EMPTY \<longrightarrow> is_reserve_unit s (CALC_EU_START r) \<and> replaces phy_addr s (CALC_EU_START r) \<and>
       CALC_OFFSET_IN_EU r = CALC_OFFSET_IN_EU phy_addr)"
  by (rule reserve_search_result [OF assms]) blast

text \<open>A layer whose two reserve slots are 510 and 511, on a blank chip.\<close>

definition reserve_seq :: seq where
  "reserve_seq = blank_seq\<lparr>seg_to_slot_map := (\<lambda>_. 0xfff)(510 := 510, 511 := 511)\<rparr>"

lemma reserve_seq_ok [simp]: "reserve_ok reserve_seq" "eus_ok reserve_seq" "fps reserve_seq" "eu_good a reserve_seq"
    "eu_readable a reserve_seq"
  by (auto simp: reserve_ok_def reserve_seq_def reserve_slot_def eus_ok_def eu_readable_def eu_good_def)

theorem logicalAddressToReservePhysical_correct_witness:
  "\<exists>r fl. logicalAddressToReservePhysical (\<lambda>_. 0) 77 reserve_seq = Some (r, fl) \<and>
    (r = SEQ_PHY_ADDRESS_EMPTY) = (\<forall>a. is_reserve_unit reserve_seq a \<longrightarrow> \<not> replaces 77 reserve_seq a) \<and>
    (r \<noteq> SEQ_PHY_ADDRESS_EMPTY \<longrightarrow> is_reserve_unit reserve_seq (CALC_EU_START r) \<and> replaces 77 reserve_seq (CALC_EU_START r) \<and>
       CALC_OFFSET_IN_EU r = CALC_OFFSET_IN_EU 77)"
  by (rule logicalAddressToReservePhysical_correct) simp

text \<open>
  C17: allocating a reserve unit gives a good, unassigned unit of a reserve slot that is not the
  unit kept for copying back, at the page offset asked for; it gives the empty address only when
  there is no such unit; and it changes nothing but the cache of good units.
\<close>

theorem allocReserveEU_correct:
  assumes "reserve_ok s" "eus_ok s" "copyback_unit s \<noteq> SEQ_PHY_ADDRESS_EMPTY"
  shows "\<exists>r fl q. allocReserveEU flags phy_addr s = Some (r, fl, s\<lparr>valid_eus := q\<rparr>) \<and> eus_ok (s\<lparr>valid_eus := q\<rparr>) \<and>
    (r = SEQ_PHY_ADDRESS_EMPTY) = (\<forall>a. is_reserve_unit s a \<longrightarrow> \<not> unassigned (copyback_unit s) s a) \<and>
    (r \<noteq> SEQ_PHY_ADDRESS_EMPTY \<longrightarrow> is_reserve_unit s (CALC_EU_START r) \<and> unassigned (copyback_unit s) s (CALC_EU_START r) \<and>
       CALC_OFFSET_IN_EU r = CALC_OFFSET_IN_EU phy_addr)"
  by (rule allocReserveEU_result [OF assms]) blast

lemma copyback_unit_reserve_seq: "copyback_unit reserve_seq = CALC_ADDRESS 510 1 0"
  by (simp add: copyback_unit_def nth_or_empty_def slot_units_def reserve_slot_def upt_rec) (simp add: reserve_seq_def)

theorem allocReserveEU_correct_witness:
  "\<exists>r fl q. allocReserveEU (\<lambda>_. 0) 77 reserve_seq = Some (r, fl, reserve_seq\<lparr>valid_eus := q\<rparr>) \<and>
    eus_ok (reserve_seq\<lparr>valid_eus := q\<rparr>) \<and>
    (r = SEQ_PHY_ADDRESS_EMPTY) = (\<forall>a. is_reserve_unit reserve_seq a \<longrightarrow> \<not> unassigned (copyback_unit reserve_seq) reserve_seq a) \<and>
    (r \<noteq> SEQ_PHY_ADDRESS_EMPTY \<longrightarrow> is_reserve_unit reserve_seq (CALC_EU_START r) \<and>
       unassigned (copyback_unit reserve_seq) reserve_seq (CALC_EU_START r) \<and> CALC_OFFSET_IN_EU r = CALC_OFFSET_IN_EU 77)"
  by (rule allocReserveEU_correct) (simp_all add: copyback_unit_reserve_seq CALC_ADDRESS_def)

text \<open>
  Asking for the \<open>l\<close>-th good unit of a slot gives the \<open>l\<close>-th element of the slot's units
  that are good, in the order of their addresses, and the empty address when the slot has fewer.
\<close>

theorem get_valid_eu_addr_correct:
  assumes "slot_readable slot s" "eus_ok s" "0 < l"
  shows "\<exists>q. get_valid_eu_addr_in_location slot l s =
      Some (nth_or_empty (filter (\<lambda>a. eu_good a s) (slot_units slot 0)) (unat l - 1), s\<lparr>valid_eus := q\<rparr>) \<and>
      eus_ok (s\<lparr>valid_eus := q\<rparr>)"
  by (rule get_valid_eu_nth [OF assms])

theorem get_valid_eu_addr_correct_witness:
  "\<exists>q. get_valid_eu_addr_in_location 3 2 reserve_seq =
      Some (nth_or_empty (filter (\<lambda>a. eu_good a reserve_seq) (slot_units 3 0)) (unat (2::u32) - 1), reserve_seq\<lparr>valid_eus := q\<rparr>) \<and>
      eus_ok (reserve_seq\<lparr>valid_eus := q\<rparr>)"
  by (rule get_valid_eu_addr_correct) (simp_all add: slot_readable_def)

text \<open>
  C40: translating a logical address never leads into a bad erase unit.  Let the address have a page in its slot, which for
  the pages already copied of the segment being reclaimed is the new slot, and let the table of units known to be good be right, the
  reserve slots be known and readable and the page's unit be readable.  Then the translation returns this page when its unit is
  good, and otherwise the page at the same offset of a good reserve unit that carries the unit, or the empty
  address when no reserve unit does; it changes only the table, which stays right.
\<close>

theorem logicalAddressToPhysical_good:
  assumes "reserve_ok s" "eus_ok s" "plain_page la s = Some p" "p < NAND_PAGE_COUNT" "eu_readable p s"
  shows "\<exists>r q. logicalAddressToPhysical la s = Some (r, s\<lparr>valid_eus := q\<rparr>) \<and> eus_ok (s\<lparr>valid_eus := q\<rparr>) \<and>
    (if eu_good p s then r = p
     else r = SEQ_PHY_ADDRESS_EMPTY \<and> (\<forall>a. is_reserve_unit s a \<longrightarrow> \<not> replaces p s a) \<or>
          r \<noteq> SEQ_PHY_ADDRESS_EMPTY \<and> is_reserve_unit s (CALC_EU_START r) \<and> replaces p s (CALC_EU_START r) \<and>
          CALC_OFFSET_IN_EU r = CALC_OFFSET_IN_EU p) \<and>
    (r \<noteq> SEQ_PHY_ADDRESS_EMPTY \<longrightarrow> eu_good r s)"
proof -
  have c: "CALC_EU_START p < NAND_PAGE_COUNT" "fps s" "eu_readable (CALC_EU_START p) s"
    using eu_le [OF assms(4)] assms(1,5) by (simp_all add: CALC_EU_START_def reserve_ok_def eu_readable_def)
  obtain q where q: "seq_check_eu_status (CALC_EU_START p) s = Some (eu_good p s, s\<lparr>valid_eus := q\<rparr>)" "eus_ok (s\<lparr>valid_eus := q\<rparr>)"
    using seq_check_eu_status_ok [OF c assms(2)] by auto
  have run: "logicalAddressToPhysical la s = (if eu_good p s then Some (p, s\<lparr>valid_eus := q\<rparr>)
      else do { (r, _) \<leftarrow> logicalAddressToReservePhysical (junk s) p (s\<lparr>valid_eus := q\<rparr>); Some (r, s\<lparr>valid_eus := q\<rparr>) })"
    using logicalAddressToPhysical_plain [OF assms(3) q(1)] by simp
  show ?thesis
  proof (cases "eu_good p s")
    case True
    with q(2) run show ?thesis by (intro exI [of _ p] exI [of _ q]) simp
  next
    case False
    have "reserve_ok (s\<lparr>valid_eus := q\<rparr>)" using assms(1) by simp
    then obtain r fl where r: "logicalAddressToReservePhysical (junk s) p (s\<lparr>valid_eus := q\<rparr>) = Some (r, fl)"
      "(r = SEQ_PHY_ADDRESS_EMPTY) = (\<forall>a. is_reserve_unit s a \<longrightarrow> \<not> replaces p s a)"
      "r \<noteq> SEQ_PHY_ADDRESS_EMPTY \<Longrightarrow> is_reserve_unit s (CALC_EU_START r) \<and> replaces p s (CALC_EU_START r) \<and>
         CALC_OFFSET_IN_EU r = CALC_OFFSET_IN_EU p \<and> r < NAND_PAGE_COUNT"
      by (rule reserve_search_result [of _ "junk s" p]) auto
    moreover have "logicalAddressToPhysical la s = Some (r, s\<lparr>valid_eus := q\<rparr>)" using False run r(1) by simp
    moreover have "r \<noteq> SEQ_PHY_ADDRESS_EMPTY \<Longrightarrow> eu_good r s" using r(3) by (simp add: replaces_def)
    ultimately show ?thesis using False q(2) by (intro exI [of _ r] exI [of _ q]) auto
  qed
qed

theorem logicalAddressToPhysical_good_witness:
  "\<exists>r q. logicalAddressToPhysical (setLogicalSegment (setLogicalOffset init_logical_address 5) 511) reserve_seq =
      Some (r, reserve_seq\<lparr>valid_eus := q\<rparr>) \<and> r = CALC_ADDRESS 511 0 5"
proof -
  have "plain_page (setLogicalSegment (setLogicalOffset init_logical_address 5) 511) reserve_seq = Some (CALC_ADDRESS 511 0 5)"
    by (simp add: plain_page_def GET_SEG_MAP_SLOT_FOR_SEG_def segment_part.get_put offset_part.get_put IS_STATE_RECLAMATION_def reserve_seq_def)
  moreover have "CALC_ADDRESS 511 0 5 < NAND_PAGE_COUNT" by code_simp
  ultimately show ?thesis using logicalAddressToPhysical_good [of reserve_seq _ "CALC_ADDRESS 511 0 5"] by auto
qed

end
