(* ===== verification/Memlib.thy ===== *)
theory Memlib
  imports Prelude
begin

text \<open>
  The byte and string routines of \<^verbatim>\<open>SIM/utils/memlib.c\<close> and \<^verbatim>\<open>SIM/utils/string_lib.c\<close>.  A C string
  is a buffer with an offset, read up to its 0 byte.  The routines that run to the end of a string
  have fuel: the distance they may run; \<open>None\<close> means that no end was found within it.
\<close>

section \<open>Memory\<close>

fun memcpy_pairs :: "nat \<Rightarrow> buf \<Rightarrow> nat \<Rightarrow> buf \<Rightarrow> nat \<Rightarrow> buf" where
  "memcpy_pairs 0 dst d src so = dst"
| "memcpy_pairs (Suc n) dst d src so =
     memcpy_pairs n (dst(d := src so, d + 1 := src (so + 1))) (d + 2) src (so + 2)"

definition fsMemcpy :: "buf \<Rightarrow> nat \<Rightarrow> buf \<Rightarrow> nat \<Rightarrow> nat \<Rightarrow> buf" where
  "fsMemcpy dst d src so count =
     (if odd count then memcpy_pairs (count div 2) (dst(d := src so)) (d + 1) src (so + 1)
      else memcpy_pairs (count div 2) dst d src so)"

fun fsMemset :: "buf \<Rightarrow> nat \<Rightarrow> u8 \<Rightarrow> nat \<Rightarrow> buf" where
  "fsMemset s i c 0 = s"
| "fsMemset s i c (Suc n) = fsMemset (s(i := c)) (i + 1) c n"

section \<open>Strings\<close>

fun fsStrcmp :: "nat \<Rightarrow> buf \<Rightarrow> nat \<Rightarrow> buf \<Rightarrow> nat \<Rightarrow> int option" where
  "fsStrcmp 0 s1 i s2 j = None"
| "fsStrcmp (Suc n) s1 i s2 j =
     (if s1 i \<noteq> 0 \<and> s1 i = s2 j then fsStrcmp n s1 (i + 1) s2 (j + 1)
      else Some (if s1 i < s2 j then -1 else if s1 i > s2 j then 1 else 0))"

text \<open>The loop of \<open>fsStrncmp\<close>: its test decrements the count before the comparison.\<close>

fun strncmp_loop :: "nat \<Rightarrow> buf \<Rightarrow> nat \<Rightarrow> buf \<Rightarrow> nat \<Rightarrow> int" where
  "strncmp_loop 0 s1 i s2 j = (if s1 i < s2 j then -1 else if s1 i > s2 j then 1 else 0)"
| "strncmp_loop (Suc n) s1 i s2 j =
     (if s1 i = s2 j then (if n = 0 \<or> s1 i = 0 then 0 else strncmp_loop n s1 (i + 1) s2 (j + 1))
      else (if s1 i < s2 j then -1 else if s1 i > s2 j then 1 else 0))"

definition fsStrncmp :: "buf \<Rightarrow> nat \<Rightarrow> buf \<Rightarrow> nat \<Rightarrow> nat \<Rightarrow> int" where
  "fsStrncmp s1 i s2 j n = (if n = 0 then 0 else strncmp_loop n s1 i s2 j)"

fun fsStrcpy :: "nat \<Rightarrow> buf \<Rightarrow> nat \<Rightarrow> buf \<Rightarrow> nat \<Rightarrow> buf option" where
  "fsStrcpy 0 s1 i s2 j = None"
| "fsStrcpy (Suc n) s1 i s2 j =
     (if s2 j \<noteq> 0 then fsStrcpy n (s1(i := s2 j)) (i + 1) s2 (j + 1) else Some (s1(i := 0)))"

section \<open>What the routines compute\<close>

lemma memcpy_pairs_copy: "memcpy_pairs n dst d src so = buf_copy dst d src so (2 * n)"
proof (induction n arbitrary: dst d so)
  case 0
  show ?case by (rule ext) (auto simp: buf_copy_def)
next
  case (Suc n)
  have o: "so + 2 + (x - (d + 2)) = so + (x - d)" if "d + 2 \<le> x" for x using that by simp
  show ?case
  proof (rule ext)
    fix x
    consider "x < d" | "x = d" | "x = d + 1" | "d + 2 \<le> x" by linarith
    then show "memcpy_pairs (Suc n) dst d src so x = buf_copy dst d src so (2 * Suc n) x"
      using o [of x] by cases (auto simp: Suc buf_copy_def)
  qed
qed

lemma fsMemcpy_copy: "fsMemcpy dst d src so n = buf_copy dst d src so n"
proof (cases "odd n")
  case True
  then have n: "2 * (n div 2) + 1 = n" by simp
  show ?thesis
    unfolding fsMemcpy_def memcpy_pairs_copy
  proof (rule ext)
    fix x
    have "so + 1 + (x - (d + 1)) = so + (x - d)" if "d + 1 \<le> x" using that by simp
    then show "(if odd n then buf_copy (dst(d := src so)) (d + 1) src (so + 1) (2 * (n div 2))
        else buf_copy dst d src so (2 * (n div 2))) x = buf_copy dst d src so n x"
      using True n by (cases "x = d") (auto simp: buf_copy_def)
  qed
next
  case False
  then show ?thesis by (simp add: fsMemcpy_def memcpy_pairs_copy)
qed

lemma fsMemset_fill: "fsMemset s i c n = buf_fill s i n c"
  by (induction n arbitrary: s i) (auto simp: buf_fill_def fun_eq_iff)

text \<open>The string at an offset, given its length.\<close>

definition is_cstr :: "buf \<Rightarrow> nat \<Rightarrow> u8 list \<Rightarrow> bool" where
  "is_cstr b i cs = ((\<forall>k<length cs. b (i + k) = cs ! k \<and> cs ! k \<noteq> 0) \<and> b (i + length cs) = 0)"

lemma is_cstr_Nil: "is_cstr b i [] = (b i = 0)"
  by (simp add: is_cstr_def)

lemma is_cstr_Cons: "is_cstr b i (c # cs) = (b i = c \<and> c \<noteq> 0 \<and> is_cstr b (i + 1) cs)"
  by (auto simp: is_cstr_def less_Suc_eq_0_disj)

fun strcmp_spec :: "u8 list \<Rightarrow> u8 list \<Rightarrow> int" where
  "strcmp_spec [] [] = 0"
| "strcmp_spec [] (y # ys) = -1"
| "strcmp_spec (x # xs) [] = 1"
| "strcmp_spec (x # xs) (y # ys) = (if x = y then strcmp_spec xs ys else if x < y then -1 else 1)"

lemma fsStrcmp_spec:
  "is_cstr a i xs \<Longrightarrow> is_cstr b j ys \<Longrightarrow> length xs < n \<Longrightarrow> fsStrcmp n a i b j = Some (strcmp_spec xs ys)"
proof (induction xs ys arbitrary: i j n rule: strcmp_spec.induct)
  case 1
  then show ?case by (cases n) (auto simp: is_cstr_Nil)
next
  case (2 y ys)
  then show ?case by (cases n) (auto simp: is_cstr_Nil is_cstr_Cons word_neq_0_conv)
next
  case (3 x xs)
  then show ?case by (cases n) (auto simp: is_cstr_Nil is_cstr_Cons word_neq_0_conv)
next
  case (4 x xs y ys)
  then show ?case by (cases n) (auto simp: is_cstr_Cons)
qed

lemma strcmp_spec_0: "strcmp_spec xs ys = 0 \<longleftrightarrow> xs = ys"
  by (induction xs ys rule: strcmp_spec.induct) auto

lemma strncmp_loop_spec:
  "is_cstr a i xs \<Longrightarrow> is_cstr b j ys \<Longrightarrow> 0 < n \<Longrightarrow> strncmp_loop n a i b j = strcmp_spec (take n xs) (take n ys)"
proof (induction xs ys arbitrary: i j n rule: strcmp_spec.induct)
  case 1
  then show ?case by (cases n) (auto simp: is_cstr_Nil)
next
  case (2 y ys)
  then show ?case by (cases n) (auto simp: is_cstr_Nil is_cstr_Cons word_neq_0_conv)
next
  case (3 x xs)
  then show ?case by (cases n) (auto simp: is_cstr_Nil is_cstr_Cons word_neq_0_conv)
next
  case (4 x xs y ys)
  then show ?case by (cases n) (auto simp: is_cstr_Cons)
qed

lemma fsStrcpy_spec:
  assumes "is_cstr b j ys" "length ys < n"
  shows "fsStrcpy n a i b j = Some (\<lambda>k. if i \<le> k \<and> k < i + length ys then ys ! (k - i) else if k = i + length ys then 0 else a k)"
  using assms
proof (induction ys arbitrary: a i j n)
  case Nil
  then show ?case by (cases n) (auto simp: is_cstr_Nil fun_eq_iff)
next
  case (Cons y ys)
  then obtain m where n: "n = Suc m" by (cases n) auto
  from Cons.prems have y: "b j = y" "y \<noteq> 0" "is_cstr b (j + 1) ys" by (simp_all add: is_cstr_Cons)
  have "fsStrcpy n a i b j = fsStrcpy m (a(i := y)) (i + 1) b (j + 1)" using y n by simp
  also have "\<dots> = Some (\<lambda>k. if i + 1 \<le> k \<and> k < i + 1 + length ys then ys ! (k - (i + 1))
      else if k = i + 1 + length ys then 0 else (a(i := y)) k)"
    by (rule Cons.IH [OF y(3)]) (use Cons.prems n in simp)
  also have "\<dots> = Some (\<lambda>k. if i \<le> k \<and> k < i + length (y # ys) then (y # ys) ! (k - i)
      else if k = i + length (y # ys) then 0 else a k)"
    by (rule arg_cong [where f = Some], rule ext) (auto simp: nth_Cons')
  finally show ?case .
qed

section \<open>Properties\<close>

text \<open>
  C39: the string routines on any two strings, each ended by a zero byte somewhere in its buffer: \<open>fsStrcmp\<close> ends
  and gives -1, 0 or 1 as the lexicographic order of the strings, and 0 exactly for equal strings; \<open>fsStrncmp\<close>, for a
  positive count, does the same for their first \<open>n\<close> characters; \<open>fsStrcpy\<close> ends and leaves the second
  string with its end mark at the target, and every other byte of the target buffer as it was.  The fuel of the two scans only has to exceed
  the lengths of the strings.
\<close>
theorem string_lib_correct:
  assumes "is_cstr a i xs" "is_cstr b j ys" "length xs < f" "length ys < f" "0 < n"
  shows "fsStrcmp f a i b j = Some (strcmp_spec xs ys) \<and> (fsStrcmp f a i b j = Some 0 \<longleftrightarrow> xs = ys) \<and>
     fsStrncmp a i b j n = strcmp_spec (take n xs) (take n ys) \<and> (fsStrncmp a i b j n = 0 \<longleftrightarrow> take n xs = take n ys) \<and>
     (\<exists>c. fsStrcpy f a i b j = Some c \<and> is_cstr c i ys \<and> (\<forall>k. k < i \<or> i + length ys < k \<longrightarrow> c k = a k))"
proof -
  have "is_cstr (\<lambda>k. if i \<le> k \<and> k < i + length ys then ys ! (k - i) else if k = i + length ys then 0 else a k) i ys"
    using assms(2) by (auto simp: is_cstr_def)
  then show ?thesis
    using assms fsStrcmp_spec [OF assms(1,2,3)] strncmp_loop_spec [OF assms(1,2,5)] fsStrcpy_spec [OF assms(2,4), of a i]
    by (simp add: strcmp_spec_0 fsStrncmp_def)
qed

theorem string_lib_correct_witness:
  "fsStrcmp 9 (\<lambda>k. if k < 3 then 97 else 0) 0 (\<lambda>k. if k < 4 then 97 else 0) 0 = Some (strcmp_spec [97, 97, 97] [97, 97, 97, 97])"
  using string_lib_correct [of "\<lambda>k. if k < 3 then 97 else 0" 0 "[97, 97, 97]" "\<lambda>k. if k < 4 then 97 else 0" 0 "[97, 97, 97, 97]" 9 1]
  by (simp add: is_cstr_Cons is_cstr_Nil)

end
