(* ===== verification/Blocks.thy ===== *)
theory Blocks
  imports Reserve Memlib
begin

text \<open>
  Reading, writing, copying and erasing whole pages through the segment map (\<^verbatim>\<open>sequencingUtils.c\<close>,
  \<^verbatim>\<open>sequencing.c\<close>).  The page buffer of the layer is the field \<open>sequencing_buffer\<close>; its spare area
  starts at byte 2048.  An error code is the C function's return value, 0 on success.
\<close>

unbundle bit_operations_syntax

section \<open>Pages through the layer's buffer\<close>

text \<open>\<open>nandReadPageTotal(sequencing_buffer, addr)\<close>, as its callers write it.\<close>

definition read_total :: "u32 \<Rightarrow> 'z seq_scheme \<Rightarrow> (int \<times> 'z seq_scheme) option" where
  "read_total addr s = do {
     (e, b) \<leftarrow> nandReadPageTotal (sequencing_buffer s) addr s;
     Some (e, s\<lparr>sequencing_buffer := b\<rparr>)
   }"

definition nandProgramTotalPage :: "buf \<Rightarrow> u32 \<Rightarrow> 'z seq_scheme \<Rightarrow> (int \<times> buf \<times> 'z seq_scheme) option" where
  "nandProgramTotalPage b phy_addr s = do {
     (e, b1, s1) \<leftarrow> nandProgramPageA b phy_addr 0 (if GET_OBS_FLAG b 2048 = 0 then 2112 else 2111) s;
     Some (if e \<noteq> 0 then 1 else 0, b1, s1)
   }"

definition prog_total :: "u32 \<Rightarrow> 'z seq_scheme \<Rightarrow> (int \<times> 'z seq_scheme) option" where
  "prog_total addr s = do {
     (e, b, s1) \<leftarrow> nandProgramTotalPage (sequencing_buffer s) addr s;
     Some (e, s1\<lparr>sequencing_buffer := b\<rparr>)
   }"

text \<open>\<open>writeBlock\<close> returns the logical address it reports, empty when the programming failed, and the caller's buffer.\<close>

definition writeBlock :: "buf \<Rightarrow> u32 \<Rightarrow> 'z seq_scheme \<Rightarrow> (logical_addr \<times> buf \<times> 'z seq_scheme) option" where
  "writeBlock data phy_addr s = do {
     let (data1, phy1) =
       (if is_eu_reserve s = 0
        then (SET_SEG_TYPE_FLAG (SET_SLOT_EU_OFFSET data 2048
                (CALCULATE_SLOT_ID_AND_EU_OFFSET (CALC_ADDRESS (new_slot_id s) 0 (GET_RECLAIMED_OFFSET s)))) 2048 0,
              reserve_eu_addr s + CALC_OFFSET_IN_EU phy_addr)
        else (SET_SEG_TYPE_FLAG data 2048 3, phy_addr));
     (e, data2, s1) \<leftarrow> nandProgramTotalPage data1 phy1 s;
     Some (if e \<noteq> 0 then init_logical_address
           else copyLogicalAddress init_logical_address (reclaimed_logical_addr s1), data2, s1)
   }"

definition set_cp_page_flag :: "buf \<Rightarrow> nat \<Rightarrow> u32 \<Rightarrow> u32 \<Rightarrow> buf" where
  "set_cp_page_flag b base cp_page_idx cp_page_idx_max =
     (if cp_page_idx = 0 then SET_CHECKPOINT_FLAG b base 0
      else if cp_page_idx = cp_page_idx_max then SET_CHECKPOINT_FLAG b base 2
      else SET_CHECKPOINT_FLAG b base 1)"

section \<open>Erasing the current segment\<close>

fun truncate_loop :: "nat \<Rightarrow> 'z seq_scheme \<Rightarrow> (int \<times> 'z seq_scheme) option" where
  "truncate_loop 0 s = None"
| "truncate_loop (Suc n) s = do {
     (a, s1) \<leftarrow> logicalAddressToPhysical (reclaimed_logical_addr s) s;
     (e, s2) \<leftarrow> nandErase a s1;
     if e \<noteq> 0 then Some (1, SET_RECLAIMED_OFFSET SEQ_NO_PAGE_OFFSET (SET_RECLAIMED_SEGMENT SEQ_NO_SEGMENT_NUM s2))
     else if GET_RECLAIMED_OFFSET s2 \<ge> 64
     then truncate_loop n (SET_RECLAIMED_OFFSET (GET_RECLAIMED_OFFSET s2 - 64) s2)
     else Some (0, s2)
   }"

definition truncateCurrentSegment :: "'z seq_scheme \<Rightarrow> (int \<times> 'z seq_scheme) option" where
  "truncateCurrentSegment s = truncate_loop 64 s"

section \<open>Copying pages\<close>

definition copyPage :: "u32 \<Rightarrow> u32 \<Rightarrow> bool \<Rightarrow> u32 \<Rightarrow> bool \<Rightarrow> 'z seq_scheme \<Rightarrow> (int \<times> 'z seq_scheme) option" where
  "copyPage to_addr from_addr isToReserve originalToAddress isSlotReserve s = do {
     (e, s1) \<leftarrow> read_total from_addr s;
     if e \<noteq> 0 then Some (1, s1)
     else do {
       let b = sequencing_buffer s1;
       let b1 = (if isToReserve then SET_SLOT_EU_OFFSET b 2048 (CALCULATE_SLOT_ID_AND_EU_OFFSET originalToAddress)
                 else if \<not> isSlotReserve then SET_SLOT_EU_OFFSET b 2048 SEQ_NO_SLOT_AND_EU_OFFSET
                 else b);
       (e2, s2) \<leftarrow> prog_total to_addr (s1\<lparr>sequencing_buffer := b1\<rparr>);
       Some (if e2 \<noteq> 0 then 1 else 0, s2)
     }
   }"

definition copyBackPage :: "u32 \<Rightarrow> u32 \<Rightarrow> bool \<Rightarrow> u32 \<Rightarrow> 'z seq_scheme \<Rightarrow> (int \<times> 'z seq_scheme) option" where
  "copyBackPage to_addr from_addr withCopyBackFlags org_from s = do {
     (e, s1) \<leftarrow> read_total from_addr s;
     if e \<noteq> 0 then Some (1, s1)
     else if \<not> IS_PAGE_USED (sequencing_buffer s1) 2048 then Some (0, s1)
     else do {
       let b = sequencing_buffer s1;
       let b1 =
         (if withCopyBackFlags
          then SET_SLOT_EU_OFFSET (SET_COPY_BACK_FLAG b 2048 0) 2048
                 (CALCULATE_SLOT_ID_AND_EU_OFFSET (if IS_PHY_ADDR_EMPTY org_from then from_addr else org_from))
          else (let b2 = SET_COPY_BACK_FLAG b 2048 1 in
                if IS_PHY_ADDR_EMPTY org_from then SET_SLOT_EU_OFFSET b2 2048 SEQ_SLOT_EU_ID_EMPTY else b2));
       (e2, s2) \<leftarrow> prog_total to_addr (s1\<lparr>sequencing_buffer := b1\<rparr>);
       Some (if e2 \<noteq> 0 then 1 else 0, s2)
     }
   }"

text \<open>The loop that copies the pages \<open>i\<close> of one unit to another, with early exit.\<close>

fun copy_back_pages :: "u32 \<Rightarrow> u32 \<Rightarrow> bool \<Rightarrow> u32 \<Rightarrow> nat list \<Rightarrow> 'z seq_scheme \<Rightarrow> (int \<times> 'z seq_scheme) option" where
  "copy_back_pages to_eu from_eu withFlags real_org_eu [] s = Some (0, s)"
| "copy_back_pages to_eu from_eu withFlags real_org_eu (i # is) s = do {
     (e, s1) \<leftarrow> copyBackPage (to_eu + of_nat i) (from_eu + of_nat i) withFlags real_org_eu s;
     if e \<noteq> 0 then Some (1, s1) else copy_back_pages to_eu from_eu withFlags real_org_eu is s1
   }"

definition copyBackSimple :: "u32 \<Rightarrow> u32 \<Rightarrow> bool \<Rightarrow> u32 \<Rightarrow> 'z seq_scheme \<Rightarrow> (int \<times> 'z seq_scheme) option" where
  "copyBackSimple cb_eu_phy_addr org_eu_phy_addr isOrgErased real_org_eu s = do {
     let max_offset = CALC_OFFSET_IN_EU org_eu_phy_addr;
     let org_eu = CALC_EU_START org_eu_phy_addr;
     (e1, s1) \<leftarrow> (if \<not> isOrgErased then copy_back_pages cb_eu_phy_addr org_eu True real_org_eu [0..<unat max_offset] s
                  else Some (0, s));
     if e1 \<noteq> 0 then Some (1, s1)
     else do {
       (e2, s2) \<leftarrow> nandErase org_eu s1;
       if e2 \<noteq> 0 then Some (1, s2)
       else do {
         (e3, s3) \<leftarrow> copy_back_pages org_eu cb_eu_phy_addr False real_org_eu [0..<unat max_offset] s2;
         if e3 \<noteq> 0 then Some (1, s3)
         else do {
           (_, s4) \<leftarrow> nandErase cb_eu_phy_addr s3;
           Some (0, s4)
         }
       }
     }
   }"

definition copyBackEU :: "logical_addr \<Rightarrow> 'z seq_scheme \<Rightarrow> (int \<times> 'z seq_scheme) option" where
  "copyBackEU org_log_addr s = do {
     let max_offset = CALC_OFFSET_IN_EU (GET_LOGICAL_OFFSET org_log_addr);
     let log_addr = setLogicalOffset org_log_addr (CALC_EU_START (GET_LOGICAL_OFFSET org_log_addr));
     (org_phy_addr, s1) \<leftarrow> logicalAddressToPhysical log_addr s;
     (cb_eu_start, s2) \<leftarrow> GET_COPYBACK_EU s1;
     assert_c (\<not> IS_ADDRESS_ERROR cb_eu_start);
     let reserve = isAddressReserve org_phy_addr s2;
     (e, flags) \<leftarrow> (if reserve then nandReadPageFlags (junk s2) org_phy_addr s2 else Some (0, junk s2));
     if e \<noteq> 0 then Some (1, s2)
     else do {
       let real_org_eu = (if reserve then CALC_EU_START (EXTRACT_ADDR_FROM_SLOT_ID_AND_EU_OFFSET (GET_SLOT_EU_OFFSET flags 0))
                          else SEQ_PHY_ADDRESS_EMPTY);
       copyBackSimple cb_eu_start (CALC_EU_START org_phy_addr + max_offset + 1) False real_org_eu s2
     }
   }"

section \<open>Copying valid pages during reclamation\<close>

definition is_page_to_copy :: "buf \<Rightarrow> u32 \<Rightarrow> 'z seq_scheme \<Rightarrow> (bool \<times> buf \<times> 'z seq_scheme) option" where
  "is_page_to_copy copy_flags phy_addr s = do {
     (_, f) \<leftarrow> nandReadPageFlags (initFlags copy_flags 0) phy_addr s;
     if GET_OBS_FLAG f 0 = 0 \<or> GET_CHECKPOINT_FLAG f 0 \<noteq> 3
     then Some (False, f, if GET_OBS_FLAG f 0 = 0 then DECREMENT_OBS_COUNT s else DECREMENT_FREE_COUNT s)
     else Some (True, initFlags f 0, s)
   }"

definition copyValidBlock :: "u32 \<Rightarrow> u32 \<Rightarrow> 'z seq_scheme \<Rightarrow> (int \<times> 'z seq_scheme) option" where
  "copyValidBlock phy_addr org_phy_addr s = do {
     (a, s1) \<leftarrow> logicalAddressToPhysical (reclaimed_logical_addr s) s;
     (e, s2) \<leftarrow> read_total a s1;
     if e \<noteq> 0 then Some (1, s2)
     else do {
       let b = SET_SLOT_EU_OFFSET (SET_COPY_FLAG (sequencing_buffer s2) 2048 0) 2048
         (if \<not> IS_PHY_ADDR_EMPTY org_phy_addr then CALCULATE_SLOT_ID_AND_EU_OFFSET org_phy_addr
          else SEQ_NO_SLOT_AND_EU_OFFSET);
       (log_addr, b1, s3) \<leftarrow> writeBlock b phy_addr s2;
       Some (if IS_ADDRESS_EMPTY log_addr then 1 else 0, s3\<lparr>sequencing_buffer := b1\<rparr>)
     }
   }"

section \<open>Reading blocks\<close>

definition readBlock :: "logical_addr \<Rightarrow> buf \<Rightarrow> 'z seq_scheme \<Rightarrow> (int \<times> buf \<times> 'z seq_scheme) option" where
  "readBlock b data s = do {
     (phy_addr, s1) \<leftarrow> logicalAddressToPhysical b s;
     assert_c (\<not> IS_PHY_ADDR_EMPTY phy_addr);
     (e, s2) \<leftarrow> read_total phy_addr s1;
     if e \<noteq> 0 then Some (1, data, s2)
     else Some (0, fsMemcpy data 0 (sequencing_buffer s2) 0 2048, init_buf s2)
   }"

text \<open>The result is the error, the buffer, the address of the previous block and whether the block holds VOTs.\<close>

definition readVOTsAndPrev ::
  "logical_addr \<Rightarrow> buf \<Rightarrow> logical_addr \<Rightarrow> 'z seq_scheme \<Rightarrow> (int \<times> buf \<times> logical_addr \<times> bool \<times> 'z seq_scheme) option" where
  "readVOTsAndPrev b VOTs prev s = do {
     (phy_addr, s1) \<leftarrow> logicalAddressToPhysical b s;
     assert_c (\<not> IS_PHY_ADDR_EMPTY phy_addr);
     (_, flags) \<leftarrow> nandReadPageFlags (junk s1) phy_addr s1;
     let prev1 = extract_prev_address flags 0 prev;
     if GET_VOTS_FLAG flags 0 = 0 then do {
       (e, VOTs1, s2) \<leftarrow> readBlock b VOTs s1;
       Some (e, VOTs1, prev1, True, s2)
     } else Some (0, VOTs, prev1, False, s1)
   }"

section \<open>Marking a page obsolete\<close>

definition markAsObsolete :: "logical_addr \<Rightarrow> bool \<Rightarrow> 'z seq_scheme \<Rightarrow> (int \<times> 'z seq_scheme) option" where
  "markAsObsolete b is_after_reboot s = do {
     (phy_addr, s1) \<leftarrow> logicalAddressToPhysical b s;
     if IS_PHY_ADDR_EMPTY phy_addr then Some (1, s1)
     else do {
       obs \<leftarrow> is_page_marked_obsolete phy_addr s1;
       if obs then Some (0, if is_after_reboot then INCREASE_OBS_COUNT s1 else s1)
       else do {
         (e, s2) \<leftarrow> nandProgramPageC (\<lambda>_. obsolete_byte s1) phy_addr 63 1 s1;
         if e \<noteq> 0 then Some (1, s2)
         else do {
           let s3 = INCREASE_OBS_COUNT s2;
           level \<leftarrow> get_counter_level (GET_LOGICAL_SEGMENT b) s3;
           if level = OBS_COUNT_NO_OBSOLETES then do {
             s4 \<leftarrow> change_counter_level OBS_COUNT_LEVEL_0 (GET_LOGICAL_SEGMENT b) s3;
             Some (0, s4)
           } else do {
             let (bit, s4) = draw_bit 7 s3;
             if bit = 0 then Some (0, s4)
             else do {
               s5 \<leftarrow> increment_counter (GET_LOGICAL_SEGMENT b) s4;
               Some (0, s5)
             }
           }
         }
       }
     }
   }"

section \<open>Erasing a slot and choosing a segment to reclaim\<close>

fun truncate_slot_loop :: "nat \<Rightarrow> u32 \<Rightarrow> u32 \<Rightarrow> bool \<Rightarrow> buf \<Rightarrow> 'z seq_scheme \<Rightarrow> (int \<times> 'z seq_scheme) option" where
  "truncate_slot_loop 0 phy_addr i isSlotReserve flags s = None"
| "truncate_slot_loop (Suc n) phy_addr i isSlotReserve flags s =
     (if \<not> (i > phy_addr \<and> i < NAND_PAGE_COUNT) then Some (0, s)
      else do {
        (ok, s1) \<leftarrow> seq_check_eu_status i s;
        if ok then do {
          (e, s2) \<leftarrow> nandErase i s1;
          if e \<noteq> 0 then Some (1, s2) else truncate_slot_loop n phy_addr (i - 64) isSlotReserve flags s2
        }
        else if isSlotReserve then truncate_slot_loop n phy_addr (i - 64) isSlotReserve flags s1
        else do {
          (reserve_phy_addr, flags1) \<leftarrow> logicalAddressToReservePhysical flags i s1;
          (e, s2) \<leftarrow> (if \<not> IS_PHY_ADDR_EMPTY reserve_phy_addr then nandErase reserve_phy_addr s1 else Some (0, s1));
          if e \<noteq> 0 then Some (1, s2) else truncate_slot_loop n phy_addr (i - 64) isSlotReserve flags1 s2
        }
      })"

definition truncateSlot :: "u32 \<Rightarrow> bool \<Rightarrow> 'z seq_scheme \<Rightarrow> (int \<times> 'z seq_scheme) option" where
  "truncateSlot slot_id isSlotReserve s =
     (let phy_addr = CALC_ADDRESS slot_id 0 0
      in truncate_slot_loop 17 phy_addr (phy_addr + SEQ_MAX_LOGICAL_OFFSET) isSlotReserve (junk s) s)"

fun reclaim_seg_loop :: "u32 \<Rightarrow> nat list \<Rightarrow> 'z seq_scheme \<Rightarrow> u32 option option" where
  "reclaim_seg_loop obs_level [] s = Some None"
| "reclaim_seg_loop obs_level (i # is) s = do {
     level \<leftarrow> get_counter_level (of_nat i) s;
     if level \<ge> obs_level \<and> of_nat i \<noteq> GET_RECLAIMED_SEGMENT s \<and> level \<noteq> OBS_COUNT_FULL
     then Some (Some (of_nat i)) else reclaim_seg_loop obs_level is s
   }"

fun reclaim_level_loop :: "nat list \<Rightarrow> 'z seq_scheme \<Rightarrow> u32 option option" where
  "reclaim_level_loop [] s = Some None"
| "reclaim_level_loop (l # ls) s = do {
     r \<leftarrow> reclaim_seg_loop (of_nat l) [0..<509] s;
     if r \<noteq> None then Some r else reclaim_level_loop ls s
   }"

definition findSegmentToReclaim :: "'z seq_scheme \<Rightarrow> (int \<times> 'z seq_scheme) option" where
  "findSegmentToReclaim s = do {
     r \<leftarrow> reclaim_level_loop (rev [1..<9]) s;
     Some (case r of
       Some i \<Rightarrow> (0, SET_RECLAIMED_OFFSET 0 (SET_RECLAIMED_SEGMENT i s))
     | None \<Rightarrow> (1, s))
   }"

definition setIsCommit :: "bool \<Rightarrow> u32" where
  "setIsCommit isCommitLastPage = (if isCommitLastPage then 2 else 1)"

section \<open>Bytes outside a flag\<close>

lemma flag_low [simp]:
  assumes "i < base"
  shows "SET_SLOT_EU_OFFSET b base v i = b i" "SET_COPY_BACK_FLAG b base v i = b i" "SET_CHECKPOINT_FLAG b base v i = b i"
    "SET_VOTS_FLAG b base v i = b i" "SET_COPY_FLAG b base v i = b i" "SET_SEG_TYPE_FLAG b base v i = b i"
  using assms by (auto intro!: slot_eu.set_byte_frame copy_back.set_byte_frame cp_flag.set_byte_frame
      vots_flag.set_byte_frame copy_flag.set_byte_frame seg_type.set_byte_frame)

lemma flag_bad_byte [simp]:
  assumes "i = base + 5"
  shows "SET_SLOT_EU_OFFSET b base v i = b i" "SET_COPY_BACK_FLAG b base v i = b i" "SET_CHECKPOINT_FLAG b base v i = b i"
    "SET_VOTS_FLAG b base v i = b i" "SET_COPY_FLAG b base v i = b i" "SET_SEG_TYPE_FLAG b base v i = b i"
  using assms by (auto simp: field_defs intro!: slot_eu.set_byte_frame copy_back.set_byte_frame cp_flag.set_byte_frame
      vots_flag.set_byte_frame copy_flag.set_byte_frame seg_type.set_byte_frame)

section \<open>Reading and programming a page\<close>

lemma read_total_sound:
  assumes "p < NAND_PAGE_COUNT" "fps s" "\<not> rd_fail s p" "page_sound (cells s p)"
  shows "read_total p s = Some (0, s\<lparr>sequencing_buffer := buf_copy (sequencing_buffer s) 0 (cells s p) 0 NAND_TOTAL_SIZE\<rparr>)"
  using assms by (simp add: read_total_def nandReadPageTotal_sound)

definition written_page :: "buf \<Rightarrow> buf \<Rightarrow> buf" where
  "written_page old b = buf_copy old 0 (setECC b) 0 (if GET_OBS_FLAG b 2048 = 0 then 2112 else 2111)"

definition programmed :: "buf \<Rightarrow> u32 \<Rightarrow> 'z nand_scheme \<Rightarrow> 'z nand_scheme" where
  "programmed b p s = s\<lparr>cells := (cells s)(p := written_page (cells s p) b),
     main_area_writes := (main_area_writes s)(p := 1),
     spare_writes := (if GET_OBS_FLAG b 2048 = 0 then (spare_writes s)(p := 1) else spare_writes s)\<rparr>"

lemma written_page_byte: "i < 2111 \<Longrightarrow> \<not> (2057 \<le> i \<and> i < 2081) \<Longrightarrow> written_page old b i = b i"
  by (simp add: written_page_def)

lemma written_page_sound: "page_sound (written_page old b)"
  using page_sound_setECC [of b] by (subst page_sound_cong [of _ "setECC b"]) (simp_all add: written_page_def)

lemma programmed_sel [simp]:
  "cells (programmed b p s) q = (if q = p then written_page (cells s p) b else cells s q)"
  "erase_buf (programmed b p s) = erase_buf s" "wr_fail (programmed b p s) = wr_fail s"
  "rd_fail (programmed b p s) = rd_fail s" "fps (programmed b p s) = fps s" "junk (programmed b p s) = junk s"
  "main_area_writes (programmed b p s) q = (if q = p then 1 else main_area_writes s q)"
  by (simp_all add: programmed_def)

lemma nandProgramTotalPage_ok:
  assumes "page_ok p s" "main_area_writes s p = 0"
  shows "nandProgramTotalPage b p s = Some (0, setECC b, programmed b p s)"
  using assms nandProgramPageA_simp [of p s 0 2112 b] nandProgramPageA_simp [of p s 0 2111 b]
  by (simp add: nandProgramTotalPage_def page_ok_def programmed_def written_page_def Let_def)

lemma programmed_good:
  assumes "eu_good q s" "b 2053 = 0xff"
  shows "eu_good q (programmed b p s)"
  using assms by (auto simp: eu_good_def written_page_byte)

lemma programmed_seq_sel [simp]:
  "seg_to_slot_map (programmed b p s) = seg_to_slot_map s" "reclaimed_logical_addr (programmed b p s) = reclaimed_logical_addr s"
  "previously_written_segment (programmed b p s) = previously_written_segment s" "reserve_eu_addr (programmed b p s) = reserve_eu_addr s"
  "nSegments (programmed b p s) = nSegments s" "is_eu_reserve (programmed b p s) = is_eu_reserve s"
  "new_slot_id (programmed b p s) = new_slot_id s" "valid_eus (programmed b p s) = valid_eus s"
  "sequence_num (programmed b p s) = sequence_num s" "obs_mem (programmed b p s) = obs_mem s"
  "lfsr_state (programmed b p s) = lfsr_state s" "sequencing_buffer (programmed b p s) = sequencing_buffer s"
  "obsolete_byte (programmed b p s) = obsolete_byte s"
  by (simp_all add: programmed_def)

lemma programmed_buffer [simp]: "programmed B p (s\<lparr>sequencing_buffer := d\<rparr>) = (programmed B p s)\<lparr>sequencing_buffer := d\<rparr>"
  by (simp add: programmed_def)

lemma eus_ok_programmed:
  "eus_ok s \<Longrightarrow> b 2053 = 0xff \<Longrightarrow> eus_ok (programmed b p s)"
  by (auto simp: eus_ok_def programmed_good)

section \<open>Translating an address\<close>

text \<open>A logical address stands for its \<open>plain_page\<close> when the unit needs no replacement.\<close>

definition unit_fine :: "u32 \<Rightarrow> 'z nand_scheme \<Rightarrow> bool" where
  "unit_fine p s = (p < NAND_PAGE_COUNT \<and> fps s \<and> eu_readable p s \<and> eu_good p s)"

lemma CALC_EU_START_less: "p < NAND_PAGE_COUNT \<Longrightarrow> CALC_EU_START p < NAND_PAGE_COUNT"
  using eu_le [of p] by (simp add: CALC_EU_START_def)

lemma eu_readable_start [simp]: "eu_readable (CALC_EU_START p) s = eu_readable p s"
  by (simp add: eu_readable_def CALC_EU_START_def)

lemma seq_check_fine:
  assumes "unit_fine p s" "eus_ok s"
  obtains q where "seq_check_eu_status p s = Some (True, s\<lparr>valid_eus := q\<rparr>)" "eus_ok (s\<lparr>valid_eus := q\<rparr>)"
  using seq_check_eu_status_ok [of p s] assms by (auto simp: unit_fine_def)

lemma translate_plain:
  assumes "plain_page la s = Some p" "unit_fine p s" "eus_ok s"
  obtains q where "logicalAddressToPhysical la s = Some (p, s\<lparr>valid_eus := q\<rparr>)" "eus_ok (s\<lparr>valid_eus := q\<rparr>)"
proof -
  have "unit_fine (CALC_EU_START p) s" using assms(2) by (simp add: unit_fine_def CALC_EU_START_less)
  then obtain q where q: "seq_check_eu_status (CALC_EU_START p) s = Some (True, s\<lparr>valid_eus := q\<rparr>)" "eus_ok (s\<lparr>valid_eus := q\<rparr>)"
    using seq_check_fine assms(3) by blast
  show thesis using logicalAddressToPhysical_plain [OF assms(1) q(1)] by (intro that [OF _ q(2)]) simp
qed

lemma unit_fine_programmed: "unit_fine q s \<Longrightarrow> b 2053 = 0xff \<Longrightarrow> unit_fine q (programmed b p s)"
  by (simp add: unit_fine_def programmed_good eu_readable_def)

lemma IS_STATE_RECLAMATION_upd [simp]:
  "IS_STATE_RECLAMATION (s\<lparr>valid_eus := q\<rparr>) = IS_STATE_RECLAMATION s"
  "IS_STATE_RECLAMATION (s\<lparr>sequencing_buffer := b\<rparr>) = IS_STATE_RECLAMATION s"
  "IS_STATE_RECLAMATION (SET_RECLAIMED_OFFSET v s) = IS_STATE_RECLAMATION s"
  "IS_STATE_RECLAMATION (programmed d p s) = IS_STATE_RECLAMATION s"
  by (simp_all add: IS_STATE_RECLAMATION_def GET_RECLAIMED_SEGMENT_SLOT_def GET_SEG_MAP_SLOT_FOR_SEG_def)
    (simp_all add: GET_RECLAIMED_SEGMENT_def SET_RECLAIMED_OFFSET_def segment_part.get_put)

lemma readBlock_plain_state:
  assumes "plain_page la s = Some p" "unit_fine p s" "eus_ok s" "\<not> rd_fail s p" "page_sound (cells s p)"
  shows "\<exists>q c. readBlock la data s = Some (0, buf_copy data 0 (cells s p) 0 2048, s\<lparr>valid_eus := q, sequencing_buffer := c\<rparr>) \<and>
    eus_ok (s\<lparr>valid_eus := q\<rparr>)"
proof -
  obtain q where q: "logicalAddressToPhysical la s = Some (p, s\<lparr>valid_eus := q\<rparr>)" "eus_ok (s\<lparr>valid_eus := q\<rparr>)"
    using translate_plain [OF assms(1-3)] by blast
  have p: "p < NAND_PAGE_COUNT" "fps s" using assms(2) by (simp_all add: unit_fine_def)
  have ne: "p \<noteq> SEQ_PHY_ADDRESS_EMPTY" using p(1) by auto
  have b: "buf_copy data 0 (buf_copy b 0 c 0 NAND_TOTAL_SIZE) 0 2048 = buf_copy data 0 c 0 2048" for b c
    by (auto simp: buf_copy_def fun_eq_iff)
  show ?thesis
    using read_total_sound [of p "s\<lparr>valid_eus := q\<rparr>"] p assms(4,5) ne q
    by (auto simp: readBlock_def IS_PHY_ADDR_EMPTY_def fsMemcpy_copy b init_buf_def)
qed

lemma readBlock_plain:
  assumes "plain_page la s = Some p" "unit_fine p s" "eus_ok s" "\<not> rd_fail s p" "page_sound (cells s p)"
  shows "\<exists>s'. readBlock la data s = Some (0, buf_copy data 0 (cells s p) 0 2048, s')"
  using readBlock_plain_state [OF assms] by blast

section \<open>The segment to reclaim\<close>

text \<open>The level of a segment's counter, and which segments may be reclaimed.\<close>

definition obs_level :: "'z seq_scheme \<Rightarrow> nat \<Rightarrow> u32" where
  "obs_level s i = (case get_counter_level (of_nat i) s of Some l \<Rightarrow> l | None \<Rightarrow> 0)"

definition reclaimable :: "'z seq_scheme \<Rightarrow> nat \<Rightarrow> bool" where
  "reclaimable s i = (i < 509 \<and> 1 \<le> obs_level s i \<and> obs_level s i \<noteq> OBS_COUNT_FULL \<and> of_nat i \<noteq> GET_RECLAIMED_SEGMENT s)"

lemma obs_level_eq: "i < 512 \<Longrightarrow> get_counter_level (of_nat i) s = Some (obs_level s i)"
  using counters.get_some [of "of_nat i" s] by (auto simp: obs_level_def word_less_nat_alt unat_of_nat)

lemma reclaim_seg_loop_find:
  "\<forall>i\<in>set is. i < 512 \<Longrightarrow> reclaim_seg_loop l is s =
    Some (map_option of_nat (List.find (\<lambda>i. obs_level s i \<ge> l \<and> of_nat i \<noteq> GET_RECLAIMED_SEGMENT s \<and> obs_level s i \<noteq> OBS_COUNT_FULL) is))"
  by (induction "is") (simp_all add: obs_level_eq)

definition first_at :: "'z seq_scheme \<Rightarrow> nat \<Rightarrow> nat option" where
  "first_at s l = List.find (\<lambda>i. reclaimable s i \<and> l \<le> unat (obs_level s i)) [0..<509]"

lemma reclaim_level:
  assumes "1 \<le> l" "l < 16"
  shows "reclaim_seg_loop (of_nat l) [0..<509] s = Some (map_option of_nat (first_at s l))"
proof -
  have l: "unat (of_nat l :: u32) = l" using assms(2) by (simp add: unat_of_nat)
  have eq: "List.find P [0..<509] = List.find Q [0..<509]" if "\<And>i. i < 509 \<Longrightarrow> P i = Q i" for P Q
    by (rule find_cong) (use that in auto)
  have "List.find (\<lambda>i. obs_level s i \<ge> of_nat l \<and> of_nat i \<noteq> GET_RECLAIMED_SEGMENT s \<and> obs_level s i \<noteq> OBS_COUNT_FULL) [0..<509]
      = first_at s l"
    unfolding first_at_def by (rule eq) (use assms in \<open>auto simp: reclaimable_def word_le_nat_alt l\<close>)
  then show ?thesis by (simp add: reclaim_seg_loop_find)
qed

lemma reclaim_level_loop_first:
  "\<forall>l\<in>set ls. 1 \<le> l \<and> l < 16 \<Longrightarrow> reclaim_level_loop ls s =
    Some (map_option of_nat (case List.find (\<lambda>l. first_at s l \<noteq> None) ls of Some l \<Rightarrow> first_at s l | None \<Rightarrow> None))"
  by (induction ls) (auto simp: reclaim_level)

lemma first_at_Some:
  assumes "first_at s l = Some i"
  shows "reclaimable s i" "l \<le> unat (obs_level s i)" "\<And>j. reclaimable s j \<Longrightarrow> l \<le> unat (obs_level s j) \<Longrightarrow> i \<le> j"
proof -
  obtain k where k: "k < 509" "reclaimable s k" "l \<le> unat (obs_level s k)" "i = k"
    "\<forall>j<k. \<not> (reclaimable s j \<and> l \<le> unat (obs_level s j))"
    using assms unfolding first_at_def find_Some_iff by auto
  then show "reclaimable s i" "l \<le> unat (obs_level s i)" "\<And>j. reclaimable s j \<Longrightarrow> l \<le> unat (obs_level s j) \<Longrightarrow> i \<le> j"
    by (auto simp: not_less [symmetric])
qed

lemma reclaimable_lt: "reclaimable s i \<Longrightarrow> i < 509"
  by (simp add: reclaimable_def)

lemma first_at_None: "first_at s l = None \<longleftrightarrow> (\<forall>i. reclaimable s i \<longrightarrow> unat (obs_level s i) < l)"
proof
  assume n: "first_at s l = None"
  show "\<forall>i. reclaimable s i \<longrightarrow> unat (obs_level s i) < l"
  proof (intro allI impI)
    fix i
    assume i: "reclaimable s i"
    then have "i \<in> set [0..<509]" using reclaimable_lt by simp
    with n i have "\<not> l \<le> unat (obs_level s i)" unfolding first_at_def find_None_iff by blast
    then show "unat (obs_level s i) < l" by simp
  qed
qed (auto simp: first_at_def find_None_iff)

text \<open>The scan goes down from level 8; counters above it count as 8.\<close>

definition reclaim_rank :: "'z seq_scheme \<Rightarrow> nat \<Rightarrow> nat" where
  "reclaim_rank s i = min 8 (unat (obs_level s i))"

lemma levels_nth: "k < 8 \<Longrightarrow> rev [1..<9] ! k = 8 - (k :: nat)"
  by (simp add: rev_nth)

lemma reclaim_level_best:
  assumes "List.find (\<lambda>l. first_at s l \<noteq> None) (rev [1..<9]) = Some l" "first_at s l = Some i" "reclaimable s j"
  shows "reclaim_rank s j \<le> reclaim_rank s i" "reclaim_rank s j = reclaim_rank s i \<Longrightarrow> i \<le> j"
proof -
  obtain k where k: "k < 8" "l = 8 - k" "\<forall>m<k. first_at s (8 - m) = None"
    using assms(1) levels_nth unfolding find_Some_iff by auto
  note i = first_at_Some [OF assms(2)]
  have top: "unat (obs_level s r) < Suc l" if "reclaimable s r" "l < 8" for r
  proof -
    have "k - 1 < k" using k that by simp
    then have "first_at s (8 - (k - 1)) = None" using k(3) by blast
    moreover have "8 - (k - 1) = Suc l" using k that by simp
    ultimately have "first_at s (Suc l) = None" by (simp only:)
    then show ?thesis using that(1) by (simp only: first_at_None)
  qed
  show "reclaim_rank s j \<le> reclaim_rank s i"
  proof (cases "l < 8")
    case True
    then show ?thesis using top [OF assms(3)] i(2) by (auto simp: reclaim_rank_def)
  next
    case False
    then show ?thesis using i(2) k by (auto simp: reclaim_rank_def)
  qed
  assume "reclaim_rank s j = reclaim_rank s i"
  then have "l \<le> unat (obs_level s j)" using i(2) k by (auto simp: reclaim_rank_def min_def split: if_splits)
  then show "i \<le> j" using i(3) assms(3) by blast
qed

lemma reclaim_level_none:
  assumes "List.find (\<lambda>l. first_at s l \<noteq> None) (rev [1..<9]) = None"
  shows "\<not> reclaimable s j"
proof
  assume j: "reclaimable s j"
  have "(1::nat) \<in> set (rev [1..<9])" by simp
  then have "first_at s 1 = None" using assms by (auto simp: find_None_iff)
  with j show False by (auto simp: first_at_None reclaimable_def word_le_nat_alt)
qed

text \<open>
  C18: reclamation takes the best segment.  Among the data segments other than the current one whose
  counter is not at 0 and not marked full, the search picks one of the highest level (counters
  above 8 rank as 8), the lowest numbered one of that level, and moves the current address to its
  start; it fails, changing nothing, exactly when there is no such segment.
\<close>

theorem findSegmentToReclaim_best:
  "\<exists>r s'. findSegmentToReclaim s = Some (r, s') \<and>
    (if \<exists>i. reclaimable s i
     then r = 0 \<and> (\<exists>i. reclaimable s i \<and> s' = SET_RECLAIMED_OFFSET 0 (SET_RECLAIMED_SEGMENT (of_nat i) s) \<and>
       (\<forall>j. reclaimable s j \<longrightarrow> reclaim_rank s j \<le> reclaim_rank s i \<and> (reclaim_rank s j = reclaim_rank s i \<longrightarrow> i \<le> j)))
     else r = 1 \<and> s' = s)"
proof -
  let ?f = "List.find (\<lambda>l. first_at s l \<noteq> None) (rev [1..<9])"
  have loop: "reclaim_level_loop (rev [1..<9]) s =
      Some (map_option of_nat (case ?f of Some l \<Rightarrow> first_at s l | None \<Rightarrow> None))"
    by (rule reclaim_level_loop_first) auto
  show ?thesis
  proof (cases ?f)
    case None
    have "\<not> reclaimable s j" for j by (rule reclaim_level_none [OF None])
    then show ?thesis using None loop unfolding findSegmentToReclaim_def by simp
  next
    case (Some l)
    then obtain i where i: "first_at s l = Some i" by (auto simp: find_Some_iff)
    have "reclaimable s i" by (rule first_at_Some [OF i])
    then show ?thesis
      using Some i loop reclaim_level_best [OF Some i] unfolding findSegmentToReclaim_def by auto
  qed
qed

text \<open>A layer in which segment 3 has two obsolete marks and segment 7 has five.\<close>

definition reclaim_seq :: seq where
  "reclaim_seq = blank_seq\<lparr>obs_mem := (\<lambda>_. 0)(1 := 0x20, 3 := 0x50)\<rparr>"

lemma obs_level_reclaim_seq: "obs_level reclaim_seq i = (if i = 3 then 2 else if i = 7 then 5 else 0)" if "i < 509"
proof -
  have lt: "unat (of_nat i :: u32) = i" using that by (simp add: unat_of_nat)
  have e: "(of_nat i AND 1 = (0::u32)) = even i" unfolding u32_even lt by (rule refl)
  have h: "i div 2 = 1 \<longleftrightarrow> i = 2 \<or> i = 3" "i div 2 = 3 \<longleftrightarrow> i = 6 \<or> i = 7" "i div 2 < 272" using that by auto
  show ?thesis
    using h by (auto simp: obs_level_def get_counter_level_def obs_byte_def lt e reclaim_seq_def drop_bit_eq_div)
qed

theorem findSegmentToReclaim_best_witness:
  "\<exists>s'. findSegmentToReclaim reclaim_seq = Some (0, s') \<and> GET_RECLAIMED_SEGMENT s' = 7"
proof -
  have seg: "GET_RECLAIMED_SEGMENT reclaim_seq = 0xfff"
    by (simp add: reclaim_seq_def GET_RECLAIMED_SEGMENT_def init_logical_address_def GET_LOGICAL_SEGMENT_def)
  have r: "reclaimable reclaim_seq i \<longleftrightarrow> i = 3 \<or> i = 7" for i
    unfolding reclaimable_def seg by (auto simp: obs_level_reclaim_seq split: if_splits)
  have k: "reclaim_rank reclaim_seq 3 = 2" "reclaim_rank reclaim_seq 7 = 5"
    by (simp_all add: reclaim_rank_def obs_level_reclaim_seq)
  have ex: "\<exists>i::nat. i = 3 \<or> i = 7" by blast
  obtain rr s' i where "findSegmentToReclaim reclaim_seq = Some (rr, s')" "rr = 0" "i = 3 \<or> i = 7"
    "s' = SET_RECLAIMED_OFFSET 0 (SET_RECLAIMED_SEGMENT (of_nat i) reclaim_seq)" "reclaim_rank reclaim_seq 7 \<le> reclaim_rank reclaim_seq i"
    using findSegmentToReclaim_best [of reclaim_seq] ex unfolding r by (simp only: if_True) blast
  then show ?thesis using k by (auto simp: word_and_max)
qed

end
