(* ===== verification/Reclaim.thy ===== *)
theory Reclaim
  imports Blocks
begin

text \<open>
  What erasing a slot (\<open>truncateSlot\<close>) and marking a page obsolete (\<open>markAsObsolete\<close>) do to the chip and
  to the counters: the loop of the one over the units of a slot, and the steps of the other on the
  page, the number of obsolete pages and the counter of the segment.
\<close>

unbundle bit_operations_syntax

section \<open>Erasing a slot\<close>

lemma erased_valid_eus [simp]: "erased P (s\<lparr>valid_eus := q\<rparr>) = (erased P s)\<lparr>valid_eus := q\<rparr>"
  by (rule seq.equality) (simp_all add: erased_def cong: if_cong)

lemma erased_seq_sel [simp]:
  "seg_to_slot_map (erased P s) = seg_to_slot_map s" "reclaimed_logical_addr (erased P s) = reclaimed_logical_addr s"
  "nSegments (erased P s) = nSegments s" "new_slot_id (erased P s) = new_slot_id s" "valid_eus (erased P s) = valid_eus s"
  "obs_mem (erased P s) = obs_mem s" "sequencing_buffer (erased P s) = sequencing_buffer s"
  by (simp_all add: erased_def)

lemma eu_good_same: "p AND NAND_EU_MASK = q AND NAND_EU_MASK \<Longrightarrow> eu_good p s = eu_good q s"
  by (simp add: eu_good_def)

lemma eu_good_erased:
  assumes "\<And>p. P p \<Longrightarrow> eu_good p s" "erase_buf s 2053 = 0xff" "q < NAND_PAGE_COUNT"
  shows "eu_good q (erased P s) = eu_good q s"
proof (cases "eu_good q s")
  case True
  then show ?thesis using assms(2) by (auto simp: eu_good_def erased_def)
next
  case False
  have "((q AND NAND_EU_MASK) + 1) AND NAND_EU_MASK = q AND NAND_EU_MASK"
    using eu_plus_eu [OF assms(3), of 1] by simp
  then have "\<not> P (q AND NAND_EU_MASK)" "\<not> P ((q AND NAND_EU_MASK) + 1)"
    using False assms(1) eu_good_same [of _ q s] by (metis eu_idem)+
  then show ?thesis by (simp add: eu_good_def erased_def)
qed

lemma eus_ok_erased:
  assumes "eus_ok s" "erase_buf s 2053 = 0xff"
  shows "eus_ok (erased P s)"
  using assms by (auto simp: eus_ok_def eu_good_def erased_def)

lemma last_of_unit:
  assumes "slot < 512" "k < 16"
  defines "i \<equiv> CALC_ADDRESS slot 0 0 + of_nat (64 * k + 63)"
  shows "unat i = unat slot * 1024 + 64 * k + 63" "i < NAND_PAGE_COUNT" "CALC_ADDRESS slot 0 0 < i"
    "unat i div 64 = 16 * unat slot + k" "GET_SLOT i = slot" "CALC_EU_START i \<in> set (slot_units slot 0)"
proof -
  have b: "unat slot < 512" using assms(1) by (simp add: word_less_nat_alt)
  have base: "unat (CALC_ADDRESS slot 0 0) = unat slot * 1024" using b by (subst unat_CALC_ADDRESS) simp_all
  show u: "unat i = unat slot * 1024 + 64 * k + 63"
  proof -
    have "unat (of_nat (64 * k + 63) :: u32) = 64 * k + 63" using assms(2) by (simp add: unat_of_nat take_bit_nat_eq_self del: of_nat_mult of_nat_add)
    then show ?thesis unfolding i_def unat_plus_u32 base using b assms(2) by (simp only:) simp
  qed
  show "i < NAND_PAGE_COUNT" "CALC_ADDRESS slot 0 0 < i" using u b base assms(2) by (simp_all add: word_less_nat_alt)
  show "unat i div 64 = 16 * unat slot + k" unfolding u by simp
  have j: "unat i = unat slot * 1024 + k * 64 + 63" using u by simp
  have "unat (GET_SLOT i) = unat slot" unfolding unat_GET_SLOT j using join_1024(1) [OF assms(2), of 63 "unat slot"] by simp
  then show "GET_SLOT i = slot" by (simp add: word_unat_eq_iff)
  have "unat (CALC_EU_START i) = unat (CALC_ADDRESS slot (of_nat k) 0)"
    unfolding unat_CALC_EU_START j using join_1024(4) [OF assms(2), of 63 "unat slot"] b assms(2)
    by (subst unat_CALC_ADDRESS) (simp_all add: unat_of_nat)
  then have "CALC_EU_START i = CALC_ADDRESS slot (of_nat k) 0" by (simp only: word_unat_eq_iff)
  then show "CALC_EU_START i \<in> set (slot_units slot 0)" using assms(2) by (simp add: slot_units_def)
qed

lemma truncate_slot_exit:
  assumes "slot < 512"
  shows "\<not> (CALC_ADDRESS slot 0 0 + 63 - 64 > CALC_ADDRESS slot 0 0 \<and> CALC_ADDRESS slot 0 0 + 63 - 64 < NAND_PAGE_COUNT)"
proof -
  have b: "unat slot < 512" using assms by (simp add: word_less_nat_alt)
  have base: "unat (CALC_ADDRESS slot 0 0) = unat slot * 1024" using b by (subst unat_CALC_ADDRESS) simp_all
  have e: "CALC_ADDRESS slot 0 0 + 63 - 64 = CALC_ADDRESS slot 0 0 - 1" by simp
  show ?thesis
  proof (cases "unat slot = 0")
    case True
    then have "CALC_ADDRESS slot 0 0 = 0" using base by (simp add: word_unat_eq_iff)
    then show ?thesis by simp
  next
    case False
    then have "unat (CALC_ADDRESS slot 0 0 - 1) = unat slot * 1024 - 1"
      using base b by (simp add: unat_sub_if_size)
    then show ?thesis using base unfolding e by (simp add: word_less_nat_alt)
  qed
qed

definition in_units :: "u32 \<Rightarrow> nat \<Rightarrow> u32 \<Rightarrow> bool" where
  "in_units slot n q = (16 * unat slot \<le> unat q div 64 \<and> unat q div 64 < 16 * unat slot + n)"

lemma in_units_empty [simp]: "in_units slot 0 q = False"
  by (auto simp: in_units_def)

lemma in_units_count: "slot < 512 \<Longrightarrow> n \<le> 16 \<Longrightarrow> in_units slot n q \<Longrightarrow> q < NAND_PAGE_COUNT"
  by (auto simp: in_units_def word_less_nat_alt)

lemma in_units_Suc: "in_units slot (Suc k) q = (in_units slot k q \<or> unat q div 64 = 16 * unat slot + k)"
  by (auto simp: in_units_def less_Suc_eq)

lemma in_units_slot: "n \<le> 16 \<Longrightarrow> in_units slot n q \<Longrightarrow> GET_SLOT q = slot"
proof -
  assume "n \<le> 16" "in_units slot n q"
  then have "unat q div 64 div 16 = unat slot" by (auto simp: in_units_def intro!: div_nat_eqI)
  then show ?thesis by (simp add: word_unat_eq_iff unat_GET_SLOT split_1024(2))
qed

lemma erased_cong: "(\<And>q. P q = Q q) \<Longrightarrow> erased P s = erased Q s"
  by (metis ext)

lemma erased_none [simp]: "erased (\<lambda>q. False) s = s"
  by (simp add: erased_def)

text \<open>The conditions under which a slot can be erased: every unit can be read and programmed.\<close>

definition slot_fine :: "u32 \<Rightarrow> 'z seq_scheme \<Rightarrow> bool" where
  "slot_fine slot s = (slot < 512 \<and> fps s \<and> eus_ok s \<and> erase_buf s 2053 = 0xff \<and>
     (\<forall>q. GET_SLOT q = slot \<longrightarrow> eu_readable q s \<and> \<not> wr_fail s q))"

lemma truncate_slot_good:
  assumes "i > b" "i < NAND_PAGE_COUNT" "seq_check_eu_status i s = Some (True, s1)" "nandErase i s1 = Some (0, s2)"
  shows "truncate_slot_loop (Suc n) b i r f s = truncate_slot_loop n b (i - 64) r f s2"
  unfolding truncate_slot_loop.simps assms(3) bind.bind_lunit prod.case using assms by simp

lemma truncate_slot_bad:
  assumes "i > b" "i < NAND_PAGE_COUNT" "seq_check_eu_status i s = Some (False, s1)"
  shows "truncate_slot_loop (Suc n) b i True f s = truncate_slot_loop n b (i - 64) True f s1"
  unfolding truncate_slot_loop.simps assms(3) bind.bind_lunit prod.case using assms by simp

lemma truncate_slot_units:
  assumes "n \<le> 16" "slot_fine slot s" "r \<or> (\<forall>q. in_units slot n q \<longrightarrow> eu_good q s)"
  shows "\<exists>v. truncate_slot_loop (Suc n) (CALC_ADDRESS slot 0 0) (CALC_ADDRESS slot 0 0 + of_nat (64 * n) - 1) r f s =
      Some (0, (erased (\<lambda>q. in_units slot n q \<and> eu_good q s) s)\<lparr>valid_eus := v\<rparr>) \<and>
    eus_ok ((erased (\<lambda>q. in_units slot n q \<and> eu_good q s) s)\<lparr>valid_eus := v\<rparr>)"
  using assms
proof (induction n arbitrary: s)
  case 0
  have "\<not> (CALC_ADDRESS slot 0 0 - 1 > CALC_ADDRESS slot 0 0 \<and> CALC_ADDRESS slot 0 0 - 1 < NAND_PAGE_COUNT)"
    using truncate_slot_exit [of slot] 0 by (simp add: slot_fine_def)
  moreover have "erased (\<lambda>q. in_units slot 0 q \<and> eu_good q s) s = s" by (simp add: in_units_empty)
  ultimately show ?case using 0 by (intro exI [of _ "valid_eus s"]) (simp add: slot_fine_def)
next
  case (Suc k)
  let ?b = "CALC_ADDRESS slot 0 0"
  define i where "i = ?b + of_nat (64 * k + 63)"
  have slot: "slot < 512" and k: "k < 16" using Suc.prems by (simp_all add: slot_fine_def)
  have i: "unat i div 64 = 16 * unat slot + k" "i < NAND_PAGE_COUNT" "?b < i" "GET_SLOT i = slot"
    using last_of_unit [OF slot k] by (simp_all add: i_def)
  have top: "?b + of_nat (64 * Suc k) - 1 = i" "i - 64 = ?b + of_nat (64 * k) - 1"
    by (simp_all add: i_def algebra_simps)
  have fine: "fps s" "eus_ok s" "eu_readable i s" "erase_buf s 2053 = 0xff"
    using Suc.prems i(4) by (simp_all add: slot_fine_def)
  obtain v where v: "seq_check_eu_status i s = Some (eu_good i s, s\<lparr>valid_eus := v\<rparr>)" "eus_ok (s\<lparr>valid_eus := v\<rparr>)"
    using seq_check_eu_status_ok [OF i(2) fine(1) fine(3) fine(2)] by blast
  have unit: "(in_units slot (Suc k) q \<and> eu_good q s) = (in_units slot k q \<and> eu_good q s \<or> unat q div 64 = unat i div 64 \<and> eu_good i s)" for q
    using eu_good_same [of q i s] unfolding same_eu_iff i(1) in_units_Suc by auto
  show ?case
  proof (cases "eu_good i s")
    case True
    let ?P = "\<lambda>q. q AND NAND_EU_MASK = i AND NAND_EU_MASK"
    let ?s = "erased ?P s\<lparr>valid_eus := v\<rparr>"
    have "\<not> wr_fail s q" if "?P q" for q
    proof -
      have "in_units slot (Suc k) q" using that unfolding same_eu_iff i(1) in_units_Suc by simp
      then show ?thesis using in_units_slot [of "Suc k" slot q] k Suc.prems(2) by (simp add: slot_fine_def)
    qed
    then have er: "nandErase i (s\<lparr>valid_eus := v\<rparr>) = Some (0, ?s)"
      using nandErase_simp [of i "s\<lparr>valid_eus := v\<rparr>"] i(2) fine True by simp
    have ok: "eus_ok ?s" using eus_ok_erased [OF v(2)] fine(4) by simp
    have good: "eu_good q ?s = eu_good q s" if "q < NAND_PAGE_COUNT" for q
      using eu_good_erased [of ?P s q] that fine(4) True eu_good_same by simp blast
    have fine': "slot_fine slot ?s"
      using Suc.prems(2) ok by (simp add: slot_fine_def eu_readable_def)
    have "r \<or> (\<forall>q. in_units slot k q \<longrightarrow> eu_good q ?s)"
      using Suc.prems(3) good in_units_count [OF slot, of k] k by (auto simp: in_units_Suc)
    then obtain w where w: "truncate_slot_loop (Suc k) ?b (i - 64) r f ?s =
        Some (0, (erased (\<lambda>q. in_units slot k q \<and> eu_good q ?s) ?s)\<lparr>valid_eus := w\<rparr>)"
      "eus_ok ((erased (\<lambda>q. in_units slot k q \<and> eu_good q ?s) ?s)\<lparr>valid_eus := w\<rparr>)"
      using Suc.IH [OF _ fine'] k unfolding top by auto
    have "(in_units slot k q \<and> eu_good q ?s \<or> ?P q) = (in_units slot (Suc k) q \<and> eu_good q s)" for q
      using good [of q] in_units_count [OF slot, of k q] k True unfolding unit same_eu_iff by auto
    then have eq: "erased (\<lambda>q. in_units slot k q \<and> eu_good q ?s) ?s =
        (erased (\<lambda>q. in_units slot (Suc k) q \<and> eu_good q s) s)\<lparr>valid_eus := v\<rparr>"
      by (simp add: erased_erased)
    have v': "seq_check_eu_status i s = Some (True, s\<lparr>valid_eus := v\<rparr>)" using v(1) True by simp
    show ?thesis
      unfolding top(1) truncate_slot_good [OF i(3,2) v' er] using w unfolding eq by (intro exI [of _ w]) (simp del: truncate_slot_loop.simps)
  next
    case False
    have fine': "slot_fine slot (s\<lparr>valid_eus := v\<rparr>)"
      using Suc.prems(2) v(2) by (simp add: slot_fine_def)
    have r: r using False Suc.prems(3) i(1) in_units_Suc by auto
    then obtain w where w: "truncate_slot_loop (Suc k) ?b (i - 64) r f (s\<lparr>valid_eus := v\<rparr>) =
        Some (0, (erased (\<lambda>q. in_units slot k q \<and> eu_good q s) s)\<lparr>valid_eus := w\<rparr>)"
      "eus_ok ((erased (\<lambda>q. in_units slot k q \<and> eu_good q s) s)\<lparr>valid_eus := w\<rparr>)"
      using Suc.IH [OF _ fine'] k unfolding top by auto
    have eq: "erased (\<lambda>q. in_units slot k q \<and> eu_good q s) s = erased (\<lambda>q. in_units slot (Suc k) q \<and> eu_good q s) s"
      using False by (intro erased_cong) (simp add: unit)
    have v': "seq_check_eu_status i s = Some (False, s\<lparr>valid_eus := v\<rparr>)" using v(1) False by simp
    have t: "r = True" using r by simp
    show ?thesis
      unfolding top(1) t truncate_slot_bad [OF i(3,2) v'] using w unfolding eq t by (intro exI [of _ w]) (simp del: truncate_slot_loop.simps)
  qed
qed

lemma in_units_all: "in_units slot 16 q = (GET_SLOT q = slot)"
proof -
  have "(GET_SLOT q = slot) = (unat q div 64 div 16 = unat slot)"
    by (simp add: word_unat_eq_iff unat_GET_SLOT split_1024(2))
  also have "\<dots> = (16 * unat slot \<le> unat q div 64 \<and> unat q div 64 < 16 * unat slot + 16)"
    by (auto simp: div_nat_eqI)
  finally show ?thesis by (simp add: in_units_def)
qed

lemma truncateSlot_ok:
  assumes "slot_fine slot s" "r \<or> (\<forall>q. GET_SLOT q = slot \<longrightarrow> eu_good q s)"
  obtains v where "truncateSlot slot r s = Some (0, (erased (\<lambda>q. GET_SLOT q = slot \<and> eu_good q s) s)\<lparr>valid_eus := v\<rparr>)"
    "eus_ok ((erased (\<lambda>q. GET_SLOT q = slot \<and> eu_good q s) s)\<lparr>valid_eus := v\<rparr>)"
proof -
  have "\<exists>v. truncate_slot_loop (Suc 16) (CALC_ADDRESS slot 0 0) (CALC_ADDRESS slot 0 0 + of_nat (64 * 16) - 1) r (junk s) s =
      Some (0, (erased (\<lambda>q. in_units slot 16 q \<and> eu_good q s) s)\<lparr>valid_eus := v\<rparr>) \<and>
    eus_ok ((erased (\<lambda>q. in_units slot 16 q \<and> eu_good q s) s)\<lparr>valid_eus := v\<rparr>)"
    by (rule truncate_slot_units) (use assms in \<open>simp_all add: in_units_all\<close>)
  moreover have "CALC_ADDRESS slot 0 0 + of_nat (64 * 16) - 1 = CALC_ADDRESS slot 0 0 + SEQ_MAX_LOGICAL_OFFSET" by simp
  moreover have "Suc 16 = 17" by simp
  ultimately show thesis
    using that by (simp only: truncateSlot_def Let_def in_units_all) blast
qed

text \<open>
  C20: erasing a slot erases the whole slot.  When the slot's units can be read and programmed, and
  either the slot holds reserve units or none of its units is bad, the loop ends within its fuel with
  success: every page of every good unit of the slot holds the erase buffer and may be written again;
  no other page, no page of a bad unit and nothing of the segment map is touched.
\<close>

theorem truncateSlot_erases:
  assumes "slot_fine slot s" "r \<or> (\<forall>q. GET_SLOT q = slot \<longrightarrow> eu_good q s)"
  shows "\<exists>s'. truncateSlot slot r s = Some (0, s') \<and> eus_ok s' \<and> seg_to_slot_map s' = seg_to_slot_map s \<and>
     (\<forall>q. let hit = GET_SLOT q = slot \<and> eu_good q s in
        (\<forall>i<2112. cells s' q i = (if hit then erase_buf s i else cells s q i)) \<and>
        main_area_writes s' q = (if hit then 0 else main_area_writes s q) \<and>
        spare_writes s' q = (if hit then 0 else spare_writes s q))"
proof -
  obtain v where v: "truncateSlot slot r s = Some (0, (erased (\<lambda>q. GET_SLOT q = slot \<and> eu_good q s) s)\<lparr>valid_eus := v\<rparr>)"
    "eus_ok ((erased (\<lambda>q. GET_SLOT q = slot \<and> eu_good q s) s)\<lparr>valid_eus := v\<rparr>)"
    by (rule truncateSlot_ok [OF assms])
  show ?thesis
    by (intro exI conjI, rule v(1), rule v(2)) (auto simp: erased_def Let_def)
qed

theorem truncateSlot_erases_witness:
  "\<exists>s'. truncateSlot 3 False blank_seq = Some (0, s') \<and> eus_ok s' \<and> seg_to_slot_map s' = seg_to_slot_map blank_seq \<and>
     (\<forall>q. let hit = GET_SLOT q = 3 \<and> eu_good q blank_seq in
        (\<forall>i<2112. cells s' q i = (if hit then erase_buf blank_seq i else cells blank_seq q i)) \<and>
        main_area_writes s' q = (if hit then 0 else main_area_writes blank_seq q) \<and>
        spare_writes s' q = (if hit then 0 else spare_writes blank_seq q))"
  by (rule truncateSlot_erases) (simp_all add: slot_fine_def eus_ok_def eu_good_def eu_readable_def)

section \<open>Marking a page obsolete\<close>

lemma plain_page_cong:
  assumes "seg_to_slot_map s = seg_to_slot_map t" "reclaimed_logical_addr s = reclaimed_logical_addr t"
    "nSegments s = nSegments t" "new_slot_id s = new_slot_id t"
  shows "plain_page la s = plain_page la t"
  using assms by (simp add: plain_page_def GET_SEG_MAP_SLOT_FOR_SEG_def IS_STATE_RECLAMATION_def
      GET_RECLAIMED_SEGMENT_SLOT_def GET_RECLAIMED_SEGMENT_def GET_RECLAIMED_OFFSET_def)

lemma eus_ok_cong: "valid_eus s = valid_eus t \<Longrightarrow> (\<And>p. eu_good p s = eu_good p t) \<Longrightarrow> eus_ok s = eus_ok t"
  by (simp add: eus_ok_def)

lemma obs_flag_byte: "(GET_OBS_FLAG b base = 0) = (\<not> bit (b (base + 63)) 7)"
  by (simp add: GET_OBS_FLAG_def GET_BIT_bit)

lemma is_page_marked_iff:
  assumes "p < NAND_PAGE_COUNT" "fps s" "\<not> rd_fail s p"
  shows "is_page_marked_obsolete p s = Some (\<not> bit (cells s p 2111) 7)"
  using assms by (simp add: is_page_marked_obsolete_def nandReadPageFlags_simp obs_flag_byte buf_copy_def)

text \<open>A state with the same chip and map, whose counters are the old ones but for one segment.\<close>

definition recounted :: "u32 \<Rightarrow> 'z seq_scheme \<Rightarrow> 'z seq_scheme \<Rightarrow> bool" where
  "recounted seg s s' = (\<exists>m l. s' = s\<lparr>obs_mem := m, lfsr_state := l\<rparr> \<and> GET_OBS_COUNT s' = GET_OBS_COUNT s \<and>
     GET_FREE_COUNTER s' = GET_FREE_COUNTER s \<and>
     (\<forall>j. j < 512 \<longrightarrow> j \<noteq> seg \<longrightarrow> get_counter_level j s' = get_counter_level j s))"

lemma counts_upd:
  "GET_OBS_COUNT (s\<lparr>lfsr_state := l\<rparr>) = GET_OBS_COUNT s" "GET_FREE_COUNTER (s\<lparr>lfsr_state := l\<rparr>) = GET_FREE_COUNTER s"
  "get_counter_level j (s\<lparr>lfsr_state := l\<rparr>) = get_counter_level j s"
  by (simp_all add: GET_OBS_COUNT_def GET_FREE_COUNTER_def get_counter_level_def obs_byte_def)

lemma counts_obs_mem:
  assumes "i < 256"
  shows "GET_OBS_COUNT (s\<lparr>obs_mem := (obs_mem s)(i := v)\<rparr>) = GET_OBS_COUNT s"
    "GET_FREE_COUNTER (s\<lparr>obs_mem := (obs_mem s)(i := v)\<rparr>) = GET_FREE_COUNTER s"
  using assms by (auto simp: GET_OBS_COUNT_def GET_FREE_COUNTER_def intro!: le_bytes_cong)

lemma change_counter_recounted:
  assumes "seg < 512" "v < 16"
  obtains s' where "change_counter_level v seg s = Some s'" "get_counter_level seg s' = Some v" "recounted seg s s'"
proof -
  obtain s' where s': "change_counter_level v seg s = Some s'" "get_counter_level seg s' = Some v"
    "\<And>j. j < 512 \<Longrightarrow> j \<noteq> seg \<Longrightarrow> get_counter_level j s' = get_counter_level j s"
    by (rule counters.set_cases [OF assms(1,2)]) blast
  have h: "unat (drop_bit 1 seg) < 256"
    unfolding unat_drop_bit_u32 using assms(1) by (simp add: word_less_nat_alt less_mult_imp_div_less)
  obtain w where w: "s' = s\<lparr>obs_mem := (obs_mem s)(unat (drop_bit 1 seg) := w)\<rparr>"
    using s'(1) h by (auto simp: change_counter_level_def obs_byte_def Let_def)
  have "recounted seg s s'"
    unfolding recounted_def using s'(3) counts_obs_mem [OF h, of s w] unfolding w
    by (intro exI [of _ "(obs_mem s)(unat (drop_bit 1 seg) := w)"] exI [of _ "lfsr_state s"]) simp
  then show thesis by (rule that [OF s'(1,2)])
qed

lemma recounted_draw: "recounted seg (s\<lparr>lfsr_state := l\<rparr>) s' \<Longrightarrow> recounted seg s s'"
  unfolding recounted_def counts_upd by (auto simp: counts_upd)


text \<open>The state after the obsolete byte of page \<open>p\<close> was programmed.\<close>

definition obsoleted :: "u32 \<Rightarrow> 'z seq_scheme \<Rightarrow> 'z seq_scheme" where
  "obsoleted p s = s\<lparr>cells := (cells s)(p := (cells s p)(2111 := obsolete_byte s)),
     spare_writes := (spare_writes s)(p := 1)\<rparr>"

definition mark_counters :: "u32 \<Rightarrow> 'z seq_scheme \<Rightarrow> (int \<times> 'z seq_scheme) option" where
  "mark_counters seg s3 = do {
     level \<leftarrow> get_counter_level seg s3;
     if level = OBS_COUNT_NO_OBSOLETES then do {
       s4 \<leftarrow> change_counter_level OBS_COUNT_LEVEL_0 seg s3;
       Some (0, s4)
     } else do {
       let (bit, s4) = draw_bit 7 s3;
       if bit = 0 then Some (0, s4)
       else do {
         s5 \<leftarrow> increment_counter seg s4;
         Some (0, s5)
       }
     }
   }"

lemma mark_counters_ok:
  assumes "seg < 512" "get_counter_level seg s = Some v" "v \<le> 8"
  obtains w s' where "mark_counters seg s = Some (0, s')" "recounted seg s s'" "get_counter_level seg s' = Some w"
    "w = (if v = 0 then 1 else v) \<or> 1 \<le> v \<and> v < 8 \<and> w = v + 1"
proof (cases "v = 0")
  case True
  obtain s' where "change_counter_level 1 seg s = Some s'" "get_counter_level seg s' = Some 1" "recounted seg s s'"
    by (rule change_counter_recounted [of seg 1 s]) (simp_all add: assms(1))
  with True show thesis by (intro that [of s' 1]) (simp_all add: mark_counters_def assms(2))
next
  case False
  obtain b l where d: "draw_bit 7 s = (b, s\<lparr>lfsr_state := l\<rparr>)"
    by (cases "gen_rand_bit 7 (lfsr_state s)") (simp add: draw_bit_def)
  let ?s = "s\<lparr>lfsr_state := l\<rparr>"
  have self: "recounted seg s ?s"
    unfolding recounted_def counts_upd by (intro exI [of _ "obs_mem s"] exI [of _ l]) simp
  show thesis
  proof (cases "b = 0 \<or> v = 8")
    case True
    then have "mark_counters seg s = Some (0, ?s)"
      using False assms(1,2) by (auto simp: mark_counters_def d increment_counter_def counts_upd)
    then show thesis using False assms(2) self by (intro that [of ?s v]) (simp_all add: counts_upd)
  next
    case nz: False
    have v: "v + 1 < 16" "v < 8" "1 \<le> v"
      using assms(3) nz False by (auto simp: word_le_nat_alt word_less_nat_alt unat_word_ariths word_unat_eq_iff)
    obtain s' where s': "change_counter_level (v + 1) seg ?s = Some s'" "get_counter_level seg s' = Some (v + 1)" "recounted seg ?s s'"
      by (rule change_counter_recounted [OF assms(1) v(1)])
    have "mark_counters seg s = Some (0, s')"
      using False nz assms(1,2) s'(1) by (simp add: mark_counters_def d increment_counter_def counts_upd)
    then show thesis using False v(2,3) s'(2) recounted_draw [OF s'(3)] by (intro that [of s' "v + 1"]) simp_all
  qed
qed

lemma obsoleted_sel [simp]:
  "cells (obsoleted p s) q = (if q = p then (cells s p)(2111 := obsolete_byte s) else cells s q)"
  "rd_fail (obsoleted p s) = rd_fail s" "fps (obsoleted p s) = fps s" "junk (obsoleted p s) = junk s"
  "seg_to_slot_map (obsoleted p s) = seg_to_slot_map s" "reclaimed_logical_addr (obsoleted p s) = reclaimed_logical_addr s"
  "nSegments (obsoleted p s) = nSegments s" "new_slot_id (obsoleted p s) = new_slot_id s"
  "valid_eus (obsoleted p s) = valid_eus s" "obs_mem (obsoleted p s) = obs_mem s"
  by (simp_all add: obsoleted_def)

lemma eu_good_obsoleted [simp]: "eu_good q (obsoleted p s) = eu_good q s"
  by (simp add: eu_good_def)

lemma nandProgramPageC_obsolete:
  assumes "p < NAND_PAGE_COUNT" "fps s" "\<not> wr_fail s p" "spare_writes s p = 0"
  shows "nandProgramPageC (\<lambda>_. obsolete_byte s) p 63 1 s = Some (0, obsoleted p s)"
proof -
  have "buf_copy (cells s p) 2111 (\<lambda>_. obsolete_byte s) 0 1 = (cells s p)(2111 := obsolete_byte s)"
    by (auto simp: buf_copy_def fun_eq_iff)
  then show ?thesis using assms nandProgramPageC_simp [of p s 63 1] by (simp add: obsoleted_def)
qed

text \<open>The page a logical address stands for is in order, can be read and is not marked.\<close>

definition markable :: "logical_addr \<Rightarrow> u32 \<Rightarrow> 'z seq_scheme \<Rightarrow> bool" where
  "markable la p s = (plain_page la s = Some p \<and> unit_fine p s \<and> eus_ok s \<and> \<not> rd_fail s p \<and> \<not> wr_fail s p \<and>
     spare_writes s p = 0 \<and> bit (cells s p 2111) 7 \<and> \<not> bit (obsolete_byte s) 7)"

lemma markAsObsolete_step:
  assumes "markable la p s" "GET_LOGICAL_SEGMENT la < 512"
  obtains q where "markAsObsolete la r s =
    mark_counters (GET_LOGICAL_SEGMENT la) (INCREASE_OBS_COUNT (obsoleted p (s\<lparr>valid_eus := q\<rparr>)))"
    "eus_ok (s\<lparr>valid_eus := q\<rparr>)"
proof -
  have p: "p < NAND_PAGE_COUNT" "fps s" "plain_page la s = Some p" "unit_fine p s" "eus_ok s" "\<not> rd_fail s p"
      "\<not> wr_fail s p" "spare_writes s p = 0"
    using assms(1) by (simp_all add: markable_def unit_fine_def)
  obtain q where q: "logicalAddressToPhysical la s = Some (p, s\<lparr>valid_eus := q\<rparr>)" "eus_ok (s\<lparr>valid_eus := q\<rparr>)"
    using translate_plain [OF p(3-5)] by blast
  have ne: "p \<noteq> SEQ_PHY_ADDRESS_EMPTY" using p(1) by auto
  have "is_page_marked_obsolete p (s\<lparr>valid_eus := q\<rparr>) = Some False"
    using is_page_marked_iff [of p "s\<lparr>valid_eus := q\<rparr>"] p assms(1) by (simp add: markable_def)
  moreover have "nandProgramPageC (\<lambda>_. obsolete_byte (s\<lparr>valid_eus := q\<rparr>)) p 63 1 (s\<lparr>valid_eus := q\<rparr>) = Some (0, obsoleted p (s\<lparr>valid_eus := q\<rparr>))"
    by (rule nandProgramPageC_obsolete) (use p in simp_all)
  ultimately have "markAsObsolete la r s =
      mark_counters (GET_LOGICAL_SEGMENT la) (INCREASE_OBS_COUNT (obsoleted p (s\<lparr>valid_eus := q\<rparr>)))"
    using q(1) ne by (simp add: markAsObsolete_def mark_counters_def IS_PHY_ADDR_EMPTY_def Let_def)
  with q(2) show thesis by (rule that [rotated])
qed

lemma recounted_sel:
  assumes "recounted seg s s'"
  shows "cells s' = cells s" "seg_to_slot_map s' = seg_to_slot_map s" "reclaimed_logical_addr s' = reclaimed_logical_addr s"
    "nSegments s' = nSegments s" "new_slot_id s' = new_slot_id s" "rd_fail s' = rd_fail s" "fps s' = fps s"
    "valid_eus s' = valid_eus s" "GET_OBS_COUNT s' = GET_OBS_COUNT s" "GET_FREE_COUNTER s' = GET_FREE_COUNTER s"
    "\<And>j. j < 512 \<Longrightarrow> j \<noteq> seg \<Longrightarrow> get_counter_level j s' = get_counter_level j s"
  using assms by (auto simp: recounted_def)

lemma markAsObsolete_again:
  assumes "plain_page la s = Some p" "unit_fine p s" "eus_ok s" "\<not> rd_fail s p" "\<not> bit (cells s p 2111) 7"
  shows "\<exists>q. markAsObsolete la False s = Some (0, s\<lparr>valid_eus := q\<rparr>)"
proof -
  obtain q where q: "logicalAddressToPhysical la s = Some (p, s\<lparr>valid_eus := q\<rparr>)"
    using translate_plain [OF assms(1-3)] by blast
  have p: "p < NAND_PAGE_COUNT" "fps s" using assms(2) by (simp_all add: unit_fine_def)
  then have "p \<noteq> SEQ_PHY_ADDRESS_EMPTY" by auto
  moreover have "is_page_marked_obsolete p (s\<lparr>valid_eus := q\<rparr>) = Some True"
    using is_page_marked_iff [of p "s\<lparr>valid_eus := q\<rparr>"] p assms(4,5) by simp
  ultimately show ?thesis using q by (intro exI [of _ q]) (simp add: markAsObsolete_def IS_PHY_ADDR_EMPTY_def)
qed

lemma INCREASE_OBS_COUNT_sel [simp]:
  "cells (INCREASE_OBS_COUNT s) = cells s" "seg_to_slot_map (INCREASE_OBS_COUNT s) = seg_to_slot_map s"
  "reclaimed_logical_addr (INCREASE_OBS_COUNT s) = reclaimed_logical_addr s" "nSegments (INCREASE_OBS_COUNT s) = nSegments s"
  "new_slot_id (INCREASE_OBS_COUNT s) = new_slot_id s" "rd_fail (INCREASE_OBS_COUNT s) = rd_fail s"
  "fps (INCREASE_OBS_COUNT s) = fps s" "valid_eus (INCREASE_OBS_COUNT s) = valid_eus s"
  "GET_OBS_COUNT (INCREASE_OBS_COUNT s) = GET_OBS_COUNT s + 1" "GET_FREE_COUNTER (INCREASE_OBS_COUNT s) = GET_FREE_COUNTER s"
  "j < 512 \<Longrightarrow> get_counter_level j (INCREASE_OBS_COUNT s) = get_counter_level j s"
  unfolding INCREASE_OBS_COUNT_def by (simp_all only: counts_get_set SET_counts_levels) (simp_all add: SET_OBS_COUNT_def)

lemma obs_mem_counts: "obs_mem s = obs_mem t \<Longrightarrow> GET_OBS_COUNT s = GET_OBS_COUNT t \<and> get_counter_level j s = get_counter_level j t"
  by (simp add: GET_OBS_COUNT_def get_counter_level_def obs_byte_def)

text \<open>
  C7: marking a page obsolete marks that page and counts it once.  For a page that is in order
  and unmarked, whose segment's counter is between 0 and 8, the operation succeeds; it changes only the
  last spare byte of the page, adds one to the number of obsolete pages, moves the segment's counter
  by at most one level, from 0 always to 1, and leaves the other counters.  Marking the page again
  changes neither the chip nor any counter.
\<close>

theorem markAsObsolete_marks_once:
  assumes "markable la p s" "GET_LOGICAL_SEGMENT la < 512" "get_counter_level (GET_LOGICAL_SEGMENT la) s = Some v" "v \<le> 8"
  shows "\<exists>s' w. markAsObsolete la r s = Some (0, s') \<and>
     cells s' = (cells s)(p := (cells s p)(2111 := obsolete_byte s)) \<and> is_page_marked_obsolete p s' = Some True \<and>
     GET_OBS_COUNT s' = GET_OBS_COUNT s + 1 \<and> get_counter_level (GET_LOGICAL_SEGMENT la) s' = Some w \<and>
     (w = (if v = 0 then 1 else v) \<or> 1 \<le> v \<and> v < 8 \<and> w = v + 1) \<and>
     (\<forall>j. j < 512 \<longrightarrow> j \<noteq> GET_LOGICAL_SEGMENT la \<longrightarrow> get_counter_level j s' = get_counter_level j s) \<and>
     (\<exists>q. markAsObsolete la False s' = Some (0, s'\<lparr>valid_eus := q\<rparr>))"
proof -
  let ?seg = "GET_LOGICAL_SEGMENT la"
  have p: "plain_page la s = Some p" "unit_fine p s" "p < NAND_PAGE_COUNT" "fps s" "\<not> rd_fail s p" "\<not> bit (obsolete_byte s) 7"
    using assms(1) by (simp_all add: markable_def unit_fine_def)
  obtain q where q: "markAsObsolete la r s = mark_counters ?seg (INCREASE_OBS_COUNT (obsoleted p (s\<lparr>valid_eus := q\<rparr>)))"
    "eus_ok (s\<lparr>valid_eus := q\<rparr>)"
    by (rule markAsObsolete_step [OF assms(1,2)])
  let ?t = "INCREASE_OBS_COUNT (obsoleted p (s\<lparr>valid_eus := q\<rparr>))"
  have same: "GET_OBS_COUNT (obsoleted p (s\<lparr>valid_eus := q\<rparr>)) = GET_OBS_COUNT s"
    "get_counter_level j (obsoleted p (s\<lparr>valid_eus := q\<rparr>)) = get_counter_level j s" for j
    using obs_mem_counts [of "obsoleted p (s\<lparr>valid_eus := q\<rparr>)" s j] by simp_all
  have lev: "get_counter_level ?seg ?t = Some v"
    using assms(2,3) same(2) by simp
  obtain w s' where s': "mark_counters ?seg ?t = Some (0, s')" "recounted ?seg ?t s'" "get_counter_level ?seg s' = Some w"
    "w = (if v = 0 then 1 else v) \<or> 1 \<le> v \<and> v < 8 \<and> w = v + 1"
    by (rule mark_counters_ok [OF assms(2) lev assms(4)])
  note sel = recounted_sel [OF s'(2)]
  have cells: "cells s' = (cells s)(p := (cells s p)(2111 := obsolete_byte s))"
    unfolding sel by (rule ext) simp
  have good: "eu_good a s' = eu_good a s" for a by (simp add: eu_good_def cells)
  have ok: "eus_ok s'"
    using q(2) sel(8) eus_ok_cong [of s' "s\<lparr>valid_eus := q\<rparr>"] good by simp
  have page: "plain_page la s' = Some p"
    unfolding p(1) [symmetric] by (rule plain_page_cong) (simp_all add: sel)
  have fine: "unit_fine p s'" using p(2) good sel by (simp add: unit_fine_def eu_readable_def)
  obtain q2 where again: "markAsObsolete la False s' = Some (0, s'\<lparr>valid_eus := q2\<rparr>)"
    using markAsObsolete_again [OF page fine ok] p(5,6) by (auto simp: sel(6) cells)
  have marked: "is_page_marked_obsolete p s' = Some True"
    using is_page_marked_iff [OF p(3), of s'] p(4-6) sel by (simp add: cells)
  have others: "\<forall>j. j < 512 \<longrightarrow> j \<noteq> ?seg \<longrightarrow> get_counter_level j s' = get_counter_level j s"
    using sel(11) same(2) by simp
  have count: "GET_OBS_COUNT s' = GET_OBS_COUNT s + 1" using sel(9) same(1) by simp
  show ?thesis
    unfolding q(1) using s'(1,3,4) cells marked count others again by (intro exI conjI)
qed

text \<open>A layer whose segment 3 is in slot 5.\<close>

definition mapped_seq :: seq where
  "mapped_seq = blank_seq\<lparr>seg_to_slot_map := (\<lambda>_. 0xfff)(3 := 5), nSegments := 1, new_slot_id := 5\<rparr>"

definition addr_3_10 :: logical_addr where
  "addr_3_10 = setLogicalOffset (setLogicalSegment init_logical_address 3) 10"

lemma addr_3_10_parts [simp]: "GET_LOGICAL_SEGMENT addr_3_10 = 3" "GET_LOGICAL_OFFSET addr_3_10 = 10"
  by (simp_all add: addr_3_10_def offset_part.get_put segment_part.get_put)

lemma mapped_seq_sel [simp]:
  "cells mapped_seq = (\<lambda>_ _. 0xff)" "main_area_writes mapped_seq = (\<lambda>_. 0)" "spare_writes mapped_seq = (\<lambda>_. 0)"
  "fps mapped_seq" "rd_fail mapped_seq = (\<lambda>_. False)" "wr_fail mapped_seq = (\<lambda>_. False)" "eus_ok mapped_seq"
  "eu_readable p mapped_seq" "eu_good p mapped_seq" "obsolete_byte mapped_seq = 0x7f" "obs_mem mapped_seq = (\<lambda>_. 0)"
  by (simp_all add: mapped_seq_def eus_ok_def eu_readable_def eu_good_def)

lemma mapped_seq_page: "plain_page addr_3_10 mapped_seq = Some 5130"
  by (simp add: plain_page_def mapped_seq_def GET_SEG_MAP_SLOT_FOR_SEG_def IS_STATE_RECLAMATION_def CALC_ADDRESS_def)

theorem markAsObsolete_marks_once_witness:
  "\<exists>s'. markAsObsolete addr_3_10 False mapped_seq = Some (0, s') \<and>
     is_page_marked_obsolete 5130 s' = Some True \<and> GET_OBS_COUNT s' = GET_OBS_COUNT mapped_seq + 1 \<and>
     get_counter_level 3 s' = Some 1"
proof -
  have "markable addr_3_10 5130 mapped_seq"
    by (simp add: markable_def mapped_seq_page unit_fine_def bit_numeral_word_iff)
  moreover have "get_counter_level 3 mapped_seq = Some 0"
    by (simp add: get_counter_level_def obs_byte_def)
  ultimately show ?thesis
    using markAsObsolete_marks_once [of addr_3_10 5130 mapped_seq 0 False] by auto
qed

end
