(* ===== verification/CopyBack.thy ===== *)
theory CopyBack
  imports Reclaim
begin

text \<open>
  Copying the pages of an erase unit through the copy-back unit (\<open>copyBackPage\<close>, \<open>copyBackSimple\<close>): what
  one copy programs, what a run of copies does to two units, and the refinement of the whole to \<open>take\<close>
  on the list of a unit's written pages.
\<close>

unbundle bit_operations_syntax

lemma IS_PAGE_USED_copy [simp]: "IS_PAGE_USED (buf_copy b 0 c 0 NAND_TOTAL_SIZE) 2048 = IS_PAGE_USED c 2048"
proof -
  have "GET_SEG_TYPE_FLAG (buf_copy b 0 c 0 NAND_TOTAL_SIZE) 2048 = GET_SEG_TYPE_FLAG c 2048"
    by (simp add: GET_SEG_TYPE_FLAG_def GET_BIT_def buf_copy_def)
  then show ?thesis by (simp add: IS_PAGE_USED_def)
qed

lemma unit_page:
  assumes "CALC_EU_START eu = eu" "eu < NAND_PAGE_COUNT" "k < 64"
  shows "unat (eu + of_nat k) = unat eu + k" "eu + of_nat k < NAND_PAGE_COUNT"
proof -
  have "64 * (unat eu div 64) = unat eu" using unat_CALC_EU_START [of eu] assms(1) by simp
  then show "unat (eu + of_nat k) = unat eu + k" "eu + of_nat k < NAND_PAGE_COUNT"
    using eu_plus [OF assms(2,3)] assms(1) by (simp_all add: CALC_EU_START_def)
qed

section \<open>Copying an erase unit\<close>

text \<open>The page \<open>copyBackPage\<close> programs, made from the page \<open>b\<close> it read at \<open>from\<close>.\<close>

definition copy_image :: "bool \<Rightarrow> u32 \<Rightarrow> u32 \<Rightarrow> buf \<Rightarrow> buf" where
  "copy_image withCopyBackFlags from_addr org_from b =
     (if withCopyBackFlags
      then SET_SLOT_EU_OFFSET (SET_COPY_BACK_FLAG b 2048 0) 2048
             (CALCULATE_SLOT_ID_AND_EU_OFFSET (if IS_PHY_ADDR_EMPTY org_from then from_addr else org_from))
      else (let b2 = SET_COPY_BACK_FLAG b 2048 1 in
            if IS_PHY_ADDR_EMPTY org_from then SET_SLOT_EU_OFFSET b2 2048 SEQ_SLOT_EU_ID_EMPTY else b2))"

lemma copy_image_keeps [simp]:
  "i < 2048 \<Longrightarrow> copy_image w f g b i = b i" "copy_image w f g b 2053 = b 2053"
  "IS_PAGE_USED (copy_image w f g b) 2048 = IS_PAGE_USED b 2048"
  by (simp_all add: copy_image_def IS_PAGE_USED_def Let_def)

lemma IS_PAGE_USED_written [simp]: "IS_PAGE_USED (written_page old b) 2048 = IS_PAGE_USED b 2048"
proof -
  have "written_page old b 2052 = b 2052" by (simp add: written_page_byte)
  then show ?thesis by (simp add: IS_PAGE_USED_def GET_SEG_TYPE_FLAG_def GET_BIT_def)
qed

text \<open>A page that is written and reads back, and a page that may be written.\<close>

definition source_page :: "u32 \<Rightarrow> 'z nand_scheme \<Rightarrow> bool" where
  "source_page p s = (p < NAND_PAGE_COUNT \<and> fps s \<and> \<not> rd_fail s p \<and> page_sound (cells s p) \<and> IS_PAGE_USED (cells s p) 2048)"

definition free_page :: "u32 \<Rightarrow> 'z nand_scheme \<Rightarrow> bool" where
  "free_page p s = (page_ok p s \<and> main_area_writes s p = 0)"

lemma copyBackPage_ok:
  assumes "source_page from_addr s" "free_page to_addr s"
  obtains b where "\<And>i. i < NAND_TOTAL_SIZE \<Longrightarrow> b i = cells s from_addr i" "IS_PAGE_USED b 2048"
    "copyBackPage to_addr from_addr w org s =
      Some (0, (programmed (copy_image w from_addr org b) to_addr s)\<lparr>sequencing_buffer := setECC (copy_image w from_addr org b)\<rparr>)"
proof -
  let ?b = "buf_copy (sequencing_buffer s) 0 (cells s from_addr) 0 NAND_TOTAL_SIZE"
  let ?B = "copy_image w from_addr org ?b"
  have rd: "read_total from_addr s = Some (0, s\<lparr>sequencing_buffer := ?b\<rparr>)"
    using assms(1) by (intro read_total_sound) (simp_all add: source_page_def)
  have used: "IS_PAGE_USED ?b 2048" using assms(1) by (simp add: source_page_def)
  have "prog_total to_addr (s\<lparr>sequencing_buffer := ?B\<rparr>) = Some (0, (programmed ?B to_addr s)\<lparr>sequencing_buffer := setECC ?B\<rparr>)"
    using nandProgramTotalPage_ok [of to_addr "s\<lparr>sequencing_buffer := ?B\<rparr>" ?B] assms(2)
    by (simp add: prog_total_def free_page_def page_ok_def)
  then have "copyBackPage to_addr from_addr w org s = Some (0, (programmed ?B to_addr s)\<lparr>sequencing_buffer := setECC ?B\<rparr>)"
    using rd used by (simp add: copyBackPage_def copy_image_def Let_def)
  with used show thesis by (intro that [of ?b]) simp_all
qed

text \<open>What copying the first \<open>n\<close> pages of one unit to another does to the chip.\<close>

definition unit_copied :: "u32 \<Rightarrow> u32 \<Rightarrow> nat \<Rightarrow> 'z nand_scheme \<Rightarrow> 'z nand_scheme \<Rightarrow> bool" where
  "unit_copied to_eu from_eu n s s' = (fps s' = fps s \<and> rd_fail s' = rd_fail s \<and> wr_fail s' = wr_fail s \<and> erase_buf s' = erase_buf s \<and>
     (\<forall>k<n. (\<forall>i<2048. cells s' (to_eu + of_nat k) i = cells s (from_eu + of_nat k) i) \<and>
        cells s' (to_eu + of_nat k) 2053 = cells s (from_eu + of_nat k) 2053 \<and>
        IS_PAGE_USED (cells s' (to_eu + of_nat k)) 2048 \<and> page_sound (cells s' (to_eu + of_nat k))) \<and>
     (\<forall>q. (\<forall>k<n. q \<noteq> to_eu + of_nat k) \<longrightarrow> cells s' q = cells s q \<and> main_area_writes s' q = main_area_writes s q))"

lemma copy_back_pages_snoc:
  "copy_back_pages t f w org (is @ [j]) s = do {
     (e, s1) \<leftarrow> copy_back_pages t f w org is s;
     if e \<noteq> 0 then Some (1, s1) else do {
       (e1, s2) \<leftarrow> copyBackPage (t + of_nat j) (f + of_nat j) w org s1;
       Some (if e1 \<noteq> 0 then 1 else 0, s2) } }"
proof (induction "is" arbitrary: s)
  case Nil
  show ?case by (auto intro!: bind_option_cong split: prod.splits)
next
  case (Cons i "is")
  show ?case
  proof (cases "copyBackPage (t + of_nat i) (f + of_nat i) w org s")
    case (Some r)
    then show ?thesis using Cons.IH by (cases r) simp
  qed simp
qed

definition unit_start :: "u32 \<Rightarrow> bool" where
  "unit_start eu = (CALC_EU_START eu = eu \<and> eu < NAND_PAGE_COUNT)"

lemma unit_start_of: "unit_start eu \<Longrightarrow> k < 64 \<Longrightarrow> CALC_EU_START (eu + of_nat k) = eu"
  using eu_plus_eu [of eu k] by (simp add: unit_start_def CALC_EU_START_def)

lemma unit_page_eq:
  assumes "unit_start a" "unit_start b" "j < 64" "k < 64"
  shows "(a + of_nat j = b + of_nat k) = (a = b \<and> j = k)"
proof
  assume e: "a + of_nat j = b + of_nat k"
  then have ab: "a = b" using unit_start_of [OF assms(1,3)] unit_start_of [OF assms(2,4)] by simp
  moreover have "unat a + j = unat b + k"
    using e unit_page(1) [of a j] unit_page(1) [of b k] assms by (simp add: unit_start_def)
  ultimately show "a = b \<and> j = k" by simp
qed simp

lemma copy_back_pages_ok:
  assumes "unit_start t" "unit_start f" "t \<noteq> f" "n \<le> 64"
    and "\<And>k. k < n \<Longrightarrow> source_page (f + of_nat k) s" "\<And>k. k < n \<Longrightarrow> free_page (t + of_nat k) s"
  shows "\<exists>s'. copy_back_pages t f w org [0..<n] s = Some (0, s') \<and> unit_copied t f n s s'"
  using assms(4-)
proof (induction n)
  case 0
  show ?case by (intro exI [of _ s]) (simp add: unit_copied_def)
next
  case (Suc n)
  obtain s1 where s1: "copy_back_pages t f w org [0..<n] s = Some (0, s1)" "unit_copied t f n s s1"
    using Suc.IH Suc.prems by (metis Suc_leD less_Suc_eq)
  have n: "n < 64" using Suc.prems(1) by simp
  have other: "f + of_nat n \<noteq> t + of_nat k" "t + of_nat n \<noteq> t + of_nat k" if "k < n" for k
    using unit_page_eq [of f t n k] unit_page_eq [of t t n k] assms(1-3) n that by simp_all
  have fn: "cells s1 (f + of_nat n) = cells s (f + of_nat n)" and tn: "main_area_writes s1 (t + of_nat n) = main_area_writes s (t + of_nat n)"
    using s1(2) other by (auto simp: unit_copied_def)
  have "source_page (f + of_nat n) s1" "free_page (t + of_nat n) s1"
    using Suc.prems(2,3) [of n] s1(2) by (simp_all add: source_page_def free_page_def page_ok_def unit_copied_def fn tn)
  then obtain b where b: "\<And>i. i < NAND_TOTAL_SIZE \<Longrightarrow> b i = cells s1 (f + of_nat n) i" "IS_PAGE_USED b 2048"
    "copyBackPage (t + of_nat n) (f + of_nat n) w org s1 =
      Some (0, (programmed (copy_image w (f + of_nat n) org b) (t + of_nat n) s1)\<lparr>sequencing_buffer := setECC (copy_image w (f + of_nat n) org b)\<rparr>)"
    by (rule copyBackPage_ok [where w = w and org = org]) blast
  let ?s = "(programmed (copy_image w (f + of_nat n) org b) (t + of_nat n) s1)\<lparr>sequencing_buffer := setECC (copy_image w (f + of_nat n) org b)\<rparr>"
  have "copy_back_pages t f w org [0..<Suc n] s = Some (0, ?s)"
    by (simp add: copy_back_pages_snoc s1(1) b(3))
  moreover have "unit_copied t f (Suc n) s ?s"
    using s1(2) b(1,2) other unfolding unit_copied_def fn
    by (auto simp: less_Suc_eq written_page_byte written_page_sound)
  ultimately show ?case by blast
qed

text \<open>A chip whose unit at page 128 has its first three pages written with zeroes in the segment type.\<close>

definition three_pages :: seq where
  "three_pages = blank_seq\<lparr>cells := (\<lambda>p i. if 128 \<le> p \<and> p < 131 \<and> i = 2052 then 0xf8 else 0xff)\<rparr>"

lemma three_pages_sound: "page_sound (cells three_pages p)"
proof -
  have "yaffs_ECCCalculate (chunk (cells three_pages p) k) = (0xff, 0xff, 0xff)" if "k < 8" for k
    unfolding ECCCalculate_ff [symmetric] by (rule ECCCalculate_local) (use that in \<open>simp add: chunk_def three_pages_def\<close>)
  then show ?thesis by (auto simp: page_sound_def stored_ecc_def three_pages_def)
qed

definition unit_ready :: "u32 \<Rightarrow> 'z nand_scheme \<Rightarrow> bool" where
  "unit_ready eu s = (unit_start eu \<and> fps s \<and> eu_good eu s \<and>
     (\<forall>q. CALC_EU_START q = eu \<longrightarrow> \<not> wr_fail s q \<and> \<not> rd_fail s q))"

lemma unit_ready_erase:
  assumes "unit_ready eu s"
  shows "nandErase eu s = Some (0, erased (\<lambda>q. CALC_EU_START q = eu) s)"
proof -
  have u: "unit_start eu" "eu < NAND_PAGE_COUNT" "CALC_EU_START eu = eu" using assms by (simp_all add: unit_ready_def unit_start_def)
  have "CALC_EU_START (eu + 1) = eu" using unit_start_of [OF u(1), of 1] by simp
  then have "eu_readable eu s"
    using assms u by (simp add: unit_ready_def eu_readable_def CALC_EU_START_def)
  then show ?thesis
    using nandErase_simp [of eu s] assms u by (simp add: unit_ready_def CALC_EU_START_def)
qed

lemma eu_good_unit: "unit_start eu \<Longrightarrow> eu_good eu s = (cells s (eu + of_nat 0) 2053 = 0xff \<and> cells s (eu + of_nat 1) 2053 = 0xff)"
  by (simp add: eu_good_def unit_start_def CALC_EU_START_def)

lemma unit_copied_ready_target:
  assumes "unit_copied t f n s s'" "unit_ready t s" "unit_ready f s" "t \<noteq> f" "n \<le> 64"
  shows "unit_ready t s'"
proof -
  have u: "unit_start t" "unit_start f" using assms(2,3) by (simp_all add: unit_ready_def)
  have byte: "cells s' (t + of_nat k) 2053 = (if k < n then cells s (f + of_nat k) 2053 else cells s (t + of_nat k) 2053)" if "k < 64" for k
    using assms(1,5) unit_page_eq [OF u(1,1) that] by (fastforce simp: unit_copied_def)
  have "eu_good t s'" using byte [of 0] byte [of 1] assms(2,3) u by (simp add: unit_ready_def eu_good_unit)
  then show ?thesis using assms(1,2) by (simp add: unit_ready_def unit_copied_def)
qed

lemma unit_copied_other:
  assumes "unit_copied t f n s s'" "unit_start t" "n \<le> 64" "CALC_EU_START q \<noteq> t"
  shows "cells s' q = cells s q" "main_area_writes s' q = main_area_writes s q"
proof -
  have "q \<noteq> t + of_nat k" if "k < n" for k
    using unit_start_of [OF assms(2), of k] assms(3,4) that by auto
  then show "cells s' q = cells s q" "main_area_writes s' q = main_area_writes s q"
    using assms(1) by (auto simp: unit_copied_def)
qed

lemma unit_copied_ready_other:
  assumes "unit_copied t f n s s'" "unit_start t" "n \<le> 64" "unit_ready f s" "t \<noteq> f"
  shows "unit_ready f s'"
proof -
  have u: "unit_start f" using assms(4) by (simp add: unit_ready_def)
  have "cells s' (f + of_nat k) = cells s (f + of_nat k)" if "k < 64" for k
    by (rule unit_copied_other [OF assms(1-3)]) (use unit_start_of [OF u that] assms(5) in simp)
  from this [of 0] this [of 1] show ?thesis
    using assms(1,4) by (simp add: unit_ready_def unit_copied_def eu_good_unit [OF u])
qed

text \<open>
  The abstract content of an erase unit: the main areas of its written pages, up to the first page
  that is not written.
\<close>

definition page_data :: "buf \<Rightarrow> buf" where
  "page_data b = (\<lambda>i. if i < 2048 then b i else 0)"

definition unit_log :: "u32 \<Rightarrow> 'z nand_scheme \<Rightarrow> buf list" where
  "unit_log eu s = map (\<lambda>k. page_data (cells s (eu + of_nat k)))
     (takeWhile (\<lambda>k. IS_PAGE_USED (cells s (eu + of_nat k)) 2048) [0..<64])"

lemma takeWhile_prefix:
  assumes "n \<le> 64" "\<And>k. k < n \<Longrightarrow> P k" "n < 64 \<Longrightarrow> \<not> P n"
  shows "takeWhile P [0..<64] = [0..<n]"
proof -
  have "[0..<64] = [0..<n] @ [n..<64]" using assms(1) upt_add_eq_append [of 0 n "64 - n"] by simp
  moreover have "takeWhile P ([0..<n] @ [n..<64]) = [0..<n] @ takeWhile P [n..<64]"
    by (rule takeWhile_append2) (use assms(2) in auto)
  moreover have "takeWhile P [n..<64] = []" using assms(1,3) by (cases "n < 64") (simp_all add: upt_conv_Cons)
  ultimately show ?thesis by simp
qed

lemma unit_log_prefix:
  assumes "n \<le> 64" "\<And>k. k < n \<Longrightarrow> IS_PAGE_USED (cells s (eu + of_nat k)) 2048"
    "n < 64 \<Longrightarrow> \<not> IS_PAGE_USED (cells s (eu + of_nat n)) 2048"
  shows "unit_log eu s = map (\<lambda>k. page_data (cells s (eu + of_nat k))) [0..<n]"
  using takeWhile_prefix [of n "\<lambda>k. IS_PAGE_USED (cells s (eu + of_nat k)) 2048"] assms by (simp add: unit_log_def)

lemma unit_log_take:
  assumes "n \<le> 64" "\<And>k. k < n \<Longrightarrow> IS_PAGE_USED (cells s (eu + of_nat k)) 2048"
  shows "take n (unit_log eu s) = map (\<lambda>k. page_data (cells s (eu + of_nat k))) [0..<n]"
proof -
  let ?P = "\<lambda>k. IS_PAGE_USED (cells s (eu + of_nat k)) 2048"
  have "[0..<64] = [0..<n] @ [n..<64]" using assms(1) upt_add_eq_append [of 0 n "64 - n"] by simp
  then have "takeWhile ?P [0..<64] = [0..<n] @ takeWhile ?P [n..<64]"
    using takeWhile_append2 [of "[0..<n]" ?P "[n..<64]"] assms(2) by auto
  then show ?thesis by (simp add: unit_log_def take_map)
qed

text \<open>A unit that may be cut: it and the copy-back unit are in order, and its first pages can be copied.\<close>

definition cuttable :: "u32 \<Rightarrow> u32 \<Rightarrow> nat \<Rightarrow> 'z nand_scheme \<Rightarrow> bool" where
  "cuttable eu cb n s = (unit_ready eu s \<and> unit_ready cb s \<and> eu \<noteq> cb \<and> n < 64 \<and>
     (\<forall>k<n. source_page (eu + of_nat k) s \<and> main_area_writes s (cb + of_nat k) = 0))"

lemma copyBackSimple_run:
  assumes "cuttable eu cb n s" "CALC_EU_START org = eu" "unat (CALC_OFFSET_IN_EU org) = n"
  obtains s1 s3 where "unit_copied cb eu n s s1" "unit_copied eu cb n (erased (\<lambda>q. CALC_EU_START q = eu) s1) s3"
    "copyBackSimple cb org False real_org_eu s = Some (0, erased (\<lambda>q. CALC_EU_START q = cb) s3)"
proof -
  have n: "n < 64" using assms(1) by (simp add: cuttable_def)
  have r: "unit_ready eu s" "unit_ready cb s" "eu \<noteq> cb" "unit_start eu" "unit_start cb" "cb \<noteq> eu"
    using assms(1) by (auto simp: cuttable_def unit_ready_def)
  have inside: "CALC_EU_START (eu + of_nat k) = eu" "CALC_EU_START (cb + of_nat k) = cb" if "k < 64" for k
    using unit_start_of r(4,5) that by simp_all
  have src: "\<And>k. k < n \<Longrightarrow> source_page (eu + of_nat k) s" using assms(1) by (simp add: cuttable_def)
  have free: "free_page (cb + of_nat k) s" if "k < n" for k
    using assms(1) inside(2) n that unit_page(2) [of cb k] r(5)
    by (simp add: free_page_def page_ok_def unit_ready_def cuttable_def unit_start_def)
  obtain s1 where s1: "copy_back_pages cb eu True real_org_eu [0..<n] s = Some (0, s1)" "unit_copied cb eu n s s1"
    using copy_back_pages_ok [OF r(5,4,6), of n s True real_org_eu] n src free by auto
  have r1: "unit_ready eu s1" "unit_ready cb s1"
    using unit_copied_ready_other [OF s1(2) r(5) _ r(1,6)] unit_copied_ready_target [OF s1(2) r(2,1,6)] n by simp_all
  define s2 where "s2 = erased (\<lambda>q. CALC_EU_START q = eu) s1"
  have e1: "nandErase eu s1 = Some (0, s2)" unfolding s2_def by (rule unit_ready_erase [OF r1(1)])
  have sel2: "cells s2 q = (if CALC_EU_START q = eu then buf_copy (cells s1 q) 0 (erase_buf s1) 0 NAND_TOTAL_SIZE else cells s1 q)"
    "main_area_writes s2 q = (if CALC_EU_START q = eu then 0 else main_area_writes s1 q)" for q
    by (simp_all add: s2_def erased_def)
  have env2: "fps s2" "rd_fail s2 = rd_fail s" "wr_fail s2 = wr_fail s" "erase_buf s2 = erase_buf s"
    using s1(2) r(1) by (simp_all add: s2_def unit_copied_def unit_ready_def)
  have cb2: "cells s2 (cb + of_nat k) = cells s1 (cb + of_nat k)" if "k < 64" for k
    using inside(2) [OF that] r(3) by (simp add: sel2)
  have r2: "unit_ready cb s2"
    using r1(2) cb2 [of 0] cb2 [of 1] env2 r(2,5) by (simp add: unit_ready_def eu_good_unit [OF r(5)])
  have src2: "source_page (cb + of_nat k) s2" if "k < n" for k
    using s1(2) that n cb2 [of k] unit_page(2) [of cb k] r(2,5) inside(2) [of k] env2
    by (simp add: source_page_def unit_copied_def unit_ready_def unit_start_def)
  have free2: "free_page (eu + of_nat k) s2" if "k < n" for k
    using that n unit_page(2) [of eu k] r(1,4) inside(1) [of k] env2
    by (simp add: free_page_def page_ok_def unit_ready_def unit_start_def sel2)
  obtain s3 where s3: "copy_back_pages eu cb False real_org_eu [0..<n] s2 = Some (0, s3)" "unit_copied eu cb n s2 s3"
    using copy_back_pages_ok [OF r(4,5,3), of n s2 False real_org_eu] n src2 free2 by auto
  have r3: "unit_ready cb s3" using unit_copied_ready_other [OF s3(2) r(4) _ r2 r(3)] n by simp
  define s4 where "s4 = erased (\<lambda>q. CALC_EU_START q = cb) s3"
  have e2: "nandErase cb s3 = Some (0, s4)" unfolding s4_def by (rule unit_ready_erase [OF r3])
  have run: "copyBackSimple cb org False real_org_eu s = Some (0, s4)"
    using s1(1) e1 s3(1) e2 by (simp add: copyBackSimple_def Let_def assms(2,3))
  show thesis
    by (rule that [OF s1(2) s3(2) [unfolded s2_def] run [unfolded s4_def]])
qed

text \<open>
  C6: cutting an erase unit through the copy-back unit refines \<open>take\<close> on its log.  For an address in
  a unit whose pages before it are written and read back, and a copy-back unit that is erased, all
  copies and erasures succeed: the unit then holds exactly the pages before the address, with their
  data, the copy-back unit is erased, and no page of any other unit changes.
\<close>

theorem copyBackSimple_refines_take:
  assumes "cuttable (CALC_EU_START org) cb (unat (CALC_OFFSET_IN_EU org)) s" "\<not> IS_PAGE_USED (erase_buf s) 2048"
  shows "\<exists>s'. copyBackSimple cb org False real_org_eu s = Some (0, s') \<and>
     unit_log (CALC_EU_START org) s' = take (unat (CALC_OFFSET_IN_EU org)) (unit_log (CALC_EU_START org) s) \<and>
     unit_log cb s' = [] \<and>
     (\<forall>q. CALC_EU_START q \<noteq> CALC_EU_START org \<and> CALC_EU_START q \<noteq> cb \<longrightarrow> cells s' q = cells s q)"
proof -
  define eu where "eu = CALC_EU_START org"
  define n where "n = unat (CALC_OFFSET_IN_EU org)"
  have c: "cuttable eu cb n s" using assms(1) by (simp add: eu_def n_def)
  then have r: "unit_start eu" "unit_start cb" "eu \<noteq> cb" "n < 64" by (simp_all add: cuttable_def unit_ready_def)
  have inside: "CALC_EU_START (eu + of_nat k) = eu" "CALC_EU_START (cb + of_nat k) = cb" if "k < 64" for k
    using unit_start_of r(1,2) that by simp_all
  obtain s1 s3 where s13: "unit_copied cb eu n s s1" "unit_copied eu cb n (erased (\<lambda>q. CALC_EU_START q = eu) s1) s3"
    and run: "copyBackSimple cb org False real_org_eu s = Some (0, erased (\<lambda>q. CALC_EU_START q = cb) s3)"
    by (rule copyBackSimple_run [OF c eu_def [symmetric] n_def [symmetric]])
  let ?s2 = "erased (\<lambda>q. CALC_EU_START q = eu) s1" and ?s4 = "erased (\<lambda>q. CALC_EU_START q = cb) s3"
  have eb: "erase_buf s1 = erase_buf s" "erase_buf s3 = erase_buf s" using s13 by (simp_all add: unit_copied_def)
  have sel2: "cells ?s2 q = (if CALC_EU_START q = eu then buf_copy (cells s1 q) 0 (erase_buf s) 0 NAND_TOTAL_SIZE else cells s1 q)"
    and sel4: "cells ?s4 q = (if CALC_EU_START q = cb then buf_copy (cells s3 q) 0 (erase_buf s) 0 NAND_TOTAL_SIZE else cells s3 q)" for q
    by (simp_all add: erased_def eb)
  have eu4: "cells ?s4 (eu + of_nat k) = cells s3 (eu + of_nat k)" if "k < 64" for k
    using inside(1) [OF that] r(3) by (simp add: sel4)
  have cb2: "cells ?s2 (cb + of_nat k) = cells s1 (cb + of_nat k)" if "k < 64" for k
    using inside(2) [OF that] r(3) by (simp add: sel2)
  have data: "page_data (cells ?s4 (eu + of_nat k)) = page_data (cells s (eu + of_nat k))" if "k < n" for k
    using s13 that r(4) by (auto simp: page_data_def fun_eq_iff eu4 cb2 unit_copied_def)
  have "eu + of_nat n \<noteq> eu + of_nat k" if "k < n" for k using unit_page_eq [OF r(1,1,4), of k] that r(4) by simp
  then have "cells s3 (eu + of_nat n) = cells ?s2 (eu + of_nat n)" using s13(2) by (simp add: unit_copied_def)
  then have end_eu: "\<not> IS_PAGE_USED (cells ?s4 (eu + of_nat n)) 2048"
    using assms(2) inside(1) [OF r(4)] eu4 [OF r(4)] by (simp add: sel2)
  have "unit_log eu ?s4 = map (\<lambda>k. page_data (cells ?s4 (eu + of_nat k))) [0..<n]"
    by (rule unit_log_prefix) (use r(4) s13(2) end_eu in \<open>auto simp: eu4 unit_copied_def\<close>)
  also have "\<dots> = take n (unit_log eu s)"
    by (subst unit_log_take) (use r(4) data c in \<open>simp_all add: source_page_def cuttable_def\<close>)
  finally have log_eu: "unit_log eu ?s4 = take n (unit_log eu s)" .
  have log_cb: "unit_log cb ?s4 = []"
    using unit_log_prefix [of 0 ?s4 cb] assms(2) inside(2) [of 0] by (simp add: sel4)
  have "cells ?s4 q = cells s q" if "CALC_EU_START q \<noteq> eu" "CALC_EU_START q \<noteq> cb" for q
    using unit_copied_other(1) [OF s13(1) r(2) _ that(2)] unit_copied_other(1) [OF s13(2) r(1) _ that(1)] r(4) that
    by (simp add: sel4 sel2)
  then show ?thesis
    using run log_eu log_cb unfolding eu_def [symmetric] n_def [symmetric] by blast
qed

text \<open>Unit 2 of \<open>three_pages\<close> cut at its second page, through unit 1.\<close>

theorem copyBackSimple_refines_take_witness:
  "\<exists>s'. copyBackSimple 64 130 False 0xffffffff three_pages = Some (0, s') \<and>
     unit_log 128 s' = take 2 (unit_log 128 three_pages) \<and> unit_log 64 s' = []"
proof -
  have "source_page (128 + of_nat k) three_pages" if "k < 2" for k
  proof -
    have "k = 0 \<or> k = 1" using that by auto
    then show ?thesis
      using three_pages_sound by (auto simp: source_page_def) (simp_all add: three_pages_def IS_PAGE_USED_def GET_SEG_TYPE_FLAG_def GET_BIT_bit bit_numeral_word_iff)
  qed
  then have "cuttable 128 64 2 three_pages"
    by (simp add: cuttable_def unit_ready_def unit_start_def CALC_EU_START_def) (simp add: three_pages_def eu_good_def)
  moreover have "CALC_EU_START 130 = 128" "unat (CALC_OFFSET_IN_EU 130) = 2"
    by (simp_all add: CALC_EU_START_def CALC_OFFSET_IN_EU_def)
  moreover have "\<not> IS_PAGE_USED (erase_buf three_pages) 2048"
    by (simp add: three_pages_def IS_PAGE_USED_def GET_SEG_TYPE_FLAG_def GET_BIT_bit bit_numeral_word_iff)
  ultimately show ?thesis using copyBackSimple_refines_take [of 130 64 three_pages "0xffffffff"] by auto
qed

end
