(* ===== verification/Segments.thy ===== *)
theory Segments
  imports CopyBack
begin

text \<open>
  Segments in motion (\<^verbatim>\<open>sequencingUtils.c\<close>, \<^verbatim>\<open>sequencing.c\<close>): wear leveling, the search for the next
  free page, the move to the next segment with its header, and the two entry points of the layer
  that write, \<open>allocAndWriteBlock\<close> and \<open>commit\<close>.

  The C code passes a function pointer \<open>cp_write_p\<close> down to the header writer; it is an argument
  here as well, from \<open>isPartOfHeader\<close> and the state to an error and a state.  \<open>commit\<close> itself
  passes the file system's \<open>fsCheckpointWriter\<close>, which is its first argument.  An output parameter
  of the C code is a component of the result.
\<close>

unbundle bit_operations_syntax

section \<open>Wear leveling\<close>

text \<open>The choice of a slot other than the new one.\<close>

fun pick_slot :: "nat \<Rightarrow> u32 \<Rightarrow> 'z seq_scheme \<Rightarrow> (u32 \<times> 'z seq_scheme) option" where
  "pick_slot 0 random_slot s = None"
| "pick_slot (Suc n) random_slot s =
     (if random_slot = new_slot_id s then
        (let (r, s1) = draw_num 9 s;
             r1 = (if r = new_slot_id s1 then (SEQ_N_SLOTS_COUNT - 1) - r else r)
         in pick_slot n r1 s1)
      else Some (random_slot, s))"

text \<open>The search for the first good erase unit at or after an address; \<open>step\<close> is what it adds to the page offset.\<close>

fun skip_bad :: "nat \<Rightarrow> u32 \<Rightarrow> u32 \<Rightarrow> u32 \<Rightarrow> 'z seq_scheme \<Rightarrow> (u32 \<times> u32 \<times> 'z seq_scheme) option" where
  "skip_bad 0 step to_phy_addr to_page_offset s = None"
| "skip_bad (Suc n) step to_phy_addr to_page_offset s = do {
     (ok, s1) \<leftarrow> seq_check_eu_status to_phy_addr s;
     if ok then Some (to_phy_addr, to_page_offset, s1)
     else skip_bad n step (to_phy_addr + 64) (to_page_offset + step) s1
   }"

record wear =
  to_phy_addr :: u32
  from_phy_addr :: u32
  to_page_offset :: u32
  from_page_offset :: u32
  isToReserve :: bool
  wear_flags :: buf

definition wear_copied :: "wear \<Rightarrow> wear" where
  "wear_copied w = w\<lparr>to_phy_addr := to_phy_addr w + 1, from_phy_addr := from_phy_addr w + 1,
     from_page_offset := from_page_offset w + 1, to_page_offset := to_page_offset w + 1\<rparr>"

text \<open>
  One turn of the copy loop.  The first component is \<open>Some e\<close> where the C function returns \<open>e\<close>
  from inside the loop.
\<close>

definition wear_copy_from ::
  "u32 \<Rightarrow> bool \<Rightarrow> u32 \<Rightarrow> wear \<Rightarrow> 'z seq_scheme \<Rightarrow> (int option \<times> wear \<times> 'z seq_scheme) option" where
  "wear_copy_from random_slot isSlotReserve org_to_phy_addr w s = do {
     (ok, s1) \<leftarrow> seq_check_eu_status (to_phy_addr w) s;
     if ok then do {
       (_, s2) \<leftarrow> copyPage (to_phy_addr w) (from_phy_addr w) False org_to_phy_addr isSlotReserve s1;
       Some (None, wear_copied (w\<lparr>isToReserve := False\<rparr>), s2)
     }
     else if \<not> isSlotReserve then do {
       (a, f, s2) \<leftarrow> allocReserveEU (wear_flags w) (to_phy_addr w) s1;
       if IS_PHY_ADDR_EMPTY a then do {
         (e, s3) \<leftarrow> truncateSlot (new_slot_id s2) isSlotReserve s2;
         Some (Some (if e \<noteq> 0 then 1 else 0), w\<lparr>isToReserve := True, to_phy_addr := a, wear_flags := f\<rparr>, s3)
       } else do {
         (_, s3) \<leftarrow> copyPage a (from_phy_addr w) True org_to_phy_addr isSlotReserve s2;
         Some (None, wear_copied (w\<lparr>isToReserve := True, to_phy_addr := a, wear_flags := f\<rparr>), s3)
       }
     }
     else do {
       (a, o1, s2) \<leftarrow> skip_bad 8193 64 (to_phy_addr w) (to_page_offset w) s1;
       (_, s3) \<leftarrow> copyPage a (from_phy_addr w) False org_to_phy_addr isSlotReserve s2;
       Some (None, wear_copied (w\<lparr>isToReserve := False, to_phy_addr := a, to_page_offset := o1\<rparr>), s3)
     }
   }"

definition wear_step ::
  "u32 \<Rightarrow> bool \<Rightarrow> wear \<Rightarrow> 'z seq_scheme \<Rightarrow> (int option \<times> wear \<times> 'z seq_scheme) option" where
  "wear_step random_slot isSlotReserve w s =
     (if CALC_OFFSET_IN_EU (to_page_offset w) \<noteq> 0 then do {
        (_, s1) \<leftarrow> copyPage (to_phy_addr w) (from_phy_addr w) (isToReserve w) SEQ_PHY_ADDRESS_EMPTY isSlotReserve s;
        Some (None, wear_copied w, s1)
      }
      else do {
        let org_to_phy_addr = CALC_ADDRESS (new_slot_id s) 0 (to_page_offset w);
        let w1 = w\<lparr>to_phy_addr := org_to_phy_addr, from_phy_addr := CALC_ADDRESS random_slot 0 (from_page_offset w)\<rparr>;
        (ok, s1) \<leftarrow> seq_check_eu_status (from_phy_addr w1) s;
        if \<not> ok \<and> isSlotReserve
        then Some (None, w1\<lparr>from_page_offset := from_page_offset w1 + 64\<rparr>, s1)
        else do {
          (a, f) \<leftarrow> (if ok then Some (from_phy_addr w1, wear_flags w1)
                     else logicalAddressToReservePhysical (wear_flags w1) (from_phy_addr w1) s1);
          assert_c (ok \<or> \<not> IS_PHY_ADDR_EMPTY a);
          let w2 = w1\<lparr>from_phy_addr := a, wear_flags := f\<rparr>;
          if isSlotReserve then do {
            (_, s2) \<leftarrow> read_total (from_phy_addr w2) s1;
            if \<not> IS_PAGE_USED (sequencing_buffer s2) 2048 then do {
              (b, o1, s3) \<leftarrow> skip_bad 8193 1 (to_phy_addr w2) (to_page_offset w2) s2;
              Some (None, w2\<lparr>from_phy_addr := from_phy_addr w2 + 64, from_page_offset := from_page_offset w2 + 64,
                             to_phy_addr := b, to_page_offset := o1\<rparr>, s3)
            } else wear_copy_from random_slot isSlotReserve org_to_phy_addr w2 s2
          } else wear_copy_from random_slot isSlotReserve org_to_phy_addr w2 s1
        }
      })"

fun wear_loop :: "nat \<Rightarrow> u32 \<Rightarrow> bool \<Rightarrow> wear \<Rightarrow> 'z seq_scheme \<Rightarrow> (int option \<times> 'z seq_scheme) option" where
  "wear_loop 0 random_slot isSlotReserve w s = None"
| "wear_loop (Suc n) random_slot isSlotReserve w s =
     (if to_page_offset w < SEQ_PAGES_PER_SLOT \<and> from_page_offset w < SEQ_PAGES_PER_SLOT then do {
        (r, w1, s1) \<leftarrow> wear_step random_slot isSlotReserve w s;
        if r \<noteq> None then Some (r, s1) else wear_loop n random_slot isSlotReserve w1 s1
      } else Some (None, s))"

definition performWearLeveling :: "'z seq_scheme \<Rightarrow> (int \<times> 'z seq_scheme) option" where
  "performWearLeveling s = do {
     (random_slot, s1) \<leftarrow> pick_slot 2 (new_slot_id s) s;
     let (org_seg, isSlotReserve) =
       (case List.find (\<lambda>i. ucast (seg_to_slot_map s1 i) = random_slot) [0..<512] of
          Some i \<Rightarrow> (of_nat i, i \<ge> 510) | None \<Rightarrow> (0, False));
     (enough, s2) \<leftarrow> (if isSlotReserve then do {
         (n1, s2) \<leftarrow> count_valid_eus (new_slot_id s1) s1;
         (n2, s3) \<leftarrow> count_valid_eus random_slot s2;
         Some (\<not> n1 < n2, s3)
       } else Some (True, s1));
     if \<not> enough then Some (0, s2)
     else do {
       (r, s3) \<leftarrow> wear_loop 1025 random_slot isSlotReserve
          \<lparr>to_phy_addr = CALC_ADDRESS (new_slot_id s2) 0 0, from_phy_addr = CALC_ADDRESS random_slot 0 0,
           to_page_offset = 0, from_page_offset = 0, isToReserve = False, wear_flags = junk s2\<rparr> s2;
       case r of
         Some e \<Rightarrow> Some (e, s3)
       | None \<Rightarrow> do {
           (e, s4) \<leftarrow> truncateSlot random_slot isSlotReserve s3;
           if e \<noteq> 0 then Some (1, s4)
           else do {
             let i = new_slot_id s4;
             s5 \<leftarrow> SET_SEGMENT_TO_SLOT SEQ_NEW_SEGMENT random_slot (s4\<lparr>new_slot_id := random_slot\<rparr>);
             s6 \<leftarrow> SET_SEG_MAP_SLOT_FOR_SEG i org_seg s5;
             Some (0, s6)
           }
         }
     }
   }"

section \<open>Headers\<close>

definition writeSegmentHeader ::
  "(bool \<Rightarrow> 'z seq_scheme \<Rightarrow> (int \<times> 'z seq_scheme) option) \<Rightarrow> 'z seq_scheme \<Rightarrow> (int \<times> 'z seq_scheme) option" where
  "writeSegmentHeader cp_write_p s = do {
     let address = CALC_ADDRESS (new_slot_id s) 0 0;
     let s1 = init_buf s;
     let s2 = s1\<lparr>sequence_num := sequence_num s1 + 1\<rparr>;
     let b = SET_HEADER_SEGMENT_ID (sequencing_buffer s2) (ucast (GET_RECLAIMED_SEGMENT s2));
     let b1 = SET_SEG_TYPE_FLAG (SET_HEADER_SEQUENCE_NUM b (sequence_num s2)) 2048 3;
     let (b2, address1) =
       (if is_eu_reserve s2 = 0
        then (SET_SLOT_EU_OFFSET b1 2048 (CALCULATE_SLOT_ID_AND_EU_OFFSET address), reserve_eu_addr s2)
        else (b1, address));
     (e, s3) \<leftarrow> prog_total address1 (s2\<lparr>sequencing_buffer := b2\<rparr>);
     if e \<noteq> 0 then Some (1, s3)
     else do {
       (e1, s4) \<leftarrow> cp_write_p True (INCREMENT_RECLAIMED_OFFSET s3);
       Some (if e1 \<noteq> 0 then 1 else 0, s4)
     }
   }"

text \<open>The loop of the reserve header has no bound; \<open>markEuAsBad\<close>'s result is ignored.\<close>

fun reserve_header_loop :: "nat \<Rightarrow> u32 \<Rightarrow> 'z seq_scheme \<Rightarrow> 'z seq_scheme option" where
  "reserve_header_loop 0 phy_addr s = None"
| "reserve_header_loop (Suc n) phy_addr s = do {
     (e, s1) \<leftarrow> prog_total phy_addr s;
     if e \<noteq> 0 then do {
       (_, s2) \<leftarrow> markEuAsBad phy_addr s1;
       reserve_header_loop n (phy_addr + 64) s2
     } else Some s1
   }"

definition writeReserveSegmentHeader :: "u32 \<Rightarrow> 'z seq_scheme \<Rightarrow> (int \<times> 'z seq_scheme) option" where
  "writeReserveSegmentHeader phy_addr s = do {
     let s1 = init_buf s;
     let s2 = s1\<lparr>sequence_num := sequence_num s1 + 1\<rparr>;
     let b = SET_SLOT_EU_OFFSET (SET_SEG_TYPE_FLAG (sequencing_buffer s2) 2048 0) 2048 SEQ_RESERVE_EU_IS_HEADER;
     let b1 = SET_HEADER_SEGMENT_ID (SET_HEADER_SEQUENCE_NUM b (sequence_num s2)) (ucast (GET_SLOT phy_addr));
     s3 \<leftarrow> reserve_header_loop 8193 phy_addr (s2\<lparr>sequencing_buffer := b1\<rparr>);
     Some (0, s3)
   }"

section \<open>Moving to the next segment\<close>

text \<open>The result is the error, the flags buffer, \<open>*cpWritten\<close> and the state.\<close>

definition next_segment_start ::
  "buf \<Rightarrow> bool \<Rightarrow> (bool \<Rightarrow> 'z seq_scheme \<Rightarrow> (int \<times> 'z seq_scheme) option) \<Rightarrow> 'z seq_scheme
   \<Rightarrow> (int \<times> buf \<times> bool \<times> 'z seq_scheme) option" where
  "next_segment_start flags cpWritten cp_write_p s = do {
     let s1 = SET_RECLAIMED_OFFSET 0 s;
     (ok, s2) \<leftarrow> seq_check_eu_status (CALC_ADDRESS (new_slot_id s1) 0 0) s1;
     (r, flags1, s3) \<leftarrow> (if ok then Some (0, flags, s2)
        else allocReserveEU flags (CALC_ADDRESS (new_slot_id s2) 0 0) (s2\<lparr>is_eu_reserve := 0\<rparr>));
     if \<not> ok \<and> IS_PHY_ADDR_EMPTY r then Some (4, flags1, cpWritten, s3)
     else do {
       (e, s4) \<leftarrow> writeSegmentHeader cp_write_p (if ok then s3 else s3\<lparr>reserve_eu_addr := r, is_eu_reserve := 0\<rparr>);
       if e \<noteq> 0 then Some (1, flags1, cpWritten, s4)
       else do {
         rec \<leftarrow> IS_STATE_RECLAMATION s4;
         s5 \<leftarrow> (if rec then change_counter_level OBS_COUNT_NO_OBSOLETES (GET_RECLAIMED_SEGMENT s4) s4 else Some s4);
         Some (0, flags1, True, s5)
       }
     }
   }"

definition moveToNextSegment ::
  "buf \<Rightarrow> bool \<Rightarrow> (bool \<Rightarrow> 'z seq_scheme \<Rightarrow> (int \<times> 'z seq_scheme) option) \<Rightarrow> 'z seq_scheme
   \<Rightarrow> (int \<times> buf \<times> bool \<times> 'z seq_scheme) option" where
  "moveToNextSegment flags cpWritten cp_write_p s = do {
     old_slot \<leftarrow> GET_RECLAIMED_SEGMENT_SLOT s;
     rec \<leftarrow> IS_STATE_RECLAMATION s;
     (e, s1) \<leftarrow> (if rec then truncateSlot old_slot False s else Some (0, s));
     if e \<noteq> 0 then Some (1, flags, cpWritten, s1)
     else do {
       s2 \<leftarrow> (if rec then SET_SEGMENT_TO_SLOT (GET_RECLAIMED_SEGMENT s1) (new_slot_id s1) s1 else Some s1);
       let new_slot = (if rec then old_slot else SEQ_SEGMENTS_COUNT);
       let s3 = s2\<lparr>previously_written_segment := GET_RECLAIMED_SEGMENT s2\<rparr>;
       if ALL_SEGMENTS_ALLOCATED s3 then do {
         let (bit, s4) = draw_bit 9 (s3\<lparr>new_slot_id := new_slot\<rparr>);
         (e1, s5) \<leftarrow> (if bit \<noteq> 0 then performWearLeveling s4 else Some (0, s4));
         if e1 \<noteq> 0 then Some (1, flags, cpWritten, s5)
         else do {
           (e2, s6) \<leftarrow> findSegmentToReclaim s5;
           if e2 \<noteq> 0 then Some (3, flags, cpWritten, s6)
           else next_segment_start flags cpWritten cp_write_p s6
         }
       } else do {
         let s4 = s3\<lparr>new_slot_id := new_slot_id s3 + 1, nSegments := nSegments s3 + 1\<rparr>;
         let s5 = SET_RECLAIMED_SEGMENT (GET_RECLAIMED_SEGMENT s4 + 1) s4;
         s6 \<leftarrow> SET_SEGMENT_TO_SLOT (GET_RECLAIMED_SEGMENT s5) (GET_RECLAIMED_SEGMENT s5) s5;
         next_segment_start flags cpWritten cp_write_p s6
       }
     }
   }"

section \<open>The next free page\<close>

text \<open>
  The address the current offset will be written to.  At the start of an erase unit the code
  decides whether a reserve unit is needed; \<open>Inl\<close> of an error where \<open>VALIDATE_RESERVE_ADDRESS\<close>
  returns.
\<close>

definition target_unit :: "buf \<Rightarrow> 'z seq_scheme \<Rightarrow> (bool \<times> u32 \<times> buf \<times> 'z seq_scheme) option" where
  "target_unit flags s =
     (if IS_LAST_RECLAIMED_PAGE_START_OF_EU s then do {
        let s1 = s\<lparr>is_eu_reserve := 1, reserve_eu_addr := SEQ_PHY_ADDRESS_EMPTY\<rparr>;
        target_phy_addr \<leftarrow> calc_target_phy_addr s1;
        (ok, s2) \<leftarrow> seq_check_eu_status target_phy_addr s1;
        if ok then Some (True, target_phy_addr, flags, s2)
        else do {
          (a, flags1, s3) \<leftarrow> allocReserveEU flags target_phy_addr s2;
          let s4 = s3\<lparr>is_eu_reserve := 0\<rparr>;
          if IS_PHY_ADDR_EMPTY a then Some (False, a, flags1, s4)
          else Some (True, a, flags1, s4\<lparr>reserve_eu_addr := a\<rparr>)
        }
      } else do {
        target_phy_addr \<leftarrow> calc_target_phy_addr s;
        Some (True, target_phy_addr, flags, s)
      })"

text \<open>
  One turn of the loop to the end of a segment: \<open>Inl\<close> leaves the loop, \<open>Inr\<close> goes on with the next page.  The first
  component of a result is \<open>Some e\<close> where the C function returns \<open>e\<close>.
\<close>

definition free_page_turn ::
  "int \<Rightarrow> buf \<Rightarrow> 'z seq_scheme \<Rightarrow> ((int option \<times> buf \<times> 'z seq_scheme) + (buf \<times> 'z seq_scheme)) option" where
  "free_page_turn ok_error_code flags s =
     (if IS_SEG_MAP_PAGE_OFFSET_OVERFLOWING s then Some (Inl (None, flags, s))
      else do {
        (found, target_phy_addr, flags1, s1) \<leftarrow> target_unit flags s;
        if \<not> found then Some (Inl (Some 4, flags1, s1))
        else do {
          rec \<leftarrow> IS_STATE_RECLAMATION s1;
          if \<not> rec then Some (Inl (Some ok_error_code, flags1, s1))
          else do {
            (phy_addr, s2) \<leftarrow> logicalAddressToPhysical (reclaimed_logical_addr s1) s1;
            (copy, flags2, s3) \<leftarrow> is_page_to_copy flags1 phy_addr s2;
            if \<not> copy then Some (Inl (Some ok_error_code, flags2, s3))
            else do {
              (e, s4) \<leftarrow> copyValidBlock target_phy_addr (if isAddressReserve phy_addr s3 then phy_addr else 0) s3;
              if e \<noteq> 0 then Some (Inl (Some 1, flags2, s4))
              else Some (Inr (flags2, INCREMENT_RECLAIMED_OFFSET (init_buf s4)))
            }
          }
        }
      })"

primrec free_page_loop :: "nat \<Rightarrow> int \<Rightarrow> buf \<Rightarrow> 'z seq_scheme \<Rightarrow> (int option \<times> buf \<times> 'z seq_scheme) option" where
  "free_page_loop 0 ok_error_code flags s = None"
| "free_page_loop (Suc n) ok_error_code flags s = do {
     r \<leftarrow> free_page_turn ok_error_code flags s;
     case r of Inl x \<Rightarrow> Some x | Inr (flags', s') \<Rightarrow> free_page_loop n ok_error_code flags' s'
   }"

fun find_free_loop ::
  "nat \<Rightarrow> bool \<Rightarrow> (bool \<Rightarrow> 'z seq_scheme \<Rightarrow> (int \<times> 'z seq_scheme) option) \<Rightarrow> int \<Rightarrow> bool \<Rightarrow> buf \<Rightarrow> 'z seq_scheme
   \<Rightarrow> (int \<times> bool \<times> 'z seq_scheme) option" where
  "find_free_loop 0 cpWritten cp_write_p ok_error_code moved_seg_flag flags s = Some (3, cpWritten, init_buf s)"
| "find_free_loop (Suc n) cpWritten cp_write_p ok_error_code moved_seg_flag flags s = do {
     let over = IS_SEG_MAP_PAGE_OFFSET_OVERFLOWING s;
     (res, flags1, cp1, s1) \<leftarrow> (if over then moveToNextSegment flags cpWritten cp_write_p s else Some (0, flags, cpWritten, s));
     if res \<noteq> 0 then Some (res, cp1, s1)
     else do {
       let moved = (moved_seg_flag \<or> over);
       (r, flags2, s2) \<leftarrow> free_page_loop 1024 ok_error_code flags1 s1;
       case r of
         Some e \<Rightarrow> Some (e, cp1, s2)
       | None \<Rightarrow> do {
           s3 \<leftarrow> (if moved then change_counter_level OBS_COUNT_FULL (GET_RECLAIMED_SEGMENT s2) s2 else Some s2);
           find_free_loop n cp1 cp_write_p ok_error_code moved flags2 s3
         }
     }
   }"

definition findNextFreePage ::
  "bool \<Rightarrow> (bool \<Rightarrow> 'z seq_scheme \<Rightarrow> (int \<times> 'z seq_scheme) option) \<Rightarrow> int \<Rightarrow> 'z seq_scheme
   \<Rightarrow> (int \<times> bool \<times> 'z seq_scheme) option" where
  "findNextFreePage cpWritten cp_write_p ok_error_code s =
     find_free_loop 509 cpWritten cp_write_p ok_error_code False (junk s) s"

section \<open>Writing a block\<close>

text \<open>\<open>isCommit\<close> is 0, 1 (\<open>IS_COMMIT_REGULAR\<close>) or 2 (\<open>IS_COMMIT_LAST\<close>).  The result is the error,
  the logical address, \<open>*cpWritten\<close> and the state.  \<open>store\<close> is what the store of the address through the
  pointer \<open>log_addr\<close> does to the state: nothing, unless the caller's pointer is part of the state.\<close>

definition allocAndWriteBlock ::
  "logical_addr \<Rightarrow> (logical_addr \<Rightarrow> 'z seq_scheme \<Rightarrow> 'z seq_scheme) \<Rightarrow> buf \<Rightarrow> bool \<Rightarrow> logical_addr \<Rightarrow> bool
   \<Rightarrow> (bool \<Rightarrow> 'z seq_scheme \<Rightarrow> (int \<times> 'z seq_scheme) option) \<Rightarrow> u32
   \<Rightarrow> 'z seq_scheme \<Rightarrow> (int \<times> logical_addr \<times> bool \<times> 'z seq_scheme) option" where
  "allocAndWriteBlock log_addr store data onlyVOTs prev cpWritten cp_write_p isCommit s = do {
     let s1 = (if isCommit = 0 then
         (let s' = init_buf s in s'\<lparr>sequencing_buffer := initFlags (fsMemcpy (sequencing_buffer s') 0 data 0 2048) 2048\<rparr>)
       else s);
     full \<leftarrow> is_flash_full s1;
     if full then Some (3, log_addr, cpWritten, s1)
     else if IS_NO_RESERVE_EUS s1 then Some (4, log_addr, cpWritten, s1)
     else do {
       let b = (if onlyVOTs then SET_VOTS_FLAG (sequencing_buffer s1) 2048 0 else sequencing_buffer s1);
       phy_addr \<leftarrow> calc_target_phy_addr s1;
       (la, b1, s2) \<leftarrow> writeBlock (copyPrevAddressToFlags b 2048 prev) phy_addr s1;
       let s3 = store la (s2\<lparr>sequencing_buffer := b1\<rparr>);
       rec \<leftarrow> IS_STATE_RECLAMATION s3;
       let s4 = INCREMENT_RECLAIMED_OFFSET (if \<not> rec then DECREMENT_FREE_COUNT s3 else s3);
       if isCommit = 2 then Some (0, la, cpWritten, s4)
       else do {
         (e, cp1, s5) \<leftarrow> findNextFreePage cpWritten cp_write_p (if IS_ADDRESS_EMPTY la then 1 else 0) s4;
         Some (e, la, cp1, init_buf s5)
       }
     }
   }"

section \<open>The checkpoint\<close>

text \<open>
  The bytes of a checkpoint: the file system's data, the 264 bytes of the counters, and 8 bytes
  from the address of the 4-byte random register; the last four lie outside it and are
  unspecified.
\<close>

definition commit_byte :: "buf \<Rightarrow> nat \<Rightarrow> 'z seq_scheme \<Rightarrow> nat \<Rightarrow> u8" where
  "commit_byte data nBytes s i =
     (if i < nBytes then data i
      else if i < 264 + nBytes then obs_mem s (i - nBytes)
      else (let k = i - nBytes - 264 in if k < 4 then ucast (drop_bit (8 * k) (lfsr_state s)) else junk s k))"

fun commit_fill :: "nat \<Rightarrow> buf \<Rightarrow> nat \<Rightarrow> 'z seq_scheme \<Rightarrow> nat \<Rightarrow> nat \<Rightarrow> nat \<Rightarrow> buf \<Rightarrow> buf \<times> nat" where
  "commit_fill 0 data nBytes s cp_size buffer_byte_index cp_bytes_index b = (b, cp_bytes_index)"
| "commit_fill (Suc n) data nBytes s cp_size buffer_byte_index cp_bytes_index b =
     (let b1 = b(buffer_byte_index := commit_byte data nBytes s cp_bytes_index) in
      if buffer_byte_index + 1 < 2048 \<and> cp_bytes_index + 1 < cp_size
      then commit_fill n data nBytes s cp_size (buffer_byte_index + 1) (cp_bytes_index + 1) b1
      else (b1, cp_bytes_index + 1))"

text \<open>The write of one page of the checkpoint inside a segment header.\<close>

definition header_write :: "'z seq_scheme \<Rightarrow> (logical_addr \<times> 'z seq_scheme) option" where
  "header_write s = do {
     phy_addr \<leftarrow> calc_target_phy_addr s;
     (la, b, s1) \<leftarrow> writeBlock (sequencing_buffer s) phy_addr s;
     Some (la, s1\<lparr>sequencing_buffer := b\<rparr>)
   }"

fun commit_loop ::
  "nat \<Rightarrow> (bool \<Rightarrow> 'z seq_scheme \<Rightarrow> (int \<times> 'z seq_scheme) option) \<Rightarrow> buf \<Rightarrow> nat \<Rightarrow> bool \<Rightarrow> nat \<Rightarrow> u32 \<Rightarrow> nat \<Rightarrow> u32
   \<Rightarrow> logical_addr \<Rightarrow> 'z seq_scheme \<Rightarrow> (int \<times> 'z seq_scheme) option" where
  "commit_loop 0 cp_writer data nBytes isPartOfHeader cp_size cp_max cp_bytes_index cp_page_idx alloc s = None"
| "commit_loop (Suc n) cp_writer data nBytes isPartOfHeader cp_size cp_max cp_bytes_index cp_page_idx alloc s =
     (if \<not> cp_bytes_index < cp_size then Some (0, init_buf s)
      else do {
        let s1 = init_buf (if \<not> isPartOfHeader then INCREMENT_FREE_COUNT s else s);
        let (b, next) = commit_fill 2048 data nBytes s1 cp_size 0 cp_bytes_index (sequencing_buffer s1);
        let s2 = s1\<lparr>sequencing_buffer := set_cp_page_flag (initFlags b 2048) 2048 cp_page_idx cp_max\<rparr>;
        if \<not> isPartOfHeader then do {
          (res, la, cp_written, s3) \<leftarrow> allocAndWriteBlock alloc (\<lambda>_ s. s) (sequencing_buffer s2) False init_logical_address False
             cp_writer (setIsCommit (\<not> next < cp_size)) s2;
          if res \<noteq> 0 then Some (1, init_buf s3)
          else if cp_written then Some (0, init_buf (init_buf s3))
          else commit_loop n cp_writer data nBytes isPartOfHeader cp_size cp_max next (cp_page_idx + 1) la (init_buf s3)
        } else do {
          (la, s3) \<leftarrow> header_write s2;
          if IS_ADDRESS_EMPTY la then Some (1, init_buf s3)
          else commit_loop n cp_writer data nBytes isPartOfHeader cp_size cp_max next (cp_page_idx + 1) la
             (INCREMENT_RECLAIMED_OFFSET (init_buf s3))
        }
      })"

definition commit ::
  "(bool \<Rightarrow> 'z seq_scheme \<Rightarrow> (int \<times> 'z seq_scheme) option) \<Rightarrow> buf \<Rightarrow> nat \<Rightarrow> bool \<Rightarrow> 'z seq_scheme \<Rightarrow> (int \<times> 'z seq_scheme) option" where
  "commit fsCheckpointWriter data nBytes isPartOfHeader s = do {
     let cp_size = 272 + nBytes;
     let cp_page_idx_max = CALCULATE_IN_PAGES (of_nat cp_size) - 1;
     let s1 = init_buf s;
     if 2048 \<le> cp_size
     then commit_loop (cp_size div 2048 + 2) fsCheckpointWriter data nBytes isPartOfHeader cp_size cp_page_idx_max 0 0
            init_logical_address s1
     else do {
       let s2 = (if \<not> isPartOfHeader then INCREMENT_FREE_COUNT s1 else s1);
       let b = fsMemcpy (fsMemcpy (sequencing_buffer s2) 0 data 0 nBytes) nBytes (obs_mem s2) 0 264;
       let s3 = s2\<lparr>sequencing_buffer := SET_CHECKPOINT_FLAG b 2048 0\<rparr>;
       if \<not> isPartOfHeader then do {
         (res, _, _, s4) \<leftarrow> allocAndWriteBlock init_logical_address (\<lambda>_ s. s) (sequencing_buffer s3) False init_logical_address False
            fsCheckpointWriter 2 s3;
         Some (if res \<noteq> 0 then (1, s4) else (0, init_buf s4))
       } else do {
         (_, s4) \<leftarrow> header_write s3;
         Some (0, init_buf (INCREMENT_RECLAIMED_OFFSET s4))
       }
     }
   }"

section \<open>The random slot of wear leveling\<close>

text \<open>
  C33: the choice of a slot for wear leveling ends after at most one draw.  Starting from the new slot
  the loop needs one draw: a number equal to the new slot is replaced by its mirror image below 511,
  which differs from it because 511 is odd.  The slot chosen is below 512, is never the new slot, and
  nothing but the random register changes.
\<close>

theorem pick_slot_terminates:
  "\<exists>r l. pick_slot 2 (new_slot_id s) s = Some (r, s\<lparr>lfsr_state := l\<rparr>) \<and> r < 512 \<and> r \<noteq> new_slot_id s"
proof -
  obtain r l where d: "get_random_num 9 (lfsr_state s) = (r, l)" by (cases "get_random_num 9 (lfsr_state s)") auto
  have r: "unat r < 512" using random_num_bound [of 9 "lfsr_state s"] d by simp
  define r1 where "r1 = (if r = new_slot_id s then 511 - r else r)"
  have m: "unat (511 - r) = 511 - unat r"
    using r by (simp add: unat_sub_if_size)
  have ne: "511 - r \<noteq> r"
  proof
    assume "511 - r = r"
    then have "511 - unat r = unat r" unfolding m [symmetric] by (simp only:)
    then have "2 * unat r = 511" using r by linarith
    then show False by presburger
  qed
  have r1: "r1 < 512" "r1 \<noteq> new_slot_id s"
    using r m ne by (auto simp: r1_def word_less_nat_alt)
  have "pick_slot 2 (new_slot_id s) s = Some (r1, s\<lparr>lfsr_state := l\<rparr>)"
    using ne by (simp add: numeral_2_eq_2 draw_num_def d r1_def Let_def) auto
  with r1 show ?thesis by blast
qed

section \<open>The current address is left alone\<close>

text \<open>The operations of the chip and of the address translation keep the layer's fields.\<close>

definition kept :: "'z seq_scheme \<Rightarrow> 'z seq_scheme \<Rightarrow> bool" where
  "kept s s' = (reclaimed_logical_addr s' = reclaimed_logical_addr s \<and> nSegments s' = nSegments s \<and>
     new_slot_id s' = new_slot_id s \<and> seg_to_slot_map s' = seg_to_slot_map s)"

lemma kept_refl [intro, simp]: "kept s s"
  by (simp add: kept_def)

lemma kept_trans [trans]: "kept s t \<Longrightarrow> kept t u \<Longrightarrow> kept s u"
  by (simp add: kept_def)

lemma kept_offset: "kept s s' \<Longrightarrow> GET_RECLAIMED_OFFSET s' = GET_RECLAIMED_OFFSET s"
  by (simp add: kept_def GET_RECLAIMED_OFFSET_def)

lemma fwrite_kept [simp]: "kept s (fwrite b p n s)"
  by (simp add: kept_def fwrite_def)

lemma kept_upd [simp]:
  "kept s (s'\<lparr>sequencing_buffer := b\<rparr>) = kept s s'" "kept s (s'\<lparr>valid_eus := v\<rparr>) = kept s s'"
  "kept s (s'\<lparr>is_eu_reserve := i\<rparr>) = kept s s'" "kept s (s'\<lparr>reserve_eu_addr := a\<rparr>) = kept s s'"
  "kept s (s'\<lparr>main_area_writes := m\<rparr>) = kept s s'" "kept s (s'\<lparr>spare_writes := m\<rparr>) = kept s s'"
  "kept s (s'\<lparr>obs_mem := o'\<rparr>) = kept s s'"
  "kept (s\<lparr>is_eu_reserve := i\<rparr>) s' = kept s s'" "kept (s\<lparr>reserve_eu_addr := a\<rparr>) s' = kept s s'"
  by (simp_all add: kept_def)

lemma init_buf_kept [simp]: "kept s (init_buf s') = kept s s'"
  by (simp add: init_buf_def)

lemma programPageA_kept: "nandProgramPageA b p off len s = Some (e, b', s') \<Longrightarrow> kept s s'"
  by (auto simp: nandProgramPageA_def bind_eq_Some_conv Let_def split: if_splits)

lemma programTotal_kept: "nandProgramTotalPage b p s = Some (e, b', s') \<Longrightarrow> kept s s'"
  by (auto simp: nandProgramTotalPage_def bind_eq_Some_conv dest: programPageA_kept)

lemma read_total_kept: "read_total p s = Some (e, s') \<Longrightarrow> kept s s'"
  by (auto simp: read_total_def bind_eq_Some_conv)

lemma writeBlock_kept: "writeBlock b p s = Some (la, b', s') \<Longrightarrow> kept s s'"
  by (auto simp: writeBlock_def bind_eq_Some_conv Let_def split: prod.splits if_splits dest: programTotal_kept)

lemma seq_check_kept: "seq_check_eu_status p s = Some (ok, s') \<Longrightarrow> kept s s'"
  by (auto simp: seq_check_eu_status_def seq_set_eu_known_valid_def bind_eq_Some_conv Let_def split: if_splits)

lemma valid_eu_loop_kept: "valid_eu_loop n p l b s = Some (a, s') \<Longrightarrow> kept s s'"
proof (induction n arbitrary: p l s)
  case (Suc n)
  then show ?case
    by (auto simp: bind_eq_Some_conv Let_def split: if_splits dest: seq_check_kept intro: kept_trans)
qed simp

lemma GET_COPYBACK_EU_kept: "GET_COPYBACK_EU s = Some (a, s') \<Longrightarrow> kept s s'"
  by (auto simp: GET_COPYBACK_EU_def get_valid_eu_addr_in_location_def bind_eq_Some_conv split: if_splits dest: valid_eu_loop_kept)

lemma eu_ring_kept:
  assumes "\<And>a st r st'. body a st = Some (r, st') \<Longrightarrow> kept (snd st) (snd st')"
  shows "eu_ring n body e o' a st = Some (r, st') \<Longrightarrow> kept (snd st) (snd st')"
proof (induction n arbitrary: o' a st)
  case (Suc n)
  obtain r1 st1 where b: "body a st = Some (r1, st1)"
    using Suc.prems by (cases "body a st") auto
  then show ?case
    using Suc.prems Suc.IH [of _ _ st1] assms [OF b]
    by (auto simp: Let_def split: if_splits intro: kept_trans)
qed simp

lemma reserve_segs_kept:
  assumes "\<And>a st r st'. body a st = Some (r, st') \<Longrightarrow> kept (snd st) (snd st')"
  shows "reserve_segs slot_of body e gs st = Some (r, st') \<Longrightarrow> kept (snd st) (snd st')"
proof (induction gs arbitrary: st)
  case (Cons g gs)
  obtain slot where s: "slot_of g st = Some slot" using Cons.prems by (cases "slot_of g st") auto
  obtain r1 st1 where b: "eu_ring 16 body e e (CALC_ADDRESS slot e 0) st = Some (r1, st1)"
    using Cons.prems s by (cases "eu_ring 16 body e e (CALC_ADDRESS slot e 0) st") auto
  have "kept (snd st) (snd st1)" by (rule eu_ring_kept [OF assms b])
  then show ?case
    using Cons.prems Cons.IH [of st1] s b by (auto split: if_splits intro: kept_trans)
qed simp

lemma alloc_body_kept: "alloc_body c o' a st = Some (r, st') \<Longrightarrow> kept (snd st) (snd st')"
  by (cases st) (auto simp: alloc_body_def bind_eq_Some_conv split: if_splits dest: seq_check_kept)

lemma alloc_segs_kept:
  assumes "reserve_segs slot_of (alloc_body c o') e gs (f, s) = Some (r, f', s')"
  shows "kept s s'"
  using reserve_segs_kept [of "alloc_body c o'", OF alloc_body_kept assms] by simp

lemma allocReserveEU_kept: "allocReserveEU f p s = Some (a, f', s') \<Longrightarrow> kept s s'"
  unfolding allocReserveEU_def
  by (auto simp: bind_eq_Some_conv simp del: reserve_segs.simps split: if_splits dest!: GET_COPYBACK_EU_kept alloc_segs_kept intro: kept_trans)

lemma translate_kept: "logicalAddressToPhysical la s = Some (a, s') \<Longrightarrow> kept s s'"
  unfolding logicalAddressToPhysical_def
  by (auto simp: bind_eq_Some_conv Let_def split: if_splits dest: seq_check_kept)

lemma count_upd_kept [simp]:
  "kept s (DECREMENT_OBS_COUNT s') = kept s s'" "kept s (DECREMENT_FREE_COUNT s') = kept s s'"
  by (simp_all add: DECREMENT_OBS_COUNT_def SET_OBS_COUNT_def DECREMENT_FREE_COUNT_def SET_FREE_COUNTER_def)

lemma is_page_to_copy_kept: "is_page_to_copy f p s = Some (r, f', s') \<Longrightarrow> kept s s'"
  by (auto simp: is_page_to_copy_def bind_eq_Some_conv split: if_splits)

lemma copyValidBlock_kept: "copyValidBlock p org s = Some (e, s') \<Longrightarrow> kept s s'"
  unfolding copyValidBlock_def
  by (auto simp: bind_eq_Some_conv Let_def split: if_splits dest!: translate_kept read_total_kept writeBlock_kept intro: kept_trans)

lemma target_unit_kept: "target_unit f s = Some (ok, a, f', s') \<Longrightarrow> kept s s'"
  unfolding target_unit_def
  by (auto simp: bind_eq_Some_conv Let_def split: if_splits dest!: seq_check_kept allocReserveEU_kept intro: kept_trans)


section \<open>The loop to the end of a segment ends\<close>

text \<open>A turn that goes on moves the current offset up by one: all calls before its last step keep it.\<close>

lemma increment_offset:
  assumes "\<not> IS_SEG_MAP_PAGE_OFFSET_OVERFLOWING s" "kept s s'"
  shows "unat (GET_RECLAIMED_OFFSET (INCREMENT_RECLAIMED_OFFSET s')) = unat (GET_RECLAIMED_OFFSET s) + 1"
proof -
  let ?o = "GET_RECLAIMED_OFFSET s"
  have o1: "unat ?o < 1024" using assms(1) by (simp add: IS_SEG_MAP_PAGE_OFFSET_OVERFLOWING_def word_le_nat_alt)
  have u: "unat (?o + 1) = unat ?o + 1" using o1 by (simp add: unat_plus_u32)
  have "unat ((?o + 1) AND mask 12) = (unat ?o + 1) mod 2 ^ 12" unfolding unat_mod_word u by (rule refl)
  then have "unat ((?o + 1) AND 0xfff) = unat ?o + 1" using o1 by (simp add: mask_eq_exp_minus_1)
  then show ?thesis using kept_offset [OF assms(2)] by (simp add: INCREMENT_RECLAIMED_OFFSET_def)
qed

lemma turn_advances:
  assumes "free_page_turn e f s = Some (Inr (f', s'))"
  shows "\<not> IS_SEG_MAP_PAGE_OFFSET_OVERFLOWING s \<and> unat (GET_RECLAIMED_OFFSET s') = unat (GET_RECLAIMED_OFFSET s) + 1"
proof -
  have over: "\<not> IS_SEG_MAP_PAGE_OFFSET_OVERFLOWING s" using assms by (auto simp: free_page_turn_def)
  have "\<exists>t. kept s t \<and> s' = INCREMENT_RECLAIMED_OFFSET (init_buf t)"
    using assms over unfolding free_page_turn_def
    by (auto simp: bind_eq_Some_conv split: if_splits dest!: target_unit_kept translate_kept is_page_to_copy_kept copyValidBlock_kept)
      (rule exI, rule conjI [OF _ refl], meson kept_trans)+
  then obtain t where t: "kept s t" "s' = INCREMENT_RECLAIMED_OFFSET (init_buf t)" by blast
  then have "kept s (init_buf t)" by (simp add: kept_def init_buf_def)
  from increment_offset [OF over this] over t(2) show ?thesis by simp
qed

text \<open>The states the loop goes through.\<close>

inductive turns :: "int \<Rightarrow> nat \<Rightarrow> buf \<times> 'z seq_scheme \<Rightarrow> buf \<times> 'z seq_scheme \<Rightarrow> bool" for e where
  none: "turns e 0 x x"
| turn: "free_page_turn e f s = Some (Inr y) \<Longrightarrow> turns e n y z \<Longrightarrow> turns e (Suc n) (f, s) z"

lemma turns_end:
  assumes "1024 - unat (GET_RECLAIMED_OFFSET s) < m"
  shows "\<exists>n f' s'. turns e n (f, s) (f', s') \<and> n < m \<and> unat (GET_RECLAIMED_OFFSET s') = unat (GET_RECLAIMED_OFFSET s) + n \<and>
    (case free_page_turn e f' s' of
       None \<Rightarrow> free_page_loop m e f s = None
     | Some (Inl r) \<Rightarrow> free_page_loop m e f s = Some r
     | Some (Inr y) \<Rightarrow> False)"
  using assms
proof (induction m arbitrary: f s)
  case (Suc m)
  show ?case
  proof (cases "\<exists>y. free_page_turn e f s = Some (Inr y)")
    case False
    then show ?thesis by (intro exI [of _ 0] exI [of _ f] exI [of _ s]) (auto intro: turns.none split: option.split sum.split)
  next
    case True
    then obtain f1 s1 where y: "free_page_turn e f s = Some (Inr (f1, s1))" by auto
    from turn_advances [OF y] have o: "unat (GET_RECLAIMED_OFFSET s1) = unat (GET_RECLAIMED_OFFSET s) + 1"
      "unat (GET_RECLAIMED_OFFSET s) < 1024" by (simp_all add: IS_SEG_MAP_PAGE_OFFSET_OVERFLOWING_def word_le_nat_alt)
    then have "1024 - unat (GET_RECLAIMED_OFFSET s1) < m" using Suc.prems by linarith
    from Suc.IH [OF this, of f1] obtain n f' s' where n: "turns e n (f1, s1) (f', s')" "n < m"
      "unat (GET_RECLAIMED_OFFSET s') = unat (GET_RECLAIMED_OFFSET s1) + n"
      "case free_page_turn e f' s' of None \<Rightarrow> free_page_loop m e f1 s1 = None | Some (Inl r) \<Rightarrow> free_page_loop m e f1 s1 = Some r | Some (Inr y) \<Rightarrow> False"
      by blast
    have "free_page_loop (Suc m) e f s = free_page_loop m e f1 s1" using y by simp
    then have "case free_page_turn e f' s' of None \<Rightarrow> free_page_loop (Suc m) e f s = None | Some (Inl r) \<Rightarrow> free_page_loop (Suc m) e f s = Some r | Some (Inr y) \<Rightarrow> False"
      using n(4) by (simp only:)
    moreover have "Suc n < Suc m" "unat (GET_RECLAIMED_OFFSET s') = unat (GET_RECLAIMED_OFFSET s) + Suc n" using n(2,3) o(1) by simp_all
    ultimately show ?thesis using turns.turn [OF y n(1)] by blast
  qed
qed simp

text \<open>
  C32: the search for a free page inside a segment ends, whatever the chip does.  From any state the loop goes on for
  fewer than 1024 turns, each of which has copied a page and moved the current offset up by one; after these turns comes one that
  does not go on, by leaving the loop or by a failed assertion, and its outcome is the outcome of the loop: the 1024
  turns of the model are never used up.
\<close>

theorem free_page_loop_terminates:
  "\<exists>n f' s'. turns e n (f, s) (f', s') \<and> n < 1024 \<and> unat (GET_RECLAIMED_OFFSET s') = unat (GET_RECLAIMED_OFFSET s) + n \<and>
    (case free_page_turn e f' s' of
       None \<Rightarrow> free_page_loop 1024 e f s = None
     | Some (Inl r) \<Rightarrow> free_page_loop 1024 e f s = Some r
     | Some (Inr y) \<Rightarrow> False)"
proof (cases "GET_RECLAIMED_OFFSET s = 0")
  case True
  then have "free_page_turn e f s = Some (Inl (None, f, s))" by (simp add: free_page_turn_def IS_SEG_MAP_PAGE_OFFSET_OVERFLOWING_def)
  moreover from this have "free_page_loop (Suc 1023) e f s = Some (None, f, s)" by (simp only: free_page_loop.simps) simp
  ultimately show ?thesis by (intro exI [of _ 0] exI [of _ f] exI [of _ s]) (simp add: turns.none)
next
  case False
  then have "0 < unat (GET_RECLAIMED_OFFSET s)" by (simp add: unat_gt_0)
  then show ?thesis by (intro turns_end) simp
qed

section \<open>Writing a block and reading it back\<close>

text \<open>The layer fills its first pass over the slots: the next write goes to page \<open>p\<close>, which is in order.\<close>

definition open_page :: "u32 \<Rightarrow> 'z seq_scheme \<Rightarrow> bool" where
  "open_page p s = (nSegments s \<noteq> SEQ_SEGMENTS_COUNT \<and> is_eu_reserve s = 1 \<and> reserve_eu_addr s = SEQ_PHY_ADDRESS_EMPTY \<and>
     plain_page (reclaimed_logical_addr s) s = Some p \<and> unit_fine p s \<and> page_ok p s \<and>
     main_area_writes s p = 0 \<and> eus_ok s)"

lemma not_reclamation: "nSegments s \<noteq> SEQ_SEGMENTS_COUNT \<Longrightarrow> IS_STATE_RECLAMATION s = Some False"
  by (simp add: IS_STATE_RECLAMATION_def)

lemma target_of_plain:
  assumes "plain_page (reclaimed_logical_addr s) s = Some p" "nSegments s \<noteq> SEQ_SEGMENTS_COUNT" "reserve_eu_addr s = SEQ_PHY_ADDRESS_EMPTY"
  shows "calc_target_phy_addr s = Some p"
proof -
  obtain slot where slot: "GET_RECLAIMED_SEGMENT_SLOT s = Some slot"
    using assms(1) by (cases "GET_RECLAIMED_SEGMENT_SLOT s")
      (simp_all add: plain_page_def GET_RECLAIMED_SEGMENT_SLOT_def GET_RECLAIMED_SEGMENT_def)
  then have g: "GET_SEG_MAP_SLOT_FOR_SEG (GET_LOGICAL_SEGMENT (reclaimed_logical_addr s)) s = Some slot"
    by (simp add: GET_RECLAIMED_SEGMENT_SLOT_def GET_RECLAIMED_SEGMENT_def)
  have "p = CALC_ADDRESS slot 0 (GET_RECLAIMED_OFFSET s)"
    using assms(1) not_reclamation [OF assms(2)] unfolding plain_page_def g bind.bind_lunit
    by (auto simp: GET_RECLAIMED_OFFSET_def split: if_split_asm)
  then show ?thesis
    using assms(3) not_reclamation [OF assms(2)] slot
    by (simp add: calc_target_phy_addr_def IS_SEG_MAP_ADDR_RESERVE_def CALC_RECLAIMED_PHYSICAL_ADDRESS_def)
qed

lemma copyPrevAddress_other: "\<not> (base \<le> i \<and> i < base + 3) \<Longrightarrow> copyPrevAddressToFlags b base a i = b i"
  by (auto simp: copyPrevAddressToFlags_def addr_put_def) (simp add: addr_at_def)

text \<open>The buffer that reaches the chip: the data, and a spare area built on \<open>0xff\<close>.\<close>

definition block_image :: "buf \<Rightarrow> bool \<Rightarrow> logical_addr \<Rightarrow> buf \<Rightarrow> buf" where
  "block_image data onlyVOTs prev b =
     SET_SEG_TYPE_FLAG (copyPrevAddressToFlags
       (let d = initFlags (fsMemcpy (init_struct b 0 NAND_TOTAL_SIZE) 0 data 0 2048) 2048
        in if onlyVOTs then SET_VOTS_FLAG d 2048 0 else d) 2048 prev) 2048 3"

lemma block_image_data: "i < 2048 \<Longrightarrow> block_image data v prev b i = data i"
  by (simp add: block_image_def copyPrevAddress_other initFlags_def init_struct_def fsMemcpy_copy Let_def)

lemma SEG_TYPE_byte: "i \<noteq> base + 4 \<Longrightarrow> SET_SEG_TYPE_FLAG b base v i = b i"
  by (rule seg_type.set_byte_frame) (auto simp: field_defs)

lemma VOTS_byte: "i \<noteq> base + 4 \<Longrightarrow> SET_VOTS_FLAG b base v i = b i"
  by (rule vots_flag.set_byte_frame) (auto simp: field_defs)

lemma block_image_spare:
  "block_image data v prev b 2053 = 0xff" "block_image data v prev b 2111 = 0xff"
  by (simp_all add: block_image_def copyPrevAddress_other SEG_TYPE_byte VOTS_byte initFlags_def init_struct_def Let_def)

lemma block_image_obs: "GET_OBS_FLAG (block_image data v prev b) 2048 \<noteq> 0"
  by (simp add: obs_flag_byte block_image_spare bit_numeral_word_iff)

lemma plain_reclaimed:
  assumes "nSegments s \<noteq> SEQ_SEGMENTS_COUNT"
  shows "plain_page (reclaimed_logical_addr s) s = Some p \<longleftrightarrow>
    (\<exists>slot. GET_RECLAIMED_SEGMENT_SLOT s = Some slot \<and> slot \<noteq> SEQ_NO_SLOT \<and> GET_RECLAIMED_OFFSET s < SEQ_PAGES_PER_SLOT \<and>
      p = CALC_ADDRESS slot 0 (GET_RECLAIMED_OFFSET s))"
proof (cases "GET_RECLAIMED_SEGMENT_SLOT s")
  case None
  then show ?thesis by (simp add: plain_page_def GET_RECLAIMED_SEGMENT_SLOT_def GET_RECLAIMED_SEGMENT_def)
next
  case (Some slot)
  then have g: "GET_SEG_MAP_SLOT_FOR_SEG (GET_LOGICAL_SEGMENT (reclaimed_logical_addr s)) s = Some slot"
    by (simp add: GET_RECLAIMED_SEGMENT_SLOT_def GET_RECLAIMED_SEGMENT_def)
  show ?thesis
    unfolding plain_page_def g Some bind.bind_lunit not_reclamation [OF assms] assert_c_bind
    by (auto simp: GET_RECLAIMED_OFFSET_def)
qed

text \<open>The page after the current one can take a write without a reserve unit.\<close>

definition next_ready :: "u32 \<Rightarrow> 'z seq_scheme \<Rightarrow> bool" where
  "next_ready p s = (GET_RECLAIMED_OFFSET s < 1023 \<and>
     (CALC_OFFSET_IN_EU (GET_RECLAIMED_OFFSET s + 1) \<noteq> 0 \<or> unit_fine (p + 1) s))"

lemma findNextFreePage_ready:
  assumes "nSegments s \<noteq> SEQ_SEGMENTS_COUNT" "is_eu_reserve s = 1" "reserve_eu_addr s = SEQ_PHY_ADDRESS_EMPTY" "eus_ok s"
    and "plain_page (reclaimed_logical_addr s) s = Some p" "GET_RECLAIMED_OFFSET s \<noteq> 0"
    and "CALC_OFFSET_IN_EU (GET_RECLAIMED_OFFSET s) \<noteq> 0 \<or> unit_fine p s"
  shows "\<exists>v. findNextFreePage cp w e s = Some (e, cp, s\<lparr>valid_eus := v\<rparr>) \<and> eus_ok (s\<lparr>valid_eus := v\<rparr>)"
proof -
  have off: "GET_RECLAIMED_OFFSET s < SEQ_PAGES_PER_SLOT" using assms(5) plain_reclaimed [OF assms(1)] by blast
  then have no: "\<not> IS_SEG_MAP_PAGE_OFFSET_OVERFLOWING s" using assms(6) by (simp add: IS_SEG_MAP_PAGE_OFFSET_OVERFLOWING_def not_le)
  have tgt: "calc_target_phy_addr s = Some p" by (rule target_of_plain [OF assms(5,1,3)])
  have id: "s\<lparr>is_eu_reserve := 1, reserve_eu_addr := SEQ_PHY_ADDRESS_EMPTY\<rparr> = s"
    by (rule seq.equality) (use assms(2,3) in simp_all)
  have rec: "IS_STATE_RECLAMATION (s\<lparr>valid_eus := v\<rparr>) = Some False" for v by (rule not_reclamation) (simp add: assms(1))
  obtain v where v: "target_unit f s = Some (True, p, f, s\<lparr>valid_eus := v\<rparr>)" "eus_ok (s\<lparr>valid_eus := v\<rparr>)" for f
  proof (cases "IS_LAST_RECLAIMED_PAGE_START_OF_EU s")
    case True
    then have fine: "unit_fine p s" using assms(7) by (simp add: IS_LAST_RECLAIMED_PAGE_START_OF_EU_def)
    obtain v where "seq_check_eu_status p s = Some (True, s\<lparr>valid_eus := v\<rparr>)" "eus_ok (s\<lparr>valid_eus := v\<rparr>)"
      by (rule seq_check_fine [OF fine assms(4)])
    then show ?thesis using True tgt by (intro that [of v]) (simp_all add: target_unit_def id Let_def)
  next
    case False
    have "s\<lparr>valid_eus := valid_eus s\<rparr> = s" by simp
    then show ?thesis using False tgt assms(4) by (intro that [of "valid_eus s"]) (simp_all add: target_unit_def)
  qed
  have "free_page_loop (Suc n) e f s = Some (Some e, f, s\<lparr>valid_eus := v\<rparr>)" for n f
    using no v(1) rec by (simp add: free_page_turn_def)
  from this [of 1023] have "free_page_loop 1024 e f s = Some (Some e, f, s\<lparr>valid_eus := v\<rparr>)" for f
    by (simp del: free_page_loop.simps)
  then have "find_free_loop (Suc n) cp w e m f s = Some (e, cp, s\<lparr>valid_eus := v\<rparr>)" for n m f
    using no by (simp del: free_page_loop.simps)
  from this [of 508] have "findNextFreePage cp w e s = Some (e, cp, s\<lparr>valid_eus := v\<rparr>)"
    by (simp add: findNextFreePage_def del: find_free_loop.simps)
  with v(2) show ?thesis by blast
qed

lemma writeBlock_open:
  assumes "page_ok p s" "main_area_writes s p = 0" "is_eu_reserve s \<noteq> 0"
  shows "writeBlock b p s = Some (reclaimed_logical_addr s, setECC (SET_SEG_TYPE_FLAG b 2048 3),
    programmed (SET_SEG_TYPE_FLAG b 2048 3) p s)"
  using assms nandProgramTotalPage_ok [OF assms(1,2)] by (simp add: writeBlock_def)

lemma is_flash_full_loop_buffer [simp]: "is_flash_full_loop is (s\<lparr>sequencing_buffer := b\<rparr>) = is_flash_full_loop is s"
  by (induction "is") (simp_all add: obs_byte_def)

lemma is_flash_full_buffer [simp]: "is_flash_full (s\<lparr>sequencing_buffer := b\<rparr>) = is_flash_full s"
  by (simp add: is_flash_full_def)

text \<open>The state after a block was written to the current page and the current address moved on.\<close>

definition block_written :: "buf \<Rightarrow> u32 \<Rightarrow> buf \<Rightarrow> 'z seq_scheme \<Rightarrow> 'z seq_scheme" where
  "block_written B p c s = INCREMENT_RECLAIMED_OFFSET (DECREMENT_FREE_COUNT ((programmed B p s)\<lparr>sequencing_buffer := c\<rparr>))"

lemma block_written_sel [simp]:
  "cells (block_written B p c s) q = (if q = p then written_page (cells s p) B else cells s q)"
  "rd_fail (block_written B p c s) = rd_fail s" "wr_fail (block_written B p c s) = wr_fail s" "fps (block_written B p c s) = fps s"
  "seg_to_slot_map (block_written B p c s) = seg_to_slot_map s" "nSegments (block_written B p c s) = nSegments s"
  "reserve_eu_addr (block_written B p c s) = reserve_eu_addr s" "is_eu_reserve (block_written B p c s) = is_eu_reserve s"
  "valid_eus (block_written B p c s) = valid_eus s" "new_slot_id (block_written B p c s) = new_slot_id s"
  "GET_RECLAIMED_SEGMENT (block_written B p c s) = GET_RECLAIMED_SEGMENT s"
  by (simp_all add: block_written_def INCREMENT_RECLAIMED_OFFSET_def DECREMENT_FREE_COUNT_def)
    (simp_all add: SET_RECLAIMED_OFFSET_def SET_FREE_COUNTER_def GET_RECLAIMED_SEGMENT_def)

lemma block_written_offset:
  assumes "GET_RECLAIMED_OFFSET s < 1023"
  shows "GET_RECLAIMED_OFFSET (block_written B p c s) = GET_RECLAIMED_OFFSET s + 1"
proof -
  have o1: "unat (GET_RECLAIMED_OFFSET s) < 1023" using assms by (simp add: word_less_nat_alt)
  have "unat ((GET_RECLAIMED_OFFSET s + 1) AND mask 12) = unat (GET_RECLAIMED_OFFSET s + 1)"
    unfolding unat_mod_word using o1 by (simp add: unat_plus_u32)
  then have "(GET_RECLAIMED_OFFSET s + 1) AND 0xfff = GET_RECLAIMED_OFFSET s + 1"
    by (simp add: mask_eq_exp_minus_1 word_unat_eq_iff)
  moreover have "GET_RECLAIMED_OFFSET (DECREMENT_FREE_COUNT ((programmed B p s)\<lparr>sequencing_buffer := c\<rparr>)) = GET_RECLAIMED_OFFSET s"
    by (simp add: GET_RECLAIMED_OFFSET_def DECREMENT_FREE_COUNT_def SET_FREE_COUNTER_def)
  ultimately show ?thesis by (simp add: block_written_def INCREMENT_RECLAIMED_OFFSET_def)
qed

lemma block_written_good: "eu_good q s \<Longrightarrow> B 2053 = 0xff \<Longrightarrow> eu_good q (block_written B p c s)"
  by (auto simp: eu_good_def written_page_byte)

lemma block_written_eus_ok: "eus_ok s \<Longrightarrow> B 2053 = 0xff \<Longrightarrow> eus_ok (block_written B p c s)"
  by (auto simp: eus_ok_def block_written_good)

lemma block_written_plain:
  assumes "nSegments s \<noteq> SEQ_SEGMENTS_COUNT"
  shows "plain_page la (block_written B p c s) = plain_page la s"
  using assms by (simp add: plain_page_def not_reclamation GET_SEG_MAP_SLOT_FOR_SEG_def)

lemma block_written_next:
  assumes "open_page p s" "next_ready p s"
  shows "plain_page (reclaimed_logical_addr (block_written B p c s)) (block_written B p c s) = Some (p + 1)"
proof -
  have n: "nSegments s \<noteq> SEQ_SEGMENTS_COUNT" "nSegments (block_written B p c s) \<noteq> SEQ_SEGMENTS_COUNT"
    using assms(1) by (simp_all add: open_page_def)
  have "plain_page (reclaimed_logical_addr s) s = Some p" using assms(1) by (simp add: open_page_def)
  then obtain slot where slot: "GET_RECLAIMED_SEGMENT_SLOT s = Some slot" "slot \<noteq> SEQ_NO_SLOT"
    "p = CALC_ADDRESS slot 0 (GET_RECLAIMED_OFFSET s)"
    using plain_reclaimed [OF n(1)] by blast
  have o1: "GET_RECLAIMED_OFFSET s < 1023" using assms(2) by (simp add: next_ready_def)
  have "GET_RECLAIMED_SEGMENT_SLOT (block_written B p c s) = Some slot"
    using slot(1) by (simp add: GET_RECLAIMED_SEGMENT_SLOT_def GET_SEG_MAP_SLOT_FOR_SEG_def split: if_splits)
  moreover have "GET_RECLAIMED_OFFSET s + 1 < SEQ_PAGES_PER_SLOT"
    using o1 by (simp add: word_less_nat_alt unat_plus_u32)
  moreover have "p + 1 = CALC_ADDRESS slot 0 (GET_RECLAIMED_OFFSET s + 1)"
    unfolding slot(3) CALC_ADDRESS_def by (simp add: algebra_simps)
  ultimately show ?thesis
    using slot(2) by (simp add: plain_reclaimed [OF n(2)] block_written_offset [OF o1])
qed

lemma reclaimed_not_empty:
  assumes "plain_page la s = Some p"
  shows "\<not> IS_ADDRESS_EMPTY la"
  using assms by (auto simp: plain_page_def GET_SEG_MAP_SLOT_FOR_SEG_def IS_ADDRESS_EMPTY_def split: if_splits)

lemma allocAndWriteBlock_open:
  assumes "open_page p s" "next_ready p s" "is_flash_full s = Some False"
  obtains c v where "allocAndWriteBlock log_addr (\<lambda>_ s. s) data onlyVOTs prev cpWritten w 0 s =
      Some (0, reclaimed_logical_addr s, cpWritten,
        init_buf ((block_written (block_image data onlyVOTs prev (sequencing_buffer s)) p c s)\<lparr>valid_eus := v\<rparr>))"
    "eus_ok ((block_written (block_image data onlyVOTs prev (sequencing_buffer s)) p c s)\<lparr>valid_eus := v\<rparr>)"
proof -
  let ?B = "block_image data onlyVOTs prev (sequencing_buffer s)"
  have p: "nSegments s \<noteq> SEQ_SEGMENTS_COUNT" "is_eu_reserve s = 1" "reserve_eu_addr s = SEQ_PHY_ADDRESS_EMPTY"
    "plain_page (reclaimed_logical_addr s) s = Some p" "unit_fine p s" "page_ok p s" "main_area_writes s p = 0" "eus_ok s"
    using assms(1) by (simp_all add: open_page_def)
  define S where "S = block_written ?B p (setECC ?B) s"
  have off: "GET_RECLAIMED_OFFSET s < 1023" using assms(2) by (simp add: next_ready_def)
  have off': "GET_RECLAIMED_OFFSET S = GET_RECLAIMED_OFFSET s + 1" unfolding S_def by (rule block_written_offset [OF off])
  have nz: "GET_RECLAIMED_OFFSET S \<noteq> 0"
    unfolding off' using off by (auto simp: word_less_nat_alt word_unat_eq_iff unat_plus_u32)
  have fine: "CALC_OFFSET_IN_EU (GET_RECLAIMED_OFFSET S) \<noteq> 0 \<or> unit_fine (p + 1) S"
    using assms(2) block_image_spare(1) unfolding off'
    by (auto simp: next_ready_def S_def unit_fine_def eu_readable_def block_written_good)
  obtain v where v: "findNextFreePage cpWritten w 0 S = Some (0, cpWritten, S\<lparr>valid_eus := v\<rparr>)" "eus_ok (S\<lparr>valid_eus := v\<rparr>)"
    using findNextFreePage_ready [of S "p + 1" cpWritten w 0] block_written_next [OF assms(1,2)] nz fine p(1-3)
      block_written_eus_ok [of s ?B p "setECC ?B"] p(8) block_image_spare(1) by (auto simp: S_def)
  have ok: "page_ok p (s\<lparr>sequencing_buffer := d\<rparr>)" "main_area_writes (s\<lparr>sequencing_buffer := d\<rparr>) p = 0"
    "is_eu_reserve (s\<lparr>sequencing_buffer := d\<rparr>) \<noteq> 0" for d
    using p by (simp_all add: page_ok_def)
  have tgt: "calc_target_phy_addr (s\<lparr>sequencing_buffer := d\<rparr>) = Some p" for d
    by (rule target_of_plain) (use p plain_page_cong [of "s\<lparr>sequencing_buffer := d\<rparr>" s] in simp_all)
  have "allocAndWriteBlock log_addr (\<lambda>_ s. s) data onlyVOTs prev cpWritten w 0 s =
      Some (0, reclaimed_logical_addr s, cpWritten, init_buf (S\<lparr>valid_eus := v\<rparr>))"
    using v(1) assms(3) p(3) reclaimed_not_empty [OF p(4)]
    by (simp add: allocAndWriteBlock_def init_buf_def IS_NO_RESERVE_EUS_def p(2) tgt writeBlock_open [OF ok] not_reclamation [OF p(1)] Let_def
        S_def block_written_def block_image_def cong: if_cong)
  with v(2) show thesis by (intro that) (simp_all add: S_def)
qed

lemma init_buf_sel [simp]:
  "cells (init_buf s) = cells s" "rd_fail (init_buf s) = rd_fail s" "fps (init_buf s) = fps s"
  "valid_eus (init_buf s) = valid_eus s" "seg_to_slot_map (init_buf s) = seg_to_slot_map s"
  "nSegments (init_buf s) = nSegments s" "reclaimed_logical_addr (init_buf s) = reclaimed_logical_addr s"
  "new_slot_id (init_buf s) = new_slot_id s" "eus_ok (init_buf s) = eus_ok s" "eu_good p (init_buf s) = eu_good p s"
  "unit_fine p (init_buf s) = unit_fine p s"
  by (simp_all add: init_buf_def eus_ok_def eu_good_def unit_fine_def eu_readable_def)

text \<open>
  C5: a block written is the block read.  While the layer fills its first pass over the slots and
  the current page and the one after it are in order, \<open>allocAndWriteBlock\<close> succeeds, reports the current
  address, and reading that address gives back the 2048 bytes; the write changes one page of the
  chip, keeps the invariant of the unit cache, and moves the current address to the next page.
\<close>

theorem allocAndWriteBlock_round_trip:
  assumes "open_page p s" "next_ready p s" "is_flash_full s = Some False" "\<not> rd_fail s p"
  shows "\<exists>s' s'' d. allocAndWriteBlock log_addr (\<lambda>_ s. s) data onlyVOTs prev cpWritten w 0 s =
        Some (0, reclaimed_logical_addr s, cpWritten, s') \<and>
     readBlock (reclaimed_logical_addr s) old s' = Some (0, d, s'') \<and> (\<forall>i<2048. d i = data i) \<and>
     (\<forall>q. q \<noteq> p \<longrightarrow> cells s' q = cells s q) \<and> eus_ok s' \<and>
     GET_RECLAIMED_SEGMENT s' = GET_RECLAIMED_SEGMENT s \<and> GET_RECLAIMED_OFFSET s' = GET_RECLAIMED_OFFSET s + 1"
proof -
  let ?B = "block_image data onlyVOTs prev (sequencing_buffer s)"
  obtain c v where cv: "allocAndWriteBlock log_addr (\<lambda>_ s. s) data onlyVOTs prev cpWritten w 0 s =
      Some (0, reclaimed_logical_addr s, cpWritten, init_buf ((block_written ?B p c s)\<lparr>valid_eus := v\<rparr>))"
    "eus_ok ((block_written ?B p c s)\<lparr>valid_eus := v\<rparr>)"
    by (rule allocAndWriteBlock_open [OF assms(1-3)])
  define S where "S = init_buf ((block_written ?B p c s)\<lparr>valid_eus := v\<rparr>)"
  have p: "nSegments s \<noteq> SEQ_SEGMENTS_COUNT" "plain_page (reclaimed_logical_addr s) s = Some p" "unit_fine p s"
    using assms(1) by (simp_all add: open_page_def)
  have "plain_page (reclaimed_logical_addr s) S = Some p"
    unfolding p(2) [symmetric] S_def using p(1)
    by (simp add: block_written_plain [OF p(1), symmetric, of "reclaimed_logical_addr s" ?B p c])
      (simp add: plain_page_def not_reclamation GET_SEG_MAP_SLOT_FOR_SEG_def)
  moreover have "unit_fine p S"
    using p(3) block_image_spare(1) by (simp add: S_def unit_fine_def eu_readable_def block_written_good)
  moreover have "cells S p = written_page (cells s p) ?B" by (simp add: S_def)
  moreover have "eus_ok S" "rd_fail S = rd_fail s" using cv(2) by (simp_all add: S_def)
  ultimately obtain s'' where s'': "readBlock (reclaimed_logical_addr s) old S =
      Some (0, buf_copy old 0 (written_page (cells s p) ?B) 0 2048, s'')"
    using readBlock_plain [of "reclaimed_logical_addr s" S p old] written_page_sound assms(4) by auto
  have d: "\<forall>i<2048. buf_copy old 0 (written_page (cells s p) ?B) 0 2048 i = data i"
    by (simp add: written_page_byte block_image_data)
  have off: "GET_RECLAIMED_OFFSET s < 1023" using assms(2) by (simp add: next_ready_def)
  have "GET_RECLAIMED_OFFSET S = GET_RECLAIMED_OFFSET s + 1" "GET_RECLAIMED_SEGMENT S = GET_RECLAIMED_SEGMENT s"
    using block_written_offset [OF off, of ?B p c] block_written_sel(11) [of ?B p c s]
    by (simp_all add: S_def GET_RECLAIMED_OFFSET_def GET_RECLAIMED_SEGMENT_def)
  moreover have "\<forall>q. q \<noteq> p \<longrightarrow> cells S q = cells s q" by (simp add: S_def)
  ultimately show ?thesis
    using cv(1) s'' d \<open>eus_ok S\<close> unfolding S_def [symmetric] by blast
qed

text \<open>A layer that writes segment 3, in slot 5, at page 10.\<close>

definition writing_seq :: seq where
  "writing_seq = mapped_seq\<lparr>reclaimed_logical_addr := addr_3_10\<rparr>"

theorem allocAndWriteBlock_round_trip_witness:
  "\<exists>s' s'' d. allocAndWriteBlock init_logical_address (\<lambda>_ s. s) (\<lambda>i. of_nat i) False init_logical_address False (\<lambda>_ s. Some (0, s)) 0 writing_seq =
        Some (0, reclaimed_logical_addr writing_seq, False, s') \<and>
     readBlock (reclaimed_logical_addr writing_seq) (\<lambda>_. 0) s' = Some (0, d, s'') \<and> (\<forall>i<2048. d i = of_nat i) \<and>
     (\<forall>q. q \<noteq> 5130 \<longrightarrow> cells s' q = cells writing_seq q) \<and> eus_ok s' \<and>
     GET_RECLAIMED_SEGMENT s' = GET_RECLAIMED_SEGMENT writing_seq \<and>
     GET_RECLAIMED_OFFSET s' = GET_RECLAIMED_OFFSET writing_seq + 1"
proof (rule allocAndWriteBlock_round_trip)
  have page: "plain_page addr_3_10 writing_seq = Some 5130"
    using mapped_seq_page by (simp add: plain_page_def writing_seq_def mapped_seq_def IS_STATE_RECLAMATION_def GET_SEG_MAP_SLOT_FOR_SEG_def)
  show "open_page 5130 writing_seq"
    using page by (simp add: open_page_def writing_seq_def unit_fine_def page_ok_def eu_good_def eu_readable_def eus_ok_def mapped_seq_def)
  show "next_ready 5130 writing_seq"
    by (simp add: next_ready_def writing_seq_def GET_RECLAIMED_OFFSET_def CALC_OFFSET_IN_EU_def)
  show "is_flash_full writing_seq = Some False"
    by (simp add: is_flash_full_def upt_rec obs_byte_def writing_seq_def)
qed (simp add: writing_seq_def)

end
