(* ===== verification/Checkpoint.thy ===== *)
theory Checkpoint
  imports Segments
begin

text \<open>
  Finding the last written page and the last checkpoint at boot (\<^verbatim>\<open>sequencingUtils.c\<close>,
  \<open>findCheckpointAndTruncate\<close> of \<^verbatim>\<open>sequencing.c\<close>).  Loops whose bound is a 12-bit page offset
  have fuel above 4096; the searches inside an erase unit take a fixed number of turns.
\<close>

unbundle bit_operations_syntax

section \<open>The last written page\<close>

text \<open>The binary search of an erase unit: six turns over \<open>start\<close> and \<open>end\<close>.\<close>

fun last_page_search :: "nat \<Rightarrow> u32 \<Rightarrow> u32 \<Rightarrow> 'z seq_scheme \<Rightarrow> (u32 \<times> u32 \<times> 'z seq_scheme) option" where
  "last_page_search 0 start_p end_p s = Some (start_p, end_p, s)"
| "last_page_search (Suc n) start_p end_p s = do {
     let mid = drop_bit 1 (start_p + end_p);
     (e, s1) \<leftarrow> read_total mid s;
     if e \<noteq> 0 then last_page_search n start_p (mid - 1) s1
     else if IS_PAGE_USED (sequencing_buffer s1) 2048 then last_page_search n mid end_p s1
     else last_page_search n start_p mid s1
   }"

definition findLastValidPageInEU :: "u32 \<Rightarrow> 'z seq_scheme \<Rightarrow> (int \<times> u32 \<times> 'z seq_scheme) option" where
  "findLastValidPageInEU eu_start_addr s = do {
     (start_p, end_p, s1) \<leftarrow> last_page_search 6 eu_start_addr (eu_start_addr + 63) s;
     (_, s2) \<leftarrow> read_total end_p s1;
     Some (0, if IS_PAGE_USED (sequencing_buffer s2) 2048 then end_p else start_p, s2)
   }"

text \<open>\<open>isUsedEU\<close> replaces the caller's unit by its reserve unit when it is bad.\<close>

definition isUsedEU :: "buf \<Rightarrow> u32 \<Rightarrow> 'z seq_scheme \<Rightarrow> (bool \<times> u32 \<times> buf \<times> 'z seq_scheme) option" where
  "isUsedEU flags eu_phy_addr s = do {
     (ok, s1) \<leftarrow> seq_check_eu_status eu_phy_addr s;
     (a, flags1) \<leftarrow> (if ok then Some (eu_phy_addr, flags)
                     else logicalAddressToReservePhysical (initFlags flags 0) eu_phy_addr s1);
     if \<not> ok \<and> IS_PHY_ADDR_EMPTY a then Some (False, a, flags1, s1)
     else do {
       (e, s2) \<leftarrow> read_total a s1;
       Some (e = 0 \<and> IS_PAGE_USED (sequencing_buffer s2) 2048, a, flags1, s2)
     }
   }"

fun last_unit_search ::
  "nat \<Rightarrow> u32 \<Rightarrow> u32 \<Rightarrow> u32 \<Rightarrow> buf \<Rightarrow> 'z seq_scheme \<Rightarrow> (u32 \<times> u32 \<times> u32 \<times> buf \<times> 'z seq_scheme) option" where
  "last_unit_search 0 start_eu end_eu last_used_eu flags s = None"
| "last_unit_search (Suc n) start_eu end_eu last_used_eu flags s =
     (if \<not> end_eu - start_eu > 64 then Some (start_eu, end_eu, last_used_eu, flags, s)
      else do {
        let orig_mid_eu = CALC_EU_START (drop_bit 1 (start_eu + end_eu));
        (ok, s1) \<leftarrow> seq_check_eu_status orig_mid_eu s;
        if \<not> ok then do {
          (mid_eu, flags1) \<leftarrow> logicalAddressToReservePhysical (initFlags flags 0) orig_mid_eu s1;
          if IS_PHY_ADDR_EMPTY mid_eu then last_unit_search n start_eu orig_mid_eu last_used_eu flags1 s1
          else last_unit_search n orig_mid_eu end_eu mid_eu flags1 s1
        } else do {
          (e, s2) \<leftarrow> read_total orig_mid_eu s1;
          if e \<noteq> 0 then do {
            (e2, s3) \<leftarrow> nandErase orig_mid_eu s2;
            assert_c (e2 = 0);
            last_unit_search n start_eu orig_mid_eu last_used_eu flags s3
          }
          else if \<not> IS_PAGE_USED (sequencing_buffer s2) 2048
          then last_unit_search n start_eu orig_mid_eu last_used_eu flags s2
          else last_unit_search n orig_mid_eu end_eu orig_mid_eu flags s2
        }
      })"

definition findLastValidPageInSlot :: "u32 \<Rightarrow> 'z seq_scheme \<Rightarrow> (int \<times> u32 \<times> 'z seq_scheme) option" where
  "findLastValidPageInSlot slot_id s = do {
     let start0 = CALC_ADDRESS slot_id 0 0;
     (start_eu, end_eu, last_used_eu, flags, s1) \<leftarrow>
        last_unit_search 17 start0 (start0 + SEQ_PAGES_PER_SLOT - 64) start0 (junk s) s;
     (used, end1, flags1, s2) \<leftarrow> isUsedEU flags end_eu s1;
     (last1, s3) \<leftarrow> (if used then Some (end1, s2) else do {
        (used2, start1, _, s3) \<leftarrow> isUsedEU flags1 start_eu s2;
        Some (if used2 then start1 else last_used_eu, s3)
     });
     (e, lastValid, s4) \<leftarrow> findLastValidPageInEU last1 s3;
     Some (if e \<noteq> 0 then 1 else 0, lastValid, s4)
   }"

text \<open>\<open>getLastValidEuPage\<close> rounds the middle of its search down to the start of the erase unit.\<close>

fun eu_page_search :: "nat \<Rightarrow> u32 \<Rightarrow> u32 \<Rightarrow> u32 \<Rightarrow> 'z seq_scheme \<Rightarrow> (u32 \<times> 'z seq_scheme) option" where
  "eu_page_search 0 eu_phy_addr start_p end_p s = Some (end_p, s)"
| "eu_page_search (Suc n) eu_phy_addr start_p end_p s = do {
     let mid = CALC_EU_START (drop_bit 1 (start_p + end_p));
     (res, s1) \<leftarrow> read_total mid s;
     if res \<noteq> 0 then Some (if mid = eu_phy_addr then SEQ_FIRST_PHY_ADDRESS_EMPTY else mid - 1, s1)
     else if IS_PAGE_USED (sequencing_buffer s1) 2048 then eu_page_search n eu_phy_addr mid end_p s1
     else eu_page_search n eu_phy_addr start_p mid s1
   }"

definition getLastValidEuPage :: "u32 \<Rightarrow> 'z seq_scheme \<Rightarrow> (u32 \<times> 'z seq_scheme) option" where
  "getLastValidEuPage eu_phy_addr s = eu_page_search 6 eu_phy_addr eu_phy_addr (eu_phy_addr + 64 - 1) s"

section \<open>Finding the checkpoint\<close>

definition IS_CHECKPOINT_MORE_THAN_ONE_PAGE :: "nat \<Rightarrow> bool" where
  "IS_CHECKPOINT_MORE_THAN_ONE_PAGE nBytes = (1 + 272 + nBytes > 2048)"

text \<open>The result is the error, the flags buffer, the logical address where the search stopped and the state.\<close>

fun checkpoint_loop ::
  "nat \<Rightarrow> buf \<Rightarrow> logical_addr \<Rightarrow> bool \<Rightarrow> 'z seq_scheme \<Rightarrow> (int \<times> buf \<times> logical_addr \<times> 'z seq_scheme) option" where
  "checkpoint_loop 0 flags log_addr multi s = None"
| "checkpoint_loop (Suc n) flags log_addr multi s =
     (if \<not> GET_LOGICAL_OFFSET log_addr > 0 then Some (1, flags, log_addr, s)
      else do {
        (phy_addr, s1) \<leftarrow> logicalAddressToPhysical log_addr s;
        assert_c (\<not> IS_PHY_ADDR_EMPTY phy_addr);
        (_, flags1) \<leftarrow> nandReadPageFlags flags phy_addr s1;
        if (multi \<and> GET_CHECKPOINT_FLAG flags1 0 = 2) \<or> (\<not> multi \<and> GET_CHECKPOINT_FLAG flags1 0 = 0)
        then Some (0, flags1, log_addr,
               if isAddressReserve phy_addr s1
               then s1\<lparr>is_eu_reserve := 0, reserve_eu_addr := CALC_EU_START phy_addr\<rparr> else s1)
        else checkpoint_loop n flags1 (setLogicalOffset log_addr (GET_LOGICAL_OFFSET log_addr - 1)) multi s1
      })"

definition findCheckpointInSegment ::
  "buf \<Rightarrow> logical_addr \<Rightarrow> bool \<Rightarrow> 'z seq_scheme \<Rightarrow> (int \<times> buf \<times> logical_addr \<times> 'z seq_scheme) option" where
  "findCheckpointInSegment flags log_addr cp_more_than_one_page s =
     checkpoint_loop 4097 flags log_addr cp_more_than_one_page s"

fun checkpoint_start_loop ::
  "nat \<Rightarrow> buf \<Rightarrow> logical_addr \<Rightarrow> 'z seq_scheme \<Rightarrow> (buf \<times> logical_addr \<times> 'z seq_scheme) option" where
  "checkpoint_start_loop 0 flags log_addr s = None"
| "checkpoint_start_loop (Suc n) flags log_addr s = do {
     (a, s1) \<leftarrow> logicalAddressToPhysical log_addr s;
     (_, flags1) \<leftarrow> nandReadPageFlags flags a s1;
     if GET_CHECKPOINT_FLAG flags1 0 = 0 then Some (flags1, log_addr, s1)
     else (let la = setLogicalOffset log_addr (GET_LOGICAL_OFFSET log_addr - 1) in
       if GET_LOGICAL_OFFSET la > 0 then checkpoint_start_loop n flags1 la s1 else Some (flags1, la, s1))
   }"

definition findCheckpointStart :: "buf \<Rightarrow> logical_addr \<Rightarrow> 'z seq_scheme \<Rightarrow> (buf \<times> logical_addr \<times> 'z seq_scheme) option" where
  "findCheckpointStart flags log_addr s = checkpoint_start_loop 4097 flags log_addr s"

section \<open>Reading the checkpoint\<close>

text \<open>The byte-by-byte copy of one page of the checkpoint to the file system's data and to the counters.\<close>

fun checkpoint_bytes :: "nat \<Rightarrow> nat \<Rightarrow> nat \<Rightarrow> nat \<Rightarrow> nat \<Rightarrow> buf \<Rightarrow> 'z seq_scheme \<Rightarrow> (nat \<times> buf \<times> 'z seq_scheme) option" where
  "checkpoint_bytes 0 nBytes cp_total j i data s = None"
| "checkpoint_bytes (Suc n) nBytes cp_total j i data s = do {
     assert_c (i < nBytes \<or> i - nBytes < 272);
     let data1 = (if i < nBytes then data(i := sequencing_buffer s j) else data);
     let s1 = (if i < nBytes then s else s\<lparr>obs_mem := (obs_mem s)(i - nBytes := sequencing_buffer s j)\<rparr>);
     if j + 1 < 2048 \<and> i + 1 < cp_total then checkpoint_bytes n nBytes cp_total (j + 1) (i + 1) data1 s1
     else Some (i + 1, data1, s1)
   }"

fun checkpoint_pages ::
  "nat \<Rightarrow> nat \<Rightarrow> nat \<Rightarrow> nat \<Rightarrow> buf \<Rightarrow> logical_addr \<Rightarrow> 'z seq_scheme \<Rightarrow> (int \<times> buf \<times> logical_addr \<times> 'z seq_scheme) option" where
  "checkpoint_pages 0 nBytes cp_total i data log_addr s = None"
| "checkpoint_pages (Suc n) nBytes cp_total i data log_addr s =
     (if \<not> i < cp_total then Some (0, data, log_addr, s)
      else do {
        (a, s1) \<leftarrow> logicalAddressToPhysical log_addr s;
        (e, s2) \<leftarrow> read_total a s1;
        if e \<noteq> 0 then Some (1, data, log_addr, s2)
        else do {
          let la = setLogicalOffset log_addr (GET_LOGICAL_OFFSET log_addr + 1);
          if GET_CHECKPOINT_FLAG (sequencing_buffer s2) 2048 = 3
          then checkpoint_pages n nBytes cp_total i data la s2
          else do {
            (i1, data1, s3) \<leftarrow> checkpoint_bytes 2048 nBytes cp_total 0 i data s2;
            checkpoint_pages n nBytes cp_total i1 data1 la s3
          }
        }
      })"

definition readCheckpointToMemory ::
  "buf \<Rightarrow> nat \<Rightarrow> buf \<Rightarrow> logical_addr \<Rightarrow> 'z seq_scheme \<Rightarrow> (int \<times> buf \<times> buf \<times> logical_addr \<times> 'z seq_scheme) option" where
  "readCheckpointToMemory data nBytes flags log_addr s = do {
     (flags1, la, s1) \<leftarrow> (if IS_CHECKPOINT_MORE_THAN_ONE_PAGE nBytes then findCheckpointStart flags log_addr s
                          else Some (flags, log_addr, s));
     (e, data1, la1, s2) \<leftarrow> checkpoint_pages 1025 nBytes (272 + nBytes) 0 (fsMemset data 0 0xff nBytes) la s1;
     if e \<noteq> 0 then Some (1, data1, flags1, la1, s2)
     else do {
       assert_c (GET_CHECKPOINT_FLAG (sequencing_buffer s2) 2048 = 2 \<or> \<not> IS_CHECKPOINT_MORE_THAN_ONE_PAGE nBytes);
       Some (0, data1, flags1, la1, s2)
     }
   }"

section \<open>Truncation after the checkpoint\<close>

text \<open>The loop that erases every unit after the checkpoint's; it returns the last valid address.\<close>

fun erase_after_loop ::
  "nat \<Rightarrow> logical_addr \<Rightarrow> logical_addr \<Rightarrow> 'z seq_scheme \<Rightarrow> (int \<times> logical_addr \<times> 'z seq_scheme) option" where
  "erase_after_loop 0 last_valid log_addr s = None"
| "erase_after_loop (Suc n) last_valid log_addr s =
     (if IS_PAGES_IN_IDENTICAL_EU (GET_LOGICAL_OFFSET last_valid) (GET_LOGICAL_OFFSET log_addr)
      then Some (0, last_valid, s)
      else do {
        (a, s1) \<leftarrow> logicalAddressToPhysical last_valid s;
        (e, s2) \<leftarrow> nandErase a s1;
        if e \<noteq> 0 then Some (1, last_valid, s2)
        else do {
          let lv1 = setLogicalOffset last_valid (GET_LOGICAL_OFFSET last_valid - 64);
          let lv2 = setLogicalOffset lv1 (SEQ_SHIFT_PAGE_OFFSET_TO_EU_END (GET_LOGICAL_OFFSET lv1));
          erase_after_loop n lv2 log_addr (SET_RECLAIMED_OFFSET (GET_LOGICAL_OFFSET lv2 + 1) s2)
        }
      })"

text \<open>
  The return to the previous segment when the last one has no checkpoint: the truncation, the
  segment map, and the second search.  \<open>Inl e\<close> where the C function returns \<open>e\<close>.
\<close>

definition previous_segment ::
  "buf \<Rightarrow> logical_addr \<Rightarrow> bool \<Rightarrow> 'z seq_scheme \<Rightarrow> ((int + buf \<times> logical_addr \<times> logical_addr) \<times> 'z seq_scheme) option" where
  "previous_segment flags log_addr multi s = do {
     (_, s1) \<leftarrow> truncateCurrentSegment s;
     rec \<leftarrow> IS_STATE_RECLAMATION s1;
     let s2 = (if \<not> rec then s1\<lparr>nSegments := nSegments s1 - 1\<rparr> else s1);
     slot \<leftarrow> GET_SEG_MAP_SLOT_FOR_SEG (previously_written_segment s2) s2;
     let s3 = SET_RECLAIMED_SEGMENT (previously_written_segment s2) (s2\<lparr>new_slot_id := slot\<rparr>);
     let s4 = s3\<lparr>previously_written_segment := SEQ_NO_SEGMENT_NUM\<rparr>;
     if nSegments s4 = 0
     then Some (Inl 2, SET_RECLAIMED_SEGMENT SEQ_NO_SEGMENT_NUM (SET_RECLAIMED_OFFSET SEQ_NO_PAGE_OFFSET s4))
     else do {
       let ra = reclaimed_logical_addr s4;
       let s5 = s4\<lparr>reclaimed_logical_addr := ra\<lparr>byte0 := 0, byte1 := 4 OR (byte1 ra AND 0xf0)\<rparr>\<rparr>;
       let la = setLogicalOffset (setLogicalSegment log_addr (GET_RECLAIMED_SEGMENT s5)) (GET_RECLAIMED_OFFSET s5 - 1);
       (res, flags1, la1, s6) \<leftarrow> findCheckpointInSegment flags la multi s5;
       assert_c (res = 0);
       Some (Inr (flags1, la1, la), s6)
     }
   }"

definition pending_VOTs_after :: "u32 \<Rightarrow> logical_addr \<Rightarrow> 'z seq_scheme \<Rightarrow> bool" where
  "pending_VOTs_after cp_size log_addr s =
     (if GET_LOGICAL_OFFSET log_addr < SEQ_MAX_LOGICAL_OFFSET \<and> GET_LOGICAL_OFFSET log_addr > cp_size - 1 then False
      else if nSegments s = 1 \<and> GET_LOGICAL_OFFSET log_addr < SEQ_MAX_LOGICAL_OFFSET \<and>
              GET_LOGICAL_OFFSET log_addr = cp_size - 1 then False
      else True)"

text \<open>The part of the function from the moment the checkpoint's address \<open>log_addr\<close> is known.\<close>

definition truncate_and_read ::
  "buf \<Rightarrow> nat \<Rightarrow> u32 \<Rightarrow> buf \<Rightarrow> logical_addr \<Rightarrow> logical_addr \<Rightarrow> 'z seq_scheme \<Rightarrow> (int \<times> buf \<times> bool \<times> 'z seq_scheme) option" where
  "truncate_and_read data nBytes cp_size flags log_addr last_valid s = do {
     let pending = pending_VOTs_after cp_size log_addr s;
     (e, lv, s1) \<leftarrow> erase_after_loop 65 last_valid log_addr s;
     if e \<noteq> 0 then Some (1, data, pending, s1)
     else do {
       (e2, s2) \<leftarrow> (if GET_LOGICAL_OFFSET lv \<noteq> GET_LOGICAL_OFFSET log_addr then copyBackEU log_addr s1 else Some (0, s1));
       if e2 \<noteq> 0 then Some (1, data, pending, s2)
       else do {
         (e3, data1, _, _, s3) \<leftarrow> readCheckpointToMemory data nBytes flags log_addr
            (SET_RECLAIMED_OFFSET (GET_LOGICAL_OFFSET log_addr + 1) s2);
         if e3 \<noteq> 0 then Some (1, data1, pending, s3) else Some (0, data1, pending, init_buf s3)
       }
     }
   }"

definition findCheckpointAndTruncate :: "buf \<Rightarrow> nat \<Rightarrow> 'z seq_scheme \<Rightarrow> (int \<times> buf \<times> bool \<times> 'z seq_scheme) option" where
  "findCheckpointAndTruncate data nBytes s = do {
     let ra = reclaimed_logical_addr s;
     let last_valid_log_addr = setLogicalOffset ra (GET_LOGICAL_OFFSET ra - 1);
     let cp_more_than_one_page = IS_CHECKPOINT_MORE_THAN_ONE_PAGE nBytes;
     let last_valid_offset = GET_RECLAIMED_OFFSET s - 1;
     let cp_size = 1 + CALCULATE_IN_PAGES (of_nat (272 + nBytes));
     if GET_RECLAIMED_SEGMENT s = SEQ_NO_SEGMENT_NUM then Some (2, data, True, s)
     else if nSegments s = 1 \<and> last_valid_offset < cp_size - 1 then do {
       (_, s1) \<leftarrow> truncateCurrentSegment s;
       Some (2, data, False, s1)
     }
     else do {
       let log_addr = setLogicalOffset (setLogicalSegment init_logical_address (GET_RECLAIMED_SEGMENT s))
                        (GET_LOGICAL_OFFSET last_valid_log_addr);
       (res, flags, la, s1) \<leftarrow> findCheckpointInSegment (junk s) log_addr cp_more_than_one_page s;
       if res \<noteq> 0 then do {
         (r, s2) \<leftarrow> previous_segment flags la cp_more_than_one_page s1;
         case r of
           Inl e \<Rightarrow> Some (e, data, True, s2)
         | Inr (flags1, la1, lv) \<Rightarrow> truncate_and_read data nBytes cp_size flags1 la1 lv s2
       }
       else truncate_and_read data nBytes cp_size flags la last_valid_log_addr s1
     }
   }"

section \<open>The last page of an erase unit\<close>

text \<open>An erase unit whose first \<open>n\<close> pages are written, whose other pages are not, and that reads back without errors.\<close>

definition filled_unit :: "u32 \<Rightarrow> nat \<Rightarrow> 'z nand_scheme \<Rightarrow> bool" where
  "filled_unit eu n s = (CALC_EU_START eu = eu \<and> eu < NAND_PAGE_COUNT \<and> fps s \<and> 1 \<le> n \<and> n \<le> 64 \<and>
     (\<forall>k<64. \<not> rd_fail s (eu + of_nat k) \<and> page_sound (cells s (eu + of_nat k)) \<and>
        IS_PAGE_USED (cells s (eu + of_nat k)) 2048 = (k < n)))"

lemma filled_unit_read:
  assumes "filled_unit eu n s" "k < 64"
  shows "read_total (eu + of_nat k) (s\<lparr>sequencing_buffer := b\<rparr>) =
    Some (0, s\<lparr>sequencing_buffer := buf_copy b 0 (cells s (eu + of_nat k)) 0 NAND_TOTAL_SIZE\<rparr>)"
  using assms read_total_sound [of "eu + of_nat k" "s\<lparr>sequencing_buffer := b\<rparr>"] unit_page [of eu k]
  by (simp add: filled_unit_def)

lemma mid_page:
  assumes "CALC_EU_START eu = eu" "eu < NAND_PAGE_COUNT" "a < 64" "b < 64"
  shows "drop_bit 1 (eu + of_nat a + (eu + of_nat b)) = eu + of_nat ((a + b) div 2)"
proof -
  have m: "(a + b) div 2 < 64" using assms by simp
  have e: "unat eu < 524288" using assms(2) by (simp add: word_less_nat_alt)
  have "unat (eu + of_nat a + (eu + of_nat b)) = 2 * unat eu + (a + b)"
    unfolding unat_plus_u32 [of "eu + of_nat a"] unit_page(1) [OF assms(1,2,3)] unit_page(1) [OF assms(1,2,4)]
    using assms(3,4) e by simp
  then have "unat (drop_bit 1 (eu + of_nat a + (eu + of_nat b))) = unat eu + (a + b) div 2"
    by (simp only: unat_drop_bit_u32) simp
  then show ?thesis using unit_page(1) [OF assms(1,2) m] by (simp add: word_unat_eq_iff)
qed

lemma last_page_search_ok:
  assumes "filled_unit eu n s" "a < n" "n \<le> Suc b" "a \<le> b" "b < 64" "b - a \<le> 2 ^ m"
  shows "\<exists>a' b' c. last_page_search m (eu + of_nat a) (eu + of_nat b) (s\<lparr>sequencing_buffer := d\<rparr>) =
      Some (eu + of_nat a', eu + of_nat b', s\<lparr>sequencing_buffer := c\<rparr>) \<and>
    a' < n \<and> n \<le> Suc b' \<and> a' \<le> b' \<and> b' < 64 \<and> b' - a' \<le> 1"
  using assms(2-)
proof (induction m arbitrary: a b d)
  case (Suc m)
  let ?k = "(a + b) div 2"
  have eu: "CALC_EU_START eu = eu" "eu < NAND_PAGE_COUNT" and k: "?k < 64" "a < 64" "b < 64"
    using assms(1) Suc.prems by (simp_all add: filled_unit_def)
  note mid = mid_page [OF eu k(2,3)]
  let ?c = "buf_copy d 0 (cells s (eu + of_nat ?k)) 0 NAND_TOTAL_SIZE"
  have used: "IS_PAGE_USED (cells s (eu + of_nat ?k)) 2048 = (?k < n)"
    using assms(1) k(1) by (simp add: filled_unit_def)
  have step: "last_page_search (Suc m) (eu + of_nat a) (eu + of_nat b) (s\<lparr>sequencing_buffer := d\<rparr>) =
    (if ?k < n then last_page_search m (eu + of_nat ?k) (eu + of_nat b) (s\<lparr>sequencing_buffer := ?c\<rparr>)
     else last_page_search m (eu + of_nat a) (eu + of_nat ?k) (s\<lparr>sequencing_buffer := ?c\<rparr>))"
    unfolding last_page_search.simps Let_def mid filled_unit_read [OF assms(1) k(1)] bind.bind_lunit prod.case
    by (simp add: used)
  have half: "b - ?k \<le> 2 ^ m" "?k - a \<le> 2 ^ m" "a \<le> ?k" "?k \<le> b"
    using Suc.prems by auto
  show ?case
  proof (cases "?k < n")
    case True
    then show ?thesis unfolding step using Suc.IH [of ?k b ?c] Suc.prems half by simp
  next
    case False
    then show ?thesis unfolding step using Suc.IH [of a ?k ?c] Suc.prems half k(1) by simp
  qed
next
  case 0
  then show ?case by (intro exI [of _ a] exI [of _ b] exI [of _ d]) simp
qed

text \<open>
  C19: the binary search finds the last page.  In an erase unit that reads back without errors and
  whose first \<open>n\<close> pages, at least one of the 64, are written and no other, six halvings suffice:
  the function returns the address of page \<open>n - 1\<close> and changes nothing but the page buffer.
\<close>

theorem findLastValidPageInEU_last:
  assumes "filled_unit eu n s"
  shows "\<exists>b. findLastValidPageInEU eu s = Some (0, eu + of_nat (n - 1), s\<lparr>sequencing_buffer := b\<rparr>)"
proof -
  have n: "1 \<le> n" "n \<le> 64" using assms by (simp_all add: filled_unit_def)
  obtain a b c where ab: "last_page_search 6 (eu + of_nat 0) (eu + of_nat 63) (s\<lparr>sequencing_buffer := sequencing_buffer s\<rparr>) =
      Some (eu + of_nat a, eu + of_nat b, s\<lparr>sequencing_buffer := c\<rparr>)"
    "a < n" "n \<le> Suc b" "a \<le> b" "b < 64" "b - a \<le> 1"
    using last_page_search_ok [OF assms, of 0 63 6 "sequencing_buffer s"] n by auto
  let ?d = "buf_copy c 0 (cells s (eu + of_nat b)) 0 NAND_TOTAL_SIZE"
  have used: "IS_PAGE_USED (cells s (eu + of_nat b)) 2048 = (b < n)" using assms ab(5) by (simp add: filled_unit_def)
  have res: "(if b < n then b else a) = n - 1" using ab by auto
  have "findLastValidPageInEU eu s = Some (0, if b < n then eu + of_nat b else eu + of_nat a, s\<lparr>sequencing_buffer := ?d\<rparr>)"
    using ab(1) filled_unit_read [OF assms ab(5), of c] used by (simp add: findLastValidPageInEU_def)
  then show ?thesis unfolding res [symmetric] by auto
qed

theorem findLastValidPageInEU_last_witness:
  "\<exists>b. findLastValidPageInEU 128 three_pages = Some (0, 130, three_pages\<lparr>sequencing_buffer := b\<rparr>)"
proof -
  have u: "IS_PAGE_USED (cells three_pages (128 + of_nat k)) 2048 = (k < 3)" if "k < 64" for k
  proof -
    have "unat (128 + of_nat k :: u32) = 128 + k" using that by (simp add: unat_plus_u32 unat_of_nat)
    then have "(128 \<le> (128 + of_nat k :: u32) \<and> 128 + of_nat k < (131 :: u32)) = (k < 3)"
      by (auto simp: word_le_nat_alt word_less_nat_alt)
    then show ?thesis
      by (simp add: three_pages_def IS_PAGE_USED_def GET_SEG_TYPE_FLAG_def GET_BIT_bit bit_numeral_word_iff)
  qed
  have "filled_unit 128 3 three_pages"
    unfolding filled_unit_def using three_pages_sound u by (simp add: CALC_EU_START_def three_pages_def)
  then show ?thesis using findLastValidPageInEU_last [of 128 3 three_pages] by simp
qed

end
