(* ===== verification/Boot.thy ===== *)
theory Boot
  imports Checkpoint
begin

text \<open>
  Booting: the scan of all slots that rebuilds the segment map, the completion of what a crash
  interrupted, and \<open>sequencingBooting\<close> (\<^verbatim>\<open>sequencingUtils.c\<close>, \<^verbatim>\<open>sequencing.c\<close>).
\<close>

unbundle bit_operations_syntax

section \<open>Reserve segments\<close>

text \<open>The walk down to a good erase unit.\<close>

fun prev_good :: "nat \<Rightarrow> u32 \<Rightarrow> 'z seq_scheme \<Rightarrow> (u32 \<times> 'z seq_scheme) option" where
  "prev_good 0 phy_addr s = None"
| "prev_good (Suc n) phy_addr s = do {
     (ok, s1) \<leftarrow> seq_check_eu_status phy_addr s;
     if ok then Some (phy_addr, s1) else prev_good n (phy_addr - 64) s1
   }"

text \<open>The comparison of two copies of a reserve slot, from the end: whether the first one is kept.\<close>

fun double_loop :: "nat \<Rightarrow> u32 \<Rightarrow> u32 \<Rightarrow> 'z seq_scheme \<Rightarrow> (bool \<times> 'z seq_scheme) option" where
  "double_loop 0 phy_addr1 phy_addr2 s = None"
| "double_loop (Suc n) phy_addr1 phy_addr2 s = do {
     (a1, s1) \<leftarrow> prev_good 8193 phy_addr1 s;
     (a2, s2) \<leftarrow> prev_good 8193 phy_addr2 s1;
     (_, s3) \<leftarrow> read_total a1 s2;
     let is_used1 = IS_PAGE_USED (sequencing_buffer s3) 2048;
     (_, s4) \<leftarrow> read_total a2 s3;
     let is_used2 = IS_PAGE_USED (sequencing_buffer s4) 2048;
     if \<not> is_used1 \<and> \<not> is_used2 then double_loop n (a1 - 64) (a2 - 64) s4
     else if is_used1 = is_used2 then do {
       (res1, s5) \<leftarrow> getLastValidEuPage a1 s4;
       (res2, s6) \<leftarrow> getLastValidEuPage a2 s5;
       Some (res1 \<ge> res2 \<or> IS_PHY_ADDR_EMPTY res2, s6)
     } else Some (is_used1, s4)
   }"

definition handleDoubleReserveSlot :: "u32 \<Rightarrow> u32 \<Rightarrow> u32 \<Rightarrow> 'z seq_scheme \<Rightarrow> (int \<times> 'z seq_scheme) option" where
  "handleDoubleReserveSlot seg_id slot_id1 slot_id2 s = do {
     (keep1, s1) \<leftarrow> double_loop 8193 (CALC_ADDRESS (slot_id1 + 1) 0 0 - 64) (CALC_ADDRESS (slot_id2 + 1) 0 0 - 64) s;
     if keep1 then do {
       (e, s2) \<leftarrow> truncateSlot slot_id2 True (s1\<lparr>new_slot_id := slot_id2\<rparr>);
       Some (if e \<noteq> 0 then 1 else 0, s2)
     } else do {
       s2 \<leftarrow> SET_SEG_MAP_SLOT_FOR_SEG seg_id slot_id2 (s1\<lparr>new_slot_id := slot_id1\<rparr>);
       (e, s3) \<leftarrow> truncateSlot slot_id1 True s2;
       Some (if e \<noteq> 0 then 1 else 0, s3)
     }
   }"

fun reserves_empty_loop :: "nat \<Rightarrow> u32 \<Rightarrow> 'z seq_scheme \<Rightarrow> (int \<times> 'z seq_scheme) option" where
  "reserves_empty_loop 0 i s = None"
| "reserves_empty_loop (Suc n) i s =
     (if \<not> i < SEQ_N_SLOTS_COUNT then Some (0, s)
      else do {
        slot \<leftarrow> GET_SEG_MAP_SLOT_FOR_SEG i s;
        if slot \<noteq> SEQ_NO_SLOT then reserves_empty_loop n (i + 1) s
        else do {
          (first_valid_eu, s1) \<leftarrow> get_valid_eu_addr_in_location i 1 s;
          (e, s2) \<leftarrow> writeReserveSegmentHeader first_valid_eu s1;
          if e \<noteq> 0 then Some (1, s2)
          else do {
            s3 \<leftarrow> SET_SEG_MAP_SLOT_FOR_SEG (GET_SLOT first_valid_eu) i s2;
            reserves_empty_loop n i s3
          }
        }
      })"

definition handleReservesAreEmpty :: "'z seq_scheme \<Rightarrow> (int \<times> 'z seq_scheme) option" where
  "handleReservesAreEmpty s = reserves_empty_loop 5 SEQ_FIRST_RESERVE_SEGMENT s"

text \<open>
  The scan for reserve segments.  The result is the error, \<open>*badFirstEU\<close>, \<open>*doublyAllocatedSegment\<close>,
  \<open>*secondSlot\<close> and the state.
\<close>

fun reserve_scan ::
  "u32 list \<Rightarrow> bool \<Rightarrow> u32 \<Rightarrow> u32 \<Rightarrow> 'z seq_scheme \<Rightarrow> (int \<times> bool \<times> u32 \<times> u32 \<times> 'z seq_scheme) option" where
  "reserve_scan [] bad doubly second s = Some (0, bad, doubly, second, s)"
| "reserve_scan (slot_id # slots) bad doubly second s = do {
     (first_valid_eu, s1) \<leftarrow> get_valid_eu_addr_in_location slot_id 1 s;
     if IS_PHY_ADDR_EMPTY first_valid_eu then reserve_scan slots bad doubly second s1
     else do {
       let bad1 = (bad \<or> \<not> IS_FIRST_IN_SLOT first_valid_eu);
       (e, s2) \<leftarrow> read_total first_valid_eu s1;
       if e \<noteq> 0 then do {
         (e2, s3) \<leftarrow> nandErase first_valid_eu s2;
         if e2 \<noteq> 0 then Some (1, bad1, doubly, second, s3) else reserve_scan slots bad1 doubly second s3
       }
       else if GET_SEG_TYPE_FLAG (sequencing_buffer s2) 2048 = 7 then do {
         (_, s3) \<leftarrow> nandErase first_valid_eu s2;
         reserve_scan slots bad1 doubly second s3
       }
       else if GET_SEG_TYPE_FLAG (sequencing_buffer s2) 2048 \<noteq> 0 then reserve_scan slots bad1 doubly second s2
       else do {
         let seg_id = ucast (GET_HEADER_SEGMENT_ID (sequencing_buffer s2));
         slot \<leftarrow> GET_SEG_MAP_SLOT_FOR_SEG seg_id s2;
         if slot \<noteq> SEQ_NO_SLOT then reserve_scan slots bad1 seg_id slot_id s2
         else do {
           s3 \<leftarrow> SET_SEG_MAP_SLOT_FOR_SEG seg_id slot_id s2;
           let s4 = (if GET_HEADER_SEQUENCE_NUM (sequencing_buffer s3) > sequence_num s3
                     then s3\<lparr>sequence_num := sequence_num s3\<rparr> else s3);
           reserve_scan slots bad1 doubly second s4
         }
       }
     }
   }"

definition handleReserveSegments ::
  "bool \<Rightarrow> u32 \<Rightarrow> u32 \<Rightarrow> 'z seq_scheme \<Rightarrow> (int \<times> bool \<times> u32 \<times> u32 \<times> 'z seq_scheme) option" where
  "handleReserveSegments badFirstEU doublyAllocatedSegment secondSlot s = do {
     (e, bad, doubly, second, s1) \<leftarrow>
        reserve_scan (map of_nat [0..<512]) badFirstEU doublyAllocatedSegment secondSlot s;
     if e \<noteq> 0 then Some (1, bad, doubly, second, s1)
     else if countSegments True s1 < SEQ_K_RESERVE_SLOTS then do {
       (e2, s2) \<leftarrow> handleReservesAreEmpty s1;
       Some (if e2 \<noteq> 0 then 1 else 0, bad, doubly, second, s2)
     } else Some (0, bad, doubly, second, s1)
   }"

section \<open>Data segments\<close>

definition verifyCompleteSegmentHeader :: "u32 \<Rightarrow> nat \<Rightarrow> 'z seq_scheme \<Rightarrow> (bool \<times> 'z seq_scheme) option" where
  "verifyCompleteSegmentHeader header_phy_addr nBytes s = do {
     (e, s1) \<leftarrow> read_total (header_phy_addr + CALCULATE_IN_PAGES (of_nat (272 + nBytes))) (init_buf s);
     if e \<noteq> 0 \<or> GET_CHECKPOINT_FLAG (sequencing_buffer s1) 2048 = 3 then do {
       (_, s2) \<leftarrow> nandErase header_phy_addr s1;
       Some (False, s2)
     } else Some (True, s1)
   }"

text \<open>A second copy with the sequence number of the first: a crash in wear leveling.\<close>

definition drop_shorter_copy :: "u32 \<Rightarrow> u32 \<Rightarrow> u32 \<Rightarrow> 'z seq_scheme \<Rightarrow> (int \<times> 'z seq_scheme) option" where
  "drop_shorter_copy seg_id slot_id old_slot s = do {
     (e1, lastValid1, s1) \<leftarrow> findLastValidPageInSlot old_slot s;
     assert_c (e1 = 0);
     (e2, lastValid2, s2) \<leftarrow> findLastValidPageInSlot slot_id s1;
     assert_c (e2 = 0);
     if CALC_OFFSET_IN_SLOT lastValid1 > CALC_OFFSET_IN_SLOT lastValid2 then do {
       (e, s3) \<leftarrow> truncateSlot slot_id (seg_id \<ge> SEQ_FIRST_RESERVE_SEGMENT) s2;
       Some (if e \<noteq> 0 then 1 else 0, s3)
     } else do {
       s3 \<leftarrow> SET_SEG_MAP_SLOT_FOR_SEG seg_id slot_id s2;
       (e, s4) \<leftarrow> truncateSlot old_slot (seg_id \<ge> SEQ_FIRST_RESERVE_SEGMENT) s3;
       Some (if e \<noteq> 0 then 1 else 0, s4)
     }
   }"

text \<open>Two generations of a segment in reclamation; \<open>header_num\<close> is the sequence number of the copy in the map.\<close>

definition mark_generations :: "u32 \<Rightarrow> u32 \<Rightarrow> u32 \<Rightarrow> u32 \<Rightarrow> u64 \<Rightarrow> 'z seq_scheme \<Rightarrow> (int \<times> 'z seq_scheme) option" where
  "mark_generations seg_id slot_id old_slot seq_num header_num s = do {
     let s1 = SET_RECLAIMED_SEGMENT seg_id (s\<lparr>previously_written_segment := GET_RECLAIMED_SEGMENT s\<rparr>);
     s2 \<leftarrow> (if header_num > ucast seq_num
            then SET_SEGMENT_TO_SLOT seg_id slot_id (s1\<lparr>new_slot_id := old_slot, sequence_num := header_num\<rparr>)
            else Some (s1\<lparr>new_slot_id := slot_id, sequence_num := ucast seq_num\<rparr>));
     (e, lastValid1, s3) \<leftarrow> findLastValidPageInSlot (new_slot_id s2) s2;
     assert_c (e = 0);
     if CALC_OFFSET_IN_SLOT lastValid1 = SEQ_MAX_LOGICAL_OFFSET then do {
       slot \<leftarrow> GET_SEG_MAP_SLOT_FOR_SEG seg_id s3;
       (e2, s4) \<leftarrow> truncateSlot slot False s3;
       if e2 \<noteq> 0 then Some (1, s4)
       else do { s5 \<leftarrow> SET_SEGMENT_TO_SLOT seg_id slot_id s4; Some (0, s5) }
     } else Some (0, s3)
   }"

text \<open>The C function keeps the header's 64-bit sequence number in a 32-bit variable.\<close>

definition markSegmentInSegMap :: "u32 \<Rightarrow> u32 \<Rightarrow> nat \<Rightarrow> 'z seq_scheme \<Rightarrow> (int \<times> 'z seq_scheme) option" where
  "markSegmentInSegMap header_phy_addr slot_id nBytes s = do {
     let seg_id = ucast (GET_HEADER_SEGMENT_ID (sequencing_buffer s));
     let seq_num = (ucast (GET_HEADER_SEQUENCE_NUM (sequencing_buffer s)) :: u32);
     (complete, s1) \<leftarrow> verifyCompleteSegmentHeader header_phy_addr nBytes s;
     if \<not> complete then Some (0, s1)
     else do {
       old_slot \<leftarrow> GET_SEG_MAP_SLOT_FOR_SEG seg_id s1;
       if old_slot = SEQ_NO_SLOT then do {
         s2 \<leftarrow> SET_SEG_MAP_SLOT_FOR_SEG slot_id seg_id (s1\<lparr>nSegments := nSegments s1 + 1\<rparr>);
         Some (0, if ucast seq_num > sequence_num s2 \<or> sequence_num s2 = 0xffffffffffffffff
                  then SET_RECLAIMED_SEGMENT seg_id
                         (s2\<lparr>sequence_num := ucast seq_num, previously_written_segment := GET_RECLAIMED_SEGMENT s2,
                            new_slot_id := slot_id\<rparr>)
                  else s2)
       }
       else if slot_id = old_slot then Some (0, s1)
       else do {
         let log_addr = setLogicalSegment (setLogicalOffset init_logical_address 0) seg_id;
         (res, s2) \<leftarrow> logicalAddressToPhysical log_addr s1;
         assert_c (\<not> IS_PHY_ADDR_EMPTY res);
         (_, s3) \<leftarrow> read_total res s2;
         let header_num = GET_HEADER_SEQUENCE_NUM (sequencing_buffer s3);
         if header_num = ucast seq_num then drop_shorter_copy seg_id slot_id old_slot s3
         else mark_generations seg_id slot_id old_slot seq_num header_num s3
       }
     }
   }"

fun regular_scan :: "u32 list \<Rightarrow> nat \<Rightarrow> buf \<Rightarrow> 'z seq_scheme \<Rightarrow> (int \<times> 'z seq_scheme) option" where
  "regular_scan [] nBytes flags s = Some (0, s)"
| "regular_scan (slot_id # slots) nBytes flags s = do {
     let phy_addr0 = CALC_ADDRESS slot_id 0 0;
     (first_valid_eu, s1) \<leftarrow> get_valid_eu_addr_in_location slot_id 1 s;
     assert_c (\<not> IS_PHY_ADDR_EMPTY first_valid_eu);
     (e, s2) \<leftarrow> read_total phy_addr0 s1;
     if e \<noteq> 0 then Some (1, s2)
     else if GET_SEG_TYPE_FLAG (sequencing_buffer s2) 2048 = 0 then regular_scan slots nBytes flags s2
     else do {
       (ok, s3) \<leftarrow> seq_check_eu_status phy_addr0 s2;
       (phy_addr, flags1) \<leftarrow> (if ok then Some (phy_addr0, flags)
                             else logicalAddressToReservePhysical (initFlags flags 0) phy_addr0 s3);
       if IS_PHY_ADDR_EMPTY phy_addr then regular_scan slots nBytes flags1 s3
       else do {
         (res, s4) \<leftarrow> read_total phy_addr s3;
         if res \<noteq> 0 then do {
           (_, s5) \<leftarrow> nandErase phy_addr s4;
           (_, s6) \<leftarrow> markEuAsBad phy_addr s5;
           regular_scan slots nBytes flags1 s6
         }
         else if \<not> IS_PAGE_USED (sequencing_buffer s4) 2048 then do {
           (_, s5) \<leftarrow> nandErase phy_addr s4;
           regular_scan slots nBytes flags1 s5
         }
         else do {
           (e2, s5) \<leftarrow> markSegmentInSegMap phy_addr slot_id nBytes s4;
           if e2 \<noteq> 0 then Some (1, s5) else regular_scan slots nBytes flags1 s5
         }
       }
     }
   }"

definition handleRegularSegments :: "nat \<Rightarrow> 'z seq_scheme \<Rightarrow> (int \<times> 'z seq_scheme) option" where
  "handleRegularSegments nBytes s = regular_scan (map of_nat [0..<512]) nBytes (junk s) (s\<lparr>nSegments := 0\<rparr>)"

section \<open>An interrupted copy-back\<close>

definition redo_copy_back :: "u32 \<Rightarrow> u32 \<Rightarrow> bool \<Rightarrow> u32 \<Rightarrow> 'z seq_scheme \<Rightarrow> (int \<times> 'z seq_scheme) option" where
  "redo_copy_back cb_eu_phy_addr target check_erase real_org s = do {
     (e, s1) \<leftarrow> nandErase cb_eu_phy_addr s;
     (_, s2) \<leftarrow> (if e \<noteq> 0 then markEuAsBad cb_eu_phy_addr s1 else Some (0, s1));
     (cb, s3) \<leftarrow> GET_COPYBACK_EU s2;
     (e2, s4) \<leftarrow> nandErase cb s3;
     if check_erase \<and> e2 \<noteq> 0 then Some (1, s4) else copyBackSimple cb target False real_org s4
   }"

definition handleCopyBackSpecial :: "u32 \<Rightarrow> u32 \<Rightarrow> 'z seq_scheme \<Rightarrow> (int \<times> 'z seq_scheme) option" where
  "handleCopyBackSpecial org_phy_addr cb_eu_phy_addr s = do {
     (reserve_phy_addr, flags) \<leftarrow> logicalAddressToReservePhysical (junk s) org_phy_addr s;
     (last_cb, s1) \<leftarrow> getLastValidEuPage cb_eu_phy_addr s;
     let offset_in_cb = CALC_OFFSET_IN_EU last_cb;
     if IS_PHY_ADDR_EMPTY reserve_phy_addr then do {
       (e, s2) \<leftarrow> erasePossibleEUReplacement org_phy_addr s1;
       if e \<noteq> 0 then Some (1, s2)
       else do {
         (a, _, s3) \<leftarrow> allocReserveEU flags org_phy_addr s2;
         if IS_PHY_ADDR_EMPTY a then Some (1, s3)
         else copyBackSimple cb_eu_phy_addr (a + offset_in_cb) True org_phy_addr s3
       }
     } else do {
       (last_org, s2) \<leftarrow> getLastValidEuPage reserve_phy_addr s1;
       let offset_in_org = CALC_OFFSET_IN_EU last_org;
       if IS_ADDRESS_ERROR offset_in_cb \<or> offset_in_org > offset_in_cb
       then redo_copy_back cb_eu_phy_addr (reserve_phy_addr + offset_in_org) False org_phy_addr s2
       else copyBackSimple cb_eu_phy_addr (reserve_phy_addr + offset_in_cb) True org_phy_addr s2
     }
   }"

text \<open>The result is the error, \<open>*copyBackHandled\<close> and the state.\<close>

definition handleCopyBack :: "bool \<Rightarrow> 'z seq_scheme \<Rightarrow> (int \<times> bool \<times> 'z seq_scheme) option" where
  "handleCopyBack copyBackHandled s = do {
     (cb_eu_phy_addr, s1) \<leftarrow> GET_COPYBACK_EU s;
     assert_c (\<not> IS_PHY_ADDR_EMPTY cb_eu_phy_addr);
     (e, s2) \<leftarrow> read_total cb_eu_phy_addr s1;
     if e \<noteq> 0 then Some (1, copyBackHandled, s2)
     else if GET_COPY_BACK_FLAG (sequencing_buffer s2) 2048 = 1 then Some (0, copyBackHandled, s2)
     else do {
       let org_phy_addr = EXTRACT_ADDR_FROM_SLOT_ID_AND_EU_OFFSET (GET_SLOT_EU_OFFSET (sequencing_buffer s2) 2048);
       (ok, s3) \<leftarrow> seq_check_eu_status org_phy_addr s2;
       if \<not> ok then do {
         (e2, s4) \<leftarrow> handleCopyBackSpecial org_phy_addr cb_eu_phy_addr s3;
         Some (e2, True, s4)
       } else do {
         (last_org, s4) \<leftarrow> getLastValidEuPage org_phy_addr s3;
         let offset_in_org = CALC_OFFSET_IN_EU last_org;
         (last_cb, s5) \<leftarrow> getLastValidEuPage cb_eu_phy_addr s4;
         let offset_in_cb = CALC_OFFSET_IN_EU last_cb;
         if IS_ADDRESS_ERROR offset_in_cb \<or> offset_in_org > offset_in_cb then do {
           (e2, s6) \<leftarrow> redo_copy_back cb_eu_phy_addr (org_phy_addr + offset_in_org) True SEQ_PHY_ADDRESS_EMPTY s5;
           Some (e2, True, s6)
         } else do {
           (e2, s6) \<leftarrow> nandErase org_phy_addr s5;
           if e2 \<noteq> 0 then Some (1, True, s6)
           else do {
             (e3, s7) \<leftarrow> copyBackSimple cb_eu_phy_addr (org_phy_addr + offset_in_cb) True SEQ_PHY_ADDRESS_EMPTY s6;
             Some (e3, True, s7)
           }
         }
       }
     }
   }"

section \<open>First boot and bad programs\<close>

definition handleFlashIsEmpty ::
  "(bool \<Rightarrow> 'z seq_scheme \<Rightarrow> (int \<times> 'z seq_scheme) option) \<Rightarrow> 'z seq_scheme \<Rightarrow> (int \<times> 'z seq_scheme) option" where
  "handleFlashIsEmpty cp_write_p s = do {
     s1 \<leftarrow> SET_SEGMENT_TO_SLOT 0 0 (s\<lparr>new_slot_id := 0\<rparr>);
     (ok, s2) \<leftarrow> seq_check_eu_status 0 (SET_RECLAIMED_SEGMENT 0 (SET_RECLAIMED_OFFSET 0 s1));
     (last_valid, s3) \<leftarrow> (if ok then Some (0, s2) else do {
        (a, _, s3) \<leftarrow> allocReserveEU (junk s2) 0 s2;
        assert_c (\<not> IS_PHY_ADDR_EMPTY a);
        Some (a, s3\<lparr>reserve_eu_addr := a, is_eu_reserve := 0\<rparr>)
     });
     (e, s4) \<leftarrow> nandErase last_valid s3;
     if e \<noteq> 0 then Some (1, s4)
     else do {
       (e2, s5) \<leftarrow> writeSegmentHeader cp_write_p s4;
       if e2 \<noteq> 0 then Some (1, s5) else Some (0, s5\<lparr>nSegments := nSegments s5 + 1\<rparr>)
     }
   }"

definition erase_first_eu :: "u32 \<Rightarrow> 'z seq_scheme \<Rightarrow> (int \<times> 'z seq_scheme) option" where
  "erase_first_eu slot_id s = do {
     let phy_addr = CALC_ADDRESS slot_id 0 0;
     (ok, s1) \<leftarrow> seq_check_eu_status phy_addr s;
     (e, s2) \<leftarrow> (if ok then nandErase phy_addr s1 else erasePossibleEUReplacement phy_addr s1);
     Some (if e \<noteq> 0 then 1 else 0, s2)
   }"

definition erasePossibleNextFirstEU :: "'z seq_scheme \<Rightarrow> (int \<times> 'z seq_scheme) option" where
  "erasePossibleNextFirstEU s =
     (if \<not> ALL_SEGMENTS_ALLOCATED s then erase_first_eu (findFirstEmptySlot s) s
      else do {
        rec \<leftarrow> IS_STATE_RECLAMATION s;
        if rec then Some (0, s)
        else if findEmptySlot s = SEQ_NO_SLOT then Some (1, s)
        else erase_first_eu (findEmptySlot s) s
      })"

definition returnToPrevSeg :: "'z seq_scheme \<Rightarrow> 'z seq_scheme option" where
  "returnToPrevSeg s = do {
     rec \<leftarrow> IS_STATE_RECLAMATION s;
     let s1 = (if \<not> rec then s\<lparr>nSegments := nSegments s - 1\<rparr> else s);
     Some (SET_RECLAIMED_SEGMENT SEQ_MAX_LOGICAL_OFFSET (SET_RECLAIMED_SEGMENT (previously_written_segment s1) s1))
   }"

definition handleInvalidPrograms :: "u32 \<Rightarrow> u32 \<Rightarrow> 'z seq_scheme \<Rightarrow> (int \<times> 'z seq_scheme) option" where
  "handleInvalidPrograms last_valid cp_pages_size s = do {
     let s1 = INCREMENT_RECLAIMED_OFFSET s;
     if \<not> IS_SEG_MAP_PAGE_OFFSET_OVERFLOWING s1 \<and> \<not> IS_EU_START (GET_RECLAIMED_OFFSET s1) then do {
       (e, s2) \<leftarrow> copyBackEU (reclaimed_logical_addr s1) s1;
       if e \<noteq> 0 then Some (1, s2)
       else if GET_RECLAIMED_OFFSET s2 < cp_pages_size then do {
         (e2, s3) \<leftarrow> nandErase last_valid s2;
         if e2 \<noteq> 0 then Some (1, s3)
         else do {
           s4 \<leftarrow> returnToPrevSeg s3;
           Some (0, s4\<lparr>new_slot_id := GET_SLOT last_valid\<rparr>)
         }
       }
       else Some (0, if isAddressReserve last_valid s2
                     then s2\<lparr>reserve_eu_addr := CALC_EU_START last_valid, is_eu_reserve := 0\<rparr> else s2)
     }
     else if \<not> IS_SEG_MAP_PAGE_OFFSET_OVERFLOWING s1 then do {
       (phy_addr, s2) \<leftarrow> logicalAddressToPhysical (reclaimed_logical_addr s1) s1;
       if \<not> IS_PHY_ADDR_EMPTY phy_addr then do {
         (e, s3) \<leftarrow> nandErase phy_addr s2;
         (_, s4) \<leftarrow> (if e \<noteq> 0 then markEuAsBad phy_addr s3 else Some (0, s3));
         Some (0, s4)
       } else do {
         (e, s3) \<leftarrow> erasePossibleEUReplacement phy_addr s2;
         Some (if e \<noteq> 0 then 1 else 0, s3)
       }
     }
     else do {
       rec \<leftarrow> IS_STATE_RECLAMATION s1;
       if rec then do {
         slot_id \<leftarrow> GET_RECLAIMED_SEGMENT_SLOT s1;
         (e, s2) \<leftarrow> truncateSlot slot_id False s1;
         if \<not> e \<noteq> 0 then Some (1, s2)
         else do {
           s3 \<leftarrow> SET_SEG_MAP_SLOT_FOR_SEG (GET_RECLAIMED_SEGMENT s2) (new_slot_id s2) s2;
           Some (0, s3\<lparr>new_slot_id := slot_id\<rparr>)
         }
       } else do {
         (e, s2) \<leftarrow> erasePossibleNextFirstEU s1;
         Some (if e \<noteq> 0 then 1 else 0, s2)
       }
     }
   }"

section \<open>The boot sequence\<close>

text \<open>The part after the scans, when at least one data segment exists.  The caller's data may be part of the state that the checkpoint writer reads: \<open>store\<close> puts the data read
  from the checkpoint there before the writer can be called.\<close>

definition boot_resume ::
  "buf \<Rightarrow> nat \<Rightarrow> bool \<Rightarrow> u32 \<Rightarrow> (bool \<Rightarrow> 'z seq_scheme \<Rightarrow> (int \<times> 'z seq_scheme) option)
   \<Rightarrow> (buf \<Rightarrow> 'z seq_scheme \<Rightarrow> 'z seq_scheme) \<Rightarrow> 'z seq_scheme \<Rightarrow> (int \<times> buf \<times> bool \<times> 'z seq_scheme) option" where
  "boot_resume data nBytes pending cp_pages_size cp_write_p store s = do {
     (e, last_valid, s1) \<leftarrow> findLastValidPageInSlot (new_slot_id s) s;
     if e \<noteq> 0 then Some (1, data, pending, s1)
     else do {
       s2 \<leftarrow> (if \<not> isAddressReserve last_valid s1
              then Some (SET_RECLAIMED_OFFSET (CALC_OFFSET_IN_SLOT last_valid) s1)
              else do {
                (offset, _) \<leftarrow> calcOriginalSlotOffset (junk s1) last_valid s1;
                Some (SET_RECLAIMED_OFFSET offset s1)
              });
       (e2, s3) \<leftarrow> handleInvalidPrograms last_valid cp_pages_size s2;
       if e2 \<noteq> 0 then Some (1, data, pending, s3)
       else do {
         (e3, data1, pending1, s3') \<leftarrow> findCheckpointAndTruncate data nBytes s3;
         let s4 = store data1 s3';
         if e3 \<noteq> 0 then Some (1, data1, pending1, s4)
         else do {
           rec \<leftarrow> IS_STATE_RECLAMATION s4;
           let s5 = (if \<not> rec \<and> GET_RECLAIMED_OFFSET s4 > cp_pages_size then DECREMENT_FREE_COUNT s4 else s4);
           (e4, _, s6) \<leftarrow> findNextFreePage False cp_write_p 0 s5;
           if e4 \<noteq> 0 then Some (1, data1, pending1, s6) else Some (0, data1, pending1, init_buf s6)
         }
       }
     }
   }"

definition sequencingBooting ::
  "buf \<Rightarrow> nat \<Rightarrow> (bool \<Rightarrow> 'z seq_scheme \<Rightarrow> (int \<times> 'z seq_scheme) option)
   \<Rightarrow> (buf \<Rightarrow> 'z seq_scheme \<Rightarrow> 'z seq_scheme) \<Rightarrow> 'z seq_scheme \<Rightarrow> (int \<times> buf \<times> bool \<times> 'z seq_scheme) option" where
  "sequencingBooting data nBytes cp_write_p store s = do {
     let cp_pages_size = CALCULATE_IN_PAGES (of_nat (nBytes + 272)) + 1;
     s1 \<leftarrow> init_obs_counters (init_seg_map s);
     (e, _, doubly, second, s2) \<leftarrow> handleReserveSegments False SEQ_NO_SEGMENT_NUM SEQ_NO_SLOT s1;
     if e \<noteq> 0 then Some (1, data, True, s2)
     else do {
       (e1, s3) \<leftarrow> (if doubly \<noteq> SEQ_NO_SEGMENT_NUM
          then do { slot \<leftarrow> GET_SEG_MAP_SLOT_FOR_SEG doubly s2; handleDoubleReserveSlot doubly slot second s2 }
          else Some (0, s2));
       if e1 \<noteq> 0 then Some (1, data, True, s3)
       else do {
         (e2, _, s4) \<leftarrow> handleCopyBack False s3;
         if e2 \<noteq> 0 then Some (1, data, True, s4)
         else do {
           (e3, s5) \<leftarrow> handleRegularSegments nBytes s4;
           if e3 \<noteq> 0 then Some (1, data, True, s5)
           else if countSegments False s5 = 0 then do {
             (e4, s6) \<leftarrow> handleFlashIsEmpty cp_write_p
               (SET_FREE_COUNTER (SEQ_SEGMENTS_COUNT * (SEQ_PAGES_PER_SLOT - cp_pages_size)) (SET_OBS_COUNT 0 s5));
             Some (e4, data, False, s6)
           }
           else boot_resume data nBytes True cp_pages_size cp_write_p store s5
         }
       }
     }
   }"

end
