(* ===== verification/FsTypes.thy ===== *)
theory FsTypes
  imports Boot
begin

text \<open>
  Data of the file-system layer (\<^verbatim>\<open>NANDFS/src/fs/fs.h\<close>, \<^verbatim>\<open>cache.h\<close>, \<^verbatim>\<open>transactions.h\<close> and
  \<^verbatim>\<open>globals.c\<close>): the layout of inodes and directory entries, the records of the cache blocks,
  transactions, open files, vnodes and directory streams, and the state \<open>fs\<close>, which extends the state of
  the sequencing layer.

  \<open>int32_t\<close> and \<open>uint32_t\<close> values are both words of 32 bits; a signed comparison of the source is
  written \<open><s\<close> or \<open>\<le>s\<close>, a comparison with a constant built from \<open>sizeof\<close> is unsigned (a 32-bit
  \<open>size_t\<close>).  The arrays are functions from words; a function that follows an index it was given
  stops (\<open>None\<close>) when it is outside of the array, an index that the tables hold is followed as it is.
  The number of cache buffers is a build parameter that nothing writes: the shipped \<open>LRU_CACHE_SIZE\<close>
  of 0 gives 0 buffers.
\<close>

unbundle bit_operations_syntax

section \<open>Numbers\<close>

abbreviation (input) INO_NUM_EMPTY :: u32 where "INO_NUM_EMPTY \<equiv> 0xffffffff"
abbreviation (input) TID_EMPTY :: u32 where "TID_EMPTY \<equiv> 0xffffffff"
abbreviation (input) FD_EMPTY :: u32 where "FD_EMPTY \<equiv> 0xffffffff"
abbreviation (input) VNODE_EMPTY :: u32 where "VNODE_EMPTY \<equiv> 0xffffffff"
abbreviation (input) DS_ID_EMPTY :: u32 where "DS_ID_EMPTY \<equiv> 0xffffffff"
abbreviation (input) CACHE_ID_EMPTY :: u32 where "CACHE_ID_EMPTY \<equiv> 0xffffffff"
abbreviation (input) CACHE_ENTRY_OFFSET_EMPTY :: u32 where "CACHE_ENTRY_OFFSET_EMPTY \<equiv> 0xffffffff"
abbreviation (input) T_TYPE_EMPTY :: u32 where "T_TYPE_EMPTY \<equiv> 0xffffffff"

abbreviation (input) FTYPE_DIR :: u32 where "FTYPE_DIR \<equiv> 1"
abbreviation (input) FTYPE_FILE :: u32 where "FTYPE_FILE \<equiv> 2"
abbreviation (input) T_TYPE_WRITE :: u32 where "T_TYPE_WRITE \<equiv> 1"
abbreviation (input) T_TYPE_UNLINK :: u32 where "T_TYPE_UNLINK \<equiv> 2"
abbreviation (input) T_TYPE_TEMP :: u32 where "T_TYPE_TEMP \<equiv> 3"

abbreviation (input) DATA_TYPE_EMPTY :: u32 where "DATA_TYPE_EMPTY \<equiv> 0xffffffff"
abbreviation (input) DATA_TYPE_REGULAR :: u32 where "DATA_TYPE_REGULAR \<equiv> 0"
abbreviation (input) DATA_TYPE_VOTS :: u32 where "DATA_TYPE_VOTS \<equiv> 1"
abbreviation (input) DATA_TYPE_ENTRIES :: u32 where "DATA_TYPE_ENTRIES \<equiv> 2"
abbreviation (input) DATA_TYPE_DIRENTS :: u32 where "DATA_TYPE_DIRENTS \<equiv> 3"
abbreviation (input) DATA_TYPE_INODE :: u32 where "DATA_TYPE_INODE \<equiv> 4"

abbreviation (input) FS_ERROR_IO :: u32 where "FS_ERROR_IO \<equiv> -1"
abbreviation (input) FS_ERROR_FENTRY_MAX :: u32 where "FS_ERROR_FENTRY_MAX \<equiv> -2"
abbreviation (input) FS_ERROR_OFST_OVRFLW :: u32 where "FS_ERROR_OFST_OVRFLW \<equiv> -4"
abbreviation (input) FS_ERROR_WRT_THRSHLD :: u32 where "FS_ERROR_WRT_THRSHLD \<equiv> -5"
abbreviation (input) FS_ERROR_ILLEGAL_CID :: u32 where "FS_ERROR_ILLEGAL_CID \<equiv> -6"
abbreviation (input) FS_ERROR_NONZERO_REF_COUNT :: u32 where "FS_ERROR_NONZERO_REF_COUNT \<equiv> -7"
abbreviation (input) FS_ERROR_FREE_CACHE_ACQUIREMENT :: u32 where "FS_ERROR_FREE_CACHE_ACQUIREMENT \<equiv> -8"
abbreviation (input) FS_ERROR_CRITICAL :: u32 where "FS_ERROR_CRITICAL \<equiv> -9"
abbreviation (input) FS_ERROR_NON_EXISTING_HOLE :: u32 where "FS_ERROR_NON_EXISTING_HOLE \<equiv> -12"
abbreviation (input) FS_ERROR_FREEING_DIRTY_CACHE :: u32 where "FS_ERROR_FREEING_DIRTY_CACHE \<equiv> -13"
abbreviation (input) FS_ERROR_READING_UNCACHEABLE :: u32 where "FS_ERROR_READING_UNCACHEABLE \<equiv> -14"
abbreviation (input) FS_ERROR_DEC_ZERO_REF_COUNT :: u32 where "FS_ERROR_DEC_ZERO_REF_COUNT \<equiv> -15"

definition IS_NEGATIVE :: "u32 \<Rightarrow> bool" where "IS_NEGATIVE r = (r <s 0)"
definition IS_DIRECTORY :: "u32 \<Rightarrow> bool" where "IS_DIRECTORY t = (t = FTYPE_DIR)"

abbreviation (input) NANDFS_O_RDONLY :: u32 where "NANDFS_O_RDONLY \<equiv> 0x00000001"
abbreviation (input) CREAT_FLAGS :: u32 where "CREAT_FLAGS \<equiv> 0x00001010"

definition IS_RDONLY :: "u32 \<Rightarrow> bool" where "IS_RDONLY flags = (flags AND 0x00000001 \<noteq> 0)"
definition IS_WRONLY :: "u32 \<Rightarrow> bool" where "IS_WRONLY flags = (flags AND 0x00000010 \<noteq> 0)"
definition IS_APPEND :: "u32 \<Rightarrow> bool" where "IS_APPEND flags = (flags AND 0x00000100 \<noteq> 0)"
definition IS_CREAT :: "u32 \<Rightarrow> bool" where "IS_CREAT flags = (flags AND 0x00001000 \<noteq> 0)"
definition IS_EXCL :: "u32 \<Rightarrow> bool" where "IS_EXCL flags = (flags AND 0x00010000 \<noteq> 0)"
definition IS_CREAT_EXCL :: "u32 \<Rightarrow> bool" where "IS_CREAT_EXCL flags = (IS_EXCL flags \<and> IS_CREAT flags)"

section \<open>Little-endian fields and the flag of an address\<close>

definition GET_UINT32 :: "buf \<Rightarrow> nat \<Rightarrow> nat \<Rightarrow> u32" where
  "GET_UINT32 b base k = GET_BYTE b base k OR push_bit 8 (GET_BYTE b base (k + 1)) OR
     push_bit 16 (GET_BYTE b base (k + 2)) OR push_bit 24 (GET_BYTE b base (k + 3))"

definition SET_UINT32 :: "buf \<Rightarrow> nat \<Rightarrow> nat \<Rightarrow> u32 \<Rightarrow> buf" where
  "SET_UINT32 b base k v =
     SET_BYTE (SET_BYTE (SET_BYTE (SET_BYTE b base k v) base (k + 1) (drop_bit 8 v))
       base (k + 2) (drop_bit 16 v)) base (k + 3) (drop_bit 24 v)"

text \<open>A logical address read and written as one 32-bit word, the way the casts of \<^verbatim>\<open>fs.h\<close> do.\<close>

definition addr_word :: "logical_addr \<Rightarrow> u32" where
  "addr_word a = ucast (byte0 a) OR push_bit 8 (ucast (byte1 a)) OR push_bit 16 (ucast (byte2 a)) OR push_bit 24 (ucast (byte3 a))"

definition word_addr :: "u32 \<Rightarrow> logical_addr" where
  "word_addr w = \<lparr>byte0 = ucast w, byte1 = ucast (drop_bit 8 w), byte2 = ucast (drop_bit 16 w), byte3 = ucast (drop_bit 24 w)\<rparr>"

definition IS_ADDR_EMPTY :: "logical_addr \<Rightarrow> bool" where
  "IS_ADDR_EMPTY a = (0xffffff AND addr_word a = 0xffffff)"

definition SET_ADDR_FLAG :: "logical_addr \<Rightarrow> u32 \<Rightarrow> logical_addr" where
  "SET_ADDR_FLAG a flag = word_addr ((addr_word a AND 0x7fffffff) OR push_bit 31 flag)"

definition GET_ADDR_FLAG :: "logical_addr \<Rightarrow> u32" where
  "GET_ADDR_FLAG a = drop_bit 31 (addr_word a)"

definition IS_ADDR_FREE :: "logical_addr \<Rightarrow> bool" where
  "IS_ADDR_FREE a = (GET_ADDR_FLAG a = 1)"

definition MARK_BLOCK_WITH_HOLE :: "logical_addr \<Rightarrow> logical_addr" where
  "MARK_BLOCK_WITH_HOLE a = SET_ADDR_FLAG a 1"

definition MARK_BLOCK_NO_HOLE :: "logical_addr \<Rightarrow> logical_addr" where
  "MARK_BLOCK_NO_HOLE a = SET_ADDR_FLAG a 0"

definition COMPARE_ADDR :: "logical_addr \<Rightarrow> logical_addr \<Rightarrow> bool" where
  "COMPARE_ADDR a b = (GET_LOGICAL_SEGMENT a = GET_LOGICAL_SEGMENT b \<and> GET_LOGICAL_OFFSET a = GET_LOGICAL_OFFSET b)"

section \<open>Inodes and blocks of addresses\<close>

text \<open>An inode is one block: 1983 bytes of file data and the fields behind them.\<close>

abbreviation (input) INODE_FILE_DATA_SIZE :: u32 where "INODE_FILE_DATA_SIZE \<equiv> 1983"
abbreviation (input) INODE_DIRECT_DATA_SIZE :: u32 where "INODE_DIRECT_DATA_SIZE \<equiv> 20480"
abbreviation (input) INODE_INDIRECT_DATA_SIZE :: u32 where "INODE_INDIRECT_DATA_SIZE \<equiv> 0x100000"
abbreviation (input) INODE_DOUBLE_DATA_SIZE :: u32 where "INODE_DOUBLE_DATA_SIZE \<equiv> 0x20000000"
abbreviation (input) INDIRECT_DATA_OFFSET :: u32 where "INDIRECT_DATA_OFFSET \<equiv> 22463"
abbreviation (input) DOUBLE_DATA_OFFSET :: u32 where "DOUBLE_DATA_OFFSET \<equiv> 1071039"
abbreviation (input) TRIPLE_DATA_OFFSET :: u32 where "TRIPLE_DATA_OFFSET \<equiv> 537941951"
abbreviation (input) FS_BLOCK_SIZE :: u32 where "FS_BLOCK_SIZE \<equiv> 2048"
abbreviation (input) FS_MAX_FILESIZE :: u32 where "FS_MAX_FILESIZE \<equiv> 0x40000000"
abbreviation (input) LOG_ADDRESSES_PER_BLOCK :: nat where "LOG_ADDRESSES_PER_BLOCK \<equiv> 512"
abbreviation (input) DIRECT_INDEX_ENTRIES :: nat where "DIRECT_INDEX_ENTRIES \<equiv> 10"
abbreviation (input) TRIPLE_INDEX_OFFSET_IN_LOG_ADDRESSES :: u32 where "TRIPLE_INDEX_OFFSET_IN_LOG_ADDRESSES \<equiv> 511"
abbreviation (input) DOUBLE_INDEX_OFFSET_IN_LOG_ADDRESSES :: u32 where "DOUBLE_INDEX_OFFSET_IN_LOG_ADDRESSES \<equiv> 510"
abbreviation (input) INDIRECT_INDEX_OFFSET_IN_LOG_ADDRESSES :: u32 where "INDIRECT_INDEX_OFFSET_IN_LOG_ADDRESSES \<equiv> 509"
abbreviation (input) DIRECT_INDEX_OFFSET_IN_LOG_ADDRESSES :: u32 where "DIRECT_INDEX_OFFSET_IN_LOG_ADDRESSES \<equiv> 499"

definition INODE_GET_TRIPLE :: "buf \<Rightarrow> logical_addr" where "INODE_GET_TRIPLE b = addr_at b 2044"
definition INODE_GET_DOUBLE :: "buf \<Rightarrow> logical_addr" where "INODE_GET_DOUBLE b = addr_at b 2040"
definition INODE_GET_INDIRECT :: "buf \<Rightarrow> logical_addr" where "INODE_GET_INDIRECT b = addr_at b 2036"
definition INODE_GET_DIRECT :: "buf \<Rightarrow> nat \<Rightarrow> logical_addr" where "INODE_GET_DIRECT b n = addr_at b (1996 + 4 * n)"
definition INODE_GET_FILE_ID :: "buf \<Rightarrow> u32" where "INODE_GET_FILE_ID b = GET_UINT32 b 0 1992"
definition INODE_GET_NBLOCKS :: "buf \<Rightarrow> u32" where "INODE_GET_NBLOCKS b = GET_UINT32 b 0 1988"
definition INODE_GET_NBYTES :: "buf \<Rightarrow> u32" where "INODE_GET_NBYTES b = GET_UINT32 b 0 1984"
definition INODE_GET_FILE_TYPE :: "buf \<Rightarrow> u32" where "INODE_GET_FILE_TYPE b = GET_BYTE b 0 1983"

definition INODE_SET_TRIPLE :: "buf \<Rightarrow> logical_addr \<Rightarrow> buf" where "INODE_SET_TRIPLE b a = addr_put b 2044 a"
definition INODE_SET_DOUBLE :: "buf \<Rightarrow> logical_addr \<Rightarrow> buf" where "INODE_SET_DOUBLE b a = addr_put b 2040 a"
definition INODE_SET_INDIRECT :: "buf \<Rightarrow> logical_addr \<Rightarrow> buf" where "INODE_SET_INDIRECT b a = addr_put b 2036 a"
definition INODE_SET_DIRECT :: "buf \<Rightarrow> nat \<Rightarrow> logical_addr \<Rightarrow> buf" where "INODE_SET_DIRECT b n a = addr_put b (1996 + 4 * n) a"
definition INODE_SET_FILE_ID :: "buf \<Rightarrow> u32 \<Rightarrow> buf" where "INODE_SET_FILE_ID b v = SET_UINT32 b 0 1992 v"
definition INODE_SET_NBLOCKS :: "buf \<Rightarrow> u32 \<Rightarrow> buf" where "INODE_SET_NBLOCKS b v = SET_UINT32 b 0 1988 v"
definition INODE_SET_NBYTES :: "buf \<Rightarrow> u32 \<Rightarrow> buf" where "INODE_SET_NBYTES b v = SET_UINT32 b 0 1984 v"
definition INODE_SET_FILE_TYPE :: "buf \<Rightarrow> u32 \<Rightarrow> buf" where "INODE_SET_FILE_TYPE b v = SET_BYTE b 0 1983 v"

definition BLOCK_GET_INDEX :: "buf \<Rightarrow> nat \<Rightarrow> logical_addr" where "BLOCK_GET_INDEX b n = addr_at b (4 * n)"
definition BLOCK_SET_INDEX :: "buf \<Rightarrow> nat \<Rightarrow> logical_addr \<Rightarrow> buf" where "BLOCK_SET_INDEX b n a = addr_put b (4 * n) a"

definition CALC_IN_BLOCKS :: "u32 \<Rightarrow> u32" where "CALC_IN_BLOCKS n = drop_bit 11 n"
definition CALC_IN_BYTES :: "u32 \<Rightarrow> u32" where "CALC_IN_BYTES n = push_bit 11 n"
definition CALC_IN_LOG_ADDRESSES :: "u32 \<Rightarrow> u32" where "CALC_IN_LOG_ADDRESSES n = drop_bit 2 n"
definition CALC_LOG_ADDR_OFFSET_IN_BLOCK :: "u32 \<Rightarrow> u32" where "CALC_LOG_ADDR_OFFSET_IN_BLOCK n = drop_bit 2 n"
definition CALC_OFFSET_IN_BLOCK :: "u32 \<Rightarrow> u32" where "CALC_OFFSET_IN_BLOCK n = n AND 0x7ff"
definition CALC_OFFSET_IN_INDIRECT_SIZE :: "u32 \<Rightarrow> u32" where "CALC_OFFSET_IN_INDIRECT_SIZE n = n AND 0xfffff"
definition CALC_OFFSET_IN_INDIRECT_BLOCK :: "u32 \<Rightarrow> u32" where "CALC_OFFSET_IN_INDIRECT_BLOCK n = drop_bit 11 n"
definition CALC_OFFSET_IN_DOUBLE_SIZE :: "u32 \<Rightarrow> u32" where "CALC_OFFSET_IN_DOUBLE_SIZE n = n AND 0x1fffffff"
definition CALC_OFFSET_IN_DOUBLE_BLOCK :: "u32 \<Rightarrow> u32" where "CALC_OFFSET_IN_DOUBLE_BLOCK n = drop_bit 20 n"
definition CALC_OFFSET_IN_TRIPLE_BLOCK :: "u32 \<Rightarrow> u32" where "CALC_OFFSET_IN_TRIPLE_BLOCK n = drop_bit 29 n"
definition CALC_OFFSET_FROM_INDIRECT :: "u32 \<Rightarrow> u32" where "CALC_OFFSET_FROM_INDIRECT n = n - INDIRECT_DATA_OFFSET"
definition CALC_OFFSET_FROM_DOUBLE :: "u32 \<Rightarrow> u32" where
  "CALC_OFFSET_FROM_DOUBLE n = CALC_OFFSET_FROM_INDIRECT n - INODE_INDIRECT_DATA_SIZE"
definition CALC_OFFSET_FROM_TRIPLE :: "u32 \<Rightarrow> u32" where
  "CALC_OFFSET_FROM_TRIPLE n = CALC_OFFSET_FROM_DOUBLE n - INODE_DOUBLE_DATA_SIZE"

definition CALC_OFFSET_IN_FILE_BLOCK :: "u32 \<Rightarrow> u32" where
  "CALC_OFFSET_IN_FILE_BLOCK n = (if n \<ge> INODE_FILE_DATA_SIZE then CALC_OFFSET_IN_BLOCK (n - INODE_FILE_DATA_SIZE) else 0)"

definition ADVANCE_TO_NEXT_BLOCK :: "u32 \<Rightarrow> u32" where
  "ADVANCE_TO_NEXT_BLOCK n = n - CALC_OFFSET_IN_FILE_BLOCK n + FS_BLOCK_SIZE"

definition CALC_IN_INODES :: "u32 \<Rightarrow> u32" where "CALC_IN_INODES n = CALC_IN_BLOCKS (n - INODE_FILE_DATA_SIZE) + 1"
definition CALC_OFFSET_FROM_INODE :: "u32 \<Rightarrow> u32" where "CALC_OFFSET_FROM_INODE n = CALC_IN_BYTES (n - 1) + INODE_FILE_DATA_SIZE"

section \<open>Directory entries\<close>

text \<open>A directory entry inside a buffer: type, inode number, length and name, ended by a zero byte.\<close>

definition DIRENT_GET_TYPE :: "buf \<Rightarrow> nat \<Rightarrow> u32" where "DIRENT_GET_TYPE b p = GET_BYTE b p 0"
definition DIRENT_GET_INO_NUM :: "buf \<Rightarrow> nat \<Rightarrow> u32" where "DIRENT_GET_INO_NUM b p = GET_UINT32 b p 1"
definition DIRENT_GET_LEN :: "buf \<Rightarrow> nat \<Rightarrow> u32" where "DIRENT_GET_LEN b p = GET_UINT32 b p 5"
definition DIRENT_SET_TYPE :: "buf \<Rightarrow> nat \<Rightarrow> u32 \<Rightarrow> buf" where "DIRENT_SET_TYPE b p v = SET_BYTE b p 0 v"
definition DIRENT_SET_INO_NUM :: "buf \<Rightarrow> nat \<Rightarrow> u32 \<Rightarrow> buf" where "DIRENT_SET_INO_NUM b p v = SET_UINT32 b p 1 v"
definition DIRENT_SET_LEN :: "buf \<Rightarrow> nat \<Rightarrow> u32 \<Rightarrow> buf" where "DIRENT_SET_LEN b p n = SET_UINT32 b p 5 (n + 9 + 1)"
definition DIRENT_GET_NAME_LEN :: "buf \<Rightarrow> nat \<Rightarrow> u32" where "DIRENT_GET_NAME_LEN b p = DIRENT_GET_LEN b p - 10"
definition IS_DIRENT_EMPTY :: "buf \<Rightarrow> nat \<Rightarrow> bool" where "IS_DIRENT_EMPTY b p = (DIRENT_GET_INO_NUM b p = INO_NUM_EMPTY)"
definition IS_DIRENT_BLOCK_FULL :: "u32 \<Rightarrow> bool" where
  "IS_DIRENT_BLOCK_FULL offset = (FS_BLOCK_SIZE - CALC_OFFSET_IN_FILE_BLOCK offset < 256)"

section \<open>Records\<close>

record cache_block =
  c_indirect_leaf :: u32
  c_voted :: u32
  c_ref_count :: u32
  c_parent_cid :: u32
  c_parent_offset :: u32
  c_less_recent :: u32
  c_more_recent :: u32
  c_tid :: u32
  c_dirty :: u8
  c_addr :: logical_addr
  c_buf :: buf

record transaction =
  t_type :: u32
  t_f_type :: u32
  wasCommited :: bool
  isCommiting :: bool
  t_ino_num :: u32
  prev_log_addr :: logical_addr
  data_buf :: buf
  vots_count :: u32
  vots_buf_offset :: u32
  vots_buf :: buf
  ino_log_addr :: logical_addr
  maxWrittenOffset :: u32
  newBlocksallocated :: u32
  t_fileSize :: u32
  t_fileOffset :: u32
  indirect_buf :: buf
  t_parent_cid :: u32
  t_parent_offset :: u32
  t_is_voted :: u32

record vnode =
  v_ino_num :: u32
  nReferences :: u32

record open_file =
  f_flags :: u32
  f_uid :: u32
  f_offset :: u32
  f_vnode :: u32
  f_ftype :: u32

record dirstream =
  ds_fd :: u32
  ds_ino_addr :: logical_addr
  ds_de :: buf

record fs = seq +
  FS_CACHE_BUFFERS :: u32
  caches :: "u32 \<Rightarrow> cache_block"
  lru_cid :: u32
  mru_cid :: u32
  dirty_count :: u32
  transactions :: "u32 \<Rightarrow> transaction"
  vnodes :: "u32 \<Rightarrow> vnode"
  open_files :: "u32 \<Rightarrow> open_file"
  dirstreams :: "u32 \<Rightarrow> dirstream"
  fs_bytes :: buf
  fs_mutex :: u32
  fs_buffer :: buf
  current_user :: u32

text \<open>\<open>fs_bytes\<close> holds the bytes of \<open>filesystem_t\<close> in front of the mutex: the address of inode 0, the last
  page of the transaction being closed, and the last page of each open transaction.\<close>

definition TID_OK :: "u32 \<Rightarrow> bool" where "TID_OK tid = (tid < 2)"
definition CID_OK :: "u32 \<Rightarrow> 'z fs_scheme \<Rightarrow> bool" where "CID_OK cid s = (cid < FS_CACHE_BUFFERS s)"
definition IS_FD_LEGAL :: "u32 \<Rightarrow> bool" where "IS_FD_LEGAL fd = (0 \<le>s fd \<and> fd <s 8)"
definition VNODE_OK :: "u32 \<Rightarrow> bool" where "VNODE_OK v = (v < 6)"
definition DS_OK :: "u32 \<Rightarrow> bool" where "DS_OK d = (d < 2)"

definition upd_tr :: "u32 \<Rightarrow> (transaction \<Rightarrow> transaction) \<Rightarrow> 'z fs_scheme \<Rightarrow> 'z fs_scheme" where
  "upd_tr tid f s = s\<lparr>transactions := (transactions s)(tid := f (transactions s tid))\<rparr>"

definition upd_cache :: "u32 \<Rightarrow> (cache_block \<Rightarrow> cache_block) \<Rightarrow> 'z fs_scheme \<Rightarrow> 'z fs_scheme" where
  "upd_cache cid f s = s\<lparr>caches := (caches s)(cid := f (caches s cid))\<rparr>"

definition upd_file :: "u32 \<Rightarrow> (open_file \<Rightarrow> open_file) \<Rightarrow> 'z fs_scheme \<Rightarrow> 'z fs_scheme" where
  "upd_file fd f s = s\<lparr>open_files := (open_files s)(fd := f (open_files s fd))\<rparr>"

definition upd_vnode :: "u32 \<Rightarrow> (vnode \<Rightarrow> vnode) \<Rightarrow> 'z fs_scheme \<Rightarrow> 'z fs_scheme" where
  "upd_vnode v f s = s\<lparr>vnodes := (vnodes s)(v := f (vnodes s v))\<rparr>"

definition upd_ds :: "u32 \<Rightarrow> (dirstream \<Rightarrow> dirstream) \<Rightarrow> 'z fs_scheme \<Rightarrow> 'z fs_scheme" where
  "upd_ds d f s = s\<lparr>dirstreams := (dirstreams s)(d := f (dirstreams s d))\<rparr>"

text \<open>The addresses kept in \<open>filesystem_t\<close>.\<close>

definition FS_GET_INO0_ADDR :: "'z fs_scheme \<Rightarrow> logical_addr" where "FS_GET_INO0_ADDR s = addr_at (fs_bytes s) 0"
definition FS_GET_LAST_CLOSED_TID_ADDR :: "'z fs_scheme \<Rightarrow> logical_addr" where
  "FS_GET_LAST_CLOSED_TID_ADDR s = addr_at (fs_bytes s) 4"
definition FS_GET_TID_LAST_WRITTEN_ADDR :: "nat \<Rightarrow> 'z fs_scheme \<Rightarrow> logical_addr" where
  "FS_GET_TID_LAST_WRITTEN_ADDR tid s = addr_at (fs_bytes s) (8 + tid * 4)"
definition FS_SET_INO0_ADDR :: "logical_addr \<Rightarrow> 'z fs_scheme \<Rightarrow> 'z fs_scheme" where
  "FS_SET_INO0_ADDR a s = s\<lparr>fs_bytes := addr_put (fs_bytes s) 0 a\<rparr>"
definition FS_SET_LAST_CLOSED_TID_ADDR :: "logical_addr \<Rightarrow> 'z fs_scheme \<Rightarrow> 'z fs_scheme" where
  "FS_SET_LAST_CLOSED_TID_ADDR a s = s\<lparr>fs_bytes := addr_put (fs_bytes s) 4 a\<rparr>"
definition FS_SET_TID_LAST_WRITTEN_ADDR :: "nat \<Rightarrow> logical_addr \<Rightarrow> 'z fs_scheme \<Rightarrow> 'z fs_scheme" where
  "FS_SET_TID_LAST_WRITTEN_ADDR tid a s = s\<lparr>fs_bytes := addr_put (fs_bytes s) (8 + tid * 4) a\<rparr>"
definition IS_FS_EMPTY :: "'z fs_scheme \<Rightarrow> bool" where "IS_FS_EMPTY s = IS_ADDR_EMPTY (FS_GET_INO0_ADDR s)"

section \<open>Pointers into the state\<close>

text \<open>
  A pointer argument that may point into the state is a reference: the five kinds of block
  buffer the functions pass around, and the addresses they pass by pointer.  \<open>Local a\<close> is the
  address of a local variable whose value is \<open>a\<close>.
\<close>

datatype buf_ref = FsBuf | DataBuf u32 | VotsBuf u32 | IndirectBuf u32 | CacheBuf u32

fun rd :: "buf_ref \<Rightarrow> 'z fs_scheme \<Rightarrow> buf" where
  "rd FsBuf s = fs_buffer s"
| "rd (DataBuf t) s = data_buf (transactions s t)"
| "rd (VotsBuf t) s = vots_buf (transactions s t)"
| "rd (IndirectBuf t) s = indirect_buf (transactions s t)"
| "rd (CacheBuf c) s = c_buf (caches s c)"

fun wr :: "buf_ref \<Rightarrow> buf \<Rightarrow> 'z fs_scheme \<Rightarrow> 'z fs_scheme" where
  "wr FsBuf b s = s\<lparr>fs_buffer := b\<rparr>"
| "wr (DataBuf t) b s = upd_tr t (data_buf_update (\<lambda>_. b)) s"
| "wr (VotsBuf t) b s = upd_tr t (vots_buf_update (\<lambda>_. b)) s"
| "wr (IndirectBuf t) b s = upd_tr t (indirect_buf_update (\<lambda>_. b)) s"
| "wr (CacheBuf c) b s = upd_cache c (c_buf_update (\<lambda>_. b)) s"

definition init_fsbuf :: "buf_ref \<Rightarrow> 'z fs_scheme \<Rightarrow> 'z fs_scheme" where
  "init_fsbuf r s = wr r (init_struct (rd r s) 0 2048) s"

datatype addr_ref = Local logical_addr | TrIno u32 | TrPrev u32 | DsIno u32

fun deref :: "addr_ref \<Rightarrow> 'z fs_scheme \<Rightarrow> logical_addr" where
  "deref (Local a) s = a"
| "deref (TrIno t) s = ino_log_addr (transactions s t)"
| "deref (TrPrev t) s = prev_log_addr (transactions s t)"
| "deref (DsIno d) s = ds_ino_addr (dirstreams s d)"

fun assign :: "addr_ref \<Rightarrow> logical_addr \<Rightarrow> 'z fs_scheme \<Rightarrow> addr_ref \<times> 'z fs_scheme" where
  "assign (Local _) a s = (Local a, s)"
| "assign (TrIno t) a s = (TrIno t, upd_tr t (ino_log_addr_update (\<lambda>_. a)) s)"
| "assign (TrPrev t) a s = (TrPrev t, upd_tr t (prev_log_addr_update (\<lambda>_. a)) s)"
| "assign (DsIno d) a s = (DsIno d, upd_ds d (ds_ino_addr_update (\<lambda>_. a)) s)"

section \<open>Little-endian fields\<close>

lemma GET_UINT32_le: "GET_UINT32 b base k = le_bytes 4 b (base + k)"
  by (simp add: GET_UINT32_def GET_BYTE_def numeral_nat or.assoc)

lemma SET_UINT32_byte:
  "SET_UINT32 b base k v i = (if base + k \<le> i \<and> i < base + k + 4 then ucast (drop_bit (8 * (i - (base + k))) v) else b i)"
proof -
  consider "i = base + k" | "i = base + k + 1" | "i = base + k + 2" | "i = base + k + 3"
    | "\<not> (base + k \<le> i \<and> i < base + k + 4)" by linarith
  then show ?thesis
    by cases (auto simp: SET_UINT32_def SET_BYTE_def)
qed

lemma four_byte_field: "spare_field (\<lambda>b base. GET_UINT32 b base k) (\<lambda>b base v. SET_UINT32 b base k v) (in_bytes k 4) (\<lambda>_. True)"
proof
  fix v :: u32 and b :: buf and base :: nat
  show "GET_UINT32 (SET_UINT32 b base k v) base k = v"
  proof (rule bit_word_eqI)
    fix j
    assume j: "j < LENGTH(32)"
    then have "8 * (j div 8) + j mod 8 = j" "j div 8 < 4" by (auto simp: div_less_iff_less_mult)
    then show "bit (GET_UINT32 (SET_UINT32 b base k v) base k) j = bit v j"
      using j by (simp add: GET_UINT32_le bit_le_bytes SET_UINT32_byte bit_unsigned_iff bit_drop_bit_eq possible_bit_def)
  qed
next
  fix base i j v and b :: buf
  assume "\<not> (base \<le> i \<and> in_bytes k 4 (i - base) j)"
  then show "bit (SET_UINT32 b base k v i) j = bit (b i) j"
    by (auto simp: SET_UINT32_byte in_bytes_def bit_unsigned_iff dest: bit_imp_le_length)
next
  fix b b' :: buf and base base'
  assume eq: "\<And>i j. in_bytes k 4 i j \<Longrightarrow> bit (b (base + i)) j = bit (b' (base' + i)) j"
  show "GET_UINT32 b base k = GET_UINT32 b' base' k"
  proof (rule bit_word_eqI)
    fix j
    assume "j < LENGTH(32)"
    then have "j div 8 < 4" by (simp add: div_less_iff_less_mult)
    then show "bit (GET_UINT32 b base k) j = bit (GET_UINT32 b' base' k) j"
      using eq [of "k + j div 8" "j mod 8"] by (simp add: GET_UINT32_le bit_le_bytes in_bytes_def add.assoc)
  qed
qed

interpretation uint32_at: spare_field "\<lambda>b base. GET_UINT32 b base k" "\<lambda>b base v. SET_UINT32 b base k v" "in_bytes k 4" "\<lambda>_. True"
  for k by (rule four_byte_field)

lemma GET_SET_UINT32 [simp]: "GET_UINT32 (SET_UINT32 b base k v) base k = v"
  by (rule uint32_at.get_set) simp

lemma GET_UINT32_cong: "(\<And>i. i < 4 \<Longrightarrow> b (base + (k + i)) = b' (base' + (k + i))) \<Longrightarrow> GET_UINT32 b base k = GET_UINT32 b' base' k"
  by (rule uint32_at.get_same_bytes) (auto simp: in_bytes_def dest: le_Suc_ex)

end
