(* ===== verification/Dirents.thy ===== *)
theory Dirents
  imports FsTypes
begin

text \<open>
  Path names and directory blocks (\<^verbatim>\<open>fsUtils.c\<close>, and \<open>deleteDeFromBlock\<close> of \<^verbatim>\<open>transactions.c\<close>).  A path
  name in memory is the list of the bytes in front of its zero byte, a pointer into it a suffix of
  the list.  A directory block is a buffer that starts with a sequence of entries; \<open>dir_block\<close>
  relates it to the list of its entries, and the operations on the bytes refine the operations on
  the list.
\<close>

unbundle bit_operations_syntax

section \<open>Path names\<close>

definition str_buf :: "u8 list \<Rightarrow> buf" where
  "str_buf cs = (\<lambda>i. if i < length cs then cs ! i else 0)"

definition IS_SLASH :: "u8 \<Rightarrow> bool" where "IS_SLASH c = (c = 0x2f)"

definition illegal_chars :: "u8 list" where "illegal_chars = [2]"

fun illegal_loop :: "u8 list \<Rightarrow> u8 \<Rightarrow> bool" where
  "illegal_loop [] c = True"
| "illegal_loop (x # xs) c = (if x = c then False else illegal_loop xs c)"

definition isLegalChar :: "u8 \<Rightarrow> bool" where "isLegalChar c = illegal_loop illegal_chars c"

fun calcNameLen :: "u8 list \<Rightarrow> u32" where
  "calcNameLen [] = 0"
| "calcNameLen (c # name) = 1 + calcNameLen name"

fun verifyLegalPathname :: "u8 list \<Rightarrow> bool" where
  "verifyLegalPathname [] = True"
| "verifyLegalPathname (c # pathname) =
     (if c < 0x80 \<and> c > 0x1f \<and> isLegalChar c then verifyLegalPathname pathname else False)"

fun findNextSeperator :: "u8 list \<Rightarrow> u32" where
  "findNextSeperator [] = 0"
| "findNextSeperator (c # pathname) = (if \<not> IS_SLASH c then 1 + findNextSeperator pathname else 0)"

definition verifyNameLen :: "u32 \<Rightarrow> bool" where "verifyNameLen n = (0 <s n \<and> n \<le> 246)"

section \<open>Entries of a directory block\<close>

text \<open>The entry at \<open>p\<close>; \<open>None\<close> when it would run out of the block.\<close>

definition setNewDirentry :: "buf \<Rightarrow> nat \<Rightarrow> u32 \<Rightarrow> u32 \<Rightarrow> u8 list \<Rightarrow> buf option" where
  "setNewDirentry b p f_id f_type name = do {
     assert_c (p + 10 + length name \<le> 2048);
     let b1 = DIRENT_SET_INO_NUM b p f_id;
     let b2 = DIRENT_SET_TYPE b1 p f_type;
     let b3 = DIRENT_SET_LEN b2 p (calcNameLen name);
     fsStrcpy (Suc (length name)) b3 (p + 9) (str_buf name) 0
   }"

definition moveToNextDirentry :: "nat \<Rightarrow> u32 \<Rightarrow> nat" where
  "moveToNextDirentry p offset = p + unat offset"

text \<open>\<open>fsMemcpy\<close> inside one buffer: the source and the destination overlap.\<close>

fun memcpy_within :: "nat \<Rightarrow> buf \<Rightarrow> nat \<Rightarrow> nat \<Rightarrow> buf" where
  "memcpy_within 0 b d so = b"
| "memcpy_within (Suc n) b d so = (let b1 = b(d := b so) in
     memcpy_within n (b1(d + 1 := b1 (so + 1))) (d + 2) (so + 2))"

definition fsMemcpy_within :: "buf \<Rightarrow> nat \<Rightarrow> nat \<Rightarrow> nat \<Rightarrow> buf" where
  "fsMemcpy_within b d so count =
     (if odd count then memcpy_within (count div 2) (b(d := b so)) (d + 1) (so + 1)
      else memcpy_within (count div 2) b d so)"

definition deleteDeFromBlock :: "u32 \<Rightarrow> u32 \<Rightarrow> buf \<Rightarrow> buf option" where
  "deleteDeFromBlock de_len de_offset b = do {
     let past_de_data_len = FS_BLOCK_SIZE - (de_offset + de_len);
     assert_c (unat de_offset + unat de_len \<le> 2048);
     let b1 = fsMemcpy_within b (unat de_offset) (unat de_offset + unat de_len) (unat past_de_data_len);
     Some (fsMemset b1 (unat de_offset + unat past_de_data_len) 0xff (unat de_len))
   }"

text \<open>The walk over the entries of one block in \<open>compareDirectoryEntries\<close>: the inode number and type of
  the entry with the name, if there is one, and the directory offset where the walk ended.\<close>

fun de_search :: "nat \<Rightarrow> buf \<Rightarrow> nat \<Rightarrow> u8 list \<Rightarrow> u32 \<Rightarrow> u32 \<Rightarrow> ((u32 \<times> u32) option \<times> u32) option" where
  "de_search 0 b p pathname offset directoryOffset = None"
| "de_search (Suc n) b p pathname offset directoryOffset = do {
     assert_c (p + 10 \<le> 2048);
     if IS_DIRENT_EMPTY b p then Some (None, directoryOffset)
     else if offset = DIRENT_GET_NAME_LEN b p \<and> fsStrncmp b (p + 9) (str_buf pathname) 0 (unat offset) = 0
     then Some (Some (DIRENT_GET_INO_NUM b p, DIRENT_GET_TYPE b p), directoryOffset)
     else (let directoryOffset1 = directoryOffset + DIRENT_GET_LEN b p in
       if IS_DIRENT_BLOCK_FULL directoryOffset1 then Some (None, directoryOffset1)
       else de_search n b (moveToNextDirentry p (DIRENT_GET_LEN b p)) pathname offset directoryOffset1)
   }"

text \<open>The loop of \<open>allocAndWriteBlockTid\<close> that looks for a zero byte in the last 257 bytes of a block
  of entries; without one the block has room for another entry.\<close>

fun hole_loop :: "nat \<Rightarrow> buf \<Rightarrow> nat \<Rightarrow> bool" where
  "hole_loop 0 b i = True"
| "hole_loop (Suc n) b i = (if b (i - 1) = 0 then False else hole_loop n b (i - 1))"

definition dirents_hole :: "buf \<Rightarrow> bool" where "dirents_hole b = hole_loop 257 b 2048"

section \<open>A block as a list of entries\<close>

type_synonym dentry = "u32 \<times> u32 \<times> u8 list"

definition de_size :: "dentry \<Rightarrow> nat" where "de_size e = 10 + length (snd (snd e))"

definition de_at :: "buf \<Rightarrow> nat \<Rightarrow> dentry \<Rightarrow> bool" where
  "de_at b p e = (case e of (f_type, ino_num, name) \<Rightarrow>
     DIRENT_GET_TYPE b p = f_type \<and> DIRENT_GET_INO_NUM b p = ino_num \<and> ino_num \<noteq> INO_NUM_EMPTY \<and>
     DIRENT_GET_LEN b p = of_nat (de_size e) \<and> is_cstr b (p + 9) name \<and> name \<noteq> [] \<and> length name \<le> 246)"

fun des_at :: "buf \<Rightarrow> nat \<Rightarrow> dentry list \<Rightarrow> bool" where
  "des_at b p [] = True"
| "des_at b p (e # es) = (de_at b p e \<and> des_at b (p + de_size e) es)"

definition des_size :: "dentry list \<Rightarrow> nat" where "des_size es = sum_list (map de_size es)"

definition dir_block :: "buf \<Rightarrow> dentry list \<Rightarrow> bool" where
  "dir_block b es = (des_at b 0 es \<and> des_size es \<le> 2048 \<and> (\<forall>i. des_size es \<le> i \<and> i < 2048 \<longrightarrow> b i = 0xff))"

lemma des_size_simps [simp]:
  "des_size [] = 0" "des_size (e # es) = de_size e + des_size es" "des_size (xs @ ys) = des_size xs + des_size ys"
  by (simp_all add: des_size_def)

lemma de_at_cong:
  assumes "\<And>i. i < de_size e \<Longrightarrow> b (p + i) = b' (p' + i)"
  shows "de_at b p e = de_at b' p' e"
proof -
  obtain t n nm where e: "e = (t, n, nm)" by (cases e)
  have "DIRENT_GET_TYPE b p = DIRENT_GET_TYPE b' p'"
    using assms [of 0] by (simp add: DIRENT_GET_TYPE_def GET_BYTE_def de_size_def)
  moreover have "GET_UINT32 b p k = GET_UINT32 b' p' k" if "k \<le> 5" for k
    using that assms by (intro GET_UINT32_cong) (simp add: de_size_def)
  then have "DIRENT_GET_INO_NUM b p = DIRENT_GET_INO_NUM b' p'" "DIRENT_GET_LEN b p = DIRENT_GET_LEN b' p'"
    by (simp_all add: DIRENT_GET_INO_NUM_def DIRENT_GET_LEN_def)
  moreover have "is_cstr b (p + 9) nm = is_cstr b' (p' + 9) nm"
    using assms [of "9 + i" for i] by (auto simp: is_cstr_def e de_size_def add.assoc)
  ultimately show ?thesis by (simp add: de_at_def e)
qed

lemma des_at_cong: "(\<And>i. i < des_size es \<Longrightarrow> b (p + i) = b' (p' + i)) \<Longrightarrow> des_at b p es = des_at b' p' es"
proof (induction es arbitrary: p p')
  case (Cons e es)
  have "de_at b p e = de_at b' p' e" by (rule de_at_cong) (simp add: Cons.prems)
  moreover have "des_at b (p + de_size e) es = des_at b' (p' + de_size e) es"
  proof (rule Cons.IH)
    fix i
    assume "i < des_size es"
    then show "b (p + de_size e + i) = b' (p' + de_size e + i)"
      using Cons.prems [of "de_size e + i"] by (simp add: add.assoc)
  qed
  ultimately show ?case by simp
qed simp

lemma des_at_append: "des_at b p (xs @ ys) = (des_at b p xs \<and> des_at b (p + des_size xs) ys)"
  by (induction xs arbitrary: p) (simp_all add: add.assoc)

section \<open>Adding an entry\<close>

lemma str_buf_cstr: "0 \<notin> set cs \<Longrightarrow> is_cstr (str_buf cs) 0 cs"
  by (auto simp: is_cstr_def str_buf_def in_set_conv_nth)

lemma calcNameLen_length: "calcNameLen cs = of_nat (length cs)"
  by (induction cs) simp_all

lemma DIRENT_set_frame:
  "DIRENT_SET_LEN (DIRENT_SET_TYPE (DIRENT_SET_INO_NUM b p i) p t) p n x = b x" if "x < p \<or> p + 9 \<le> x"
  using that by (auto simp: DIRENT_SET_LEN_def DIRENT_SET_TYPE_def DIRENT_SET_INO_NUM_def SET_UINT32_byte SET_BYTE_def)

lemma ucast_u8_u32: "t < 256 \<Longrightarrow> (ucast (ucast t :: u8) :: u32) = t"
  by (simp add: word_unat_eq_iff word_less_nat_alt unsigned_ucast_eq unsigned_take_bit_eq take_bit_nat_eq_self)

lemma setNewDirentry_entry:
  assumes "0 \<notin> set name" "name \<noteq> []" "length name \<le> 246" "t < 256" "i \<noteq> INO_NUM_EMPTY" "p + 10 + length name \<le> 2048"
  obtains d where "setNewDirentry b p i t name = Some d" "de_at d p (t, i, name)"
    "\<And>x. x < p \<or> p + 10 + length name \<le> x \<Longrightarrow> d x = b x"
proof -
  define b3 where "b3 = DIRENT_SET_LEN (DIRENT_SET_TYPE (DIRENT_SET_INO_NUM b p i) p t) p (calcNameLen name)"
  define d where "d = (\<lambda>k. if p + 9 \<le> k \<and> k < p + 9 + length name then name ! (k - (p + 9)) else if k = p + 9 + length name then 0 else b3 k)"
  have d: "fsStrcpy (Suc (length name)) b3 (p + 9) (str_buf name) 0 = Some d" "is_cstr d (p + 9) name"
    "\<And>x. x < p + 9 \<or> p + 9 + length name < x \<Longrightarrow> d x = b3 x"
    using fsStrcpy_spec [OF str_buf_cstr [OF assms(1)], of "Suc (length name)" b3 "p + 9"] assms(1)
    by (auto simp: d_def is_cstr_def in_set_conv_nth)
  have low: "d (p + x) = b3 (p + x)" if "x < 9" for x using d(3) that by simp
  have "GET_UINT32 d p k = GET_UINT32 b3 p k" if "k \<le> 5" for k
    by (rule GET_UINT32_cong) (use that low in auto)
  then have g: "DIRENT_GET_INO_NUM d p = DIRENT_GET_INO_NUM b3 p" "DIRENT_GET_LEN d p = DIRENT_GET_LEN b3 p"
    by (simp_all add: DIRENT_GET_INO_NUM_def DIRENT_GET_LEN_def)
  have "DIRENT_GET_TYPE d p = t"
    using low [of 0] assms(4)
    by (simp add: DIRENT_GET_TYPE_def GET_BYTE_def b3_def DIRENT_SET_LEN_def DIRENT_SET_TYPE_def SET_UINT32_byte SET_BYTE_def
        ucast_u8_u32)
  moreover have "DIRENT_GET_INO_NUM b3 p = i"
  proof -
    have "DIRENT_GET_INO_NUM b3 p = GET_UINT32 (DIRENT_SET_INO_NUM b p i) p 1"
      unfolding DIRENT_GET_INO_NUM_def b3_def
      by (rule GET_UINT32_cong) (auto simp: DIRENT_SET_LEN_def DIRENT_SET_TYPE_def SET_UINT32_byte SET_BYTE_def)
    then show ?thesis by (simp add: DIRENT_SET_INO_NUM_def)
  qed
  moreover have "DIRENT_GET_LEN b3 p = of_nat (10 + length name)"
    by (simp add: b3_def DIRENT_GET_LEN_def DIRENT_SET_LEN_def calcNameLen_length)
  ultimately have "de_at d p (t, i, name)"
    using assms d(2) by (simp add: de_at_def de_size_def g)
  moreover have "d x = b x" if "x < p \<or> p + 10 + length name \<le> x" for x
    using d(3) [of x] that DIRENT_set_frame [of x p b i t "calcNameLen name"] by (auto simp: b3_def)
  moreover have "setNewDirentry b p i t name = Some d"
    using assms(6) d(1) by (simp add: setNewDirentry_def b3_def)
  ultimately show ?thesis by (rule that [rotated])
qed


lemma GET_UINT32_ff:
  assumes "\<And>x. x < 4 \<Longrightarrow> b (p + (k + x)) = 0xff"
  shows "GET_UINT32 b p k = 0xffffffff"
  using assms [of 0] assms [of 1] assms [of 2] assms [of 3]
  by (simp add: GET_UINT32_def GET_BYTE_def add.assoc)

lemma dir_block_end: "dir_block b es \<Longrightarrow> des_size es + 10 \<le> 2048 \<Longrightarrow> IS_DIRENT_EMPTY b (des_size es)"
  unfolding IS_DIRENT_EMPTY_def DIRENT_GET_INO_NUM_def
  by (rule GET_UINT32_ff) (simp add: dir_block_def)

lemma setNewDirentry_appends_aux:
  assumes "dir_block b es" "0 \<notin> set name" "name \<noteq> []" "length name \<le> 246" "t < 256" "i \<noteq> INO_NUM_EMPTY"
    "des_size es + 10 + length name \<le> 2048"
  shows "\<exists>d. setNewDirentry b (des_size es) i t name = Some d \<and> dir_block d (es @ [(t, i, name)])"
proof -
  obtain d where d: "setNewDirentry b (des_size es) i t name = Some d" "de_at d (des_size es) (t, i, name)"
    "\<And>x. x < des_size es \<or> des_size es + 10 + length name \<le> x \<Longrightarrow> d x = b x"
    by (rule setNewDirentry_entry [OF assms(2-7), of b]) blast
  have "des_at d 0 es = des_at b 0 es" by (rule des_at_cong) (simp add: d(3))
  then have "dir_block d (es @ [(t, i, name)])"
    using assms(1,7) d(2,3) by (auto simp: dir_block_def des_at_append de_size_def)
  then show ?thesis using d(1) by blast
qed

section \<open>Deleting an entry\<close>

lemma memcpy_within_copy: "d < so \<Longrightarrow> memcpy_within n b d so = buf_copy b d b so (2 * n)"
proof (induction n arbitrary: b d so)
  case 0
  show ?case by (rule ext) (auto simp: buf_copy_def)
next
  case (Suc n)
  define b1 where "b1 = b(d := b so, d + 1 := (b(d := b so)) (so + 1))"
  have b1: "b1 (d + 1) = b (so + 1)" using Suc.prems by (simp add: b1_def)
  have "memcpy_within (Suc n) b d so = buf_copy b1 (d + 2) b1 (so + 2) (2 * n)"
    using Suc.prems by (simp add: b1_def Suc.IH Let_def fun_upd_def cong: if_cong)
  also have "\<dots> = buf_copy b d b so (2 * Suc n)"
  proof (rule ext)
    fix x
    have "so + 2 + (x - (d + 2)) = so + (x - d)" if "d + 2 \<le> x" using that by simp
    then show "buf_copy b1 (d + 2) b1 (so + 2) (2 * n) x = buf_copy b d b so (2 * Suc n) x"
      using Suc.prems b1
      by (cases "x = d"; cases "x = d + 1"; cases "x < d") (auto simp: buf_copy_def b1_def)
  qed
  finally show ?case .
qed

lemma fsMemcpy_within_copy:
  assumes "d < so"
  shows "fsMemcpy_within b d so n = buf_copy b d b so n"
proof (cases "odd n")
  case True
  then have n: "2 * (n div 2) + 1 = n" by simp
  have "fsMemcpy_within b d so n = buf_copy (b(d := b so)) (d + 1) (b(d := b so)) (so + 1) (2 * (n div 2))"
    using True assms by (simp add: fsMemcpy_within_def memcpy_within_copy)
  also have "\<dots> = buf_copy b d b so n"
  proof (rule ext)
    fix x
    have "so + 1 + (x - (d + 1)) = so + (x - d)" if "d + 1 \<le> x" using that by simp
    then show "buf_copy (b(d := b so)) (d + 1) (b(d := b so)) (so + 1) (2 * (n div 2)) x = buf_copy b d b so n x"
      using True n assms by (cases "x = d"; cases "x < d") (auto simp: buf_copy_def)
  qed
  finally show ?thesis .
next
  case False
  then show ?thesis using assms by (simp add: fsMemcpy_within_def memcpy_within_copy)
qed

lemma deleteDeFromBlock_bytes:
  assumes "p + n \<le> 2048" "0 < n"
  shows "deleteDeFromBlock (of_nat n) (of_nat p) b =
    Some (\<lambda>x. if x < p then b x else if x < 2048 - n then b (x + n) else if x < 2048 then 0xff else b x)"
proof -
  have u: "unat (of_nat n :: u32) = n" "unat (of_nat p :: u32) = p"
    using assms by (simp_all add: unat_of_nat take_bit_nat_eq_self)
  have "(FS_BLOCK_SIZE - (of_nat p + of_nat n) :: u32) = of_nat (2048 - (p + n))"
    using assms(1) by (simp add: of_nat_diff)
  then have past: "unat (FS_BLOCK_SIZE - (of_nat p + of_nat n) :: u32) = 2048 - (p + n)"
    by (simp add: unat_of_nat take_bit_nat_eq_self)
  have "(\<lambda>x. if p + (2048 - (p + n)) \<le> x \<and> x < p + (2048 - (p + n)) + n then 0xff
        else if p \<le> x \<and> x < p + (2048 - (p + n)) then b (p + n + (x - p)) else b x) =
      (\<lambda>x. if x < p then b x else if x < 2048 - n then b (x + n) else if x < 2048 then 0xff else b x)"
    using assms by (intro ext) (auto simp: add.commute add.left_commute)
  then show ?thesis
    using assms by (simp add: deleteDeFromBlock_def u past fsMemcpy_within_copy fsMemset_fill buf_copy_def buf_fill_def
        cong: if_cong)
qed

lemma deleteDeFromBlock_removes_aux:
  assumes "dir_block b (xs @ e # ys)"
  shows "\<exists>d. deleteDeFromBlock (of_nat (de_size e)) (of_nat (des_size xs)) b = Some d \<and> dir_block d (xs @ ys)"
proof -
  define p n where "p = des_size xs" and "n = de_size e"
  define d where "d = (\<lambda>x. if x < p then b x else if x < 2048 - n then b (x + n) else if x < 2048 then 0xff else b x)"
  have le: "p + n + des_size ys \<le> 2048" and n: "0 < n"
    using assms by (simp_all add: dir_block_def p_def n_def de_size_def)
  have "des_at d 0 xs = des_at b 0 xs" by (rule des_at_cong) (simp add: d_def p_def)
  moreover have "des_at d p ys = des_at b (p + n) ys"
    by (rule des_at_cong) (use le in \<open>auto simp: d_def add.commute add.left_commute\<close>)
  ultimately have "dir_block d (xs @ ys)"
    using assms le n
    by (auto simp: dir_block_def des_at_append p_def [symmetric] n_def [symmetric] d_def)
  then show ?thesis
    using deleteDeFromBlock_bytes [of p n b] le n by (auto simp: d_def p_def n_def)
qed


section \<open>Finding an entry\<close>

text \<open>Entries that start in the first 1791 bytes: what the search for a hole guarantees before an entry is added.\<close>

definition des_fit :: "dentry list \<Rightarrow> bool" where
  "des_fit es = (es = [] \<or> des_size (butlast es) \<le> 1791)"

lemma des_fit_split: "des_fit (xs @ e # ys) \<Longrightarrow> des_size xs \<le> 1791"
proof -
  assume a: "des_fit (xs @ e # ys)"
  have "des_size xs \<le> des_size (butlast (xs @ e # ys))" by (simp add: butlast_append)
  then show ?thesis using a by (simp add: des_fit_def)
qed

lemma des_fit_append: "des_size es \<le> 1791 \<Longrightarrow> des_fit (es @ [e])"
  by (simp add: des_fit_def)

lemma des_fit_remove: "des_fit (xs @ e # ys) \<Longrightarrow> des_fit (xs @ ys)"
  by (cases ys rule: rev_cases; cases xs rule: rev_cases) (auto simp: des_fit_def butlast_append)

text \<open>A file offset at which a block of the file starts.\<close>

definition block_start :: "u32 \<Rightarrow> bool" where
  "block_start d = (\<forall>k < 2048. CALC_OFFSET_IN_FILE_BLOCK (d + of_nat k) = of_nat k)"

definition de_lookup :: "u8 list \<Rightarrow> dentry list \<Rightarrow> u32 \<Rightarrow> (u32 \<times> u32) option \<times> u32" where
  "de_lookup name es d =
     (case dropWhile (\<lambda>e. snd (snd e) \<noteq> name) es of [] \<Rightarrow> None | e # _ \<Rightarrow> Some (fst (snd e), fst e),
      d + of_nat (des_size (takeWhile (\<lambda>e. snd (snd e) \<noteq> name) es)))"

lemma name_matches:
  assumes "de_at b p (t, i, nm)" "0 \<notin> set (name @ rest)" "length name \<le> 246"
  shows "(of_nat (length name) = DIRENT_GET_NAME_LEN b p \<and>
      fsStrncmp b (p + 9) (str_buf (name @ rest)) 0 (unat (of_nat (length name) :: u32)) = 0) = (nm = name)"
proof -
  have len: "DIRENT_GET_NAME_LEN b p = of_nat (length nm)" "length nm \<le> 246" "nm \<noteq> []" and c: "is_cstr b (p + 9) nm"
    using assms(1) by (auto simp: de_at_def DIRENT_GET_NAME_LEN_def de_size_def)
  have u: "unat (of_nat (length name) :: u32) = length name"
    using assms(3) by (simp add: unat_of_nat take_bit_nat_eq_self)
  have eq: "(of_nat (length name) = (of_nat (length nm) :: u32)) = (length name = length nm)"
    using assms(3) len(2) by (auto simp: word_unat_eq_iff unat_of_nat take_bit_nat_eq_self)
  show ?thesis
  proof (cases "length name = length nm")
    case True
    then have "fsStrncmp b (p + 9) (str_buf (name @ rest)) 0 (length name) = strcmp_spec (take (length name) nm) (take (length name) (name @ rest))"
      using strncmp_loop_spec [OF c str_buf_cstr [OF assms(2)]] len(3) by (simp add: fsStrncmp_def)
    then show ?thesis using True u by (simp add: len(1) strcmp_spec_0)
  next
    case False
    then show ?thesis by (auto simp: len(1) eq)
  qed
qed

lemma de_search_finds_aux:
  assumes "des_at b p es" "des_at b 0 xs" "p = des_size xs" "dir_block b (xs @ es)" "des_fit (xs @ es)"
    "block_start d" "0 \<notin> set (name @ rest)" "length name \<le> 246" "length es < n" "p \<le> 1792"
  shows "de_search n b p (name @ rest) (of_nat (length name)) (d + of_nat p) = Some (de_lookup name es (d + of_nat p))"
  using assms
proof (induction es arbitrary: p xs n)
  case Nil
  then obtain m where n: "n = Suc m" by (cases n) auto
  have "IS_DIRENT_EMPTY b p" using dir_block_end [of b xs] Nil.prems by simp
  then show ?case using Nil.prems(10) by (simp add: n de_lookup_def)
next
  case (Cons e es)
  obtain m where n: "n = Suc m" "length es < m" using Cons.prems(9) by (cases n) auto
  obtain t i nm where e: "e = (t, i, nm)" by (cases e)
  have at: "de_at b p (t, i, nm)" using Cons.prems(1) by (simp add: e)
  have "p \<le> 1791" using des_fit_split [of xs e es] Cons.prems(3,5) by simp
  then have le: "p + de_size e \<le> 2047" using at by (auto simp: e de_size_def de_at_def)
  have len: "DIRENT_GET_LEN b p = of_nat (de_size e)" and ne: "\<not> IS_DIRENT_EMPTY b p"
    and ino: "DIRENT_GET_INO_NUM b p = i" "DIRENT_GET_TYPE b p = t"
    using at by (auto simp: de_at_def e IS_DIRENT_EMPTY_def)
  have u: "unat (of_nat (de_size e) :: u32) = de_size e" using le by (simp add: unat_of_nat take_bit_nat_eq_self)
  have off: "CALC_OFFSET_IN_FILE_BLOCK (d + of_nat (p + de_size e)) = of_nat (p + de_size e)"
    using Cons.prems(6) le by (simp only: block_start_def)
  have full: "IS_DIRENT_BLOCK_FULL (d + of_nat (p + de_size e)) = (1792 < p + de_size e)"
  proof -
    have "unat (FS_BLOCK_SIZE - of_nat (p + de_size e) :: u32) = 2048 - (p + de_size e)"
    proof -
      have "(FS_BLOCK_SIZE - of_nat (p + de_size e) :: u32) = of_nat (2048 - (p + de_size e))" using le by (simp add: of_nat_diff)
      then show ?thesis by (simp add: unat_of_nat take_bit_nat_eq_self)
    qed
    then show ?thesis using le by (simp only: IS_DIRENT_BLOCK_FULL_def off word_less_nat_alt) (simp, linarith)
  qed
  show ?case
  proof (cases "nm = name")
    case True
    then show ?thesis
      using name_matches [OF at Cons.prems(7,8)] Cons.prems(10) ne by (auto simp: n de_lookup_def e ino)
  next
    case False
    have add: "d + of_nat p + of_nat (de_size e) = d + of_nat (p + de_size e)" by simp
    have rest: "de_search m b (p + de_size e) (name @ rest) (of_nat (length name)) (d + of_nat (p + de_size e)) =
        Some (de_lookup name es (d + of_nat (p + de_size e)))" if "p + de_size e \<le> 1792"
      by (rule Cons.IH [where xs = "xs @ [e]"]) (use Cons.prems n that in \<open>auto simp: des_at_append\<close>)
    have "es = []" if "1792 < p + de_size e"
    proof (cases es)
      case (Cons f fs)
      have "des_size (xs @ [e]) \<le> 1791"
        by (rule des_fit_split [where e = f and ys = fs]) (use Cons.prems(5) Cons in simp)
      then show ?thesis using that Cons.prems(3) by simp
    qed simp
    moreover have "de_search n b p (name @ rest) (of_nat (length name)) (d + of_nat p) =
        (let directoryOffset1 = d + of_nat p + DIRENT_GET_LEN b p in
         if IS_DIRENT_BLOCK_FULL directoryOffset1 then Some (None, directoryOffset1)
         else de_search m b (moveToNextDirentry p (DIRENT_GET_LEN b p)) (name @ rest) (of_nat (length name)) directoryOffset1)"
      using Cons.prems(10) ne
      by (simp only: n de_search.simps name_matches [OF at Cons.prems(7,8)] False assert_c_bind if_False) simp
    ultimately show ?thesis
      using False rest full u
      by (cases "1792 < p + de_size e") (simp_all add: len e moveToNextDirentry_def Let_def de_lookup_def add.assoc)
  qed
qed

section \<open>Room for an entry\<close>

lemma hole_loop_all: "n \<le> i \<Longrightarrow> hole_loop n b i = (\<forall>j. i - n \<le> j \<and> j < i \<longrightarrow> b j \<noteq> 0)"
proof (induction n arbitrary: i)
  case (Suc n)
  then obtain k where k: "i = Suc k" by (cases i) auto
  have "(\<forall>j. k - n \<le> j \<and> j < Suc k \<longrightarrow> b j \<noteq> 0) = (b k \<noteq> 0 \<and> (\<forall>j. k - n \<le> j \<and> j < k \<longrightarrow> b j \<noteq> 0))"
    by (auto simp: less_Suc_eq)
  then show ?case using Suc by (simp add: k)
qed auto

lemma dirents_hole_all: "dirents_hole b = (\<forall>j. 1791 \<le> j \<and> j < 2048 \<longrightarrow> b j \<noteq> 0)"
  unfolding dirents_hole_def by (subst hole_loop_all) simp_all

lemma des_at_end:
  assumes "des_at b p es" "es \<noteq> []"
  shows "b (p + des_size es - 1) = 0"
proof -
  obtain xs t i nm where es: "es = xs @ [(t, i, nm)]" using assms(2) by (cases es rule: rev_cases) auto
  then have "is_cstr b (p + des_size xs + 9) nm" using assms(1) by (simp add: des_at_append de_at_def)
  then show ?thesis by (simp add: es de_size_def is_cstr_def ac_simps)
qed

lemma dirents_hole_size: "dir_block b es \<Longrightarrow> dirents_hole b = (des_size es \<le> 1791)"
proof
  assume d: "dir_block b es" and h: "dirents_hole b"
  show "des_size es \<le> 1791"
  proof (cases "es = []")
    case False
    have "b (des_size es - 1) = 0" using des_at_end [OF _ False, of b 0] d by (simp add: dir_block_def)
    moreover have "des_size es \<le> 2048" using d by (simp add: dir_block_def)
    then have "des_size es - 1 < 2048" by linarith
    ultimately have "\<not> 1791 \<le> des_size es - 1" using h by (auto simp: dirents_hole_all)
    then show ?thesis by simp
  qed simp
next
  assume "dir_block b es" "des_size es \<le> 1791"
  then show "dirents_hole b" by (simp add: dirents_hole_all dir_block_def)
qed

section \<open>Properties\<close>

text \<open>
  C13: when the search for a zero byte finds a hole in a directory block, \<open>setNewDirentry\<close> at the
  end of its entries stays inside the block and appends exactly the new entry to the list the block holds.
\<close>

theorem setNewDirentry_appends:
  assumes "dir_block b es" "dirents_hole b" "0 \<notin> set name" "verifyNameLen (calcNameLen name)" "length name < 2048"
    "f_type < 256" "ino_num \<noteq> INO_NUM_EMPTY"
  shows "\<exists>d. setNewDirentry b (des_size es) ino_num f_type name = Some d \<and>
     dir_block d (es @ [(f_type, ino_num, name)]) \<and> des_fit (es @ [(f_type, ino_num, name)])"
proof -
  have size: "des_size es \<le> 1791" using assms(1,2) by (simp add: dirents_hole_size)
  have "name \<noteq> [] \<and> (of_nat (length name) :: u32) \<le> 246"
    using assms(4) by (auto simp: verifyNameLen_def calcNameLen_length)
  then have "length name \<le> 246" "name \<noteq> []"
    using assms(5) by (auto simp: word_le_nat_alt unat_of_nat take_bit_nat_eq_self)
  then show ?thesis
    using setNewDirentry_appends_aux [OF assms(1,3), of f_type ino_num] assms(6,7) size by (simp add: des_fit_append)
qed

theorem setNewDirentry_appends_witness:
  "\<exists>d. setNewDirentry (\<lambda>_. 0xff) (des_size []) 7 2 [0x61, 0x62] = Some d \<and>
     dir_block d ([] @ [(2, 7, [0x61, 0x62])]) \<and> des_fit ([] @ [(2, 7, [0x61, 0x62])])"
proof (rule setNewDirentry_appends)
  show "dir_block (\<lambda>_. 0xff) []" by (simp add: dir_block_def)
  show "dirents_hole (\<lambda>_. 0xff)" by (simp add: dirents_hole_all)
  show "verifyNameLen (calcNameLen [0x61, 0x62])" by (simp add: verifyNameLen_def word_sless_alt)
qed simp_all

text \<open>
  C14: \<open>deleteDeFromBlock\<close> at an entry removes exactly that entry from the list the block holds: the entries
  behind it move up unchanged and the freed end of the block is erased bytes.
\<close>

theorem deleteDeFromBlock_removes:
  assumes "dir_block b (xs @ e # ys)" "des_fit (xs @ e # ys)"
  shows "\<exists>d. deleteDeFromBlock (DIRENT_GET_LEN b (des_size xs)) (of_nat (des_size xs)) b = Some d \<and>
     dir_block d (xs @ ys) \<and> des_fit (xs @ ys)"
proof -
  have "DIRENT_GET_LEN b (des_size xs) = of_nat (de_size e)"
    using assms(1) by (auto simp: dir_block_def des_at_append de_at_def split: prod.splits)
  then show ?thesis
    using deleteDeFromBlock_removes_aux [OF assms(1)] des_fit_remove [OF assms(2)] by simp
qed

text \<open>A block with the entries \<open>.\<close> and \<open>a\<close>.\<close>

definition two_entries :: buf where
  "two_entries = (\<lambda>i. if i < 23 then [1, 7, 0, 0, 0, 11, 0, 0, 0, 46, 0, 2, 9, 0, 0, 0, 12, 0, 0, 0, 97, 98, 0] ! i else 0xff)"

lemma two_entries_block: "dir_block two_entries ([(1, 7, [46])] @ (2, 9, [97, 98]) # [])"
  by (auto simp: dir_block_def de_at_def de_size_def DIRENT_GET_TYPE_def DIRENT_GET_INO_NUM_def DIRENT_GET_LEN_def
      GET_UINT32_def GET_BYTE_def two_entries_def is_cstr_Cons is_cstr_Nil)

theorem deleteDeFromBlock_removes_witness:
  "\<exists>d. deleteDeFromBlock (DIRENT_GET_LEN two_entries (des_size [(1, 7, [46])])) (of_nat (des_size [(1, 7, [46])])) two_entries = Some d \<and>
     dir_block d ([(1, 7, [46])] @ []) \<and> des_fit ([(1, 7, [46])] @ [])"
  by (rule deleteDeFromBlock_removes [OF two_entries_block]) (simp add: des_fit_def de_size_def)

text \<open>
  C15: the walk over the entries of a block finds the first entry with the name that stands at the start of the
  path, whatever follows the name, and reports the entry's inode, type and directory offset; when no
  entry has the name it reports none and stops at the end of the entries.  It never leaves the block.
\<close>

theorem de_search_finds:
  assumes "dir_block b es" "des_fit es" "block_start d" "0 \<notin> set (name @ rest)" "length name \<le> 246" "length es < n"
  shows "de_search n b 0 (name @ rest) (of_nat (length name)) d = Some (de_lookup name es d)"
  using de_search_finds_aux [of b 0 es "[]" d name rest n] assms by (simp add: dir_block_def)

lemma first_block_start: "block_start INODE_FILE_DATA_SIZE"
  unfolding block_start_def
proof (intro allI impI)
  fix k :: nat
  assume k: "k < 2048"
  have m: "(0x7ff :: u32) = mask 11" by (simp add: mask_eq_exp_minus_1)
  have "INODE_FILE_DATA_SIZE \<le> (INODE_FILE_DATA_SIZE + of_nat k :: u32)"
    using k by (simp add: word_le_nat_alt unat_plus_u32 unat_of_nat take_bit_nat_eq_self)
  moreover have "(of_nat k AND 0x7ff :: u32) = of_nat k"
    unfolding m word_unat_eq_iff unat_mod_word using k by (simp add: unat_of_nat take_bit_nat_eq_self)
  ultimately show "CALC_OFFSET_IN_FILE_BLOCK (INODE_FILE_DATA_SIZE + of_nat k) = of_nat k"
    by (simp add: CALC_OFFSET_IN_FILE_BLOCK_def CALC_OFFSET_IN_BLOCK_def)
qed

theorem de_search_finds_witness:
  "de_search 9 two_entries 0 ([97, 98] @ [47, 99]) (of_nat (length [97 :: u8, 98])) INODE_FILE_DATA_SIZE =
     Some (de_lookup [97, 98] ([(1, 7, [46])] @ (2, 9, [97, 98]) # []) INODE_FILE_DATA_SIZE)"
  by (rule de_search_finds [OF two_entries_block])
    (simp_all only: first_block_start, simp_all add: des_fit_def de_size_def)

text \<open>
  A path name is legal exactly when all its bytes are printable ASCII, and the next separator is as
  far away as the longest prefix without a slash.
\<close>

theorem path_scan_correct:
  "verifyLegalPathname path = (\<forall>c \<in> set path. 0x20 \<le> c \<and> c < 0x80) \<and>
   findNextSeperator path = of_nat (length (takeWhile (\<lambda>c. c \<noteq> 0x2f) path)) \<and> calcNameLen path = of_nat (length path)"
proof -
  have c: "(c < 0x80 \<and> c > 0x1f \<and> isLegalChar c) = (0x20 \<le> c \<and> c < 0x80)" for c :: u8
    by (auto simp: isLegalChar_def illegal_chars_def word_less_nat_alt word_le_nat_alt)
  have "verifyLegalPathname path = (\<forall>c \<in> set path. 0x20 \<le> c \<and> c < 0x80)"
  proof (induction path)
    case (Cons a path)
    then show ?case using c [of a] by auto
  qed simp
  moreover have "findNextSeperator path = of_nat (length (takeWhile (\<lambda>c. c \<noteq> 0x2f) path))"
    by (induction path) (simp_all add: IS_SLASH_def)
  ultimately show ?thesis by (simp add: calcNameLen_length)
qed

theorem path_scan_correct_witness:
  "findNextSeperator [0x61, 0x62, 0x2f, 0x63] = 2 \<and> verifyLegalPathname [0x61, 0x62, 0x2f, 0x63]"
  using path_scan_correct [of "[0x61, 0x62, 0x2f, 0x63]"]
  by (simp del: findNextSeperator.simps verifyLegalPathname.simps calcNameLen.simps)

end
