(* ===== verification/Tables.thy ===== *)
theory Tables
  imports Dirents
begin

text \<open>
  The tables of the file system in memory: open files, vnodes, directory streams and transactions
  (\<^verbatim>\<open>fsUtils.c\<close> and the first part of \<^verbatim>\<open>transactions.c\<close>).  The invariant \<open>tables_ok\<close> counts the references
  of every vnode; \<open>writers_ok\<close> says who may have a file open for writing.
\<close>

unbundle bit_operations_syntax

section \<open>Open files and vnodes\<close>

definition init_file_entry :: "u32 \<Rightarrow> 'z fs_scheme \<Rightarrow> 'z fs_scheme" where
  "init_file_entry fd = upd_file fd (\<lambda>_. \<lparr>f_flags = 0, f_uid = 0, f_offset = 0, f_vnode = VNODE_EMPTY, f_ftype = 0\<rparr>)"

definition init_file_entries :: "'z fs_scheme \<Rightarrow> 'z fs_scheme" where
  "init_file_entries s = fold (\<lambda>i. init_file_entry (of_nat i)) [0..<8] s"

definition init_vnode :: "u32 \<Rightarrow> 'z fs_scheme \<Rightarrow> 'z fs_scheme" where
  "init_vnode v = upd_vnode v (\<lambda>_. \<lparr>v_ino_num = INO_NUM_EMPTY, nReferences = 0\<rparr>)"

definition init_vnodes :: "'z fs_scheme \<Rightarrow> 'z fs_scheme" where
  "init_vnodes s = fold (\<lambda>i. init_vnode (of_nat i)) [0..<6] s"

definition IS_OPEN_FILE_ENTRY_EMPTY :: "u32 \<Rightarrow> 'z fs_scheme \<Rightarrow> bool" where
  "IS_OPEN_FILE_ENTRY_EMPTY fd s = (f_vnode (open_files s fd) = VNODE_EMPTY)"

definition IS_USER_LEGAL :: "u32 \<Rightarrow> 'z fs_scheme \<Rightarrow> bool" where
  "IS_USER_LEGAL fd s = (f_uid (open_files s fd) = current_user s)"

definition GET_FILE_ID_BY_FD :: "u32 \<Rightarrow> 'z fs_scheme \<Rightarrow> u32" where
  "GET_FILE_ID_BY_FD fd s =
     (if IS_OPEN_FILE_ENTRY_EMPTY fd s then INO_NUM_EMPTY else v_ino_num (vnodes s (f_vnode (open_files s fd))))"

definition verifyFd :: "u32 \<Rightarrow> 'z fs_scheme \<Rightarrow> u32" where
  "verifyFd fd s =
     (if \<not> IS_FD_LEGAL fd then -1
      else if IS_OPEN_FILE_ENTRY_EMPTY fd s then -1
      else if \<not> IS_USER_LEGAL fd s then -1
      else 0)"

fun vnode_loop :: "nat list \<Rightarrow> u32 \<Rightarrow> 'z fs_scheme \<Rightarrow> u32" where
  "vnode_loop [] ino_num s = VNODE_EMPTY"
| "vnode_loop (i # is) ino_num s = (if v_ino_num (vnodes s (of_nat i)) = ino_num then of_nat i else vnode_loop is ino_num s)"

definition getVnodeByInodeNum :: "u32 \<Rightarrow> 'z fs_scheme \<Rightarrow> u32" where
  "getVnodeByInodeNum ino_num s = vnode_loop [0..<6] ino_num s"

definition getFreeVnode :: "'z fs_scheme \<Rightarrow> u32" where
  "getFreeVnode s = getVnodeByInodeNum INO_NUM_EMPTY s"

fun free_entry_loop :: "nat list \<Rightarrow> 'z fs_scheme \<Rightarrow> u32" where
  "free_entry_loop [] s = FD_EMPTY"
| "free_entry_loop (i # is) s = (if IS_OPEN_FILE_ENTRY_EMPTY (of_nat i) s then of_nat i else free_entry_loop is s)"

definition getFreeOpenFileEntry :: "'z fs_scheme \<Rightarrow> u32" where
  "getFreeOpenFileEntry s = free_entry_loop [0..<8] s"

fun conflict_loop :: "nat list \<Rightarrow> u32 \<Rightarrow> u32 \<Rightarrow> 'z fs_scheme \<Rightarrow> bool" where
  "conflict_loop [] vnode_idx flags s = False"
| "conflict_loop (i # is) vnode_idx flags s =
     (if f_vnode (open_files s (of_nat i)) \<noteq> vnode_idx then conflict_loop is vnode_idx flags s
      else if IS_RDONLY flags \<and> IS_WRONLY (f_flags (open_files s (of_nat i))) \<and> current_user s \<noteq> f_uid (open_files s (of_nat i))
      then True
      else if IS_WRONLY flags \<and> current_user s \<noteq> f_uid (open_files s (of_nat i)) then True
      else if IS_WRONLY flags \<and> IS_WRONLY (f_flags (open_files s (of_nat i))) then True
      else conflict_loop is vnode_idx flags s)"

definition isFlagsConflict :: "u32 \<Rightarrow> u32 \<Rightarrow> 'z fs_scheme \<Rightarrow> bool" where
  "isFlagsConflict vnode_idx flags s = conflict_loop [0..<8] vnode_idx flags s"

definition setFentry :: "u32 \<Rightarrow> u32 \<Rightarrow> u32 \<Rightarrow> u32 \<Rightarrow> u32 \<Rightarrow> u32 \<Rightarrow> 'z fs_scheme \<Rightarrow> 'z fs_scheme option" where
  "setFentry fd flags offset vnode_idx f_type ino_num s = do {
     assert_c (fd < 8);
     assert_c (VNODE_OK vnode_idx);
     let s1 = upd_file fd (\<lambda>_. \<lparr>f_flags = flags, f_uid = current_user s, f_offset = offset, f_vnode = vnode_idx, f_ftype = f_type\<rparr>) s;
     Some (upd_vnode vnode_idx (\<lambda>v. \<lparr>v_ino_num = ino_num, nReferences = nReferences v + 1\<rparr>) s1)
   }"

fun not_open_loop :: "nat list \<Rightarrow> u32 \<Rightarrow> 'z fs_scheme \<Rightarrow> u32" where
  "not_open_loop [] ino_num s = 0"
| "not_open_loop (i # is) ino_num s =
     (if IS_OPEN_FILE_ENTRY_EMPTY (of_nat i) s then not_open_loop is ino_num s
      else if GET_FILE_ID_BY_FD (of_nat i) s = ino_num then -1
      else not_open_loop is ino_num s)"

definition verifyFileNotOpen :: "u32 \<Rightarrow> 'z fs_scheme \<Rightarrow> u32" where
  "verifyFileNotOpen ino_num s = not_open_loop [0..<8] ino_num s"

text \<open>The end of \<open>closeUtil\<close>: the entry's reference to its vnode goes away.\<close>

definition release_entry :: "u32 \<Rightarrow> 'z fs_scheme \<Rightarrow> 'z fs_scheme" where
  "release_entry fd s =
     (let v = f_vnode (open_files s fd);
          s1 = upd_vnode v (nReferences_update (\<lambda>n. n - 1)) s;
          s2 = (if nReferences (vnodes s1 v) = 0 then init_vnode v s1 else s1)
      in init_file_entry fd s2)"

section \<open>Directory streams\<close>

definition init_dirstream :: "u32 \<Rightarrow> 'z fs_scheme \<Rightarrow> 'z fs_scheme option" where
  "init_dirstream d s = do {
     assert_c (DS_OK d);
     let fd = ds_fd (dirstreams s d);
     s1 \<leftarrow> (if fd \<noteq> FD_EMPTY then do {
         assert_c (fd < 8);
         let v = f_vnode (open_files s fd);
         assert_c (VNODE_OK v);
         Some (init_file_entry fd (if nReferences (vnodes s v) = 1 then init_vnode v s
           else upd_vnode v (nReferences_update (\<lambda>n. n - 1)) s))
       } else Some s);
     Some (upd_ds d (\<lambda>_. \<lparr>ds_fd = 0xffffffff, ds_ino_addr = init_logical_address,
       ds_de = init_struct (ds_de (dirstreams s d)) 0 256\<rparr>) s1)
   }"

definition init_distreams :: "'z fs_scheme \<Rightarrow> 'z fs_scheme option" where
  "init_distreams s = do { s1 \<leftarrow> init_dirstream 0 s; init_dirstream 1 s1 }"

definition IS_DIRSTREAM_EMPTY :: "u32 \<Rightarrow> 'z fs_scheme \<Rightarrow> bool" where
  "IS_DIRSTREAM_EMPTY d s = IS_NEGATIVE (ds_fd (dirstreams s d))"

fun free_ds_loop :: "nat list \<Rightarrow> 'z fs_scheme \<Rightarrow> u32" where
  "free_ds_loop [] s = DS_ID_EMPTY"
| "free_ds_loop (i # is) s = (if IS_DIRSTREAM_EMPTY (of_nat i) s then of_nat i else free_ds_loop is s)"

definition getFreeDirstreamId :: "'z fs_scheme \<Rightarrow> u32" where
  "getFreeDirstreamId s = free_ds_loop [0..<2] s"

text \<open>A stream is given by its number, the null pointer by \<open>None\<close>.\<close>

definition verifyDirstream :: "u32 option \<Rightarrow> 'z fs_scheme \<Rightarrow> bool" where
  "verifyDirstream ds s =
     (case ds of None \<Rightarrow> False
      | Some d \<Rightarrow> (if IS_DIRSTREAM_EMPTY d s then False
                   else if \<not> IS_USER_LEGAL (ds_fd (dirstreams s d)) s then False else True))"

definition setDirstreamDirEntry :: "u32 \<Rightarrow> buf \<Rightarrow> nat \<Rightarrow> u32 \<Rightarrow> 'z fs_scheme \<Rightarrow> 'z fs_scheme" where
  "setDirstreamDirEntry d b p offset s =
     (let s1 = upd_ds d (\<lambda>x. x\<lparr>ds_de := fsMemcpy (ds_de x) 0 b p 256\<rparr>) s
      in upd_file (ds_fd (dirstreams s1 d)) (f_offset_update (\<lambda>_. offset + DIRENT_GET_LEN b p)) s1)"

section \<open>Transactions\<close>

definition IS_TRANSACTION_EMPTY :: "u32 \<Rightarrow> 'z fs_scheme \<Rightarrow> bool" where
  "IS_TRANSACTION_EMPTY tid s = (tid \<noteq> TID_EMPTY \<and> t_ino_num (transactions s tid) = INO_NUM_EMPTY)"

definition IS_WRITE_PEMITTED :: "u32 \<Rightarrow> 'z fs_scheme \<Rightarrow> bool" where
  "IS_WRITE_PEMITTED tid s = (t_type (transactions s tid) = T_TYPE_UNLINK \<or> t_type (transactions s tid) = T_TYPE_TEMP)"

definition IS_INDIRECT_INODE :: "u32 \<Rightarrow> 'z fs_scheme \<Rightarrow> bool" where
  "IS_INDIRECT_INODE tid s = (t_fileOffset (transactions s tid) = 0)"

definition IS_INDIRECT_EMPTY :: "u32 \<Rightarrow> 'z fs_scheme \<Rightarrow> bool" where
  "IS_INDIRECT_EMPTY tid s = IS_NEGATIVE (t_fileOffset (transactions s tid))"

definition IS_WRITES_PERFORMED :: "u32 \<Rightarrow> 'z fs_scheme \<Rightarrow> bool" where
  "IS_WRITES_PERFORMED tid s = (maxWrittenOffset (transactions s tid) \<noteq> 0)"

definition IS_SPARSE_FILE :: "u32 \<Rightarrow> 'z fs_scheme \<Rightarrow> bool" where
  "IS_SPARSE_FILE tid s = (t_ino_num (transactions s tid) = 0 \<or> IS_DIRECTORY (t_f_type (transactions s tid)))"

definition IS_VOTS_BUF_EMPTY :: "u32 \<Rightarrow> 'z fs_scheme \<Rightarrow> bool" where
  "IS_VOTS_BUF_EMPTY tid s = IS_ADDR_EMPTY (addr_at (vots_buf (transactions s tid)) 0)"

fun tid_loop :: "nat list \<Rightarrow> u32 \<Rightarrow> 'z fs_scheme \<Rightarrow> u32" where
  "tid_loop [] ino_num s = TID_EMPTY"
| "tid_loop (i # is) ino_num s = (if t_ino_num (transactions s (of_nat i)) = ino_num then of_nat i else tid_loop is ino_num s)"

definition findTidByFileId :: "u32 \<Rightarrow> 'z fs_scheme \<Rightarrow> u32" where
  "findTidByFileId ino_num s = tid_loop [0..<2] ino_num s"

fun free_tid_loop :: "nat list \<Rightarrow> 'z fs_scheme \<Rightarrow> u32" where
  "free_tid_loop [] s = TID_EMPTY"
| "free_tid_loop (i # is) s = (if IS_TRANSACTION_EMPTY (of_nat i) s then of_nat i else free_tid_loop is s)"

definition getFreeTransactionId :: "'z fs_scheme \<Rightarrow> u32" where
  "getFreeTransactionId s = free_tid_loop [0..<2] s"

definition init_transaction :: "u32 \<Rightarrow> 'z fs_scheme \<Rightarrow> 'z fs_scheme" where
  "init_transaction tid = upd_tr tid (\<lambda>t. t\<lparr>t_type := T_TYPE_EMPTY, t_f_type := 0, prev_log_addr := init_logical_address,
     ino_log_addr := init_logical_address, t_fileSize := -1, t_fileOffset := -1, vots_count := 0, vots_buf_offset := 0,
     maxWrittenOffset := 0, newBlocksallocated := 0, t_ino_num := INO_NUM_EMPTY, wasCommited := False, isCommiting := False,
     vots_buf := init_struct (vots_buf t) 0 2048, data_buf := init_struct (data_buf t) 0 2048,
     indirect_buf := init_struct (indirect_buf t) 0 2048\<rparr>)"

definition init_transactions :: "'z fs_scheme \<Rightarrow> 'z fs_scheme" where
  "init_transactions s = fold (\<lambda>i. init_transaction (of_nat i)) [0..<2] s"

definition initWriteFields :: "u32 \<Rightarrow> 'z fs_scheme \<Rightarrow> 'z fs_scheme" where
  "initWriteFields tid = upd_tr tid (newBlocksallocated_update (\<lambda>_. 0))"

text \<open>The file's size and number of blocks, brought up to date in the buffer of its inode.\<close>

definition changeFileSize :: "u32 \<Rightarrow> buf \<Rightarrow> 'z fs_scheme \<Rightarrow> buf" where
  "changeFileSize tid ino_buf s =
     (if tid = TID_EMPTY then ino_buf
      else (let indirect_max_offset = t_fileOffset (transactions s tid) + maxWrittenOffset (transactions s tid);
                old_nblocks = INODE_GET_NBLOCKS ino_buf in
        if \<not> IS_WRITES_PERFORMED tid s then ino_buf
        else (let b = INODE_SET_NBLOCKS ino_buf (old_nblocks + newBlocksallocated (transactions s tid)) in
          if indirect_max_offset > INODE_GET_NBYTES b then INODE_SET_NBYTES b indirect_max_offset else b)))"

definition changeTransactionMaxOffset :: "u32 \<Rightarrow> u32 \<Rightarrow> 'z fs_scheme \<Rightarrow> 'z fs_scheme" where
  "changeTransactionMaxOffset tid maxOffset s =
     (if maxOffset > maxWrittenOffset (transactions s tid) then upd_tr tid (maxWrittenOffset_update (\<lambda>_. maxOffset)) s else s)"

definition calcIndirectBlockOffset :: "u32 \<Rightarrow> u32" where
  "calcIndirectBlockOffset fileBlockOffset =
     (if fileBlockOffset < INDIRECT_DATA_OFFSET then 0
      else fileBlockOffset - CALC_OFFSET_IN_INDIRECT_SIZE (fileBlockOffset - INDIRECT_DATA_OFFSET))"

definition setIndirectOffset :: "u32 \<Rightarrow> u32 \<Rightarrow> 'z fs_scheme \<Rightarrow> 'z fs_scheme" where
  "setIndirectOffset offset tid = upd_tr tid (t_fileOffset_update (\<lambda>_. calcIndirectBlockOffset offset))"

definition isOffsetInIndirect :: "u32 \<Rightarrow> u32 \<Rightarrow> 'z fs_scheme \<Rightarrow> bool" where
  "isOffsetInIndirect offset tid s =
     (if IS_INDIRECT_EMPTY tid s then False
      else (let margin = offset - t_fileOffset (transactions s tid) in
        if IS_INDIRECT_INODE tid s then offset < INDIRECT_DATA_OFFSET
        else 0 \<le>s margin \<and> margin < INODE_INDIRECT_DATA_SIZE))"

definition TRANSACTION_CALC_FILE_SIZE :: "u32 \<Rightarrow> 'z fs_scheme \<Rightarrow> 'z fs_scheme" where
  "TRANSACTION_CALC_FILE_SIZE tid s =
     (let end_offset = t_fileOffset (transactions s tid) + maxWrittenOffset (transactions s tid) in
      if end_offset > t_fileSize (transactions s tid) then upd_tr tid (t_fileSize_update (\<lambda>_. end_offset)) s else s)"

section \<open>A state for examples\<close>

text \<open>A mounted file system without open files, on the blank chip.\<close>

definition blank_fs :: fs where
  "blank_fs = seq.extend blank_seq \<lparr>FS_CACHE_BUFFERS = 0,
     caches = (\<lambda>_. \<lparr>c_indirect_leaf = 0, c_voted = 0, c_ref_count = 0, c_parent_cid = CACHE_ID_EMPTY,
       c_parent_offset = CACHE_ENTRY_OFFSET_EMPTY, c_less_recent = CACHE_ID_EMPTY, c_more_recent = CACHE_ID_EMPTY,
       c_tid = TID_EMPTY, c_dirty = 0xff, c_addr = init_logical_address, c_buf = (\<lambda>_. 0xff)\<rparr>),
     lru_cid = CACHE_ID_EMPTY, mru_cid = CACHE_ID_EMPTY, dirty_count = 0,
     transactions = (\<lambda>_. \<lparr>t_type = T_TYPE_EMPTY, t_f_type = 0, wasCommited = False, isCommiting = False,
       t_ino_num = INO_NUM_EMPTY, prev_log_addr = init_logical_address, data_buf = (\<lambda>_. 0xff), vots_count = 0,
       vots_buf_offset = 0, vots_buf = (\<lambda>_. 0xff), ino_log_addr = init_logical_address, maxWrittenOffset = 0,
       newBlocksallocated = 0, t_fileSize = -1, t_fileOffset = -1, indirect_buf = (\<lambda>_. 0xff),
       t_parent_cid = 0, t_parent_offset = 0, t_is_voted = 0\<rparr>),
     vnodes = (\<lambda>_. \<lparr>v_ino_num = INO_NUM_EMPTY, nReferences = 0\<rparr>),
     open_files = (\<lambda>_. \<lparr>f_flags = 0, f_uid = 0, f_offset = 0, f_vnode = VNODE_EMPTY, f_ftype = 0\<rparr>),
     dirstreams = (\<lambda>_. \<lparr>ds_fd = FD_EMPTY, ds_ino_addr = init_logical_address, ds_de = (\<lambda>_. 0xff)\<rparr>),
     fs_bytes = (\<lambda>_. 0xff), fs_mutex = 0, fs_buffer = (\<lambda>_. 0xff), current_user = 1\<rparr>"

lemma blank_fs_sel [simp]:
  "FS_CACHE_BUFFERS blank_fs = 0" "lru_cid blank_fs = CACHE_ID_EMPTY" "mru_cid blank_fs = CACHE_ID_EMPTY"
  "c_ref_count (caches blank_fs c) = 0" "c_indirect_leaf (caches blank_fs c) = 0" "c_addr (caches blank_fs c) = init_logical_address"
  "c_more_recent (caches blank_fs c) = CACHE_ID_EMPTY" "c_less_recent (caches blank_fs c) = CACHE_ID_EMPTY"
  "t_ino_num (transactions blank_fs t) = INO_NUM_EMPTY" "t_fileOffset (transactions blank_fs t) = -1"
  "maxWrittenOffset (transactions blank_fs t) = 0"
  "v_ino_num (vnodes blank_fs v) = INO_NUM_EMPTY" "nReferences (vnodes blank_fs v) = 0"
  "f_vnode (open_files blank_fs fd) = VNODE_EMPTY" "f_flags (open_files blank_fs fd) = 0" "f_uid (open_files blank_fs fd) = 0"
  "ds_fd (dirstreams blank_fs d) = FD_EMPTY" "fs_mutex blank_fs = 0" "current_user blank_fs = 1"
  by (simp_all add: blank_fs_def blank_seq_def blank_chip_def nand.extend_def seq.extend_def)

end
