(* ===== verification/Cache.thy ===== *)
theory Cache
  imports Tables
begin

text \<open>
  The cache of file-system blocks (\<^verbatim>\<open>NANDFS/src/fs/cache.c\<close>), with the two functions of the transaction
  layer it writes through: the checkpoint writer and \<open>allocAndWriteBlockTid_actualWrite\<close>.  The blocks in
  use form a list from the most to the least recently used one, linked in both directions.
\<close>

unbundle bit_operations_syntax

section \<open>The checkpoint writer and the write of a block\<close>

lemma commit_one_page: "n < 1776 \<Longrightarrow> commit w data n h s = commit w' data n h s"
  by (simp add: commit_def allocAndWriteBlock_def Let_def cong: if_cong)

definition record_open_tids :: "'z fs_scheme \<Rightarrow> 'z fs_scheme" where
  "record_open_tids s = fold (\<lambda>i s. FS_SET_TID_LAST_WRITTEN_ADDR i (prev_log_addr (transactions s (of_nat i)))
     (FS_SET_TID_LAST_WRITTEN_ADDR i init_logical_address s)) [0..<2] s"

text \<open>\<open>commit\<close> gets the checkpoint writer as a function pointer, for the segment changes while a checkpoint
  of several pages is written.  The checkpoint of the file system is one page, so the pointer is never
  followed (lemma \<open>commit_one_page\<close>): the model hands over a function that stops.\<close>

definition fsCheckpointWriter :: "bool \<Rightarrow> 'z fs_scheme \<Rightarrow> (int \<times> 'z fs_scheme) option" where
  "fsCheckpointWriter isPartOfHeader s = do {
     let s1 = record_open_tids s;
     (e, s2) \<leftarrow> commit (\<lambda>_ _. None) (fs_bytes s1) 16 isPartOfHeader s1;
     Some (if e \<noteq> 0 then 1 else 0, s2)
   }"

definition allocAndWriteBlockTid_actualWrite ::
  "addr_ref \<Rightarrow> buf \<Rightarrow> bool \<Rightarrow> u32 \<Rightarrow> 'z fs_scheme \<Rightarrow> (u32 \<times> addr_ref \<times> 'z fs_scheme) option" where
  "allocAndWriteBlockTid_actualWrite r data is_data_vots tid s = do {
     assert_c (TID_OK tid);
     (e, la, _, s1) \<leftarrow> allocAndWriteBlock (deref r s) (\<lambda>a s. snd (assign r a s)) data is_data_vots
        (prev_log_addr (transactions s tid)) False fsCheckpointWriter 0 s;
     let r1 = (case r of Local _ \<Rightarrow> Local la | _ \<Rightarrow> r);
     if e \<noteq> 0 then Some (FS_ERROR_IO, r1, s1)
     else Some (0, r1, upd_tr tid (prev_log_addr_update (\<lambda>_. la)) s1)
   }"

section \<open>Cache blocks\<close>

abbreviation (input) CACHE_MAGIC_SEG :: u32 where "CACHE_MAGIC_SEG \<equiv> 0xffe"

definition IS_CACHED_ADDR :: "logical_addr \<Rightarrow> bool" where "IS_CACHED_ADDR a = (GET_LOGICAL_SEGMENT a = CACHE_MAGIC_SEG)"

definition CACHE_IS_DIRTY :: "u32 \<Rightarrow> 'z fs_scheme \<Rightarrow> bool" where "CACHE_IS_DIRTY cid s = (c_dirty (caches s cid) = 0)"

definition IS_CACHE_FREE :: "u32 \<Rightarrow> 'z fs_scheme \<Rightarrow> bool" where
  "IS_CACHE_FREE cid s = (\<not> CACHE_IS_DIRTY cid s \<and> IS_ADDR_EMPTY (c_addr (caches s cid)))"

definition CACHE_SET_PARENT_FIELDS :: "u32 \<Rightarrow> logical_addr \<Rightarrow> 'z fs_scheme \<Rightarrow> 'z fs_scheme option" where
  "CACHE_SET_PARENT_FIELDS cid a s =
     (if IS_CACHED_ADDR a then do {
        assert_c (CID_OK (GET_LOGICAL_OFFSET a) s);
        Some (upd_cache (GET_LOGICAL_OFFSET a) (c_parent_cid_update (\<lambda>_. cid))
          (upd_cache cid (c_ref_count_update (\<lambda>n. n + 1)) s))
      } else Some s)"

definition cache_init_by_cid :: "u32 \<Rightarrow> 'z fs_scheme \<Rightarrow> 'z fs_scheme" where
  "cache_init_by_cid cid = upd_cache cid (\<lambda>c. \<lparr>c_indirect_leaf = 0, c_voted = 0, c_ref_count = 0, c_parent_cid = CACHE_ID_EMPTY,
     c_parent_offset = CACHE_ENTRY_OFFSET_EMPTY, c_less_recent = CACHE_ID_EMPTY, c_more_recent = CACHE_ID_EMPTY,
     c_tid = TID_EMPTY, c_dirty = 0xff, c_addr = init_logical_address, c_buf = init_struct (c_buf c) 0 2048\<rparr>)"

definition cache_init_lru_q :: "'z fs_scheme \<Rightarrow> 'z fs_scheme" where
  "cache_init_lru_q s =
     (fold (\<lambda>i. cache_init_by_cid (of_nat i)) [0..<unat (FS_CACHE_BUFFERS s)] s)
       \<lparr>mru_cid := CACHE_ID_EMPTY, lru_cid := CACHE_ID_EMPTY, dirty_count := 0\<rparr>"

fun real_addr_loop :: "nat \<Rightarrow> u32 \<Rightarrow> logical_addr \<Rightarrow> 'z fs_scheme \<Rightarrow> u32 option" where
  "real_addr_loop 0 cid a s = None"
| "real_addr_loop (Suc n) cid a s =
     (if cid = CACHE_ID_EMPTY then Some CACHE_ID_EMPTY
      else do {
        assert_c (CID_OK cid s);
        if COMPARE_ADDR (c_addr (caches s cid)) a then Some cid
        else real_addr_loop n (c_less_recent (caches s cid)) a s
      })"

definition cache_get_cid_by_real_addr :: "logical_addr \<Rightarrow> 'z fs_scheme \<Rightarrow> u32 option" where
  "cache_get_cid_by_real_addr a s =
     (if IS_ADDRESS_EMPTY a then Some CACHE_ID_EMPTY
      else real_addr_loop (unat (FS_CACHE_BUFFERS s) + 1) (mru_cid s) a s)"

definition cache_remove_from_lru :: "u32 \<Rightarrow> 'z fs_scheme \<Rightarrow> (u32 \<times> 'z fs_scheme) option" where
  "cache_remove_from_lru cid s = do {
     assert_c (CID_OK cid s);
     let more = c_more_recent (caches s cid);
     assert_c (more = CACHE_ID_EMPTY \<or> CID_OK more s);
     let s1 = (if more \<noteq> CACHE_ID_EMPTY
               then upd_cache more (c_less_recent_update (\<lambda>_. c_less_recent (caches s cid))) s else s);
     let less = c_less_recent (caches s1 cid);
     assert_c (less = CACHE_ID_EMPTY \<or> CID_OK less s);
     let s2 = (if less \<noteq> CACHE_ID_EMPTY
               then upd_cache less (c_more_recent_update (\<lambda>_. c_more_recent (caches s1 cid))) s1 else s1);
     let s3 = (if lru_cid s2 = cid then
         (if c_less_recent (caches s2 cid) = CACHE_ID_EMPTY then s2\<lparr>lru_cid := c_more_recent (caches s2 cid)\<rparr>
          else s2\<lparr>lru_cid := c_less_recent (caches s2 cid)\<rparr>) else s2);
     let s4 = (if mru_cid s3 = cid then
         (if c_more_recent (caches s3 cid) = CACHE_ID_EMPTY then s3\<lparr>mru_cid := c_less_recent (caches s3 cid)\<rparr>
          else s3\<lparr>mru_cid := c_more_recent (caches s3 cid)\<rparr>) else s3);
     Some (1, upd_cache cid (\<lambda>c. c\<lparr>c_more_recent := CACHE_ID_EMPTY, c_less_recent := CACHE_ID_EMPTY\<rparr>) s4)
   }"

definition cache_insert_to_lru :: "u32 \<Rightarrow> 'z fs_scheme \<Rightarrow> (u32 \<times> 'z fs_scheme) option" where
  "cache_insert_to_lru cid s = (let old_mru_cid = mru_cid s in
     if old_mru_cid = CACHE_ID_EMPTY then Some (0, s\<lparr>mru_cid := cid, lru_cid := cid\<rparr>)
     else do {
       assert_c (CID_OK cid s \<and> CID_OK old_mru_cid s);
       if c_more_recent (caches s old_mru_cid) \<noteq> CACHE_ID_EMPTY then Some (FS_ERROR_CRITICAL, s)
       else (let s1 = upd_cache cid (c_less_recent_update (\<lambda>_. old_mru_cid)) s;
                 s2 = upd_cache old_mru_cid (c_more_recent_update (\<lambda>_. cid)) s1
             in Some (0, s2\<lparr>mru_cid := cid\<rparr>))
     })"

definition cache_free_by_real_addr :: "logical_addr \<Rightarrow> 'z fs_scheme \<Rightarrow> (u32 \<times> 'z fs_scheme) option" where
  "cache_free_by_real_addr a s = do {
     cid \<leftarrow> cache_get_cid_by_real_addr a s;
     if cid = CACHE_ID_EMPTY then Some (0, s)
     else if \<not> CACHE_IS_DIRTY cid s then do {
       (ok, s1) \<leftarrow> cache_remove_from_lru cid s;
       if ok = 0 then Some (FS_ERROR_CRITICAL, s1) else Some (0, cache_init_by_cid cid s1)
     } else Some (FS_ERROR_FREEING_DIRTY_CACHE, s)
   }"

text \<open>The walk that takes the children of a freed block away from it.\<close>

fun orphan_loop :: "nat \<Rightarrow> u32 \<Rightarrow> u32 \<Rightarrow> 'z fs_scheme \<Rightarrow> 'z fs_scheme option" where
  "orphan_loop 0 i cid s = None"
| "orphan_loop (Suc n) i cid s =
     (if i = CACHE_ID_EMPTY then Some s
      else do {
        assert_c (CID_OK i s);
        let s1 = (if c_parent_cid (caches s i) = cid then upd_cache i (c_parent_cid_update (\<lambda>_. CACHE_ID_EMPTY)) s else s);
        orphan_loop n (c_less_recent (caches s1 i)) cid s1
      })"

text \<open>Is the inode address of the transaction of a cache block the block itself?\<close>

definition is_cached_inode :: "u32 \<Rightarrow> 'z fs_scheme \<Rightarrow> bool" where
  "is_cached_inode cid s = (let a = ino_log_addr (transactions s (c_tid (caches s cid))) in
     IS_CACHED_ADDR a \<and> GET_LOGICAL_OFFSET a = cid)"

definition cache_force_free_cache :: "u32 \<Rightarrow> 'z fs_scheme \<Rightarrow> (u32 \<times> 'z fs_scheme) option" where
  "cache_force_free_cache cid s =
     (if cid = CACHE_ID_EMPTY then Some (FS_ERROR_CRITICAL, s)
      else do {
        assert_c (CID_OK cid s);
        let parent = c_parent_cid (caches s cid);
        s1 \<leftarrow> (if parent \<noteq> CACHE_ID_EMPTY then do {
            assert_c (CID_OK parent s \<and> c_parent_offset (caches s cid) < 512);
            Some (upd_cache parent (c_buf_update (\<lambda>b. BLOCK_SET_INDEX b (unat (c_parent_offset (caches s cid))) (c_addr (caches s cid)))) s)
          } else Some s);
        assert_c (TID_OK (c_tid (caches s1 cid)));
        let s2 = (if is_cached_inode cid s1
                  then upd_tr (c_tid (caches s1 cid)) (ino_log_addr_update (\<lambda>_. c_addr (caches s1 cid))) s1 else s1);
        (ok, s3) \<leftarrow> cache_remove_from_lru cid s2;
        if ok = 0 then Some (FS_ERROR_CRITICAL, s3)
        else do {
          let s4 = (if CACHE_IS_DIRTY cid s3 then s3\<lparr>dirty_count := dirty_count s3 - 1\<rparr> else s3);
          let s5 = cache_init_by_cid cid s4;
          s6 \<leftarrow> orphan_loop (unat (FS_CACHE_BUFFERS s) + 1) (mru_cid s5) cid s5;
          Some (0, s6)
        }
      })"

fun lru_loop :: "nat \<Rightarrow> u32 \<Rightarrow> u32 \<Rightarrow> 'z fs_scheme \<Rightarrow> u32 option" where
  "lru_loop 0 except_cid i s = None"
| "lru_loop (Suc n) except_cid i s = do {
     assert_c (CID_OK i s);
     if 0 <s c_ref_count (caches s i) \<or> except_cid = i \<or> c_indirect_leaf (caches s i) \<noteq> 0 then
       (let i1 = c_more_recent (caches s i) in
        if i1 = CACHE_ID_EMPTY then Some i1 else lru_loop n except_cid i1 s)
     else Some i
   }"

definition cache_get_lru_cid :: "u32 \<Rightarrow> 'z fs_scheme \<Rightarrow> u32 option" where
  "cache_get_lru_cid except_cid s =
     (if lru_cid s = CACHE_ID_EMPTY then Some CACHE_ID_EMPTY
      else lru_loop (unat (FS_CACHE_BUFFERS s) + 1) except_cid (lru_cid s) s)"

section \<open>Flushing\<close>

text \<open>The first entry of a block of addresses, from \<open>i\<close> on, that is the cache block \<open>cid\<close>.\<close>

fun entry_loop :: "nat list \<Rightarrow> u32 \<Rightarrow> buf \<Rightarrow> nat option" where
  "entry_loop [] cid b = None"
| "entry_loop (i # is) cid b =
     (if IS_CACHED_ADDR (BLOCK_GET_INDEX b i) \<and> GET_LOGICAL_OFFSET (BLOCK_GET_INDEX b i) = cid then Some i
      else entry_loop is cid b)"

definition cache_fix_block_dependencies :: "u32 \<Rightarrow> logical_addr \<Rightarrow> 'z fs_scheme \<Rightarrow> (u32 \<times> 'z fs_scheme) option" where
  "cache_fix_block_dependencies cid new_real s = do {
     assert_c (CID_OK cid s);
     let parent = c_parent_cid (caches s cid);
     let pos = unat (c_parent_offset (caches s cid));
     if parent \<noteq> CACHE_ID_EMPTY then do {
       assert_c (CID_OK parent s \<and> pos < 512);
       let s1 = upd_cache parent (c_buf_update (\<lambda>b.
           BLOCK_SET_INDEX b pos (copyTruncatedLogicalAddress (BLOCK_GET_INDEX b pos) new_real))) s;
       if c_ref_count (caches s1 parent) = 0 then Some (FS_ERROR_DEC_ZERO_REF_COUNT, s1)
       else Some (0, upd_cache parent (c_ref_count_update (\<lambda>n. n - 1)) s1)
     }
     else do {
       let tid = c_tid (caches s cid);
       assert_c (TID_OK tid);
       if is_cached_inode cid s then
         Some (0, upd_tr tid (ino_log_addr_update (\<lambda>a. copyTruncatedLogicalAddress a new_real)) s)
       else if c_parent_offset (caches s cid) \<noteq> CACHE_ENTRY_OFFSET_EMPTY then
         (case entry_loop (if \<not> IS_INDIRECT_INODE tid s then [0..<512] else [499..<512]) cid (indirect_buf (transactions s tid)) of
            None \<Rightarrow> Some (0, s)
          | Some i \<Rightarrow> Some (0, upd_tr tid (indirect_buf_update (\<lambda>b.
              BLOCK_SET_INDEX b i (copyTruncatedLogicalAddress (BLOCK_GET_INDEX b i) new_real))) s))
       else Some (0, s)
     }
   }"

definition cache_flush_cache :: "u32 \<Rightarrow> logical_addr \<Rightarrow> 'z fs_scheme \<Rightarrow> (u32 \<times> logical_addr \<times> 'z fs_scheme) option" where
  "cache_flush_cache cid log_addr s =
     (if FS_CACHE_BUFFERS s \<le>s cid then Some (FS_ERROR_ILLEGAL_CID, log_addr, s)
      else do {
        assert_c (CID_OK cid s);
        if 0 <s c_ref_count (caches s cid) then Some (FS_ERROR_NONZERO_REF_COUNT, log_addr, s)
        else if IS_CACHE_FREE cid s then Some (0, log_addr, s)
        else do {
          (e, la, s1) \<leftarrow> (if CACHE_IS_DIRTY cid s then do {
              (e1, r, s1) \<leftarrow> allocAndWriteBlockTid_actualWrite (Local log_addr) (c_buf (caches s cid)) False (c_tid (caches s cid)) s;
              if e1 \<noteq> 0 then Some (e1, deref r s1, s1)
              else do { (e2, s2) \<leftarrow> cache_fix_block_dependencies cid (deref r s1) s1; Some (e2, deref r s1, s2) }
            } else Some (0, log_addr, s));
          if e \<noteq> 0 then Some (e, la, s1)
          else do {
            let s2 = (if CACHE_IS_DIRTY cid s1 then s1\<lparr>dirty_count := dirty_count s1 - 1\<rparr> else s1);
            (ok, s3) \<leftarrow> cache_remove_from_lru cid s2;
            if ok = 0 then Some (FS_ERROR_CRITICAL, la, s3) else Some (0, la, cache_init_by_cid cid s3)
          }
        }
      })"

fun free_cache_loop :: "nat list \<Rightarrow> 'z fs_scheme \<Rightarrow> u32 option" where
  "free_cache_loop [] s = None"
| "free_cache_loop (i # is) s = (if IS_CACHE_FREE (of_nat i) s then Some (of_nat i) else free_cache_loop is s)"

text \<open>The result is a cache block or a negative error.  The address given to the flush is an uninitialised local.\<close>

definition cache_get_free_cache_id :: "'z fs_scheme \<Rightarrow> (u32 \<times> 'z fs_scheme) option" where
  "cache_get_free_cache_id s =
     (case free_cache_loop [0..<unat (FS_CACHE_BUFFERS s)] s of
        Some i \<Rightarrow> Some (i, s)
      | None \<Rightarrow> do {
          victim \<leftarrow> cache_get_lru_cid CACHE_ID_EMPTY s;
          if victim = CACHE_ID_EMPTY then Some (FS_ERROR_CRITICAL, s)
          else do {
            (e, _, s1) \<leftarrow> cache_flush_cache victim (addr_at (junk s) 0) s;
            Some (if e \<noteq> 0 then e else victim, s1)
          }
        })"

definition cache_get_cid_by_addr :: "logical_addr \<Rightarrow> 'z fs_scheme \<Rightarrow> u32 option" where
  "cache_get_cid_by_addr old_addr s =
     (if IS_CACHED_ADDR old_addr then Some (GET_LOGICAL_OFFSET old_addr)
      else if \<not> IS_ADDR_EMPTY old_addr then cache_get_cid_by_real_addr old_addr s
      else Some CACHE_ID_EMPTY)"

fun parent_loop :: "logical_addr list \<Rightarrow> u32 \<Rightarrow> 'z fs_scheme \<Rightarrow> 'z fs_scheme option" where
  "parent_loop [] cid s = Some s"
| "parent_loop (a # as) cid s = do { s1 \<leftarrow> CACHE_SET_PARENT_FIELDS cid a s; parent_loop as cid s1 }"

definition cache_set_write_buffer :: "u32 \<Rightarrow> buf \<Rightarrow> u32 \<Rightarrow> 'z fs_scheme \<Rightarrow> 'z fs_scheme option" where
  "cache_set_write_buffer cid b data_type s = do {
     let s1 = upd_cache cid (\<lambda>c. c\<lparr>c_buf := fsMemcpy (c_buf c) 0 b 0 2048, c_ref_count := 0\<rparr>) s;
     s2 \<leftarrow> (if data_type = DATA_TYPE_INODE then
          parent_loop (map (INODE_GET_DIRECT b) [0..<10] @ [INODE_GET_INDIRECT b, INODE_GET_DOUBLE b, INODE_GET_TRIPLE b]) cid s1
        else if data_type = DATA_TYPE_ENTRIES then parent_loop (map (BLOCK_GET_INDEX b) [0..<512]) cid s1
        else Some s1);
     Some (if IS_ADDR_EMPTY (c_addr (caches s2 cid)) then upd_cache cid (c_voted_update (\<lambda>_. 0)) s2 else s2)
   }"

text \<open>Reading or writing a block through the cache; \<open>b\<close> is the caller's buffer, \<open>r\<close> the pointer to the address.\<close>

definition cache_access_cache ::
  "buf_ref \<Rightarrow> addr_ref \<Rightarrow> u32 \<Rightarrow> u32 \<Rightarrow> u32 \<Rightarrow> bool \<Rightarrow> 'z fs_scheme \<Rightarrow> (u32 \<times> addr_ref \<times> 'z fs_scheme) option" where
  "cache_access_cache b r parent_offset tid data_type is_write s = do {
     cid \<leftarrow> cache_get_cid_by_addr (deref r s) s;
     if cid <s 0 \<and> cid \<noteq> CACHE_ID_EMPTY then Some (cid, r, s)
     else do {
       let new_addr = setLogicalSegment init_logical_address CACHE_MAGIC_SEG;
       (e, hit, cid1, s1) \<leftarrow> (if cid = CACHE_ID_EMPTY then do {
            (c, s1) \<leftarrow> cache_get_free_cache_id s;
            if c = CACHE_ID_EMPTY \<or> c <s 0 then Some (FS_ERROR_FREE_CACHE_ACQUIREMENT, False, c, s1)
            else if \<not> is_write then do {
              assert_c (CID_OK c s1);
              (e, d, s2) \<leftarrow> readBlock (deref r s1) (c_buf (caches s1 c)) s1;
              let s3 = upd_cache c (c_buf_update (\<lambda>_. d)) s2;
              Some (if e \<noteq> 0 then FS_ERROR_IO else 0, False, c, s3)
            } else Some (0, False, c, s1)
          } else do {
            assert_c (CID_OK cid s);
            if IS_CACHED_ADDR (deref r s) \<and> GET_LOGICAL_OFFSET (deref r s) \<noteq> cid then Some (FS_ERROR_CRITICAL, True, cid, s)
            else Some (0, True, cid, s)
          });
       if e \<noteq> 0 then Some (e, r, s1)
       else do {
         let new_addr1 = setLogicalOffset new_addr cid1;
         let known = (hit \<and> CACHE_IS_DIRTY cid1 s1);
         let s2 = (if \<not> known \<and> \<not> IS_CACHED_ADDR (deref r s1) then upd_cache cid1 (c_addr_update (\<lambda>_. deref r s1)) s1 else s1);
         (ok, s3) \<leftarrow> cache_remove_from_lru cid1 s2;
         if ok = 0 then Some (FS_ERROR_CRITICAL, r, s3)
         else do {
           (_, s4) \<leftarrow> cache_insert_to_lru cid1 s3;
           let s5 = (if \<not> known \<and> is_write \<and> \<not> CACHE_IS_DIRTY cid1 s4
                     then (upd_cache cid1 (c_dirty_update (\<lambda>_. 0)) s4)\<lparr>dirty_count := dirty_count s4 + 1\<rparr> else s4);
           let s6 = upd_cache cid1 (c_tid_update (\<lambda>_. tid)) s5;
           s7 \<leftarrow> (if is_write then cache_set_write_buffer cid1 (rd b s6) data_type s6
                  else Some (wr b (fsMemcpy (rd b s6) 0 (c_buf (caches s6 cid1)) 0 2048) s6));
           let s8 = (if \<not> known then upd_cache cid1 (c_parent_offset_update (\<lambda>_. parent_offset)) s7 else s7);
           let (r1, s9) = assign r new_addr1 s8;
           Some (0, r1, s9)
         }
       }
     }
   }"

fun tid_related_loop :: "nat list \<Rightarrow> u32 \<Rightarrow> 'z fs_scheme \<Rightarrow> 'z fs_scheme option" where
  "tid_related_loop [] tid s = Some s"
| "tid_related_loop (i # is) tid s =
     (if c_tid (caches s (of_nat i)) = tid then do {
        let s1 = (if CACHE_IS_DIRTY (of_nat i) s then s\<lparr>dirty_count := dirty_count s - 1\<rparr> else s);
        (_, s2) \<leftarrow> cache_remove_from_lru (of_nat i) s1;
        tid_related_loop is tid (cache_init_by_cid (of_nat i) s2)
      } else tid_related_loop is tid s)"

definition cache_init_tid_related :: "u32 \<Rightarrow> 'z fs_scheme \<Rightarrow> 'z fs_scheme option" where
  "cache_init_tid_related tid s = tid_related_loop [0..<unat (FS_CACHE_BUFFERS s)] tid s"

text \<open>The two nested loops run over the pairs of a round and a cache block.\<close>

fun flush_loop :: "(nat \<times> nat) list \<Rightarrow> u32 \<Rightarrow> 'z fs_scheme \<Rightarrow> (u32 \<times> 'z fs_scheme) option" where
  "flush_loop [] tid s = Some (0, s)"
| "flush_loop ((j, i) # is) tid s =
     (if c_tid (caches s (of_nat i)) \<noteq> tid then flush_loop is tid s
      else if 0 <s c_ref_count (caches s (of_nat i)) then flush_loop is tid s
      else do {
        (e, _, s1) \<leftarrow> cache_flush_cache (of_nat i) init_logical_address s;
        if e = 0 then flush_loop is tid s1
        else do { assert_c (\<not> (e = FS_ERROR_NONZERO_REF_COUNT \<and> j = 4)); Some (e, s1) }
      })"

definition cache_flush_transaction_blocks :: "u32 \<Rightarrow> 'z fs_scheme \<Rightarrow> (u32 \<times> 'z fs_scheme) option" where
  "cache_flush_transaction_blocks tid s =
     flush_loop (List.product [0..<5] [0..<unat (FS_CACHE_BUFFERS s)]) tid s"

definition cache_remove_indirect_block :: "logical_addr \<Rightarrow> 'z fs_scheme \<Rightarrow> (u32 \<times> 'z fs_scheme) option" where
  "cache_remove_indirect_block indirect_addr s = do {
     cid \<leftarrow> (if IS_CACHED_ADDR indirect_addr then Some (GET_LOGICAL_OFFSET indirect_addr)
             else cache_get_cid_by_real_addr indirect_addr s);
     if \<not> IS_CACHED_ADDR indirect_addr \<and> cid = CACHE_ID_EMPTY then Some (0, s)
     else do {
       assert_c (CID_OK cid s);
       let tid = c_tid (caches s cid);
       let parent = c_parent_cid (caches s cid);
       s1 \<leftarrow> (if tid \<noteq> TID_EMPTY \<and> parent \<noteq> CACHE_ID_EMPTY then do {
            assert_c (TID_OK tid \<and> CID_OK parent s);
            Some (upd_cache parent (c_indirect_leaf_update (\<lambda>_. 1))
              (upd_tr tid (t_is_voted_update (\<lambda>_. c_voted (caches s cid))) s))
          } else Some s);
       (e, s2) \<leftarrow> cache_force_free_cache cid s1;
       Some (e, s2)
     }
   }"

definition cache_fix_indirect_leaf_indicator :: "u32 \<Rightarrow> logical_addr \<Rightarrow> u32 \<Rightarrow> u32 \<Rightarrow> 'z fs_scheme \<Rightarrow> 'z fs_scheme option" where
  "cache_fix_indirect_leaf_indicator indirect_offset double_log_addr tid flag s = do {
     let ino = ino_log_addr (transactions s tid);
     parent \<leftarrow> (if indirect_offset < DOUBLE_DATA_OFFSET \<and> IS_CACHED_ADDR ino then Some (GET_LOGICAL_OFFSET ino)
        else if IS_CACHED_ADDR double_log_addr then Some (GET_LOGICAL_OFFSET double_log_addr)
        else do {
          cid \<leftarrow> cache_get_cid_by_real_addr double_log_addr s;
          Some (if cid \<noteq> CACHE_ID_EMPTY then c_parent_cid (caches s cid) else CACHE_ID_EMPTY)
        });
     if parent \<noteq> CACHE_ID_EMPTY then do {
       assert_c (CID_OK parent s);
       Some (upd_cache parent (c_indirect_leaf_update (\<lambda>_. flag)) s)
     } else Some s
   }"

end
