(* ===== verification/Lru.thy ===== *)
theory Lru
  imports Cache
begin

text \<open>
  The cache's list of blocks, from the most to the least recently used.  \<open>lru_list s xs\<close> says that the two
  links of every block and the two ends in the queue represent the list \<open>xs\<close>; taking a block out, putting
  it in front and the two searches are then operations on that list.
\<close>

section \<open>The doubly linked list\<close>

definition first_or :: "u32 \<Rightarrow> u32 list \<Rightarrow> u32" where
  "first_or q xs = (case xs of [] \<Rightarrow> q | x # _ \<Rightarrow> x)"

definition last_or :: "u32 \<Rightarrow> u32 list \<Rightarrow> u32" where
  "last_or p xs = (if xs = [] then p else last xs)"

text \<open>The blocks \<open>xs\<close> are linked, between \<open>p\<close> on the more recent and \<open>q\<close> on the less recent side.\<close>

fun linked :: "(u32 \<Rightarrow> cache_block) \<Rightarrow> u32 \<Rightarrow> u32 list \<Rightarrow> u32 \<Rightarrow> bool" where
  "linked C p [] q = True"
| "linked C p (x # xs) q = (c_more_recent (C x) = p \<and> c_less_recent (C x) = first_or q xs \<and> linked C x xs q)"

definition lru_list :: "'z fs_scheme \<Rightarrow> u32 list \<Rightarrow> bool" where
  "lru_list s xs = (distinct xs \<and> (\<forall>c \<in> set xs. CID_OK c s) \<and> linked (caches s) CACHE_ID_EMPTY xs CACHE_ID_EMPTY \<and>
     mru_cid s = first_or CACHE_ID_EMPTY xs \<and> lru_cid s = last_or CACHE_ID_EMPTY xs)"

definition unlinked :: "u32 \<Rightarrow> 'z fs_scheme \<Rightarrow> bool" where
  "unlinked cid s = (c_more_recent (caches s cid) = CACHE_ID_EMPTY \<and> c_less_recent (caches s cid) = CACHE_ID_EMPTY)"

lemma first_or_simps [simp]:
  "first_or q [] = q" "first_or q (x # xs) = x" "first_or q (xs @ ys) = first_or (first_or q ys) xs"
  by (simp_all add: first_or_def split: list.split)

lemma last_or_simps [simp]:
  "last_or p [] = p" "last_or p (x # xs) = last_or x xs" "last_or p (xs @ [x]) = x" "last_or p (xs @ ys) = last_or (last_or p xs) ys"
  by (auto simp: last_or_def)

lemma first_or_in: "first_or q xs = q \<or> first_or q xs \<in> set xs"
  by (cases xs) auto

lemma last_or_in: "last_or p xs = p \<or> last_or p xs \<in> set xs"
  by (simp add: last_or_def)

lemma linked_append: "linked C p (xs @ ys) q = (linked C p xs (first_or q ys) \<and> linked C (last_or p xs) ys q)"
  by (induction xs arbitrary: p) auto

lemma linked_cong:
  "(\<And>x. x \<in> set xs \<Longrightarrow> c_more_recent (C x) = c_more_recent (D x) \<and> c_less_recent (C x) = c_less_recent (D x)) \<Longrightarrow>
   linked C p xs q = linked D p xs q"
  by (induction xs arbitrary: p) auto

lemma CID_OK_not_empty: "CID_OK c s \<Longrightarrow> c \<noteq> CACHE_ID_EMPTY"
proof
  assume "CID_OK c s" "c = CACHE_ID_EMPTY"
  then have "(0xffffffff :: u32) < FS_CACHE_BUFFERS s" by (simp add: CID_OK_def)
  moreover have "FS_CACHE_BUFFERS s \<le> (0xffffffff :: u32)"
    using unsigned_less [of "FS_CACHE_BUFFERS s", where 'a = nat] by (simp add: word_le_nat_alt)
  ultimately show False by (meson leD)
qed

text \<open>Redirecting the link at one end of a segment.\<close>

lemma linked_new_end:
  assumes "linked C p xs q" "distinct xs"
    and "\<And>x. x \<in> set xs \<Longrightarrow> c_more_recent (D x) = c_more_recent (C x) \<and>
      c_less_recent (D x) = (if x = last xs then r else c_less_recent (C x))"
  shows "linked D p xs r"
  using assms
proof (induction xs arbitrary: p)
  case (Cons x xs)
  show ?case
  proof (cases "xs = []")
    case False
    moreover have "x \<noteq> last xs" using Cons.prems False by auto
    moreover have "first_or q xs = first_or r xs" using False by (cases xs) auto
    moreover have "linked D x xs r" using Cons.prems False by (intro Cons.IH) auto
    ultimately show ?thesis using Cons.prems by auto
  qed (use Cons.prems in auto)
qed simp

lemma linked_new_start:
  assumes "linked C p xs q" "distinct xs"
    and "\<And>x. x \<in> set xs \<Longrightarrow> c_less_recent (D x) = c_less_recent (C x) \<and>
      c_more_recent (D x) = (if x = hd xs then r else c_more_recent (C x))"
  shows "linked D r xs q"
proof (cases xs)
  case (Cons y ys)
  then have "linked D y ys q = linked C y ys q" using assms by (intro linked_cong) auto
  then show ?thesis using assms Cons by auto
qed simp

lemma linked_remove:
  assumes "linked C p (ys @ c # zs) q" "distinct (ys @ c # zs)"
    and "\<And>x. x \<in> set ys \<Longrightarrow> c_more_recent (D x) = c_more_recent (C x) \<and>
      c_less_recent (D x) = (if x = last ys then first_or q zs else c_less_recent (C x))"
    and "\<And>x. x \<in> set zs \<Longrightarrow> c_less_recent (D x) = c_less_recent (C x) \<and>
      c_more_recent (D x) = (if x = hd zs then last_or p ys else c_more_recent (C x))"
  shows "linked D p (ys @ zs) q"
proof -
  have "linked D p ys (first_or q zs)" "linked D (last_or p ys) zs q"
    using assms by (auto simp: linked_append intro!: linked_new_end [of C p ys c] linked_new_start [of C c zs q])
  then show ?thesis by (simp add: linked_append)
qed

lemma linked_at:
  "linked C p (ys @ c # zs) q \<Longrightarrow> c_more_recent (C c) = last_or p ys \<and> c_less_recent (C c) = first_or q zs"
  by (simp add: linked_append)

section \<open>Taking a block out and putting it in front\<close>

lemma upd_cache_simps [simp]:
  "caches (upd_cache c f s) = (caches s)(c := f (caches s c))" "mru_cid (upd_cache c f s) = mru_cid s"
  "lru_cid (upd_cache c f s) = lru_cid s" "FS_CACHE_BUFFERS (upd_cache c f s) = FS_CACHE_BUFFERS s"
  by (simp_all add: upd_cache_def)

lemma CID_OK_cong: "FS_CACHE_BUFFERS s = FS_CACHE_BUFFERS s' \<Longrightarrow> CID_OK c s = CID_OK c s'"
  by (simp add: CID_OK_def)

text \<open>What the function does to the links, whatever they are.\<close>

lemma remove_from_lru_links:
  assumes "CID_OK cid s" "mr = c_more_recent (caches s cid)" "lr = c_less_recent (caches s cid)"
    and "mr = CACHE_ID_EMPTY \<or> CID_OK mr s" "lr = CACHE_ID_EMPTY \<or> CID_OK lr s" "mr \<noteq> cid" "lr \<noteq> cid"
  shows "\<exists>s'. cache_remove_from_lru cid s = Some (1, s') \<and> FS_CACHE_BUFFERS s' = FS_CACHE_BUFFERS s \<and>
    mru_cid s' = (if mru_cid s = cid then (if mr = CACHE_ID_EMPTY then lr else mr) else mru_cid s) \<and>
    lru_cid s' = (if lru_cid s = cid then (if lr = CACHE_ID_EMPTY then mr else lr) else lru_cid s) \<and>
    (\<forall>x. c_more_recent (caches s' x) = (if x = cid then CACHE_ID_EMPTY
        else if x = lr \<and> lr \<noteq> CACHE_ID_EMPTY then mr else c_more_recent (caches s x)) \<and>
      c_less_recent (caches s' x) = (if x = cid then CACHE_ID_EMPTY
        else if x = mr \<and> mr \<noteq> CACHE_ID_EMPTY then lr else c_less_recent (caches s x)))"
  using assms by (cases "mr = CACHE_ID_EMPTY"; cases "lr = CACHE_ID_EMPTY"; cases "mru_cid s = cid"; cases "lru_cid s = cid";
      simp add: cache_remove_from_lru_def assert_c_def Let_def)

lemma remove_from_lru_in:
  assumes xs: "lru_list s (ys @ cid # zs)"
  shows "\<exists>s'. cache_remove_from_lru cid s = Some (1, s') \<and> lru_list s' (ys @ zs) \<and> unlinked cid s' \<and>
     FS_CACHE_BUFFERS s' = FS_CACHE_BUFFERS s"
proof -
  let ?E = "CACHE_ID_EMPTY" and ?more = "last_or CACHE_ID_EMPTY ys" and ?less = "first_or CACHE_ID_EMPTY zs"
  have dist: "distinct (ys @ cid # zs)" and ok: "\<forall>c \<in> set (ys @ cid # zs). CID_OK c s"
    and link: "linked (caches s) ?E (ys @ cid # zs) ?E"
    and ends: "mru_cid s = first_or ?E (ys @ cid # zs)" "lru_cid s = last_or ?E (ys @ cid # zs)"
    using xs by (auto simp: lru_list_def)
  have nE: "\<And>c. c \<in> set (ys @ cid # zs) \<Longrightarrow> c \<noteq> ?E" using ok CID_OK_not_empty by blast
  have mr: "?more \<noteq> ?E \<longleftrightarrow> ys \<noteq> []" "?more \<noteq> cid" "ys \<noteq> [] \<Longrightarrow> ?more = last ys \<and> ?more \<in> set ys"
    using nE dist by (auto simp: last_or_def)
  have lr: "?less \<noteq> ?E \<longleftrightarrow> zs \<noteq> []" "?less \<noteq> cid" "zs \<noteq> [] \<Longrightarrow> ?less = hd zs \<and> ?less \<in> set zs"
    using nE dist by (auto simp: first_or_def split: list.splits)
  have good: "CID_OK cid s" "?more = c_more_recent (caches s cid)" "?less = c_less_recent (caches s cid)"
      "?more = ?E \<or> CID_OK ?more s" "?less = ?E \<or> CID_OK ?less s" "?more \<noteq> cid" "?less \<noteq> cid"
    using ok mr lr linked_at [OF link] by auto
  obtain s' where s': "cache_remove_from_lru cid s = Some (1, s')" "FS_CACHE_BUFFERS s' = FS_CACHE_BUFFERS s"
      "mru_cid s' = (if mru_cid s = cid then (if ?more = ?E then ?less else ?more) else mru_cid s)"
      "lru_cid s' = (if lru_cid s = cid then (if ?less = ?E then ?more else ?less) else lru_cid s)"
      "\<And>x. c_more_recent (caches s' x) = (if x = cid then ?E else if x = ?less \<and> ?less \<noteq> ?E then ?more else c_more_recent (caches s x))"
      "\<And>x. c_less_recent (caches s' x) = (if x = cid then ?E else if x = ?more \<and> ?more \<noteq> ?E then ?less else c_less_recent (caches s x))"
    using remove_from_lru_links [OF good] by blast
  have "\<And>x. x \<in> set ys \<Longrightarrow> c_more_recent (caches s' x) = c_more_recent (caches s x) \<and>
      c_less_recent (caches s' x) = (if x = last ys then ?less else c_less_recent (caches s x))"
    using s'(5,6) mr lr dist by (cases "ys = []") auto
  moreover have "\<And>x. x \<in> set zs \<Longrightarrow> c_less_recent (caches s' x) = c_less_recent (caches s x) \<and>
      c_more_recent (caches s' x) = (if x = hd zs then ?more else c_more_recent (caches s x))"
    using s'(5,6) mr lr dist by (cases "zs = []") auto
  ultimately have "linked (caches s') ?E (ys @ zs) ?E" by (rule linked_remove [OF link dist])
  moreover have "mru_cid s' = first_or ?E (ys @ zs)" using ends(1) s'(3) dist by (cases ys) auto
  moreover have "lru_cid s' = last_or ?E (ys @ zs)" using ends(2) s'(4) lr(1) dist by (cases zs rule: rev_cases) auto
  ultimately show ?thesis using s' dist ok by (auto simp: lru_list_def unlinked_def CID_OK_def)
qed


lemma remove_from_lru_out:
  assumes xs: "lru_list s xs" and c: "CID_OK cid s" "cid \<notin> set xs" "unlinked cid s"
  shows "\<exists>s'. cache_remove_from_lru cid s = Some (1, s') \<and> lru_list s' xs \<and> unlinked cid s' \<and>
     FS_CACHE_BUFFERS s' = FS_CACHE_BUFFERS s"
proof -
  have ne: "cid \<noteq> CACHE_ID_EMPTY" using c(1) by (rule CID_OK_not_empty)
  have links: "c_more_recent (caches s cid) = CACHE_ID_EMPTY" "c_less_recent (caches s cid) = CACHE_ID_EMPTY"
    using c(3) by (simp_all add: unlinked_def)
  obtain s' where s': "cache_remove_from_lru cid s = Some (1, s')" "FS_CACHE_BUFFERS s' = FS_CACHE_BUFFERS s"
      "mru_cid s' = (if mru_cid s = cid then CACHE_ID_EMPTY else mru_cid s)" "lru_cid s' = (if lru_cid s = cid then CACHE_ID_EMPTY else lru_cid s)"
      "\<And>x. c_more_recent (caches s' x) = (if x = cid then CACHE_ID_EMPTY else c_more_recent (caches s x))"
      "\<And>x. c_less_recent (caches s' x) = (if x = cid then CACHE_ID_EMPTY else c_less_recent (caches s x))"
    using remove_from_lru_links [OF c(1) links [symmetric]] ne by auto
  moreover have "mru_cid s \<noteq> cid" "lru_cid s \<noteq> cid"
    using xs c(2) ne first_or_in [of CACHE_ID_EMPTY xs] last_or_in [of CACHE_ID_EMPTY xs] by (auto simp: lru_list_def)
  moreover have "linked (caches s') CACHE_ID_EMPTY xs CACHE_ID_EMPTY = linked (caches s) CACHE_ID_EMPTY xs CACHE_ID_EMPTY"
    using s'(5,6) c(2) by (intro linked_cong) auto
  ultimately show ?thesis using xs by (auto simp: lru_list_def unlinked_def CID_OK_def)
qed

lemma remove_from_lru_list:
  assumes "lru_list s xs" "CID_OK cid s" "cid \<notin> set xs \<Longrightarrow> unlinked cid s"
  obtains s' where "cache_remove_from_lru cid s = Some (1, s')" "lru_list s' (remove1 cid xs)" "unlinked cid s'"
    "FS_CACHE_BUFFERS s' = FS_CACHE_BUFFERS s"
proof (cases "cid \<in> set xs")
  case True
  then obtain ys zs where "xs = ys @ cid # zs" "cid \<notin> set ys" by (meson split_list_first)
  then show ?thesis using remove_from_lru_in [of s ys cid zs] assms that by (auto simp: remove1_append)
next
  case False
  then show ?thesis using remove_from_lru_out [of s xs cid] assms that by (auto simp: remove1_idem)
qed

lemma insert_to_lru_list:
  assumes xs: "lru_list s xs" and c: "CID_OK cid s" "cid \<notin> set xs" "unlinked cid s"
  obtains s' where "cache_insert_to_lru cid s = Some (0, s')" "lru_list s' (cid # xs)"
proof (cases xs)
  case Nil
  then show ?thesis using assms that
    by (auto simp: cache_insert_to_lru_def lru_list_def unlinked_def CID_OK_def)
next
  case (Cons y ys)
  let ?s = "(upd_cache y (c_more_recent_update (\<lambda>_. cid)) (upd_cache cid (c_less_recent_update (\<lambda>_. y)) s))\<lparr>mru_cid := cid\<rparr>"
  have y: "CID_OK y s" "y \<noteq> CACHE_ID_EMPTY" "mru_cid s = y" "c_more_recent (caches s y) = CACHE_ID_EMPTY" "y \<noteq> cid" "y \<notin> set ys"
    using xs Cons c(2) CID_OK_not_empty by (auto simp: lru_list_def)
  then have "cache_insert_to_lru cid s = Some (0, ?s)"
    using c(1) by (simp add: cache_insert_to_lru_def assert_c_def)
  moreover have "linked (caches ?s) y ys CACHE_ID_EMPTY = linked (caches s) y ys CACHE_ID_EMPTY"
    using c(2) Cons y by (intro linked_cong) auto
  then have "linked (caches ?s) cid xs CACHE_ID_EMPTY" using xs Cons y by (auto simp: lru_list_def)
  then have "lru_list ?s (cid # xs)" using xs c Cons y by (auto simp: lru_list_def unlinked_def CID_OK_def)
  ultimately show ?thesis using that by blast
qed


section \<open>The searches\<close>

lemma lru_list_length:
  assumes "lru_list s xs"
  shows "length xs \<le> unat (FS_CACHE_BUFFERS s)"
proof -
  have "unat ` set xs \<subseteq> {..<unat (FS_CACHE_BUFFERS s)}" using assms by (auto simp: lru_list_def CID_OK_def word_less_nat_alt)
  then have "card (unat ` set xs) \<le> unat (FS_CACHE_BUFFERS s)" by (metis card_lessThan card_mono finite_lessThan)
  moreover have "inj_on unat (set xs)" by (rule inj_onI) (simp add: word_unat_eq_iff)
  then have "card (unat ` set xs) = length xs" using assms by (simp add: card_image lru_list_def distinct_card)
  ultimately show ?thesis by simp
qed

text \<open>The walk to the less recent side meets the blocks of the list in order.\<close>

lemma real_addr_loop_walk:
  assumes "linked (caches s) p xs CACHE_ID_EMPTY" "\<forall>c \<in> set xs. CID_OK c s" "length xs < n"
  shows "real_addr_loop n (first_or CACHE_ID_EMPTY xs) a s =
    Some (case filter (\<lambda>c. COMPARE_ADDR (c_addr (caches s c)) a) xs of [] \<Rightarrow> CACHE_ID_EMPTY | c # _ \<Rightarrow> c)"
  using assms
proof (induction xs arbitrary: p n)
  case Nil
  then show ?case by (cases n) auto
next
  case (Cons x xs)
  then obtain m where n: "n = Suc m" by (cases n) auto
  have "x \<noteq> CACHE_ID_EMPTY" using Cons.prems CID_OK_not_empty by auto
  then show ?case using Cons.prems Cons.IH [of x m] n by (auto simp: assert_c_def)
qed

text \<open>A block may be given up when nothing in the cache refers to it and it is no leaf.\<close>

definition evictable :: "u32 \<Rightarrow> 'z fs_scheme \<Rightarrow> u32 \<Rightarrow> bool" where
  "evictable except_cid s c = (\<not> (0 <s c_ref_count (caches s c) \<or> except_cid = c \<or> c_indirect_leaf (caches s c) \<noteq> 0))"

lemma lru_loop_walk:
  assumes "linked (caches s) CACHE_ID_EMPTY (xs @ [x]) q" "\<forall>c \<in> set (xs @ [x]). CID_OK c s" "length xs < n"
  shows "lru_loop n except_cid x s =
    Some (case filter (evictable except_cid s) (rev (xs @ [x])) of [] \<Rightarrow> CACHE_ID_EMPTY | c # _ \<Rightarrow> c)"
  using assms
proof (induction xs arbitrary: x n q rule: rev_induct)
  case Nil
  then show ?case by (cases n) (auto simp: evictable_def assert_c_def)
next
  case (snoc y ys)
  then obtain m where n: "n = Suc m" by (cases n) auto
  have link: "c_more_recent (caches s x) = y" "linked (caches s) CACHE_ID_EMPTY (ys @ [y]) x"
    using snoc.prems by (auto simp: linked_append)
  have "y \<noteq> CACHE_ID_EMPTY" using snoc.prems CID_OK_not_empty by auto
  then show ?case using snoc.prems n link snoc.IH [OF link(2), of m] by (auto simp: evictable_def assert_c_def)
qed


section \<open>Properties\<close>

text \<open>
  C12: on a cache whose links represent a list of blocks, \<open>cache_remove_from_lru\<close> followed by
  \<open>cache_insert_to_lru\<close>, which is how \<open>cache_access_cache\<close> marks a block as used, moves the block to the
  front of the list, or adds it there when it was not linked: the links, \<open>mru_cid\<close> and \<open>lru_cid\<close>
  represent the removed list in between and the new list afterwards.
\<close>
theorem lru_touch_moves_to_front:
  assumes "lru_list s xs" "CID_OK cid s" "cid \<notin> set xs \<Longrightarrow> unlinked cid s"
  shows "\<exists>s1 s2. cache_remove_from_lru cid s = Some (1, s1) \<and> lru_list s1 (remove1 cid xs) \<and> unlinked cid s1 \<and>
    cache_insert_to_lru cid s1 = Some (0, s2) \<and> lru_list s2 (cid # remove1 cid xs)"
proof -
  obtain s1 where s1: "cache_remove_from_lru cid s = Some (1, s1)" "lru_list s1 (remove1 cid xs)" "unlinked cid s1"
      "FS_CACHE_BUFFERS s1 = FS_CACHE_BUFFERS s"
    using assms by (rule remove_from_lru_list)
  have "distinct xs" using assms(1) by (simp add: lru_list_def)
  moreover have "CID_OK cid s1" using assms(2) s1(4) by (simp add: CID_OK_def)
  ultimately obtain s2 where "cache_insert_to_lru cid s1 = Some (0, s2)" "lru_list s2 (cid # remove1 cid xs)"
    using insert_to_lru_list [OF s1(2), of cid] s1(3) by auto
  then show ?thesis using s1 by blast
qed

text \<open>
  C34: the two searches of the cache end, within as many rounds as there are buffers, and find what they look
  for: \<open>cache_get_cid_by_real_addr\<close> the most recently used block read from the address, and
  \<open>cache_get_lru_cid\<close> the least recently used block that nothing refers to, that is no leaf and that is
  not the excepted one; each returns \<open>CACHE_ID_EMPTY\<close> when there is no such block.
\<close>
theorem lru_searches_terminate:
  assumes xs: "lru_list s xs"
  shows "(\<not> IS_ADDRESS_EMPTY a \<longrightarrow> cache_get_cid_by_real_addr a s =
      Some (case filter (\<lambda>c. COMPARE_ADDR (c_addr (caches s c)) a) xs of [] \<Rightarrow> CACHE_ID_EMPTY | c # _ \<Rightarrow> c)) \<and>
    cache_get_lru_cid except_cid s =
      Some (case filter (evictable except_cid s) (rev xs) of [] \<Rightarrow> CACHE_ID_EMPTY | c # _ \<Rightarrow> c)"
proof
  have xs': "linked (caches s) CACHE_ID_EMPTY xs CACHE_ID_EMPTY" "\<forall>c \<in> set xs. CID_OK c s"
    "mru_cid s = first_or CACHE_ID_EMPTY xs" "lru_cid s = last_or CACHE_ID_EMPTY xs"
    using xs by (auto simp: lru_list_def)
  have len: "length xs < unat (FS_CACHE_BUFFERS s) + 1" using lru_list_length [OF xs] by simp
  show "\<not> IS_ADDRESS_EMPTY a \<longrightarrow> cache_get_cid_by_real_addr a s =
      Some (case filter (\<lambda>c. COMPARE_ADDR (c_addr (caches s c)) a) xs of [] \<Rightarrow> CACHE_ID_EMPTY | c # _ \<Rightarrow> c)"
    using real_addr_loop_walk [OF xs'(1,2) len] xs'(3) by (simp add: cache_get_cid_by_real_addr_def)
  show "cache_get_lru_cid except_cid s =
      Some (case filter (evictable except_cid s) (rev xs) of [] \<Rightarrow> CACHE_ID_EMPTY | c # _ \<Rightarrow> c)"
  proof (cases xs rule: rev_cases)
    case (snoc ys y)
    have "lru_cid s = y" "y \<noteq> CACHE_ID_EMPTY" using snoc xs' CID_OK_not_empty by auto
    then show ?thesis
      using lru_loop_walk [of s ys y CACHE_ID_EMPTY _ except_cid] xs' len snoc
      by (simp add: cache_get_lru_cid_def del: lru_loop.simps)
  qed (use xs'(4) in \<open>simp add: cache_get_lru_cid_def\<close>)
qed


text \<open>Three buffers, of which 1 and 2 are linked.\<close>

definition cached_fs :: fs where
  "cached_fs = blank_fs\<lparr>FS_CACHE_BUFFERS := 3, mru_cid := 1, lru_cid := 2,
     caches := (caches blank_fs)(1 := (caches blank_fs 1)\<lparr>c_less_recent := 2\<rparr>, 2 := (caches blank_fs 2)\<lparr>c_more_recent := 1\<rparr>)\<rparr>"

lemma cached_fs_list: "lru_list cached_fs [1, 2]"
  by (simp add: lru_list_def cached_fs_def CID_OK_def)

theorem lru_touch_moves_to_front_witness:
  "\<exists>s1 s2. cache_remove_from_lru 2 cached_fs = Some (1, s1) \<and> lru_list s1 [1] \<and> unlinked 2 s1 \<and>
     cache_insert_to_lru 2 s1 = Some (0, s2) \<and> lru_list s2 [2, 1]"
  using lru_touch_moves_to_front [of cached_fs "[1, 2]" 2] cached_fs_list by (simp add: cached_fs_def CID_OK_def)

lemma zero_address: "GET_LOGICAL_SEGMENT \<lparr>byte0 = 0, byte1 = 0, byte2 = 0, byte3 = 0\<rparr> = 0"
    "GET_LOGICAL_SEGMENT init_logical_address \<noteq> 0"
  by code_simp+

theorem lru_searches_terminate_witness:
  "\<not> IS_ADDRESS_EMPTY \<lparr>byte0 = 0, byte1 = 0, byte2 = 0, byte3 = 0\<rparr> \<and>
   cache_get_cid_by_real_addr \<lparr>byte0 = 0, byte1 = 0, byte2 = 0, byte3 = 0\<rparr> cached_fs = Some CACHE_ID_EMPTY \<and>
   cache_get_lru_cid CACHE_ID_EMPTY cached_fs = Some 2 \<and> cache_get_lru_cid 2 cached_fs = Some 1"
  using lru_searches_terminate [OF cached_fs_list, of "\<lparr>byte0 = 0, byte1 = 0, byte2 = 0, byte3 = 0\<rparr>" CACHE_ID_EMPTY]
    lru_searches_terminate [OF cached_fs_list, of "\<lparr>byte0 = 0, byte1 = 0, byte2 = 0, byte3 = 0\<rparr>" 2]
  by (simp add: cached_fs_def evictable_def IS_ADDRESS_EMPTY_def COMPARE_ADDR_def zero_address)

end
