(* ===== verification/FileRead.thy ===== *)
theory FileRead
  imports Cache
begin

text \<open>
  Reading blocks, inodes and file data (\<^verbatim>\<open>fsUtils.c\<close>, and \<open>readFromTransactionIndirectRead\<close> of
  \<^verbatim>\<open>transactions.c\<close>).  \<open>readFileBlock\<close> finds the inode of a file by reading inode 0 as a file, through
  itself; the two functions are written over the next one down, and inode 0 ends the recursion.
\<close>

unbundle bit_operations_syntax

definition fsReadBlock :: "logical_addr \<Rightarrow> buf_ref \<Rightarrow> u32 \<Rightarrow> u32 \<Rightarrow> bool \<Rightarrow> 'z fs_scheme \<Rightarrow> (u32 \<times> 'z fs_scheme) option" where
  "fsReadBlock log_addr b tid parent_offset is_cacheable s =
     (let cacheable = (if FS_CACHE_BUFFERS s = 0 then False else is_cacheable) in
      if IS_ADDRESS_EMPTY log_addr then Some (0, init_fsbuf b s)
      else if \<not> cacheable then
        (if IS_CACHED_ADDR log_addr then Some (FS_ERROR_READING_UNCACHEABLE, s)
         else do {
           (e, d, s1) \<leftarrow> readBlock log_addr (rd b s) s;
           Some (if e \<noteq> 0 then FS_ERROR_IO else 0, wr b d s1)
         })
      else do {
        (e, _, s1) \<leftarrow> cache_access_cache b (Local log_addr) parent_offset tid DATA_TYPE_EMPTY False s;
        Some (e, s1)
      })"

definition readInodeBlock_over ::
  "(buf_ref \<Rightarrow> u32 \<Rightarrow> addr_ref \<Rightarrow> 'z fs_scheme \<Rightarrow> (u32 \<times> addr_ref \<times> 'z fs_scheme) option)
   \<Rightarrow> buf_ref \<Rightarrow> u32 \<Rightarrow> addr_ref \<Rightarrow> u32 \<Rightarrow> 'z fs_scheme \<Rightarrow> (u32 \<times> addr_ref \<times> 'z fs_scheme) option" where
  "readInodeBlock_over get_inode b ino_num r tid s =
     (if tid \<noteq> TID_EMPTY then do {
        assert_c (TID_OK tid);
        if IS_INDIRECT_INODE tid s
        then Some (0, r, wr b (fsMemcpy (rd b s) 0 (indirect_buf (transactions s tid)) 0 2048) s)
        else do {
          (e, s1) \<leftarrow> fsReadBlock (ino_log_addr (transactions s tid)) b tid CACHE_ENTRY_OFFSET_EMPTY True s;
          if e \<noteq> 0 then Some (e, r, s1)
          else (let (r1, s2) = assign r (ino_log_addr (transactions s1 tid)) s1 in Some (0, r1, s2))
        }
      }
      else if ino_num = 0 then do {
        (e, s1) \<leftarrow> fsReadBlock (FS_GET_INO0_ADDR s) b tid CACHE_ENTRY_OFFSET_EMPTY True s;
        if e \<noteq> 0 then Some (e, r, s1)
        else (let (r1, s2) = assign r (FS_GET_INO0_ADDR s1) s1 in Some (0, r1, s2))
      }
      else if IS_ADDRESS_EMPTY (deref r s) then get_inode b ino_num r s
      else do {
        (e, s1) \<leftarrow> fsReadBlock (deref r s) b tid CACHE_ENTRY_OFFSET_EMPTY True s;
        Some (e, r, s1)
      })"

text \<open>The block of addresses that covers an offset, read into \<open>b\<close>; the address it was read from is returned.\<close>

definition readIndirectToBuffer ::
  "u32 \<Rightarrow> addr_ref \<Rightarrow> buf_ref \<Rightarrow> logical_addr \<Rightarrow> u32 \<Rightarrow> bool \<Rightarrow> 'z fs_scheme \<Rightarrow> (u32 \<times> logical_addr \<times> 'z fs_scheme) option" where
  "readIndirectToBuffer block_offset ino_ref b indirect_addr tid is_active s = do {
     (e0, s0) \<leftarrow> (if \<not> IS_ADDR_EMPTY (deref ino_ref s)
        then fsReadBlock (deref ino_ref s) b tid CACHE_ENTRY_OFFSET_EMPTY True s else Some (0, s));
     if e0 \<noteq> 0 then Some (e0, indirect_addr, s0)
     else if block_offset < INDIRECT_DATA_OFFSET then Some (0, deref ino_ref s0, s0)
     else do {
       (e, ind, entry_offset, double_addr, s1) \<leftarrow>
         (if block_offset < DOUBLE_DATA_OFFSET then
            Some (0, INODE_GET_INDIRECT (rd b s0), INDIRECT_INDEX_OFFSET_IN_LOG_ADDRESSES, init_logical_address, s0)
          else if block_offset < TRIPLE_DATA_OFFSET then do {
            let off = block_offset - DOUBLE_DATA_OFFSET;
            let double_addr = INODE_GET_DOUBLE (rd b s0);
            (e, s1) \<leftarrow> fsReadBlock double_addr b tid DOUBLE_INDEX_OFFSET_IN_LOG_ADDRESSES True s0;
            let entry_offset = CALC_OFFSET_IN_DOUBLE_BLOCK off;
            Some (e, if e \<noteq> 0 then indirect_addr else BLOCK_GET_INDEX (rd b s1) (unat entry_offset), entry_offset, double_addr, s1)
          }
          else do {
            let off = block_offset - TRIPLE_DATA_OFFSET;
            (e, s1) \<leftarrow> fsReadBlock (INODE_GET_TRIPLE (rd b s0)) b tid TRIPLE_INDEX_OFFSET_IN_LOG_ADDRESSES True s0;
            if e \<noteq> 0 then Some (e, indirect_addr, 0, init_logical_address, s1)
            else do {
              let double_addr = BLOCK_GET_INDEX (rd b s1) (unat (CALC_OFFSET_IN_TRIPLE_BLOCK off));
              (e2, s2) \<leftarrow> fsReadBlock double_addr b tid (CALC_OFFSET_IN_TRIPLE_BLOCK off) True s1;
              let entry_offset = CALC_OFFSET_IN_DOUBLE_BLOCK (CALC_OFFSET_IN_DOUBLE_SIZE off);
              Some (e2, if e2 \<noteq> 0 then indirect_addr else BLOCK_GET_INDEX (rd b s2) (unat entry_offset), entry_offset, double_addr, s2)
            }
          });
       if e \<noteq> 0 then Some (e, ind, s1)
       else do {
         (e2, s2) \<leftarrow> fsReadBlock ind b tid entry_offset True s1;
         if e2 \<noteq> 0 then Some (e2, ind, s2)
         else do {
           s3 \<leftarrow> (if tid \<noteq> TID_EMPTY \<and> is_active
                  then cache_fix_indirect_leaf_indicator block_offset double_addr tid 1 s2 else Some s2);
           Some (0, ind, s3)
         }
       }
     }
   }"

definition readFromTransactionIndirectRead :: "buf_ref \<Rightarrow> u32 \<Rightarrow> u32 \<Rightarrow> 'z fs_scheme \<Rightarrow> (u32 \<times> 'z fs_scheme) option" where
  "readFromTransactionIndirectRead b offset tid s = do {
     let block_offset = offset - CALC_OFFSET_IN_FILE_BLOCK offset;
     let ind = indirect_buf (transactions s tid);
     if IS_INDIRECT_INODE tid s \<and> block_offset < INODE_FILE_DATA_SIZE
     then Some (0, wr b (fsMemcpy (rd b s) 0 ind 0 1983) s)
     else do {
       let entry_offset = (if IS_INDIRECT_INODE tid s then CALC_IN_BLOCKS (block_offset - INODE_FILE_DATA_SIZE)
          else CALC_OFFSET_IN_INDIRECT_BLOCK (CALC_OFFSET_IN_INDIRECT_SIZE (block_offset - INDIRECT_DATA_OFFSET)));
       let direct_addr = (if IS_INDIRECT_INODE tid s then INODE_GET_DIRECT ind (unat entry_offset) else BLOCK_GET_INDEX ind (unat entry_offset));
       assert_c (IS_INDIRECT_INODE tid s \<longrightarrow> entry_offset < 10);
       fsReadBlock direct_addr b tid entry_offset True s
     }
   }"

text \<open>Does a transaction other than \<open>tid\<close> hold the file?\<close>

definition held_by_other :: "u32 \<Rightarrow> u32 \<Rightarrow> 'z fs_scheme \<Rightarrow> bool" where
  "held_by_other tid ino_num s =
     list_ex (\<lambda>i. of_nat i \<noteq> tid \<and> \<not> IS_TRANSACTION_EMPTY tid s \<and> t_ino_num (transactions s (of_nat i)) = ino_num) [0..<2]"

text \<open>The address of the block of an offset and its place in its parent, from the inode in \<open>b\<close>.\<close>

definition data_block_address :: "u32 \<Rightarrow> addr_ref \<Rightarrow> buf_ref \<Rightarrow> u32 \<Rightarrow> 'z fs_scheme \<Rightarrow> (u32 \<times> logical_addr \<times> u32 \<times> 'z fs_scheme) option" where
  "data_block_address offset r b tid s =
     (if offset < INDIRECT_DATA_OFFSET then do {
        let entry_offset = CALC_IN_BLOCKS (offset - INODE_FILE_DATA_SIZE);
        Some (0, INODE_GET_DIRECT (rd b s) (unat entry_offset), entry_offset, s)
      } else do {
        (e, _, s1) \<leftarrow> readIndirectToBuffer (offset - CALC_OFFSET_IN_FILE_BLOCK offset) r b init_logical_address tid False s;
        let entry_offset = CALC_OFFSET_IN_INDIRECT_BLOCK (CALC_OFFSET_IN_INDIRECT_SIZE (CALC_OFFSET_FROM_INDIRECT offset));
        Some (e, BLOCK_GET_INDEX (rd b s1) (unat entry_offset), entry_offset, s1)
      })"

definition readFileBlock_over ::
  "(buf_ref \<Rightarrow> u32 \<Rightarrow> addr_ref \<Rightarrow> u32 \<Rightarrow> 'z fs_scheme \<Rightarrow> (u32 \<times> addr_ref \<times> 'z fs_scheme) option)
   \<Rightarrow> buf_ref \<Rightarrow> u32 \<Rightarrow> u32 \<Rightarrow> addr_ref \<Rightarrow> u32 \<Rightarrow> 'z fs_scheme \<Rightarrow> (u32 \<times> addr_ref \<times> 'z fs_scheme) option" where
  "readFileBlock_over read_inode b ino_num offset r tid s = do {
     assert_c (tid = TID_EMPTY \<or> TID_OK tid);
     if held_by_other tid ino_num s then Some (-1, r, s)
     else if offset > FS_MAX_FILESIZE then Some (FS_ERROR_OFST_OVRFLW, r, s)
     else if tid \<noteq> TID_EMPTY \<and> isOffsetInIndirect offset tid s then do {
       (e, s1) \<leftarrow> readFromTransactionIndirectRead b offset tid s;
       Some (e, r, s1)
     }
     else do {
       (e, r1, s1) \<leftarrow> read_inode b ino_num r tid s;
       if e \<noteq> 0 then Some (e, r1, s1)
       else do {
         let s2 = wr b (changeFileSize tid (rd b s1) s1) s1;
         if offset > INODE_GET_NBYTES (rd b s2) then Some (FS_ERROR_OFST_OVRFLW, r1, s2)
         else if offset < INODE_FILE_DATA_SIZE then Some (0, r1, wr b (fsMemset (rd b s2) 1983 0xff 65) s2)
         else do {
           (e3, log_addr, entry_offset, s3) \<leftarrow> data_block_address offset r1 b tid s2;
           if e3 \<noteq> 0 then Some (e3, r1, s3)
           else do {
             (e4, s4) \<leftarrow> fsReadBlock log_addr b tid entry_offset True s3;
             if e4 \<noteq> 0 then Some (e4, r1, s4)
             else (let (r2, s5) = (if ino_num = 0 \<and> \<not> IS_ADDR_EMPTY log_addr then assign r1 log_addr s4 else (r1, s4))
                   in Some (0, r2, s5))
           }
         }
       }
     }
   }"

text \<open>\<open>getInode\<close> reads block \<open>ino_num\<close> of inode 0, so its own read of an inode never asks for another.\<close>

definition getInode :: "buf_ref \<Rightarrow> u32 \<Rightarrow> addr_ref \<Rightarrow> 'z fs_scheme \<Rightarrow> (u32 \<times> addr_ref \<times> 'z fs_scheme) option" where
  "getInode b ino_num r s =
     readFileBlock_over (readInodeBlock_over (\<lambda>_ _ _ _. None)) b 0 (INODE_FILE_DATA_SIZE + CALC_IN_BYTES (ino_num - 1)) r TID_EMPTY s"

definition readInodeBlock :: "buf_ref \<Rightarrow> u32 \<Rightarrow> addr_ref \<Rightarrow> u32 \<Rightarrow> 'z fs_scheme \<Rightarrow> (u32 \<times> addr_ref \<times> 'z fs_scheme) option" where
  "readInodeBlock = readInodeBlock_over getInode"

definition readFileBlock ::
  "buf_ref \<Rightarrow> u32 \<Rightarrow> u32 \<Rightarrow> addr_ref \<Rightarrow> u32 \<Rightarrow> 'z fs_scheme \<Rightarrow> (u32 \<times> addr_ref \<times> 'z fs_scheme) option" where
  "readFileBlock = readFileBlock_over readInodeBlock"

section \<open>The size of a file\<close>

fun open_tid_loop :: "nat list \<Rightarrow> u32 \<Rightarrow> 'z fs_scheme \<Rightarrow> u32" where
  "open_tid_loop [] ino_num s = TID_EMPTY"
| "open_tid_loop (i # is) ino_num s =
     (if IS_TRANSACTION_EMPTY (of_nat i) s then open_tid_loop is ino_num s
      else if t_ino_num (transactions s (of_nat i)) = ino_num then of_nat i
      else open_tid_loop is ino_num s)"

definition getFileUpdatedInode :: "u32 \<Rightarrow> 'z fs_scheme \<Rightarrow> (u32 \<times> 'z fs_scheme) option" where
  "getFileUpdatedInode ino_num s = (let tid = open_tid_loop [0..<2] ino_num s in
     if tid = TID_EMPTY then do {
       (e, _, s1) \<leftarrow> getInode FsBuf ino_num (Local init_logical_address) s;
       Some (if e \<noteq> 0 then -1 else 0, s1)
     } else do {
       (e, s1) \<leftarrow> (if IS_INDIRECT_INODE tid s
          then Some (0, s\<lparr>fs_buffer := fsMemcpy (fs_buffer s) 0 (indirect_buf (transactions s tid)) 0 2048\<rparr>)
          else fsReadBlock (ino_log_addr (transactions s tid)) FsBuf tid CACHE_ENTRY_OFFSET_EMPTY True s);
       if e \<noteq> 0 then Some (-1, s1)
       else Some (0, s1\<lparr>fs_buffer := changeFileSize tid (fs_buffer s1) s1\<rparr>)
     })"

definition getFileBlocks :: "u32 \<Rightarrow> 'z fs_scheme \<Rightarrow> (u32 \<times> 'z fs_scheme) option" where
  "getFileBlocks ino_num s = do {
     (e, s1) \<leftarrow> getFileUpdatedInode ino_num (init_fsbuf FsBuf s);
     Some (if e \<noteq> 0 then -1 else INODE_GET_NBLOCKS (fs_buffer s1), s1)
   }"

definition getFileSize :: "u32 \<Rightarrow> 'z fs_scheme \<Rightarrow> (u32 \<times> 'z fs_scheme) option" where
  "getFileSize ino_num s = do {
     (e, s1) \<leftarrow> getFileUpdatedInode ino_num (init_fsbuf FsBuf s);
     Some (if e \<noteq> 0 then -1 else INODE_GET_NBYTES (fs_buffer s1), s1)
   }"

definition getTidByFileId :: "u32 \<Rightarrow> 'z fs_scheme \<Rightarrow> (u32 \<times> 'z fs_scheme) option" where
  "getTidByFileId ino_num s = (let tid = findTidByFileId ino_num s in
     if tid \<noteq> TID_EMPTY then Some (tid, s)
     else (let tid = getFreeTransactionId s in
       if tid = TID_EMPTY then Some (TID_EMPTY, s)
       else do {
         (e, _, s1) \<leftarrow> getInode FsBuf ino_num (TrIno tid) s;
         if e \<noteq> 0 then Some (-1, s1)
         else Some (tid, upd_tr tid (t_ino_num_update (\<lambda>_. ino_num)) s1)
       }))"

section \<open>Holes and data in a file\<close>

fun empty_entry_loop :: "nat list \<Rightarrow> buf \<Rightarrow> logical_addr \<Rightarrow> nat option \<times> logical_addr" where
  "empty_entry_loop [] b a = (None, a)"
| "empty_entry_loop (i # is) b a = (let a1 = BLOCK_GET_INDEX b i in if IS_ADDR_FREE a1 then (Some i, a1) else empty_entry_loop is b a1)"

definition findEmptyDirectEntry ::
  "logical_addr \<Rightarrow> u32 \<Rightarrow> u32 \<Rightarrow> u32 \<Rightarrow> u32 \<Rightarrow> 'z fs_scheme \<Rightarrow> (u32 \<times> logical_addr \<times> u32 \<times> 'z fs_scheme) option" where
  "findEmptyDirectEntry block_addr offset entry_pointer_size entry_offset tid s =
     (if \<not> offset < FS_MAX_FILESIZE then Some (-1, block_addr, offset, s)
      else do {
        (e, s1) \<leftarrow> fsReadBlock block_addr FsBuf tid entry_offset True s;
        if e \<noteq> 0 then Some (-1, block_addr, offset, s1)
        else (case empty_entry_loop [0..<512] (fs_buffer s1) block_addr of
            (None, a) \<Rightarrow> Some (-1, a, offset, s1)
          | (Some i, a) \<Rightarrow> (let offset1 = offset + of_nat i * entry_pointer_size in
              Some (if offset1 < FS_MAX_FILESIZE \<and> 0 <s offset1 then 0 else -1, a, offset1, s1)))
      })"

fun direct_hole_loop :: "nat list \<Rightarrow> buf \<Rightarrow> logical_addr \<Rightarrow> nat option \<times> logical_addr" where
  "direct_hole_loop [] b a = (None, a)"
| "direct_hole_loop (i # is) b a = (let a1 = INODE_GET_DIRECT b i in if IS_ADDR_FREE a1 then (Some i, a1) else direct_hole_loop is b a1)"

definition findEmptySparseBlock ::
  "u32 \<Rightarrow> logical_addr \<Rightarrow> u32 \<Rightarrow> 'z fs_scheme \<Rightarrow> (u32 \<times> logical_addr \<times> u32 \<times> 'z fs_scheme) option" where
  "findEmptySparseBlock ino_num block_addr tid s = do {
     (e, _, s1) \<leftarrow> readInodeBlock FsBuf ino_num (Local init_logical_address) TID_EMPTY s;
     if e \<noteq> 0 then Some (-1, block_addr, 0, s1)
     else do {
       let ino = fs_buffer s1;
       let off1 = INODE_FILE_DATA_SIZE;
       case direct_hole_loop [0..<10] ino block_addr of
         (Some i, a) \<Rightarrow> Some (0, a, off1 + of_nat i * FS_BLOCK_SIZE, s1)
       | (None, _) \<Rightarrow> do {
           let off2 = off1 + INODE_DIRECT_DATA_SIZE;
           let a2 = INODE_GET_INDIRECT ino;
           if IS_ADDR_FREE a2 then do {
             (e2, a, off, s2) \<leftarrow> findEmptyDirectEntry a2 off2 FS_BLOCK_SIZE INDIRECT_INDEX_OFFSET_IN_LOG_ADDRESSES tid s1;
             Some (if e2 \<noteq> 0 then -1 else 0, a, off, s2)
           } else do {
             let off3 = off2 + INODE_INDIRECT_DATA_SIZE;
             let a3 = INODE_GET_DOUBLE ino;
             if IS_ADDR_FREE a3 then do {
               (e3, a, off, s2) \<leftarrow> findEmptyDirectEntry a3 off3 INODE_INDIRECT_DATA_SIZE DOUBLE_INDEX_OFFSET_IN_LOG_ADDRESSES tid s1;
               if e3 \<noteq> 0 then Some (-1, a, off, s2)
               else if IS_ADDR_FREE a then do {
                 (e4, a4, off', s3) \<leftarrow> findEmptyDirectEntry a off FS_BLOCK_SIZE (CALC_OFFSET_IN_DOUBLE_BLOCK (CALC_OFFSET_FROM_DOUBLE off)) tid s2;
                 Some (if e4 \<noteq> 0 then -1 else 0, a4, off', s3)
               } else Some (FS_ERROR_NON_EXISTING_HOLE, a, off, s2)
             } else do {
               let off4 = off3 + INODE_DOUBLE_DATA_SIZE;
               let a4 = INODE_GET_TRIPLE ino;
               if IS_ADDR_FREE a4 then do {
                 (e4, a, off, s2) \<leftarrow> findEmptyDirectEntry a4 off4 INODE_DOUBLE_DATA_SIZE TRIPLE_INDEX_OFFSET_IN_LOG_ADDRESSES tid s1;
                 if e4 \<noteq> 0 then Some (-1, a, off, s2)
                 else if IS_ADDR_FREE a then do {
                   (e5, a5, off5, s3) \<leftarrow> findEmptyDirectEntry a off INODE_INDIRECT_DATA_SIZE
                      (CALC_OFFSET_IN_TRIPLE_BLOCK (CALC_OFFSET_FROM_TRIPLE off)) tid s2;
                   if e5 \<noteq> 0 then Some (-1, a5, off5, s3)
                   else if IS_ADDR_FREE a5 then do {
                     (e6, a6, off6, s4) \<leftarrow> findEmptyDirectEntry a5 off5 FS_BLOCK_SIZE
                        (CALC_LOG_ADDR_OFFSET_IN_BLOCK (CALC_OFFSET_IN_INDIRECT_SIZE (CALC_OFFSET_FROM_TRIPLE off5))) tid s3;
                     Some (if e6 \<noteq> 0 then -1 else 0, a6, off6, s4)
                   } else Some (FS_ERROR_NON_EXISTING_HOLE, a5, off5, s3)
                 } else Some (FS_ERROR_NON_EXISTING_HOLE, a, off, s2)
               } else Some (-1, a4, off4, s1)
             }
           }
         }
     }
   }"

text \<open>The search of a used entry starts at \<open>entry_offset\<close>, which is also the parent offset of the block.\<close>

fun used_entry_loop :: "nat list \<Rightarrow> (nat \<Rightarrow> logical_addr) \<Rightarrow> logical_addr \<Rightarrow> nat option \<times> logical_addr" where
  "used_entry_loop [] g a = (None, a)"
| "used_entry_loop (i # is) g a = (if \<not> IS_ADDR_EMPTY (g i) then (Some i, g i) else used_entry_loop is g (g i))"

definition findNonEmptyDirectEntry ::
  "logical_addr \<Rightarrow> u32 \<Rightarrow> u32 \<Rightarrow> u32 \<Rightarrow> u32 \<Rightarrow> 'z fs_scheme \<Rightarrow> (u32 \<times> logical_addr \<times> u32 \<times> 'z fs_scheme) option" where
  "findNonEmptyDirectEntry block_addr entry_offset offset entry_pointer_size tid s = do {
     (e, s1) \<leftarrow> fsReadBlock block_addr FsBuf tid entry_offset True s;
     if e \<noteq> 0 then Some (-1, block_addr, offset, s1)
     else (case used_entry_loop [unat entry_offset..<512] (BLOCK_GET_INDEX (fs_buffer s1)) block_addr of
         (None, a) \<Rightarrow> Some (-1, a, offset, s1)
       | (Some i, a) \<Rightarrow> (let offset1 = offset + (of_nat i - entry_offset) * entry_pointer_size in
           Some (if offset1 < FS_MAX_FILESIZE then 0 else -1, a, offset1, s1)))
   }"

definition findNextNonEmptySparseBlock ::
  "logical_addr \<Rightarrow> logical_addr \<Rightarrow> u32 \<Rightarrow> u32 \<Rightarrow> 'z fs_scheme \<Rightarrow> (u32 \<times> logical_addr \<times> u32 \<times> 'z fs_scheme) option" where
  "findNextNonEmptySparseBlock ino_addr block_addr offset tid s = do {
     (e, s1) \<leftarrow> fsReadBlock ino_addr FsBuf tid CACHE_ENTRY_OFFSET_EMPTY True s;
     if e \<noteq> 0 then Some (-1, block_addr, offset, s1)
     else do {
       let ino = fs_buffer s1;
       let off = offset - CALC_OFFSET_IN_FILE_BLOCK offset + FS_BLOCK_SIZE;
       let block_offset = CALC_IN_BLOCKS (off - INODE_FILE_DATA_SIZE);
       case (if off < INDIRECT_DATA_OFFSET then used_entry_loop [unat block_offset..<10] (INODE_GET_DIRECT ino) block_addr
             else (None, block_addr)) of
         (Some i, a) \<Rightarrow> Some (0, a, off + (of_nat i - block_offset) * FS_BLOCK_SIZE, s1)
       | (None, _) \<Rightarrow> do {
           let off2 = (if off < INDIRECT_DATA_OFFSET then INDIRECT_DATA_OFFSET else off);
           if off2 < DOUBLE_DATA_OFFSET \<and> \<not> IS_ADDR_EMPTY (INODE_GET_INDIRECT ino) then do {
             (e2, a, off', s2) \<leftarrow> findNonEmptyDirectEntry (INODE_GET_INDIRECT ino)
                (CALC_OFFSET_IN_INDIRECT_BLOCK (CALC_OFFSET_FROM_INDIRECT off2)) off2 FS_BLOCK_SIZE tid s1;
             Some (if e2 \<noteq> 0 then -1 else 0, a, off', s2)
           } else do {
             let off3 = (if off2 < DOUBLE_DATA_OFFSET then DOUBLE_DATA_OFFSET else off2);
             if off3 < TRIPLE_DATA_OFFSET \<and> \<not> IS_ADDR_EMPTY (INODE_GET_DOUBLE ino) then do {
               let temp = CALC_OFFSET_FROM_DOUBLE off3;
               (e3, a, off', s2) \<leftarrow> findNonEmptyDirectEntry (INODE_GET_DOUBLE ino) (CALC_OFFSET_IN_DOUBLE_BLOCK temp) off3
                  INODE_INDIRECT_DATA_SIZE tid s1;
               if e3 \<noteq> 0 then Some (-1, a, off', s2)
               else if \<not> IS_ADDR_EMPTY a then do {
                 (e4, a4, off4, s3) \<leftarrow> findNonEmptyDirectEntry a
                    (CALC_OFFSET_IN_INDIRECT_BLOCK (CALC_OFFSET_IN_INDIRECT_SIZE temp)) off' FS_BLOCK_SIZE tid s2;
                 Some (if e4 \<noteq> 0 then -1 else 0, a4, off4, s3)
               } else Some (-1, a, off', s2)
             } else do {
               let off4 = (if off3 < TRIPLE_DATA_OFFSET then TRIPLE_DATA_OFFSET else off3);
               let a4 = INODE_GET_TRIPLE ino;
               if \<not> IS_ADDR_EMPTY a4 then do {
                 let temp = CALC_OFFSET_FROM_TRIPLE off4;
                 (e5, a5, off5, s2) \<leftarrow> findNonEmptyDirectEntry a4 (CALC_OFFSET_IN_DOUBLE_SIZE temp) off4 INODE_DOUBLE_DATA_SIZE tid s1;
                 if e5 \<noteq> 0 then Some (-1, a5, off5, s2)
                 else if IS_ADDR_EMPTY a5 then Some (-1, a5, off5, s2)
                 else do {
                   let temp2 = CALC_OFFSET_IN_DOUBLE_SIZE temp;
                   (e6, a6, off6, s3) \<leftarrow> findNonEmptyDirectEntry a5 (CALC_OFFSET_IN_INDIRECT_SIZE temp2) off5 INODE_INDIRECT_DATA_SIZE tid s2;
                   if e6 \<noteq> 0 then Some (-1, a6, off6, s3)
                   else if IS_ADDR_EMPTY a6 then Some (-1, a6, off6, s3)
                   else do {
                     (e7, a7, off7, s4) \<leftarrow> findNonEmptyDirectEntry a6
                        (CALC_OFFSET_IN_INDIRECT_BLOCK (CALC_OFFSET_IN_INDIRECT_SIZE temp2)) off6 FS_BLOCK_SIZE tid s3;
                     Some (if e7 \<noteq> 0 then -1 else 0, a7, off7, s4)
                   }
                 }
               } else Some (FS_ERROR_OFST_OVRFLW, a4, off4, s1)
             }
           }
         }
     }
   }"

end
