(* ===== verification/FilePath.thy ===== *)
theory FilePath
  imports FileRead
begin

text \<open>
  Reading a file as walking a tree.  The tree is described on natural numbers, without caches, transactions or
  the flash: \<open>file_path\<close> gives the positions of the addresses on the way from the inode to the block of an
  offset, and \<open>descend\<close> follows them through an abstract store of blocks.  The functions of the file system are
  shown to do the same on the simulated flash, through the interface \<open>block_store\<close>.
\<close>

unbundle bit_operations_syntax

section \<open>The reference\<close>

text \<open>Sizes in bytes: 1983 in the inode, 10 direct blocks of 2048, and subtrees of 512 blocks, 512 leaves and so on.\<close>

definition file_path :: "nat \<Rightarrow> nat list" where
  "file_path off =
     (if off < 1983 then []
      else if off < 22463 then [1996 + 4 * ((off - 1983) div 2048)]
      else (let r = off - 22463; leaf = 4 * (r mod 0x100000 div 2048) in
        if r < 0x100000 then [2036, leaf]
        else if r < 0x20100000 then [2040, 4 * ((r - 0x100000) div 0x100000), leaf]
        else [2044, 4 * ((r - 0x20100000) div 0x20000000), 4 * ((r - 0x20100000) mod 0x20000000 div 0x100000), leaf]))"

fun descend :: "(logical_addr \<Rightarrow> buf option) \<Rightarrow> buf \<Rightarrow> nat list \<Rightarrow> buf option" where
  "descend content d [] = Some d"
| "descend content d (p # ps) = (case content (addr_at d p) of None \<Rightarrow> None | Some d' \<Rightarrow> descend content d' ps)"

lemma descend_ConsD: "descend content d (p # ps) = Some x \<Longrightarrow> \<exists>d'. content (addr_at d p) = Some d' \<and> descend content d' ps = Some x"
  by (auto split: option.splits)

lemma descend_append:
  "descend content d (ps @ qs) = (case descend content d ps of None \<Rightarrow> None | Some d' \<Rightarrow> descend content d' qs)"
  by (induction ps arbitrary: d) (auto split: option.split)

text \<open>The address at the end of a path.\<close>

definition path_addr :: "(logical_addr \<Rightarrow> buf option) \<Rightarrow> buf \<Rightarrow> nat list \<Rightarrow> logical_addr option" where
  "path_addr content d ps = map_option (\<lambda>d'. addr_at d' (last ps)) (descend content d (butlast ps))"

text \<open>Two buffers that hold the same block.\<close>

definition same_block :: "buf \<Rightarrow> buf \<Rightarrow> bool" where
  "same_block b d = (\<forall>i<2048. b i = d i)"

lemma same_block_addr: "same_block b d \<Longrightarrow> p + 4 \<le> 2048 \<Longrightarrow> addr_at b p = addr_at d p"
  by (simp add: same_block_def addr_at_def)

lemma same_block_uint32: "same_block b d \<Longrightarrow> k + 4 \<le> 2048 \<Longrightarrow> GET_UINT32 b 0 k = GET_UINT32 d 0 k"
  by (rule GET_UINT32_cong) (simp add: same_block_def)

section \<open>A store of blocks\<close>

text \<open>
  What a reader of blocks may rely on: reading an address whose block is known puts that block into the buffer,
  and the store is as good afterwards as before.  \<open>frame\<close> collects what a read leaves alone.
\<close>

locale block_store =
  fixes ok :: "'s \<Rightarrow> bool"
    and content :: "'s \<Rightarrow> logical_addr \<Rightarrow> buf option"
    and frame :: "'s \<Rightarrow> 's \<Rightarrow> bool"
    and buffer :: "'s \<Rightarrow> buf"
    and read :: "logical_addr \<Rightarrow> 's \<Rightarrow> (u32 \<times> 's) option"
  assumes read_content: "ok s \<Longrightarrow> content s a = Some d \<Longrightarrow>
      \<exists>s'. read a s = Some (0, s') \<and> same_block (buffer s') d \<and> ok s' \<and> frame s s'"
    and frame_content: "frame s s' \<Longrightarrow> content s' = content s"
    and frame_trans: "frame s s1 \<Longrightarrow> frame s1 s2 \<Longrightarrow> frame s s2"
begin

definition holds_block :: "'s \<Rightarrow> 's \<Rightarrow> buf \<Rightarrow> bool" where
  "holds_block s s' d = (ok s' \<and> frame s s' \<and> same_block (buffer s') d)"

lemma read_first: "ok s \<Longrightarrow> content s a = Some d \<Longrightarrow> \<exists>s'. read a s = Some (0, s') \<and> holds_block s s' d"
  using read_content [of s a d] by (auto simp: holds_block_def)

lemma read_again:
  assumes "holds_block s s1 d" "content s a = Some d'"
  shows "\<exists>s'. read a s1 = Some (0, s') \<and> holds_block s s' d'"
proof -
  have "content s1 a = Some d'" using assms frame_content [of s s1] by (simp add: holds_block_def)
  then obtain s' where "read a s1 = Some (0, s')" "same_block (buffer s') d'" "ok s'" "frame s1 s'"
    using read_content [of s1 a d'] assms(1) by (auto simp: holds_block_def)
  then show ?thesis using frame_trans [of s s1 s'] assms(1) by (auto simp: holds_block_def)
qed

text \<open>One step down: the address is taken from the buffer, at a position inside the block.\<close>

lemma holds_addr: "holds_block s s1 d \<Longrightarrow> p + 4 \<le> 2048 \<Longrightarrow> addr_at (buffer s1) p = addr_at d p"
  using same_block_addr by (simp add: holds_block_def)

lemma holds_uint32: "holds_block s s' d \<Longrightarrow> k + 4 \<le> 2048 \<Longrightarrow> GET_UINT32 (buffer s') 0 k = GET_UINT32 d 0 k"
  by (auto simp: holds_block_def intro: same_block_uint32)

end

section \<open>The flash as a store of blocks\<close>

text \<open>The block at an address: 0xff for the empty address, and the page for an address that is mapped to a readable page.\<close>

definition stored_block :: "'z seq_scheme \<Rightarrow> logical_addr \<Rightarrow> buf option" where
  "stored_block s a =
     (if IS_ADDRESS_EMPTY a then Some (\<lambda>_. 0xff)
      else if IS_CACHED_ADDR a then None
      else (case plain_page a s of None \<Rightarrow> None
        | Some p \<Rightarrow> if unit_fine p s \<and> \<not> rd_fail s p \<and> page_sound (cells s p) then Some (cells s p) else None))"

definition store_ok :: "'z fs_scheme \<Rightarrow> bool" where
  "store_ok s = (FS_CACHE_BUFFERS s = 0 \<and> eus_ok s)"

text \<open>What a read changes: the buffer read into, the sequencing buffer and the table of known erase units.\<close>

definition reads_into :: "buf_ref \<Rightarrow> 'z fs_scheme \<Rightarrow> 'z fs_scheme \<Rightarrow> bool" where
  "reads_into b s s' = (\<exists>q c d. s' = wr b d (s\<lparr>valid_eus := q, sequencing_buffer := c\<rparr>))"

lemma wr_simps [simp]:
  "rd b (wr b d s) = d" "FS_CACHE_BUFFERS (wr b d s) = FS_CACHE_BUFFERS s" "fs_bytes (wr b d s) = fs_bytes s"
  "t_ino_num (transactions (wr b d s) t) = t_ino_num (transactions s t)"
  "wr b e (wr b d s) = wr b e s" "(wr b d s)\<lparr>valid_eus := q\<rparr> = wr b d (s\<lparr>valid_eus := q\<rparr>)"
  "(wr b d s)\<lparr>sequencing_buffer := c\<rparr> = wr b d (s\<lparr>sequencing_buffer := c\<rparr>)"
  by (cases b; simp add: upd_tr_def upd_cache_def)+

lemma eus_ok_wr [simp]: "eus_ok (wr b d s) = eus_ok s" "eus_ok (s\<lparr>sequencing_buffer := c\<rparr>) = eus_ok s"
  by (cases b; simp add: upd_tr_def upd_cache_def eus_ok_def eu_good_def)+

lemma stored_block_cong:
  assumes "plain_page a s' = plain_page a s" "\<And>p. unit_fine p s' = unit_fine p s" "rd_fail s' = rd_fail s" "cells s' = cells s"
  shows "stored_block s' a = stored_block s a"
  using assms by (simp add: stored_block_def split: option.split)

lemma stored_block_seq [simp]:
  "stored_block (s\<lparr>valid_eus := q\<rparr>) = stored_block s" "stored_block (s\<lparr>sequencing_buffer := c\<rparr>) = stored_block s"
proof -
  note defs = plain_page_def unit_fine_def eu_good_def eu_readable_def IS_STATE_RECLAMATION_def
    GET_RECLAIMED_SEGMENT_SLOT_def GET_SEG_MAP_SLOT_FOR_SEG_def GET_RECLAIMED_SEGMENT_def GET_RECLAIMED_OFFSET_def
  show "stored_block (s\<lparr>valid_eus := q\<rparr>) = stored_block s" "stored_block (s\<lparr>sequencing_buffer := c\<rparr>) = stored_block s"
    by (rule ext, rule stored_block_cong; simp add: defs)+
qed

lemma stored_block_init_buf [simp]: "stored_block (init_buf s) = stored_block s"
  by (simp add: init_buf_def)

lemma stored_block_upd [simp]:
  "stored_block (upd_tr t f s) = stored_block s" "stored_block (wr b d s) = stored_block s"
proof -
  note defs = plain_page_def unit_fine_def eu_good_def eu_readable_def upd_tr_def upd_cache_def IS_STATE_RECLAMATION_def
    GET_RECLAIMED_SEGMENT_SLOT_def GET_SEG_MAP_SLOT_FOR_SEG_def GET_RECLAIMED_SEGMENT_def GET_RECLAIMED_OFFSET_def
  show "stored_block (upd_tr t f s) = stored_block s" by (rule ext, rule stored_block_cong; simp add: defs)
  show "stored_block (wr b d s) = stored_block s" by (rule ext, rule stored_block_cong; cases b; simp add: defs)
qed

lemma reads_into_wr: "reads_into b s (wr b d s)"
proof -
  have "wr b d s = wr b d (s\<lparr>valid_eus := valid_eus s, sequencing_buffer := sequencing_buffer s\<rparr>)" by simp
  then show ?thesis unfolding reads_into_def by blast
qed

interpretation flash: block_store store_ok stored_block "reads_into b" "rd b" "\<lambda>a s. fsReadBlock a b tid offset True s"
  for b tid offset
proof
  fix s :: "'z fs_scheme" and a d
  assume s: "store_ok s" and a: "stored_block s a = Some d"
  show "\<exists>s'. fsReadBlock a b tid offset True s = Some (0, s') \<and> same_block (rd b s') d \<and> store_ok s' \<and> reads_into b s s'"
  proof (cases "IS_ADDRESS_EMPTY a")
    case True
    then have "fsReadBlock a b tid offset True s = Some (0, wr b (init_struct (rd b s) 0 2048) s)"
      by (simp add: fsReadBlock_def init_fsbuf_def)
    moreover have "d = (\<lambda>_. 0xff)" using a True by (simp add: stored_block_def)
    ultimately show ?thesis using s reads_into_wr [of b s] by (auto simp: same_block_def init_struct_def store_ok_def)
  next
    case False
    then obtain p where p: "plain_page a s = Some p" "unit_fine p s" "\<not> rd_fail s p" "page_sound (cells s p)" "d = cells s p" "\<not> IS_CACHED_ADDR a"
      using a by (auto simp: stored_block_def split: if_splits option.splits)
    then obtain q c where "readBlock a (rd b s) s = Some (0, buf_copy (rd b s) 0 d 0 2048, s\<lparr>valid_eus := q, sequencing_buffer := c\<rparr>)" "eus_ok (s\<lparr>valid_eus := q\<rparr>)"
      using readBlock_plain_state [of a s p "rd b s"] s by (auto simp: store_ok_def)
    then show ?thesis using s p False
      by (auto simp: fsReadBlock_def store_ok_def same_block_def reads_into_def)
  qed
next
  fix s s' :: "'z fs_scheme"
  assume "reads_into b s s'"
  then show "stored_block s' = stored_block s" by (auto simp: reads_into_def)
next
  fix s s1 s2 :: "'z fs_scheme"
  assume "reads_into b s s1" "reads_into b s1 s2"
  then show "reads_into b s s2"
    unfolding reads_into_def by (elim exE) (simp, blast)
qed

section \<open>The arithmetic of offsets\<close>

lemma block_down: "(x - x mod 2048) div (2048 * m) = x div (2048 * m :: nat)"
proof -
  have "(x - x mod 2048) div (2048 * m) = 2048 * (x div 2048) div (2048 * m)" by (simp add: minus_mod_eq_mult_div)
  also have "\<dots> = x div 2048 div m" by simp
  finally show ?thesis by (simp add: div_mult2_eq)
qed

lemma mod_down: "(x - x mod 2048) mod (2048 * m) = x mod (2048 * m) - x mod (2048 :: nat)"
proof -
  have "(x - x mod 2048) mod (2048 * m) = 2048 * (x div 2048) mod (2048 * m)" by (simp add: minus_mod_eq_mult_div)
  also have "\<dots> = 2048 * (x div 2048 mod m)" by (simp add: mod_mult_mult1)
  finally show ?thesis by (simp add: mod_mult2_eq)
qed

lemma leaf_down: "(x - x mod 2048) mod 0x100000 div 2 ^ 11 = x mod 0x100000 div (2048 :: nat)"
proof -
  have "(x - x mod 2048) mod 0x100000 = x mod 0x100000 - x mod 0x100000 mod 2048"
    using mod_down [of x 512] by (simp add: mod_mod_cancel)
  moreover have "(y - y mod 2048) div 2048 = y div 2048" for y :: nat using block_down [of y 1] by simp
  ultimately show ?thesis by simp
qed

lemma and_masks:
  "unat (x AND 0x7ff :: u32) = unat x mod 2048" "unat (x AND 0xfffff :: u32) = unat x mod 0x100000"
  "unat (x AND 0x1fffffff :: u32) = unat x mod 0x20000000"
  using unat_mod_word [of x 11] unat_mod_word [of x 20] unat_mod_word [of x 29] by (simp_all add: mask_eq_exp_minus_1)

lemmas calc_defs = CALC_IN_BLOCKS_def CALC_OFFSET_IN_INDIRECT_BLOCK_def CALC_OFFSET_IN_INDIRECT_SIZE_def
  CALC_OFFSET_FROM_INDIRECT_def CALC_OFFSET_IN_DOUBLE_BLOCK_def CALC_OFFSET_IN_DOUBLE_SIZE_def CALC_OFFSET_IN_TRIPLE_BLOCK_def
  CALC_OFFSET_IN_FILE_BLOCK_def CALC_OFFSET_IN_BLOCK_def CALC_OFFSET_FROM_DOUBLE_def CALC_OFFSET_FROM_TRIPLE_def

text \<open>The start of the block of an offset.\<close>

definition block_start :: "u32 \<Rightarrow> u32" where
  "block_start off = off - CALC_OFFSET_IN_FILE_BLOCK off"

lemma in_file_block: "1983 \<le> off \<Longrightarrow> unat (CALC_OFFSET_IN_FILE_BLOCK off) = (unat off - 1983) mod 2048"
  by (simp add: calc_defs and_masks unat_sub)

lemma unat_block_start: "1983 \<le> off \<Longrightarrow> unat (block_start off) = unat off - (unat off - 1983) mod 2048"
proof -
  assume off: "1983 \<le> off"
  have "(unat off - 1983) mod 2048 \<le> unat off" by (rule order.trans [OF mod_less_eq_dividend]) simp
  then have "CALC_OFFSET_IN_FILE_BLOCK off \<le> off" using in_file_block [OF off] by (simp add: word_le_nat_alt)
  then show ?thesis using in_file_block [OF off] by (simp add: block_start_def unat_sub)
qed

lemma direct_entry:
  "1983 \<le> off \<Longrightarrow> unat (CALC_IN_BLOCKS (off - INODE_FILE_DATA_SIZE)) = (unat off - 1983) div 2048"
  by (simp add: calc_defs unat_drop_bit_u32 unat_sub)

lemma leaf_entry:
  "22463 \<le> off \<Longrightarrow> unat (CALC_OFFSET_IN_INDIRECT_BLOCK (CALC_OFFSET_IN_INDIRECT_SIZE (CALC_OFFSET_FROM_INDIRECT off))) =
     (unat off - 22463) mod 0x100000 div 2048"
  by (simp only: calc_defs unat_drop_bit_u32 and_masks) (simp add: unat_sub)

lemma start_from:
  assumes "b \<le> off" "1983 \<le> b" "2048 dvd unat b - 1983"
  shows "unat (block_start off - b) = (unat off - unat b) - (unat off - unat b) mod 2048" "b \<le> block_start off"
proof -
  have b: "1983 \<le> unat b" "unat b \<le> unat off" using assms(1,2) by (simp_all add: word_le_nat_alt)
  then obtain k where k: "unat b = 1983 + 2048 * k" using assms(3) by (metis dvdE le_add_diff_inverse)
  let ?r = "unat off - unat b"
  have off: "unat off = 1983 + 2048 * k + ?r" using k b by simp
  then have "unat off - 1983 = 2048 * k + ?r" by linarith
  then have m: "(unat off - 1983) mod 2048 = ?r mod 2048" by (simp only: mod_mult_self4)
  have "1983 \<le> off" using assms(1,2) by simp
  then have start: "unat (block_start off) = unat off - ?r mod 2048" using unat_block_start [of off] m by simp
  have le: "?r mod 2048 \<le> ?r" by (rule mod_less_eq_dividend)
  show le2: "b \<le> block_start off" using start off le k by (simp add: word_le_nat_alt)
  show "unat (block_start off - b) = ?r - ?r mod 2048" using start off le k unat_sub [OF le2] by linarith
qed

lemma start_less:
  assumes "1983 \<le> off" "1983 \<le> b" "2048 dvd unat b - 1983"
  shows "block_start off < b \<longleftrightarrow> off < b"
proof
  show "off < b \<Longrightarrow> block_start off < b"
    using unat_block_start [OF assms(1)] by (simp add: word_less_nat_alt)
  show "block_start off < b \<Longrightarrow> off < b" using start_from(2) [of b off] assms(2,3) by (meson leD leI)
qed

lemma double_entry:
  "1071039 \<le> off \<Longrightarrow> unat (CALC_OFFSET_IN_DOUBLE_BLOCK (block_start off - DOUBLE_DATA_OFFSET)) = (unat off - 1071039) div 0x100000"
  using start_from(1) [of 1071039 off] block_down [of "unat off - 1071039" 512]
  by (simp add: CALC_OFFSET_IN_DOUBLE_BLOCK_def unat_drop_bit_u32)

lemma triple_entry:
  assumes "537941951 \<le> off"
  shows "unat (CALC_OFFSET_IN_TRIPLE_BLOCK (block_start off - TRIPLE_DATA_OFFSET)) = (unat off - 537941951) div 0x20000000"
    "unat (CALC_OFFSET_IN_DOUBLE_BLOCK (CALC_OFFSET_IN_DOUBLE_SIZE (block_start off - TRIPLE_DATA_OFFSET))) =
       (unat off - 537941951) mod 0x20000000 div 0x100000"
proof -
  let ?r = "unat off - 537941951"
  have s: "unat (block_start off - TRIPLE_DATA_OFFSET) = ?r - ?r mod 2048" using start_from(1) [of 537941951 off] assms by simp
  show "unat (CALC_OFFSET_IN_TRIPLE_BLOCK (block_start off - TRIPLE_DATA_OFFSET)) = ?r div 0x20000000"
    using block_down [of ?r 262144] by (simp add: CALC_OFFSET_IN_TRIPLE_BLOCK_def unat_drop_bit_u32 s)
  have "unat (CALC_OFFSET_IN_DOUBLE_BLOCK (CALC_OFFSET_IN_DOUBLE_SIZE (block_start off - TRIPLE_DATA_OFFSET))) =
      (?r - ?r mod 2048) mod 0x20000000 div 0x100000"
    by (simp only: CALC_OFFSET_IN_DOUBLE_SIZE_def CALC_OFFSET_IN_DOUBLE_BLOCK_def and_masks unat_drop_bit_u32 s) simp
  also have "\<dots> = (?r mod 0x20000000 - ?r mod 0x20000000 mod 2048) div 0x100000"
    using mod_down [of ?r 262144] by (simp add: mod_mod_cancel)
  finally show "unat (CALC_OFFSET_IN_DOUBLE_BLOCK (CALC_OFFSET_IN_DOUBLE_SIZE (block_start off - TRIPLE_DATA_OFFSET))) = ?r mod 0x20000000 div 0x100000"
    using block_down [of "?r mod 0x20000000" 512] by simp
qed

text \<open>The positions of a path stay inside a block, since no offset is beyond the greatest file size.\<close>

lemma file_path_positions:
  assumes "off \<le> 0x40000000"
  shows "\<forall>p \<in> set (file_path off). p + 4 \<le> 2048"
proof -
  have "(off - 22463) mod 0x100000 div 2048 < 512" by (rule less_mult_imp_div_less) simp
  moreover have "(off - 22463 - 0x20100000) mod 0x20000000 div 0x100000 < 512" by (rule less_mult_imp_div_less) simp
  moreover have "(off - 22463 - 0x20100000) div 0x20000000 < 512" by (rule less_mult_imp_div_less) (use assms in simp)
  moreover have "off - 22463 < 0x20100000 \<Longrightarrow> (off - 22463 - 0x100000) div 0x100000 < 512" by (rule less_mult_imp_div_less) simp
  moreover have "off < 22463 \<Longrightarrow> (off - 1983) div 2048 < 10" by (rule less_mult_imp_div_less) simp
  ultimately show ?thesis unfolding file_path_def Let_def by auto
qed

lemma file_path_regions:
  "22463 \<le> off \<Longrightarrow> off < 1071039 \<Longrightarrow> file_path off = [2036, 4 * ((off - 22463) mod 0x100000 div 2048)]"
  "1071039 \<le> off \<Longrightarrow> off < 537941951 \<Longrightarrow>
     file_path off = [2040, 4 * ((off - 1071039) div 0x100000), 4 * ((off - 22463) mod 0x100000 div 2048)]"
  "537941951 \<le> off \<Longrightarrow>
     file_path off = [2044, 4 * ((off - 537941951) div 0x20000000), 4 * ((off - 537941951) mod 0x20000000 div 0x100000),
       4 * ((off - 22463) mod 0x100000 div 2048)]"
proof -
  have r: "off - 22463 - 0x100000 = off - 1071039" "off - 22463 - 0x20100000 = off - 537941951" by linarith+
  show "file_path off = [2036, 4 * ((off - 22463) mod 0x100000 div 2048)]" if "22463 \<le> off" "off < 1071039"
  proof -
    have "off - 22463 < 0x100000" using that by linarith
    then show ?thesis using that by (simp add: file_path_def Let_def)
  qed
  show "file_path off = [2040, 4 * ((off - 1071039) div 0x100000), 4 * ((off - 22463) mod 0x100000 div 2048)]"
    if "1071039 \<le> off" "off < 537941951"
  proof -
    have "\<not> off - 22463 < 0x100000" "off - 22463 < 0x20100000" using that by linarith+
    then show ?thesis using that by (simp only: file_path_def Let_def r if_False if_True) simp
  qed
  show "file_path off = [2044, 4 * ((off - 537941951) div 0x20000000), 4 * ((off - 537941951) mod 0x20000000 div 0x100000),
       4 * ((off - 22463) mod 0x100000 div 2048)]" if "537941951 \<le> off"
  proof -
    have "\<not> off - 22463 < 0x100000" "\<not> off - 22463 < 0x20100000" using that by linarith+
    then show ?thesis using that by (simp only: file_path_def Let_def r if_False if_True) simp
  qed
qed

section \<open>Walking the tree\<close>

lemma read_indirect:
  assumes off: "22463 \<le> off" "off \<le> FS_MAX_FILESIZE"
    and inode: "flash.holds_block b s s1 d" "stored_block s a = Some d"
    and path: "descend (stored_block s) d (butlast (file_path (unat off))) = Some x"
  shows "\<exists>la s'. readIndirectToBuffer (block_start off) (Local a) b init_logical_address TID_EMPTY False s1 = Some (0, la, s') \<and>
    flash.holds_block b s s' x"
proof -
  have n: "22463 \<le> unat off" "unat off \<le> 0x40000000" using off by (simp_all add: word_le_nat_alt)
  have le: "1983 \<le> off" using off(1) by (simp add: word_le_nat_alt)
  have start: "block_start off < INDIRECT_DATA_OFFSET \<longleftrightarrow> False" "block_start off < DOUBLE_DATA_OFFSET \<longleftrightarrow> unat off < 1071039"
    "block_start off < TRIPLE_DATA_OFFSET \<longleftrightarrow> unat off < 537941951"
    using n start_less [OF le, of 22463] start_less [OF le, of 1071039] start_less [OF le, of 537941951]
    by (simp_all add: word_less_nat_alt)
  obtain s2 where s2: "(if \<not> IS_ADDR_EMPTY a then fsReadBlock a b TID_EMPTY CACHE_ENTRY_OFFSET_EMPTY True s1 else Some (0, s1)) = Some (0, s2)"
      "flash.holds_block b s s2 d"
    using flash.read_again [OF inode, of TID_EMPTY CACHE_ENTRY_OFFSET_EMPTY] inode(1) by (cases "IS_ADDR_EMPTY a") auto
  note positions = file_path_positions [OF n(2)]
  consider (indirect) "unat off < 1071039" | (double) "1071039 \<le> unat off" "unat off < 537941951" | (triple) "537941951 \<le> unat off"
    by linarith
  then show ?thesis
  proof cases
    case indirect
    then have "stored_block s (INODE_GET_INDIRECT (rd b s2)) = Some x"
      using path n flash.holds_addr [OF s2(2), of 2036] by (auto simp: file_path_regions(1) INODE_GET_INDIRECT_def split: option.splits)
    from flash.read_again [OF s2(2) this, of TID_EMPTY INDIRECT_INDEX_OFFSET_IN_LOG_ADDRESSES]
    show ?thesis using indirect s2(1) start by (auto simp: readIndirectToBuffer_def)
  next
    case double
    let ?k = "(unat off - 1071039) div 0x100000"
    have k: "4 * ?k + 4 \<le> 2048" "file_path (unat off) = [2040, 4 * ?k, 4 * ((unat off - 22463) mod 0x100000 div 2048)]"
      using positions double by (simp_all add: file_path_regions(2))
    obtain d2 where d2: "stored_block s (addr_at d 2040) = Some d2" "stored_block s (addr_at d2 (4 * ?k)) = Some x"
      using path by (auto simp: k(2) split: option.splits)
    have "stored_block s (INODE_GET_DOUBLE (rd b s2)) = Some d2"
      using d2(1) flash.holds_addr [OF s2(2), of 2040] by (simp add: INODE_GET_DOUBLE_def)
    from flash.read_again [OF s2(2) this, of TID_EMPTY DOUBLE_INDEX_OFFSET_IN_LOG_ADDRESSES]
    obtain s3 where s3: "fsReadBlock (INODE_GET_DOUBLE (rd b s2)) b TID_EMPTY DOUBLE_INDEX_OFFSET_IN_LOG_ADDRESSES True s2 = Some (0, s3)"
      "flash.holds_block b s s3 d2" by blast
    let ?e = "CALC_OFFSET_IN_DOUBLE_BLOCK (block_start off - DOUBLE_DATA_OFFSET)"
    have e: "unat ?e = ?k" using double_entry [of off] double by (simp add: word_le_nat_alt)
    have "stored_block s (BLOCK_GET_INDEX (rd b s3) (unat ?e)) = Some x"
      using d2(2) flash.holds_addr [OF s3(2) k(1)] by (simp add: BLOCK_GET_INDEX_def e)
    from flash.read_again [OF s3(2) this, of TID_EMPTY ?e]
    show ?thesis using double s2(1) start s3(1) by (auto simp: readIndirectToBuffer_def Let_def)
  next
    case triple
    let ?r = "unat off - 537941951"
    let ?j = "?r div 0x20000000" and ?k = "?r mod 0x20000000 div 0x100000"
    have k: "4 * ?j + 4 \<le> 2048" "4 * ?k + 4 \<le> 2048" "file_path (unat off) = [2044, 4 * ?j, 4 * ?k, 4 * ((unat off - 22463) mod 0x100000 div 2048)]"
      using positions triple by (simp_all add: file_path_regions(3))
    obtain d2 d3 where d: "stored_block s (addr_at d 2044) = Some d2" "stored_block s (addr_at d2 (4 * ?j)) = Some d3"
        "stored_block s (addr_at d3 (4 * ?k)) = Some x"
      using path by (auto simp: k(3) split: option.splits)
    have "stored_block s (INODE_GET_TRIPLE (rd b s2)) = Some d2"
      using d(1) flash.holds_addr [OF s2(2), of 2044] by (simp add: INODE_GET_TRIPLE_def)
    from flash.read_again [OF s2(2) this, of TID_EMPTY TRIPLE_INDEX_OFFSET_IN_LOG_ADDRESSES]
    obtain s3 where s3: "fsReadBlock (INODE_GET_TRIPLE (rd b s2)) b TID_EMPTY TRIPLE_INDEX_OFFSET_IN_LOG_ADDRESSES True s2 = Some (0, s3)"
      "flash.holds_block b s s3 d2" by blast
    let ?e = "CALC_OFFSET_IN_TRIPLE_BLOCK (block_start off - TRIPLE_DATA_OFFSET)"
    let ?f = "CALC_OFFSET_IN_DOUBLE_BLOCK (CALC_OFFSET_IN_DOUBLE_SIZE (block_start off - TRIPLE_DATA_OFFSET))"
    have e: "unat ?e = ?j" "unat ?f = ?k" using triple_entry [of off] triple by (simp_all add: word_le_nat_alt)
    have "stored_block s (BLOCK_GET_INDEX (rd b s3) (unat ?e)) = Some d3"
      using d(2) flash.holds_addr [OF s3(2) k(1)] by (simp add: BLOCK_GET_INDEX_def e)
    from flash.read_again [OF s3(2) this, of TID_EMPTY ?e]
    obtain s4 where s4: "fsReadBlock (BLOCK_GET_INDEX (rd b s3) (unat ?e)) b TID_EMPTY ?e True s3 = Some (0, s4)"
      "flash.holds_block b s s4 d3" by blast
    have "stored_block s (BLOCK_GET_INDEX (rd b s4) (unat ?f)) = Some x"
      using d(3) flash.holds_addr [OF s4(2) k(2)] by (simp add: BLOCK_GET_INDEX_def e)
    from flash.read_again [OF s4(2) this, of TID_EMPTY ?f]
    show ?thesis using triple s2(1) start s3(1) s4(1) by (auto simp: readIndirectToBuffer_def Let_def)
  qed
qed

lemma reads_into_sel:
  "reads_into b s s' \<Longrightarrow> fs_bytes s' = fs_bytes s"
  "reads_into b s s' \<Longrightarrow> t_ino_num (transactions s' t) = t_ino_num (transactions s t)"
  by (auto simp: reads_into_def)

lemma holds_wr: "flash.holds_block b s s1 d \<Longrightarrow> same_block e x \<Longrightarrow> flash.holds_block b s (wr b e s1) x"
  using flash.frame_trans [of b s s1 "wr b e s1"] reads_into_wr [of b s1 e]
  by (auto simp: flash.holds_block_def store_ok_def)

text \<open>The address and the contents of the block of an offset, given the inode.\<close>

lemma read_leaf:
  assumes off: "1983 \<le> off" "off \<le> FS_MAX_FILESIZE"
    and inode: "flash.holds_block b s s1 d" "stored_block s a = Some d"
    and path: "descend (stored_block s) d (file_path (unat off)) = Some x" "path_addr (stored_block s) d (file_path (unat off)) = Some la"
  shows "\<exists>e s2 s3.
    data_block_address off (Local a) b TID_EMPTY s1 = Some (0, la, e, s2) \<and>
    fsReadBlock la b TID_EMPTY e True s2 = Some (0, s3) \<and> flash.holds_block b s s3 x"
proof -
  have n: "1983 \<le> unat off" "unat off \<le> 0x40000000" using off by (simp_all add: word_le_nat_alt)
  define p where "p = last (file_path (unat off))"
  have split: "file_path (unat off) = butlast (file_path (unat off)) @ [p]"
    unfolding p_def using n by (simp add: file_path_def Let_def)
  obtain dl where dl: "descend (stored_block s) d (butlast (file_path (unat off))) = Some dl"
    using path(2) by (auto simp: path_addr_def)
  have la: "la = addr_at dl p" using path(2) dl by (simp add: path_addr_def p_def)
  have "descend (stored_block s) d (butlast (file_path (unat off)) @ [p]) = Some x" by (simp only: split [symmetric] path(1))
  then have x: "stored_block s la = Some x" unfolding descend_append by (simp add: dl la split: option.splits)
  have p: "p + 4 \<le> 2048" using file_path_positions [OF n(2)] split by (metis in_set_conv_decomp)
  show ?thesis
  proof (cases "off < INDIRECT_DATA_OFFSET")
    case True
    then have u: "unat off < 22463" by (simp add: word_less_nat_alt)
    have "dl = d" "p = 1996 + 4 * unat (CALC_IN_BLOCKS (off - INODE_FILE_DATA_SIZE))"
      using dl u n direct_entry [OF off(1)] by (simp_all add: file_path_def p_def)
    then have "INODE_GET_DIRECT (rd b s1) (unat (CALC_IN_BLOCKS (off - INODE_FILE_DATA_SIZE))) = la"
      using flash.holds_addr [OF inode(1) p] by (simp add: INODE_GET_DIRECT_def la)
    then show ?thesis using True flash.read_again [OF inode(1) x] by (auto simp: data_block_address_def)
  next
    case False
    then have le: "22463 \<le> off" by simp
    let ?e = "CALC_OFFSET_IN_INDIRECT_BLOCK (CALC_OFFSET_IN_INDIRECT_SIZE (CALC_OFFSET_FROM_INDIRECT off))"
    obtain lb s2 where s2: "readIndirectToBuffer (block_start off) (Local a) b init_logical_address TID_EMPTY False s1 = Some (0, lb, s2)"
        "flash.holds_block b s s2 dl"
      using read_indirect [OF le off(2) inode dl] by blast
    have "p = 4 * unat ?e" using le n leaf_entry [OF le] by (simp add: file_path_def Let_def p_def word_le_nat_alt)
    then have "BLOCK_GET_INDEX (rd b s2) (unat ?e) = la"
      using flash.holds_addr [OF s2(2) p] by (simp add: BLOCK_GET_INDEX_def la)
    then show ?thesis using False s2 flash.read_again [OF s2(2) x] by (auto simp: block_start_def data_block_address_def)
  qed
qed

lemma readFileBlock_over_follows:
  assumes ok: "\<not> held_by_other TID_EMPTY ino s" "off \<le> FS_MAX_FILESIZE" "off \<le> INODE_GET_NBYTES d"
    and inode: "read_inode b ino (Local r0) TID_EMPTY s = Some (0, Local a, s1)" "flash.holds_block b s s1 d" "stored_block s a = Some d"
    and path: "descend (stored_block s) d (file_path (unat off)) = Some x"
  shows "\<exists>s'. readFileBlock_over read_inode b ino off (Local r0) TID_EMPTY s =
      Some (0, Local (if ino = 0 \<and> 1983 \<le> off \<and> \<not> IS_ADDR_EMPTY (the (path_addr (stored_block s) d (file_path (unat off))))
                      then the (path_addr (stored_block s) d (file_path (unat off))) else a), s') \<and>
    flash.holds_block b s s' (if off < 1983 then fsMemset d 1983 0xff 65 else x)"
proof -
  let ?s2 = "wr b (rd b s1) s1"
  have s2: "flash.holds_block b s ?s2 d" using holds_wr [OF inode(2), of "rd b s1" d] inode(2) by (simp add: flash.holds_block_def)
  have size: "\<not> off > INODE_GET_NBYTES (rd b s1)"
    using ok(3) flash.holds_uint32 [OF inode(2), of 1984] by (simp add: INODE_GET_NBYTES_def)
  show ?thesis
  proof (cases "off < 1983")
    case True
    have "same_block (fsMemset (rd b s1) 1983 0xff 65) (fsMemset d 1983 0xff 65)"
      using inode(2) by (simp add: flash.holds_block_def same_block_def fsMemset_fill buf_fill_def)
    moreover have "\<not> off > FS_MAX_FILESIZE" "\<not> 1983 \<le> off" using ok(2) True by simp_all
    ultimately show ?thesis using True ok(1) inode(1) size holds_wr [OF inode(2)]
      by (simp add: readFileBlock_over_def changeFileSize_def)
  next
    case False
    then have le: "1983 \<le> off" by simp
    have "file_path (unat off) \<noteq> []" using le by (simp add: file_path_def Let_def word_le_nat_alt)
    then have "descend (stored_block s) d (butlast (file_path (unat off))) \<noteq> None"
      using path descend_append [of "stored_block s" d "butlast (file_path (unat off))" "[last (file_path (unat off))]"]
      by (auto split: option.splits)
    then obtain la where la: "path_addr (stored_block s) d (file_path (unat off)) = Some la" by (auto simp: path_addr_def)
    from read_leaf [OF le ok(2) s2 inode(3) path la] obtain e s3 s4 where
      leaf: "data_block_address off (Local a) b TID_EMPTY ?s2 = Some (0, la, e, s3)" "fsReadBlock la b TID_EMPTY e True s3 = Some (0, s4)" "flash.holds_block b s s4 x"
      by blast
    have "\<not> off > FS_MAX_FILESIZE" using ok(2) by simp
    then have "readFileBlock_over read_inode b ino off (Local r0) TID_EMPTY s =
        (let (r2, s5) = (if ino = 0 \<and> \<not> IS_ADDR_EMPTY la then assign (Local a) la s4 else (Local a, s4)) in Some (0, r2, s5))"
      unfolding readFileBlock_over_def changeFileSize_def using ok(1) False size inode(1)
      by (simp add: leaf)
    then show ?thesis using False leaf(3) la by (auto simp: Let_def)
  qed
qed

section \<open>Inodes and files\<close>

text \<open>Inode \<open>n\<close> is block \<open>n - 1\<close> of inode 0.  The abstract inode and the abstract block of a file:\<close>

definition inode_offset :: "u32 \<Rightarrow> nat" where
  "inode_offset ino = 1983 + 2048 * (unat ino - 1)"

definition inode_at :: "'z fs_scheme \<Rightarrow> u32 \<Rightarrow> (logical_addr \<times> buf) option" where
  "inode_at s ino = do {
     d0 \<leftarrow> stored_block s (FS_GET_INO0_ADDR s);
     assert_c (inode_offset ino \<le> unat (INODE_GET_NBYTES d0));
     a \<leftarrow> path_addr (stored_block s) d0 (file_path (inode_offset ino));
     assert_c (\<not> IS_ADDR_EMPTY a);
     d \<leftarrow> stored_block s a;
     Some (a, d)
   }"

definition file_block :: "'z fs_scheme \<Rightarrow> u32 \<Rightarrow> nat \<Rightarrow> buf option" where
  "file_block s ino off = do {
     (a, d) \<leftarrow> inode_at s ino;
     assert_c (off \<le> unat (INODE_GET_NBYTES d));
     x \<leftarrow> descend (stored_block s) d (file_path off);
     Some (if off < 1983 then buf_fill x 1983 65 0xff else x)
   }"

lemma file_blockD:
  assumes "file_block s ino off = Some x"
  shows "\<exists>a d y. inode_at s ino = Some (a, d) \<and> off \<le> unat (INODE_GET_NBYTES d) \<and>
    descend (stored_block s) d (file_path off) = Some y \<and> x = (if off < 1983 then buf_fill y 1983 65 0xff else y)"
proof -
  obtain a d where d: "inode_at s ino = Some (a, d)" using assms by (cases "inode_at s ino") (auto simp: file_block_def)
  then have size: "off \<le> unat (INODE_GET_NBYTES d)" using assms by (simp add: file_block_def split: if_split_asm)
  then show ?thesis using assms d by (cases "descend (stored_block s) d (file_path off)") (auto simp: file_block_def)
qed

definition quiet :: "u32 \<Rightarrow> 'z fs_scheme \<Rightarrow> bool" where
  "quiet ino s = (\<forall>t < 2. t_ino_num (transactions s t) \<noteq> ino)"

lemma quiet_not_held: "quiet ino s \<Longrightarrow> \<not> held_by_other TID_EMPTY ino s"
  by (auto simp: quiet_def held_by_other_def list_ex_iff word_less_nat_alt unat_of_nat take_bit_nat_eq_self)

lemma inode_offset_word:
  assumes "1 \<le> ino" "ino \<le> 524288"
  shows "unat (INODE_FILE_DATA_SIZE + CALC_IN_BYTES (ino - 1)) = inode_offset ino" "1983 \<le> INODE_FILE_DATA_SIZE + CALC_IN_BYTES (ino - 1)"
    "INODE_FILE_DATA_SIZE + CALC_IN_BYTES (ino - 1) \<le> FS_MAX_FILESIZE"
proof -
  have n: "1 \<le> unat ino" "unat ino \<le> 524288" using assms by (simp_all add: word_le_nat_alt)
  have "unat (CALC_IN_BYTES (ino - 1)) = 2048 * (unat ino - 1)"
    using n assms by (simp add: CALC_IN_BYTES_def unat_push_bit_u32 unat_sub)
  then show u: "unat (INODE_FILE_DATA_SIZE + CALC_IN_BYTES (ino - 1)) = inode_offset ino"
    using n by (simp add: unat_plus_u32 inode_offset_def)
  show "1983 \<le> INODE_FILE_DATA_SIZE + CALC_IN_BYTES (ino - 1)" "INODE_FILE_DATA_SIZE + CALC_IN_BYTES (ino - 1) \<le> FS_MAX_FILESIZE"
    using n by (simp_all add: word_le_nat_alt u) (simp_all add: inode_offset_def)
qed

lemma getInode_follows:
  assumes ok: "store_ok s" "quiet 0 s" "1 \<le> ino" "ino \<le> 524288" and ino: "inode_at s ino = Some (a, d)"
  shows "\<exists>s'. getInode b ino (Local r0) s = Some (0, Local a, s') \<and> flash.holds_block b s s' d"
proof -
  let ?off = "INODE_FILE_DATA_SIZE + CALC_IN_BYTES (ino - 1)" and ?r0 = "readInodeBlock_over (\<lambda>_ _ _ _. None)"
  obtain d0 where d0: "stored_block s (FS_GET_INO0_ADDR s) = Some d0" "inode_offset ino \<le> unat (INODE_GET_NBYTES d0)"
      "path_addr (stored_block s) d0 (file_path (inode_offset ino)) = Some a" "\<not> IS_ADDR_EMPTY a" "stored_block s a = Some d"
    using ino by (auto simp: inode_at_def bind_eq_Some_conv assert_c_def split: if_splits)
  have off: "unat ?off = inode_offset ino" "1983 \<le> ?off" "?off \<le> FS_MAX_FILESIZE" using inode_offset_word ok(3,4) by blast+
  have size: "?off \<le> INODE_GET_NBYTES d0" using d0(2) by (simp only: word_le_nat_alt off(1))
  have nonempty: "file_path (inode_offset ino) \<noteq> []" by (simp add: file_path_def inode_offset_def Let_def)
  have path: "descend (stored_block s) d0 (file_path (unat ?off)) = Some d"
    using d0(3,5) descend_append [of "stored_block s" d0 "butlast (file_path (inode_offset ino))" "[last (file_path (inode_offset ino))]"] nonempty
    by (auto simp: off(1) path_addr_def)
  obtain s1 where s1: "fsReadBlock (FS_GET_INO0_ADDR s) b TID_EMPTY CACHE_ENTRY_OFFSET_EMPTY True s = Some (0, s1)" "flash.holds_block b s s1 d0"
    using flash.read_first [OF ok(1) d0(1), of b TID_EMPTY CACHE_ENTRY_OFFSET_EMPTY] by blast
  have "FS_GET_INO0_ADDR s1 = FS_GET_INO0_ADDR s"
    using s1(2) reads_into_sel(1) [of b s s1] by (simp add: flash.holds_block_def FS_GET_INO0_ADDR_def)
  then have read: "?r0 b 0 (Local r0) TID_EMPTY s = Some (0, Local (FS_GET_INO0_ADDR s), s1)"
    using s1(1) by (simp add: readInodeBlock_over_def)
  from readFileBlock_over_follows [where read_inode = ?r0, OF quiet_not_held [OF ok(2)] off(3) size read s1(2) d0(1) path]
  show ?thesis using off(2) d0(3,4) unfolding getInode_def by (auto simp: off(1) simp flip: not_le)
qed

lemma init_logical_address_empty: "IS_ADDRESS_EMPTY init_logical_address"
  by code_simp

section \<open>Properties\<close>

text \<open>
  C4: reading a block of a file without a cache and outside of transactions follows the address tree.  If inode
  0, the inode and every address on the way lead to readable pages (or are empty, where a file has a hole), then
  \<open>readFileBlock\<close> succeeds, the buffer holds the block that the tree describes, and nothing has changed but the
  buffer, the sequencing buffer and the table of known erase units; the layer stays fit for further reads.
\<close>
theorem readFileBlock_follows_tree:
  assumes "store_ok s" "quiet 0 s" "quiet ino s" "1 \<le> ino" "ino \<le> 524288" "off \<le> FS_MAX_FILESIZE"
    and "file_block s ino (unat off) = Some x"
  shows "\<exists>a s'. readFileBlock b ino off (Local init_logical_address) TID_EMPTY s = Some (0, Local a, s') \<and>
    (\<forall>i<2048. rd b s' i = x i) \<and> store_ok s' \<and> reads_into b s s' \<and> (\<forall>i n. file_block s' i n = file_block s i n)"
proof -
  obtain a d y where d: "inode_at s ino = Some (a, d)" "unat off \<le> unat (INODE_GET_NBYTES d)"
      "descend (stored_block s) d (file_path (unat off)) = Some y" "x = (if unat off < 1983 then buf_fill y 1983 65 0xff else y)"
    using file_blockD [OF assms(7)] by blast
  have y: "(if off < 1983 then fsMemset d 1983 0xff 65 else y) = x"
    using d(3,4) by (auto simp: file_path_def word_less_nat_alt fsMemset_fill)
  obtain s1 where s1: "getInode b ino (Local init_logical_address) s = Some (0, Local a, s1)" "flash.holds_block b s s1 d"
    using getInode_follows [OF assms(1,2,4,5) d(1)] by blast
  have "ino \<noteq> 0" using assms(4) by auto
  then have read: "readInodeBlock b ino (Local init_logical_address) TID_EMPTY s = Some (0, Local a, s1)"
    using s1(1) by (simp add: readInodeBlock_def readInodeBlock_over_def init_logical_address_empty)
  have "stored_block s a = Some d" using d(1) by (auto simp: inode_at_def bind_eq_Some_conv assert_c_def split: if_splits)
  from readFileBlock_over_follows [where read_inode = readInodeBlock, OF quiet_not_held [OF assms(3)] assms(6) _ read s1(2) this d(3)]
  obtain a' s' where s': "readFileBlock b ino off (Local init_logical_address) TID_EMPTY s = Some (0, Local a', s')" "flash.holds_block b s s' x"
    using d(2) unfolding readFileBlock_def y by (auto simp: word_le_nat_alt)
  then have frame: "reads_into b s s'" "store_ok s'" "same_block (rd b s') x" by (simp_all add: flash.holds_block_def)
  have "inode_at s' i = inode_at s i" for i
    using flash.frame_content [OF frame(1)] reads_into_sel(1) [OF frame(1)] by (simp add: inode_at_def FS_GET_INO0_ADDR_def)
  then have "file_block s' i n = file_block s i n" for i n
    using flash.frame_content [OF frame(1)] by (simp add: file_block_def)
  then show ?thesis using s' frame by (auto simp: same_block_def)
qed

text \<open>
  The recursion of the read path is closed.  In the source \<open>getInode\<close> calls \<open>readFileBlock\<close> on inode 0,
  which finds its inode through \<open>readInodeBlock\<close>, which may call \<open>getInode\<close>.  The functions here are built
  the other way round, with inode 0 read without a further \<open>getInode\<close>, and satisfy the equations of the source
  for every state, buffer and pointer.
\<close>
lemma getInode_reads_inode_0:
  "getInode b ino r s = readFileBlock b 0 (INODE_FILE_DATA_SIZE + CALC_IN_BYTES (ino - 1)) r TID_EMPTY s \<and>
   readFileBlock b n off r tid s = readFileBlock_over (readInodeBlock_over getInode) b n off r tid s"
proof -
  have "readInodeBlock_over (\<lambda>_ _ _ _. None) b 0 r TID_EMPTY s = readInodeBlock_over getInode b 0 r TID_EMPTY s"
    by (simp add: readInodeBlock_over_def)
  then show ?thesis
    by (simp add: getInode_def readFileBlock_def readInodeBlock_def readFileBlock_over_def cong: if_cong)
qed

text \<open>The number of a block in its file, from the path to it.\<close>

fun path_block :: "nat list \<Rightarrow> nat" where
  "path_block [p] = (p - 1996) div 4"
| "path_block [_, l] = 10 + l div 4"
| "path_block [_, k, l] = 522 + 512 * (k div 4) + l div 4"
| "path_block [_, j, k, l] = 262666 + 262144 * (j div 4) + 512 * (k div 4) + l div 4"
| "path_block _ = 0"

lemma split_down: "x div 2048 = 512 * (x div 0x100000) + x mod 0x100000 div (2048::nat)"
proof -
  have "x div 0x100000 = x div 2048 div 512" by (simp add: div_mult2_eq [symmetric])
  moreover have "x mod 0x100000 div 2048 = x div 2048 mod 512" using mod_mult2_eq [of x 2048 512] by simp
  ultimately show ?thesis by simp
qed

lemma split_down2: "x div 0x100000 = 512 * (x div 0x20000000) + x mod 0x20000000 div (0x100000::nat)"
proof -
  have "x div 0x20000000 = x div 0x100000 div 512" by (simp add: div_mult2_eq [symmetric])
  moreover have "x mod 0x20000000 div 0x100000 = x div 0x100000 mod 512" using mod_mult2_eq [of x 1048576 512] by simp
  ultimately show ?thesis by simp
qed

lemma sum_down:
  "X = D + 262666 \<Longrightarrow> D = 512 * E + C \<Longrightarrow> E = 512 * A + B \<Longrightarrow> 262666 + 262144 * A + 512 * B + C = (X :: nat)"
  by simp

lemma quarter: "4 * x div 4 = (x :: nat)"
  by simp

lemma path_block_file_path: "1983 \<le> off \<Longrightarrow> path_block (file_path off) = (off - 1983) div 2048"
proof -
  assume off: "1983 \<le> off"
  consider (direct) "off < 22463" | (indirect) "22463 \<le> off" "off < 1071039" | (double) "1071039 \<le> off" "off < 537941951"
    | (triple) "537941951 \<le> off" by linarith
  then show ?thesis
  proof cases
    case direct
    then show ?thesis using off by (simp add: file_path_def)
  next
    case indirect
    then have "off - 1983 = (off - 22463) + 10 * 2048" "(off - 22463) mod 0x100000 = off - 22463" by simp_all
    then show ?thesis using indirect by (simp add: file_path_regions(1))
  next
    case double
    then have "off - 1983 = (off - 1071039) + 522 * 2048" "off - 22463 = (off - 1071039) + 1 * 0x100000" by simp_all
    then have "(off - 1983) div 2048 = (off - 1071039) div 2048 + 522" "(off - 22463) mod 0x100000 = (off - 1071039) mod 0x100000"
      by (simp_all only: div_mult_self1 mod_mult_self1)
    then show ?thesis using double split_down [of "off - 1071039"] by (simp add: file_path_regions(2))
  next
    case triple
    then have "off - 1983 = (off - 537941951) + 262666 * 2048" "off - 22463 = (off - 537941951) + 513 * 0x100000" by simp_all
    then have "(off - 1983) div 2048 = (off - 537941951) div 2048 + 262666" "(off - 22463) mod 0x100000 = (off - 537941951) mod 0x100000"
      by (simp_all only: div_mult_self1 mod_mult_self1)
    from sum_down [OF this(1) split_down split_down2]
    show ?thesis using triple by (simp only: file_path_regions(3) path_block.simps quarter \<open>(off - 22463) mod 0x100000 = _\<close>)
  qed
qed

text \<open>
  C38: the arithmetic of the address tree.  For every offset behind the data of the inode, up to the greatest
  file size, all positions of addresses on the way stay inside their blocks, an index into the inode is below 10
  and an index into a block of addresses below 512, the last position is the entry that the reader computes, and
  the writer computes the same entry from the start of the block.  The path determines the block: its number is
  recovered from the path, so distinct blocks of a file never share an entry.
\<close>
theorem file_offsets_bounds:
  assumes "1983 \<le> off" "off \<le> FS_MAX_FILESIZE"
  shows "(\<forall>p \<in> set (file_path (unat off)). p + 4 \<le> 2048) \<and>
    unat off = 1983 + 2048 * path_block (file_path (unat off)) + unat (CALC_OFFSET_IN_FILE_BLOCK off) \<and>
    unat (CALC_OFFSET_IN_FILE_BLOCK off) < 2048 \<and>
    (if off < INDIRECT_DATA_OFFSET
     then unat (CALC_IN_BLOCKS (off - INODE_FILE_DATA_SIZE)) < 10 \<and>
       file_path (unat off) = [1996 + 4 * unat (CALC_IN_BLOCKS (off - INODE_FILE_DATA_SIZE))] \<and>
       CALC_IN_BLOCKS (block_start off - INODE_FILE_DATA_SIZE) = CALC_IN_BLOCKS (off - INODE_FILE_DATA_SIZE)
     else let entry = CALC_OFFSET_IN_INDIRECT_BLOCK (CALC_OFFSET_IN_INDIRECT_SIZE (CALC_OFFSET_FROM_INDIRECT off)) in
       unat entry < 512 \<and> last (file_path (unat off)) = 4 * unat entry \<and>
       CALC_OFFSET_IN_INDIRECT_BLOCK (CALC_OFFSET_IN_INDIRECT_SIZE (block_start off - INDIRECT_DATA_OFFSET)) = entry)"
proof -
  have n: "1983 \<le> unat off" "unat off \<le> 0x40000000" using assms by (simp_all add: word_le_nat_alt)
  have number: "unat off = 1983 + 2048 * path_block (file_path (unat off)) + unat (CALC_OFFSET_IN_FILE_BLOCK off)"
    using n by (simp add: path_block_file_path in_file_block [OF assms(1)])
  have direct: "unat (CALC_IN_BLOCKS (off - INODE_FILE_DATA_SIZE)) < 10 \<and>
       file_path (unat off) = [1996 + 4 * unat (CALC_IN_BLOCKS (off - INODE_FILE_DATA_SIZE))] \<and>
       CALC_IN_BLOCKS (block_start off - INODE_FILE_DATA_SIZE) = CALC_IN_BLOCKS (off - INODE_FILE_DATA_SIZE)"
    if "off < INDIRECT_DATA_OFFSET"
  proof -
    have "unat (CALC_IN_BLOCKS (block_start off - INODE_FILE_DATA_SIZE)) = unat (CALC_IN_BLOCKS (off - INODE_FILE_DATA_SIZE))"
      using start_from(1) [of 1983 off] assms(1) block_down [of "unat off - 1983" 1]
      by (simp add: CALC_IN_BLOCKS_def unat_drop_bit_u32 direct_entry unat_sub)
    then have "CALC_IN_BLOCKS (block_start off - INODE_FILE_DATA_SIZE) = CALC_IN_BLOCKS (off - INODE_FILE_DATA_SIZE)"
      by (simp only: word_unat_eq_iff)
    moreover have "unat off < 22463" using that by (simp add: word_less_nat_alt)
    ultimately show ?thesis using n by (simp add: file_path_def direct_entry [OF assms(1)] less_mult_imp_div_less)
  qed
  let ?entry = "CALC_OFFSET_IN_INDIRECT_BLOCK (CALC_OFFSET_IN_INDIRECT_SIZE (CALC_OFFSET_FROM_INDIRECT off))"
  have indirect: "unat ?entry < 512 \<and> last (file_path (unat off)) = 4 * unat ?entry \<and>
       CALC_OFFSET_IN_INDIRECT_BLOCK (CALC_OFFSET_IN_INDIRECT_SIZE (block_start off - INDIRECT_DATA_OFFSET)) = ?entry"
    if "\<not> off < INDIRECT_DATA_OFFSET"
  proof -
    have le: "22463 \<le> off" "22463 \<le> unat off" using that by (simp_all add: not_less word_le_nat_alt)
    let ?r = "unat off - 22463"
    have start: "unat (block_start off - INDIRECT_DATA_OFFSET) = ?r - ?r mod 2048" using start_from(1) [of 22463 off] le(1) by simp
    have "unat (CALC_OFFSET_IN_INDIRECT_BLOCK (CALC_OFFSET_IN_INDIRECT_SIZE (block_start off - INDIRECT_DATA_OFFSET))) =
        (?r - ?r mod 2048) mod 0x100000 div 2 ^ 11"
      by (simp only: calc_defs and_masks unat_drop_bit_u32 start)
    also have "\<dots> = ?r mod 0x100000 div 2048" by (rule leaf_down)
    finally have "CALC_OFFSET_IN_INDIRECT_BLOCK (CALC_OFFSET_IN_INDIRECT_SIZE (block_start off - INDIRECT_DATA_OFFSET)) = ?entry"
      by (simp only: word_unat_eq_iff leaf_entry [OF le(1)])
    then show ?thesis using le(2) by (simp add: leaf_entry [OF le(1)] less_mult_imp_div_less file_path_def Let_def)
  qed
  show ?thesis
    using file_path_positions [OF n(2)] number in_file_block [OF assms(1)] direct indirect by (simp add: Let_def)
qed

section \<open>Witnesses\<close>

text \<open>
  A chip with one written page, which is inode 0 and inode 1 and the first direct block of both: its first
  direct address is its own.  Its first byte is 0x42.
\<close>

definition tree_page :: buf where
  "tree_page = setECC (addr_put ((\<lambda>_. 0xff)(0 := 0x42)) 1996 addr_3_10)"

definition tree_fs :: fs where
  "tree_fs = blank_fs\<lparr>cells := (\<lambda>_ _. 0xff)(5130 := tree_page), seg_to_slot_map := (\<lambda>_. 0xfff)(3 := 5), nSegments := 1,
     new_slot_id := 5, fs_bytes := addr_put (\<lambda>_. 0xff) 0 addr_3_10\<rparr>"

lemma tree_page_bytes:
  "tree_page 0 = 0x42" "addr_at tree_page 1996 = addr_3_10" "GET_UINT32 tree_page 0 1984 = 0xffffffff"
  by (simp_all add: tree_page_def addr_at_def addr_put_def GET_UINT32_def GET_BYTE_def)

lemma tree_fs_sel:
  "FS_CACHE_BUFFERS tree_fs = 0" "valid_eus tree_fs = valid_eus blank_seq" "transactions tree_fs = transactions blank_fs"
  "rd_fail tree_fs = (\<lambda>_. False)" "cells tree_fs = (\<lambda>_ _. 0xff)(5130 := tree_page)" "fps tree_fs"
  "FS_GET_INO0_ADDR tree_fs = addr_3_10"
  by (simp_all add: tree_fs_def blank_fs_def seq.extend_def FS_GET_INO0_ADDR_def)

lemma tree_store: "store_ok tree_fs" "stored_block tree_fs addr_3_10 = Some tree_page" "quiet n tree_fs \<longleftrightarrow> n \<noteq> INO_NUM_EMPTY"
proof -
  have "plain_page addr_3_10 tree_fs = Some 5130"
    by (simp add: plain_page_def tree_fs_def GET_SEG_MAP_SLOT_FOR_SEG_def IS_STATE_RECLAMATION_def CALC_ADDRESS_def)
  moreover have "unit_fine 5130 tree_fs"
    by (simp add: unit_fine_def tree_fs_sel eu_readable_def eu_good_def)
  ultimately show "stored_block tree_fs addr_3_10 = Some tree_page"
    by (simp add: stored_block_def tree_fs_sel IS_ADDRESS_EMPTY_def IS_CACHED_ADDR_def) (simp add: tree_page_def page_sound_setECC)
  show "store_ok tree_fs" by (simp add: store_ok_def eus_ok_def tree_fs_sel blank_seq_sel)
  show "quiet n tree_fs \<longleftrightarrow> n \<noteq> INO_NUM_EMPTY" by (auto simp: quiet_def tree_fs_sel intro: exI [of _ 0])
qed

lemma tree_block: "file_block tree_fs 1 2000 = Some tree_page"
proof -
  have "inode_at tree_fs 1 = Some (addr_3_10, tree_page)"
    by (simp add: inode_at_def tree_fs_sel tree_store inode_offset_def INODE_GET_NBYTES_def tree_page_bytes file_path_def path_addr_def
      IS_ADDR_EMPTY_def) (code_simp)
  then show ?thesis by (simp add: file_block_def INODE_GET_NBYTES_def tree_page_bytes file_path_def tree_store)
qed

lemma readFileBlock_follows_tree_witness:
  "\<exists>a s'. readFileBlock FsBuf 1 2000 (Local init_logical_address) TID_EMPTY tree_fs = Some (0, Local a, s') \<and> rd FsBuf s' 0 = 0x42"
  using readFileBlock_follows_tree [of tree_fs 1 2000 tree_page FsBuf] tree_block
  by (auto simp: tree_store tree_page_bytes)

lemma file_offsets_bounds_witness:
  "file_path 600000000 = [2044, 0, 236, 372] \<and> unat (CALC_OFFSET_IN_FILE_BLOCK 600000000) = 1601"
  using file_offsets_bounds [of 600000000] by (simp add: file_path_def)

end
