(* ===== verification/Transact.thy ===== *)
theory Transact
  imports FileRead
begin

text \<open>
  Transactions (\<^verbatim>\<open>NANDFS/src/fs/transactions.c\<close>): the chain of pages a transaction has written, the pages it
  will make obsolete ("VOTs"), writing file blocks, committing an inode and committing a transaction.
  The macros \<open>RES_VERIFY\<close>, \<open>FS_VERIFY\<close> and \<open>TR_RES_VERIFY\<close> return early; here they take the rest of the
  function as a continuation.
\<close>

unbundle bit_operations_syntax

section \<open>Early returns\<close>

definition RES_VERIFY :: "(u32 \<times> 's) option \<Rightarrow> ('s \<Rightarrow> (u32 \<times> 's) option) \<Rightarrow> (u32 \<times> 's) option" where
  "RES_VERIFY m k = do { (e, s) \<leftarrow> m; if e \<noteq> 0 then Some (e, s) else k s }"

definition FS_VERIFY :: "(u32 \<times> 's) option \<Rightarrow> ('s \<Rightarrow> (u32 \<times> 's) option) \<Rightarrow> (u32 \<times> 's) option" where
  "FS_VERIFY m k = do { (e, s) \<leftarrow> m; if e \<noteq> 0 then Some (-1, s) else k s }"

text \<open>The same for actions that also return the value behind a pointer.\<close>

definition RES_VERIFY_AT :: "(u32 \<times> 'r \<times> 's) option \<Rightarrow> ('r \<Rightarrow> 's \<Rightarrow> (u32 \<times> 's) option) \<Rightarrow> (u32 \<times> 's) option" where
  "RES_VERIFY_AT m k = do { (e, r, s) \<leftarrow> m; if e \<noteq> 0 then Some (e, s) else k r s }"

definition FS_VERIFY_AT :: "(u32 \<times> 'r \<times> 's) option \<Rightarrow> ('r \<Rightarrow> 's \<Rightarrow> (u32 \<times> 's) option) \<Rightarrow> (u32 \<times> 's) option" where
  "FS_VERIFY_AT m k = do { (e, r, s) \<leftarrow> m; if e \<noteq> 0 then Some (-1, s) else k r s }"

text \<open>Errors of the sequencing layer are C \<open>int\<close> values.\<close>

definition seq_error :: "(int \<times> 's) option \<Rightarrow> (u32 \<times> 's) option" where
  "seq_error m = do { (e, s) \<leftarrow> m; Some (word_of_int e, s) }"

definition next_free_page :: "'z fs_scheme \<Rightarrow> (u32 \<times> 'z fs_scheme) option" where
  "next_free_page s = do { (e, _, s1) \<leftarrow> findNextFreePage False fsCheckpointWriter 0 s; Some (word_of_int e, s1) }"

section \<open>Giving up a transaction\<close>

definition tr_mark_as_obsolete :: "logical_addr \<Rightarrow> bool \<Rightarrow> 'z fs_scheme \<Rightarrow> (u32 \<times> 'z fs_scheme) option" where
  "tr_mark_as_obsolete log_addr is_from_reboot s = do {
     (e, s1) \<leftarrow> markAsObsolete log_addr is_from_reboot s;
     if e \<noteq> 0 then Some (FS_ERROR_IO, s1)
     else do {
       (e2, s2) \<leftarrow> cache_free_by_real_addr log_addr s1;
       Some (if e2 \<noteq> 0 then FS_ERROR_CRITICAL else 0, s2)
     }
   }"

text \<open>The fuel of the walks over a chain of pages is one more than the number of pages of the chip.\<close>

fun delete_loop :: "nat \<Rightarrow> addr_ref \<Rightarrow> bool \<Rightarrow> 'z fs_scheme \<Rightarrow> (u32 \<times> addr_ref \<times> 'z fs_scheme) option" where
  "delete_loop 0 r is_from_reboot s = None"
| "delete_loop (Suc n) r is_from_reboot s =
     (if IS_ADDR_EMPTY (deref r s) then Some (0, r, s)
      else do {
        (e, s1) \<leftarrow> tr_mark_as_obsolete (deref r s) is_from_reboot s;
        if e \<noteq> 0 then Some (-1, r, s1)
        else do {
          (e2, b, prev, _, s2) \<leftarrow> readVOTsAndPrev (deref r s1) (fs_buffer s1) (deref r s1) s1;
          let (r1, s3) = assign r prev (s2\<lparr>fs_buffer := b\<rparr>);
          if e2 \<noteq> 0 then Some (-1, r1, s3) else delete_loop n r1 is_from_reboot s3
        }
      })"

definition deleteTransactionPages :: "addr_ref \<Rightarrow> u32 \<Rightarrow> bool \<Rightarrow> 'z fs_scheme \<Rightarrow> (u32 \<times> addr_ref \<times> 'z fs_scheme) option" where
  "deleteTransactionPages r tid is_from_reboot s = do {
     s1 \<leftarrow> cache_init_tid_related tid s;
     delete_loop 524289 r is_from_reboot s1
   }"

definition abortTransaction :: "u32 \<Rightarrow> 'z fs_scheme \<Rightarrow> (u32 \<times> 'z fs_scheme) option" where
  "abortTransaction tid s = do {
     assert_c (TID_OK tid);
     FS_VERIFY_AT (deleteTransactionPages (TrPrev tid) tid False s) (\<lambda>_ s1.
     FS_VERIFY (seq_error (fsCheckpointWriter False (init_transaction tid s1))) (\<lambda>s2.
     RES_VERIFY (next_free_page s2) (\<lambda>s3. Some (0, s3))))
   }"

definition TR_RES_VERIFY :: "u32 \<Rightarrow> (u32 \<times> 'z fs_scheme) option \<Rightarrow> ('z fs_scheme \<Rightarrow> (u32 \<times> 'z fs_scheme) option) \<Rightarrow> (u32 \<times> 'z fs_scheme) option" where
  "TR_RES_VERIFY tid m k = do {
     (e, s) \<leftarrow> m;
     if e \<noteq> 0 then FS_VERIFY (abortTransaction tid s) (\<lambda>s1. Some (e, s1)) else k s
   }"

section \<open>Room for a page\<close>

definition FS_TOTAL_FREE_PAGES :: "'z fs_scheme \<Rightarrow> u32" where
  "FS_TOTAL_FREE_PAGES s = calcTotalFreePages s - dirty_count s"

definition IS_MIN_FREE_PAGES_REACHED :: "'z fs_scheme \<Rightarrow> bool" where
  "IS_MIN_FREE_PAGES_REACHED s = (FS_TOTAL_FREE_PAGES s \<le> 1036)"

text \<open>The transaction to give up: the first one in use other than \<open>tid\<close>.\<close>

fun victim_loop :: "nat list \<Rightarrow> u32 \<Rightarrow> 'z fs_scheme \<Rightarrow> u32 option" where
  "victim_loop [] tid s = None"
| "victim_loop (i # is) tid s =
     (if of_nat i = tid \<or> IS_TRANSACTION_EMPTY (of_nat i) s then victim_loop is tid s else Some (of_nat i))"

fun min_pages_loop :: "nat \<Rightarrow> u32 \<Rightarrow> 'z fs_scheme \<Rightarrow> (u32 \<times> 'z fs_scheme) option" where
  "min_pages_loop 0 tid s = None"
| "min_pages_loop (Suc n) tid s =
     (if \<not> IS_MIN_FREE_PAGES_REACHED s then Some (0, s)
      else (case victim_loop [0..<2] tid s of
          None \<Rightarrow> Some (FS_ERROR_WRT_THRSHLD, s)
        | Some i \<Rightarrow> FS_VERIFY (abortTransaction i s) (\<lambda>s1. min_pages_loop n tid s1)))"

definition handleMinPages :: "u32 \<Rightarrow> 'z fs_scheme \<Rightarrow> (u32 \<times> 'z fs_scheme) option" where
  "handleMinPages tid s = do {
     assert_c (TID_OK tid);
     if IS_WRITE_PEMITTED tid s then Some (0, s) else min_pages_loop 4 tid s
   }"

section \<open>Writing a block\<close>

definition any_entry :: "(logical_addr \<Rightarrow> bool) \<Rightarrow> buf \<Rightarrow> bool" where
  "any_entry P b = list_ex (\<lambda>i. P (BLOCK_GET_INDEX b i)) [0..<512]"

definition performAlloc :: "u32 \<Rightarrow> buf \<Rightarrow> u32 \<Rightarrow> 'z fs_scheme \<Rightarrow> bool" where
  "performAlloc dataType data tid s =
     (if IS_SPARSE_FILE tid s then
        (if dataType = DATA_TYPE_DIRENTS then \<not> IS_DIRENT_EMPTY data 0
         else if dataType = DATA_TYPE_ENTRIES then any_entry (\<lambda>a. \<not> IS_ADDR_EMPTY a) data
         else True)
      else True)"

definition is_cacheable :: "u32 \<Rightarrow> u32 \<Rightarrow> 'z fs_scheme \<Rightarrow> bool" where
  "is_cacheable dataType tid s =
     (\<not> (IS_SPARSE_FILE tid s \<and> (t_ino_num (transactions s tid) = 0 \<or> dataType = DATA_TYPE_DIRENTS)) \<and>
      \<not> (dataType = DATA_TYPE_VOTS \<or> FS_CACHE_BUFFERS s = 0))"

definition block_has_hole :: "u32 \<Rightarrow> buf \<Rightarrow> bool" where
  "block_has_hole dataType data =
     (if dataType = DATA_TYPE_ENTRIES then any_entry IS_ADDR_FREE data
      else if dataType = DATA_TYPE_DIRENTS then dirents_hole data
      else False)"

definition allocAndWriteBlockTid ::
  "addr_ref \<Rightarrow> buf_ref \<Rightarrow> u32 \<Rightarrow> u32 \<Rightarrow> u32 \<Rightarrow> 'z fs_scheme \<Rightarrow> (u32 \<times> addr_ref \<times> 'z fs_scheme) option" where
  "allocAndWriteBlockTid r d dataType entry_offset tid s = do {
     (e, s1) \<leftarrow> handleMinPages tid s;
     if e \<noteq> 0 then Some (e, r, s1)
     else do {
       let alloc = performAlloc dataType (rd d s1) tid s1;
       let cacheable = is_cacheable dataType tid s1;
       (e2, r2, s2) \<leftarrow>
         (if alloc \<and> \<not> cacheable then allocAndWriteBlockTid_actualWrite r (rd d s1) (dataType = DATA_TYPE_VOTS) tid s1
          else if cacheable then
            (if alloc then cache_access_cache d r entry_offset tid dataType True s1
             else do {
               cid \<leftarrow> (if IS_CACHED_ADDR (deref r s1) then Some (GET_LOGICAL_OFFSET (deref r s1))
                       else cache_get_cid_by_real_addr (deref r s1) s1);
               (e2, s2) \<leftarrow> (if cid \<noteq> CACHE_ID_EMPTY then do {
                    assert_c (cid <s FS_CACHE_BUFFERS s1);
                    cache_force_free_cache cid s1
                  } else Some (0, s1));
               if e2 \<noteq> 0 then Some (e2, r, s2)
               else (let (r3, s3) = assign r init_logical_address s2 in Some (0, r3, s3))
             })
          else (let (r3, s3) = assign r init_logical_address s1 in Some (0, r3, s3)));
       if e2 \<noteq> 0 then Some (e2, r2, s2)
       else (let marked = (if block_has_hole dataType (rd d s2) then MARK_BLOCK_WITH_HOLE (deref r2 s2)
                           else MARK_BLOCK_NO_HOLE (deref r2 s2));
                 (r3, s3) = assign r2 marked s2
             in Some (0, r3, s3))
     }
   }"

section \<open>Pages to obsolete\<close>

definition writeVot :: "logical_addr \<Rightarrow> u32 \<Rightarrow> 'z fs_scheme \<Rightarrow> (u32 \<times> 'z fs_scheme) option" where
  "writeVot org tid s =
     (if IS_ADDR_EMPTY org then Some (0, s)
      else do {
        assert_c (TID_OK tid);
        cid \<leftarrow> (if IS_CACHED_ADDR org then Some (GET_LOGICAL_OFFSET org) else cache_get_cid_by_real_addr org s);
        assert_c (IS_CACHED_ADDR org \<longrightarrow> CID_OK cid s);
        let c = caches s cid;
        if IS_CACHED_ADDR org \<and> c_voted c \<noteq> 0 then Some (0, s)
        else if (IS_CACHED_ADDR org \<or> cid \<noteq> CACHE_ID_EMPTY \<and> c_voted c = 0) \<and> IS_ADDR_EMPTY (c_addr c) then Some (0, s)
        else do {
          let vot = (if IS_CACHED_ADDR org \<or> cid \<noteq> CACHE_ID_EMPTY \<and> c_voted c = 0 then c_addr c else org);
          let t = transactions s tid;
          if list_ex (\<lambda>i. COMPARE_ADDR (BLOCK_GET_INDEX (vots_buf t) i) vot) [0..<unat (vots_buf_offset t)] then Some (0, s)
          else do {
            assert_c (vots_buf_offset t < 512);
            let s1 = upd_tr tid (\<lambda>t. t\<lparr>vots_buf := BLOCK_SET_INDEX (vots_buf t) (unat (vots_buf_offset t)) vot,
               vots_buf_offset := vots_buf_offset t + 1, vots_count := vots_count t + 1\<rparr>) s;
            (e, s2) \<leftarrow> (if vots_buf_offset (transactions s1 tid) = 512 then do {
                 (e, _, s2) \<leftarrow> allocAndWriteBlockTid (Local init_logical_address) (VotsBuf tid) DATA_TYPE_VOTS CACHE_ENTRY_OFFSET_EMPTY tid s1;
                 Some (e, if e \<noteq> 0 then s2 else upd_tr tid (vots_buf_offset_update (\<lambda>_. 0)) (init_fsbuf (VotsBuf tid) s2))
               } else Some (0, s1));
            if e \<noteq> 0 then Some (e, s2)
            else Some (0, if cid \<noteq> CACHE_ID_EMPTY \<and> \<not> IS_ADDR_EMPTY (c_addr (caches s2 cid))
                          then upd_cache cid (c_voted_update (\<lambda>_. 1)) s2 else s2)
          }
        }
      })"

fun vots_loop :: "nat list \<Rightarrow> buf \<Rightarrow> bool \<Rightarrow> 'z fs_scheme \<Rightarrow> (u32 \<times> 'z fs_scheme) option" where
  "vots_loop [] vots is_from_reboot s = Some (0, s)"
| "vots_loop (i # is) vots is_from_reboot s =
     (if IS_ADDR_EMPTY (BLOCK_GET_INDEX vots i) then Some (0, s)
      else FS_VERIFY (tr_mark_as_obsolete (BLOCK_GET_INDEX vots i) is_from_reboot s) (\<lambda>s1. vots_loop is vots is_from_reboot s1))"

definition performVOTs :: "buf \<Rightarrow> bool \<Rightarrow> 'z fs_scheme \<Rightarrow> (u32 \<times> 'z fs_scheme) option" where
  "performVOTs vots is_from_reboot s = vots_loop [0..<512] vots is_from_reboot s"

fun transaction_vots_loop :: "nat \<Rightarrow> logical_addr \<Rightarrow> bool \<Rightarrow> 'z fs_scheme \<Rightarrow> (u32 \<times> 'z fs_scheme) option" where
  "transaction_vots_loop 0 prev is_from_reboot s = None"
| "transaction_vots_loop (Suc n) prev is_from_reboot s =
     (if IS_ADDR_EMPTY prev then Some (0, s)
      else do {
        (e, b, prev1, isVOTs, s1) \<leftarrow> readVOTsAndPrev prev (fs_buffer s) prev s;
        let s2 = s1\<lparr>fs_buffer := b\<rparr>;
        if e \<noteq> 0 then Some (-1, s2)
        else if \<not> isVOTs then transaction_vots_loop n prev1 is_from_reboot s2
        else RES_VERIFY (performVOTs (fs_buffer s2) is_from_reboot s2) (\<lambda>s3.
             FS_VERIFY (tr_mark_as_obsolete prev is_from_reboot s3) (\<lambda>s4.
             transaction_vots_loop n prev1 is_from_reboot s4))
      })"

definition handleTransactionVOTs :: "logical_addr \<Rightarrow> bool \<Rightarrow> 'z fs_scheme \<Rightarrow> (u32 \<times> 'z fs_scheme) option" where
  "handleTransactionVOTs tid_last_addr is_from_reboot s = transaction_vots_loop 524289 tid_last_addr is_from_reboot s"

end
