(* ===== verification/FileWrite.thy ===== *)
theory FileWrite
  imports Transact
begin

text \<open>
  Writing files (\<^verbatim>\<open>NANDFS/src/fs/transactions.c\<close>, and \<open>setNewInode\<close> of \<^verbatim>\<open>fsUtils.c\<close>): a transaction
  collects changed block addresses in its block of addresses (\<open>indirect_buf\<close>: the inode itself, or one
  leaf of the address tree), \<open>commitInode\<close> writes that block and the path up to the inode, and
  \<open>commitTransaction\<close> publishes the new inode in inode 0 and in the checkpoint.
\<close>

unbundle bit_operations_syntax

section \<open>Committing an inode\<close>

abbreviation (input) "ino_addr tid s \<equiv> ino_log_addr (transactions s tid)"

text \<open>The read of the transaction's inode into \<open>fs_buffer\<close>.\<close>

definition read_own_inode :: "u32 \<Rightarrow> 'z fs_scheme \<Rightarrow> (u32 \<times> 'z fs_scheme) option" where
  "read_own_inode tid s = fsReadBlock (ino_addr tid s) FsBuf tid CACHE_ENTRY_OFFSET_EMPTY True s"

definition upd_fsbuf :: "(buf \<Rightarrow> buf) \<Rightarrow> 'z fs_scheme \<Rightarrow> 'z fs_scheme" where
  "upd_fsbuf f s = s\<lparr>fs_buffer := f (fs_buffer s)\<rparr>"

text \<open>The three ways down from the inode to the block of addresses.  Each writes the new block and its parents
  and leaves the changed inode in \<open>fs_buffer\<close>; it returns the old address of the inode and the address of
  the double block.\<close>

definition commit_indirect :: "u32 \<Rightarrow> 'z fs_scheme \<Rightarrow> (u32 \<times> (logical_addr \<times> logical_addr) \<times> 'z fs_scheme) option" where
  "commit_indirect tid s =
     (let old = INODE_GET_INDIRECT (fs_buffer s); none = (init_logical_address, init_logical_address) in do {
        (e1, r, s1) \<leftarrow> allocAndWriteBlockTid (Local old) (IndirectBuf tid) DATA_TYPE_ENTRIES INDIRECT_INDEX_OFFSET_IN_LOG_ADDRESSES tid s;
        if e1 \<noteq> 0 then Some (e1, none, s1)
        else do {
          (e2, s2) \<leftarrow> writeVot old tid s1;
          if e2 \<noteq> 0 then Some (e2, none, s2)
          else do {
            (e3, s3) \<leftarrow> read_own_inode tid s2;
            if e3 \<noteq> 0 then Some (-1, none, s3)
            else Some (0, (ino_addr tid s3, init_logical_address), upd_fsbuf (\<lambda>b. INODE_SET_INDIRECT b (deref r s3)) s3)
          }
        }
      })"

text \<open>The leaf is entry \<open>entry\<close> of the double block, which was read with parent offset \<open>double_offset\<close>.\<close>

definition commit_leaf ::
  "u32 \<Rightarrow> logical_addr \<Rightarrow> u32 \<Rightarrow> u32 \<Rightarrow> 'z fs_scheme \<Rightarrow> (u32 \<times> logical_addr \<times> 'z fs_scheme) option" where
  "commit_leaf tid double entry double_offset s =
     (let old = BLOCK_GET_INDEX (fs_buffer s) (unat entry) in do {
        (e1, r, s1) \<leftarrow> allocAndWriteBlockTid (Local old) (IndirectBuf tid) DATA_TYPE_ENTRIES entry tid s;
        if e1 \<noteq> 0 then Some (e1, double, s1)
        else do {
          (e2, s2) \<leftarrow> writeVot old tid s1;
          if e2 \<noteq> 0 then Some (e2, double, s2)
          else do {
            (e3, s3) \<leftarrow> fsReadBlock double FsBuf tid double_offset True s2;
            if e3 \<noteq> 0 then Some (-1, double, s3)
            else do {
              let s4 = upd_fsbuf (\<lambda>b. BLOCK_SET_INDEX b (unat entry) (deref r s3)) s3;
              (e5, r5, s5) \<leftarrow> allocAndWriteBlockTid (Local double) FsBuf DATA_TYPE_ENTRIES double_offset tid s4;
              Some (e5, deref r5 s5, s5)
            }
          }
        }
      })"

text \<open>The assertion reads a byte of the first cache block; without cache blocks that is outside the array.\<close>

definition commit_double :: "u32 \<Rightarrow> u32 \<Rightarrow> 'z fs_scheme \<Rightarrow> (u32 \<times> (logical_addr \<times> logical_addr) \<times> 'z fs_scheme) option" where
  "commit_double tid offset_indirect s =
     (let double = INODE_GET_DOUBLE (fs_buffer s); none = (init_logical_address, double) in do {
        (e1, s1) \<leftarrow> fsReadBlock double FsBuf tid DOUBLE_INDEX_OFFSET_IN_LOG_ADDRESSES True s;
        if e1 \<noteq> 0 then Some (-1, none, s1)
        else do {
          assert_c (CID_OK 0 s1 \<and> c_buf (caches s1 0) 527 \<noteq> 0x41);
          (e2, s2) \<leftarrow> writeVot double tid s1;
          if e2 \<noteq> 0 then Some (e2, none, s2)
          else do {
            (e3, double1, s3) \<leftarrow> commit_leaf tid double (CALC_OFFSET_IN_DOUBLE_BLOCK (CALC_OFFSET_FROM_DOUBLE offset_indirect))
               DOUBLE_INDEX_OFFSET_IN_LOG_ADDRESSES s2;
            if e3 \<noteq> 0 then Some (e3, none, s3)
            else do {
              (e4, s4) \<leftarrow> read_own_inode tid s3;
              if e4 \<noteq> 0 then Some (-1, none, s4)
              else Some (0, (ino_addr tid s4, double1), upd_fsbuf (\<lambda>b. INODE_SET_DOUBLE b double1) s4)
            }
          }
        }
      })"

definition commit_triple :: "u32 \<Rightarrow> u32 \<Rightarrow> 'z fs_scheme \<Rightarrow> (u32 \<times> (logical_addr \<times> logical_addr) \<times> 'z fs_scheme) option" where
  "commit_triple tid offset_indirect s =
     (let triple = INODE_GET_TRIPLE (fs_buffer s);
          from_triple = CALC_OFFSET_FROM_TRIPLE offset_indirect;
          triple_entry = CALC_OFFSET_IN_TRIPLE_BLOCK from_triple;
          none = (init_logical_address, init_logical_address) in do {
        (e1, s1) \<leftarrow> fsReadBlock triple FsBuf tid TRIPLE_INDEX_OFFSET_IN_LOG_ADDRESSES True s;
        if e1 \<noteq> 0 then Some (-1, none, s1)
        else do {
          (e2, s2) \<leftarrow> writeVot triple tid s1;
          if e2 \<noteq> 0 then Some (e2, none, s2)
          else do {
            let double = BLOCK_GET_INDEX (fs_buffer s2) (unat triple_entry);
            (e3, s3) \<leftarrow> fsReadBlock double FsBuf tid triple_entry True s2;
            if e3 \<noteq> 0 then Some (-1, none, s3)
            else do {
              (e4, s4) \<leftarrow> writeVot double tid s3;
              if e4 \<noteq> 0 then Some (e4, none, s4)
              else do {
                let entry = CALC_OFFSET_IN_DOUBLE_BLOCK (CALC_OFFSET_IN_DOUBLE_SIZE from_triple);
                let old = BLOCK_GET_INDEX (fs_buffer s4) (unat entry);
                (e5, r, s5) \<leftarrow> allocAndWriteBlockTid (Local old) (IndirectBuf tid) DATA_TYPE_ENTRIES entry tid s4;
                if e5 \<noteq> 0 then Some (e5, none, s5)
                else do {
                  (e6, s6) \<leftarrow> writeVot old tid s5;
                  if e6 \<noteq> 0 then Some (e6, none, s6)
                  else do {
                    (e7, s7) \<leftarrow> fsReadBlock double FsBuf tid entry True s6;
                    if e7 \<noteq> 0 then Some (-1, none, s7)
                    else do {
                      let s8 = upd_fsbuf (\<lambda>b. BLOCK_SET_INDEX b (unat entry) (deref r s7)) s7;
                      (e9, r9, s9) \<leftarrow> allocAndWriteBlockTid (Local double) FsBuf DATA_TYPE_ENTRIES triple_entry tid s8;
                      if e9 \<noteq> 0 then Some (e9, none, s9)
                      else do {
                        (e10, s10) \<leftarrow> fsReadBlock triple FsBuf tid TRIPLE_INDEX_OFFSET_IN_LOG_ADDRESSES True s9;
                        if e10 \<noteq> 0 then Some (-1, none, s10)
                        else do {
                          let s11 = upd_fsbuf (\<lambda>b. BLOCK_SET_INDEX b (unat triple_entry) (deref r9 s10)) s10;
                          (e12, r12, s12) \<leftarrow> allocAndWriteBlockTid (Local triple) FsBuf DATA_TYPE_ENTRIES TRIPLE_INDEX_OFFSET_IN_LOG_ADDRESSES tid s11;
                          if e12 \<noteq> 0 then Some (e12, none, s12)
                          else do {
                            (e13, s13) \<leftarrow> read_own_inode tid s12;
                            if e13 \<noteq> 0 then Some (-1, none, s13)
                            else Some (0, (ino_addr tid s13, deref r9 s13), upd_fsbuf (\<lambda>b. INODE_SET_TRIPLE b (deref r12 s13)) s13)
                          }
                        }
                      }
                    }
                  }
                }
              }
            }
          }
        }
      })"

text \<open>The block of addresses is the inode: it is written itself.\<close>

definition commit_inode_block :: "u32 \<Rightarrow> bool \<Rightarrow> 'z fs_scheme \<Rightarrow> (u32 \<times> 'z fs_scheme) option" where
  "commit_inode_block tid old_isCommiting s =
     RES_VERIFY (writeVot (ino_addr tid s) tid s) (\<lambda>s1.
     let s2 = upd_tr tid (t_is_voted_update (\<lambda>_. 1)) s1;
         s3 = wr (IndirectBuf tid) (changeFileSize tid (rd (IndirectBuf tid) s2) s2) s2 in
     RES_VERIFY_AT (allocAndWriteBlockTid (TrIno tid) (IndirectBuf tid) DATA_TYPE_INODE CACHE_ENTRY_OFFSET_EMPTY tid s3) (\<lambda>_ s4.
     do {
       let a = ino_addr tid s4;
       let cid = GET_LOGICAL_OFFSET a;
       assert_c (IS_CACHED_ADDR a \<longrightarrow> CID_OK cid s4);
       let s5 = (if IS_CACHED_ADDR a \<and> \<not> IS_ADDR_EMPTY (c_addr (caches s4 cid)) then upd_cache cid (c_voted_update (\<lambda>_. 1)) s4 else s4);
       Some (0, upd_tr tid (isCommiting_update (\<lambda>_. old_isCommiting)) (initWriteFields tid s5))
     }))"

definition commitInode :: "u32 \<Rightarrow> 'z fs_scheme \<Rightarrow> (u32 \<times> 'z fs_scheme) option" where
  "commitInode tid s = do {
     assert_c (TID_OK tid);
     let offset_indirect = t_fileOffset (transactions s tid);
     if IS_INDIRECT_EMPTY tid s then Some (0, s)
     else do {
       let old_isCommiting = isCommiting (transactions s tid);
       let s1 = upd_tr tid (isCommiting_update (\<lambda>_. True)) s;
       if IS_INDIRECT_INODE tid s1 then commit_inode_block tid old_isCommiting s1
       else FS_VERIFY (read_own_inode tid s1) (\<lambda>s2.
         RES_VERIFY_AT (if offset_indirect < DOUBLE_DATA_OFFSET then commit_indirect tid s2
                        else if offset_indirect < TRIPLE_DATA_OFFSET then commit_double tid offset_indirect s2
                        else commit_triple tid offset_indirect s2) (\<lambda>(old_inode, double) s3.
         let s4 = upd_fsbuf (\<lambda>b. changeFileSize tid b s3) s3 in
         RES_VERIFY_AT (allocAndWriteBlockTid (TrIno tid) FsBuf DATA_TYPE_INODE CACHE_ENTRY_OFFSET_EMPTY tid s4) (\<lambda>_ s5.
         RES_VERIFY (writeVot old_inode tid s5) (\<lambda>s6. do {
           s7 \<leftarrow> cache_fix_indirect_leaf_indicator offset_indirect double tid 0 s6;
           let s8 = init_fsbuf FsBuf (init_fsbuf (IndirectBuf tid) (initWriteFields tid s7));
           Some (0, upd_tr tid (isCommiting_update (\<lambda>_. old_isCommiting)) s8)
         }))))
     }
   }"

section \<open>Writing a block of a file\<close>

definition findIndirectEntriesBlock :: "u32 \<Rightarrow> u32 \<Rightarrow> 'z fs_scheme \<Rightarrow> (u32 \<times> 'z fs_scheme) option" where
  "findIndirectEntriesBlock block_offset tid s = do {
     assert_c (TID_OK tid);
     if isOffsetInIndirect block_offset tid s then Some (0, s)
     else if \<not> block_offset < FS_MAX_FILESIZE then Some (-1, s)
     else RES_VERIFY_AT (readIndirectToBuffer block_offset (TrIno tid) (IndirectBuf tid) init_logical_address tid True s) (\<lambda>indirect_addr s1.
       RES_VERIFY (cache_remove_indirect_block indirect_addr s1) (\<lambda>s2.
       Some (0, upd_tr tid (\<lambda>t. t\<lparr>maxWrittenOffset := 0, newBlocksallocated := 0\<rparr>) (setIndirectOffset block_offset tid s2))))
   }"

text \<open>A write to the data part of the inode stays in the transaction.\<close>

definition write_inode_data :: "u32 \<Rightarrow> u32 \<Rightarrow> 'z fs_scheme \<Rightarrow> 'z fs_scheme" where
  "write_inode_data len tid s =
     (let s1 = changeTransactionMaxOffset tid len s;
          s2 = wr (IndirectBuf tid) (changeFileSize tid (rd (IndirectBuf tid) s1) s1) s1;
          s3 = upd_tr tid (\<lambda>t. t\<lparr>t_fileSize := INODE_GET_NBYTES (indirect_buf t)\<rparr>) s2;
          s4 = wr (IndirectBuf tid) (fsMemcpy (rd (IndirectBuf tid) s3) 0 (rd (DataBuf tid) s3) 0 1983) s3
      in wr (DataBuf tid) (fsMemcpy (rd (DataBuf tid) s4) 1983 (rd (IndirectBuf tid) s4) 1983 65) s4)"

definition writeFileBlock ::
  "u32 \<Rightarrow> u32 \<Rightarrow> u32 \<Rightarrow> u32 \<Rightarrow> logical_addr \<Rightarrow> bool \<Rightarrow> 'z fs_scheme \<Rightarrow> (u32 \<times> 'z fs_scheme) option" where
  "writeFileBlock block_offset len dataType tid log_addr writeFlag s = do {
     assert_c (TID_OK tid);
     RES_VERIFY (if \<not> isOffsetInIndirect block_offset tid s then
         RES_VERIFY (if \<not> IS_INDIRECT_EMPTY tid s then commitInode tid s else Some (0, s))
           (findIndirectEntriesBlock block_offset tid) else Some (0, s)) (\<lambda>s1.
     if IS_INDIRECT_INODE tid s1 \<and> block_offset < INODE_FILE_DATA_SIZE then Some (0, write_inode_data len tid s1)
     else do {
       let in_inode = IS_INDIRECT_INODE tid s1;
       let off = (if in_inode then block_offset - INODE_FILE_DATA_SIZE else block_offset - INDIRECT_DATA_OFFSET);
       let entry = (if in_inode then CALC_IN_BLOCKS off else CALC_OFFSET_IN_INDIRECT_BLOCK (CALC_OFFSET_IN_INDIRECT_SIZE off));
       assert_c (in_inode \<longrightarrow> entry < 10);
       let n = unat entry;
       let old = (if in_inode then INODE_GET_DIRECT (indirect_buf (transactions s1 tid)) n
                  else BLOCK_GET_INDEX (indirect_buf (transactions s1 tid)) n);
       RES_VERIFY_AT (if writeFlag then allocAndWriteBlockTid (Local old) (DataBuf tid) dataType
             (if in_inode then DIRECT_INDEX_OFFSET_IN_LOG_ADDRESSES + entry else entry) tid s1
           else Some (0, Local log_addr, s1)) (\<lambda>r s2.
         let a = deref r s2;
             s3 = upd_tr tid (indirect_buf_update (\<lambda>b. if in_inode then INODE_SET_DIRECT b n a else BLOCK_SET_INDEX b n a)) s2;
             maxOffset = (if in_inode then INODE_FILE_DATA_SIZE + off + len else CALC_OFFSET_IN_INDIRECT_SIZE off + len);
             s4 = changeTransactionMaxOffset tid maxOffset s3 in
         RES_VERIFY (if \<not> IS_ADDR_EMPTY old \<and> t_ino_num (transactions s4 tid) \<noteq> 0 then writeVot old tid s4 else Some (0, s4)) (\<lambda>s5.
         let s6 = (if \<not> block_offset <s t_fileSize (transactions s5 tid)
                   then upd_tr tid (newBlocksallocated_update (\<lambda>n. n + 1)) s5 else s5)
         in Some (0, TRANSACTION_CALC_FILE_SIZE tid s6)))
     })
   }"

section \<open>Publishing an inode\<close>

definition commitInodeToInode0 ::
  "logical_addr \<Rightarrow> u32 \<Rightarrow> logical_addr \<Rightarrow> u32 \<Rightarrow> 'z fs_scheme \<Rightarrow> (u32 \<times> logical_addr \<times> 'z fs_scheme) option" where
  "commitInodeToInode0 ino0_log_addr ino_num ino_log_a tid s = do {
     assert_c (TID_OK tid);
     let s1 = upd_tr tid (\<lambda>t. t\<lparr>t_ino_num := 0, ino_log_addr := ino0_log_addr, t_fileOffset := -1\<rparr>) s;
     (e, s6) \<leftarrow> RES_VERIFY (fsReadBlock ino0_log_addr FsBuf tid CACHE_ENTRY_OFFSET_EMPTY True s1) (\<lambda>s2.
       let s3 = upd_tr tid (\<lambda>t. t\<lparr>t_fileSize := INODE_GET_NBYTES (fs_buffer s2), t_f_type := FTYPE_FILE\<rparr>) s2;
           ino_offset = CALC_OFFSET_FROM_INODE ino_num in
       RES_VERIFY (findIndirectEntriesBlock ino_offset tid s3) (\<lambda>s4.
       RES_VERIFY (writeFileBlock ino_offset FS_BLOCK_SIZE DATA_TYPE_EMPTY tid ino_log_a False s4) (\<lambda>s5.
       commitInode tid s5)));
     Some (e, if e \<noteq> 0 then ino0_log_addr else ino_addr tid s6, s6)
   }"

text \<open>\<open>in_fs\<close>: the caller's pointer to the address of inode 0 is the one kept in the file system's data.\<close>

definition commitTransaction :: "u32 \<Rightarrow> logical_addr \<Rightarrow> bool \<Rightarrow> bool \<Rightarrow> 'z fs_scheme \<Rightarrow> (u32 \<times> 'z fs_scheme) option" where
  "commitTransaction tid ino0_old_addr in_fs isFinal s = do {
     assert_c (TID_OK tid);
     let t = transactions s tid;
     if isCommiting t then Some (0, s)
     else do {
       let s1 = upd_tr tid (\<lambda>t. t\<lparr>isCommiting := True, t_type := (if isFinal then t_type t else T_TYPE_TEMP)\<rparr>) s;
       TR_RES_VERIFY tid (commitInode tid s1) (\<lambda>s2.
       RES_VERIFY (cache_flush_transaction_blocks tid s2) (\<lambda>s3. do {
         (e4, ino0, s4) \<leftarrow> commitInodeToInode0 ino0_old_addr (t_ino_num (transactions s3 tid)) (ino_addr tid s3) tid s3;
         let s4' = (if in_fs then FS_SET_INO0_ADDR ino0 s4 else s4);
         TR_RES_VERIFY tid (Some (e4, s4')) (\<lambda>s5.
         RES_VERIFY_AT (if \<not> IS_VOTS_BUF_EMPTY tid s5
              then allocAndWriteBlockTid (TrPrev tid) (VotsBuf tid) DATA_TYPE_VOTS CACHE_ENTRY_OFFSET_EMPTY tid s5
              else Some (0, TrPrev tid, s5)) (\<lambda>_ s6.
         let s7 = FS_SET_LAST_CLOSED_TID_ADDR (prev_log_addr (transactions s6 tid)) (FS_SET_INO0_ADDR ino0 s6) in
         TR_RES_VERIFY tid (seq_error (fsCheckpointWriter False s7)) (\<lambda>s8.
         RES_VERIFY (handleTransactionVOTs (prev_log_addr (transactions s8 tid)) False s8) (\<lambda>s9.
         RES_VERIFY (next_free_page s9) (\<lambda>s10.
         let s11 = (if \<not> isFinal then s10\<lparr>fs_buffer := fsMemcpy (fs_buffer s10) 0 (data_buf (transactions s10 tid)) 0 2048\<rparr> else s10);
             s12 = FS_SET_TID_LAST_WRITTEN_ADDR (unat tid) init_logical_address
                     (FS_SET_LAST_CLOSED_TID_ADDR init_logical_address (init_transaction tid s11)) in
         TR_RES_VERIFY tid (seq_error (fsCheckpointWriter False s12)) (\<lambda>s13.
         RES_VERIFY (next_free_page s13) (\<lambda>s14.
         RES_VERIFY (if isFinal then Some (0, s14)
           else (let s15 = upd_tr tid (\<lambda>x. x\<lparr>data_buf := fsMemcpy (data_buf x) 0 (fs_buffer s14) 0 2048,
                       t_ino_num := t_ino_num t, t_type := t_type t\<rparr>) s14 in
             do {
               (e16, _, s16) \<leftarrow> getInode FsBuf (t_ino_num t) (TrIno tid) s15;
               TR_RES_VERIFY tid (Some (e16, s16)) (\<lambda>s17.
               TR_RES_VERIFY tid (findIndirectEntriesBlock (t_fileOffset t) tid
                 (upd_tr tid (\<lambda>x. x\<lparr>t_fileSize := INODE_GET_NBYTES (fs_buffer s17), t_f_type := t_f_type t\<rparr>) s17)) (\<lambda>s18. Some (0, s18)))
             })) (\<lambda>s19. Some (0, upd_tr tid (isCommiting_update (\<lambda>_. False)) s19)))))))))
       }))
     }
   }"

section \<open>Voting for the pages of a file\<close>

text \<open>Votes for the entries \<open>g s i\<close>, one after the other.\<close>

fun vot_entries :: "nat list \<Rightarrow> ('z fs_scheme \<Rightarrow> nat \<Rightarrow> logical_addr) \<Rightarrow> u32 \<Rightarrow> 'z fs_scheme \<Rightarrow> (u32 \<times> 'z fs_scheme) option" where
  "vot_entries [] g tid s = Some (0, s)"
| "vot_entries (i # is) g tid s = FS_VERIFY (writeVot (g s i) tid s) (\<lambda>s1. vot_entries is g tid s1)"

text \<open>The leaves of the double block in the transaction's data buffer.\<close>

fun vot_leaves :: "nat list \<Rightarrow> u32 \<Rightarrow> 'z fs_scheme \<Rightarrow> (u32 \<times> 'z fs_scheme) option" where
  "vot_leaves [] tid s = Some (0, s)"
| "vot_leaves (j # js) tid s = (let indirect = BLOCK_GET_INDEX (data_buf (transactions s tid)) j in
     if IS_ADDR_EMPTY indirect then vot_leaves js tid s
     else FS_VERIFY (fsReadBlock indirect FsBuf tid (of_nat j) True s) (\<lambda>s1.
       FS_VERIFY (vot_entries [0..<512] (\<lambda>s. BLOCK_GET_INDEX (fs_buffer s)) tid s1) (\<lambda>s2.
       FS_VERIFY (writeVot indirect tid s2) (\<lambda>s3. vot_leaves js tid s3))))"

fun vot_doubles :: "nat list \<Rightarrow> logical_addr \<Rightarrow> u32 \<Rightarrow> 'z fs_scheme \<Rightarrow> (u32 \<times> 'z fs_scheme) option" where
  "vot_doubles [] triple tid s = Some (0, s)"
| "vot_doubles (k # ks) triple tid s =
     FS_VERIFY (fsReadBlock triple FsBuf tid TRIPLE_INDEX_OFFSET_IN_LOG_ADDRESSES True s) (\<lambda>s1.
     let double = BLOCK_GET_INDEX (fs_buffer s1) k in
     if IS_ADDR_EMPTY double then vot_doubles ks triple tid s1
     else FS_VERIFY (fsReadBlock double (DataBuf tid) tid (of_nat k) True s1) (\<lambda>s2.
       FS_VERIFY (vot_leaves [0..<512] tid s2) (\<lambda>s3.
       FS_VERIFY (writeVot double tid s3) (\<lambda>s4. vot_doubles ks triple tid s4))))"

definition votFile :: "u32 \<Rightarrow> 'z fs_scheme \<Rightarrow> (u32 \<times> 'z fs_scheme) option" where
  "votFile tid s = do {
     assert_c (TID_OK tid);
     FS_VERIFY_AT (getInode (IndirectBuf tid) (t_ino_num (transactions s tid)) (Local init_logical_address) s) (\<lambda>r s1.
     let ino = indirect_buf (transactions s1 tid);
         f_size = INODE_GET_NBYTES ino;
         indirect = INODE_GET_INDIRECT ino; double = INODE_GET_DOUBLE ino; triple = INODE_GET_TRIPLE ino in
     FS_VERIFY (writeVot (deref r s1) tid s1) (\<lambda>s2.
     if f_size \<le> INODE_FILE_DATA_SIZE then Some (0, s2)
     else FS_VERIFY (vot_entries [0..<10] (\<lambda>s. INODE_GET_DIRECT (indirect_buf (transactions s tid))) tid s2) (\<lambda>s3.
     if f_size \<le> INDIRECT_DATA_OFFSET then Some (0, s3)
     else FS_VERIFY (fsReadBlock indirect FsBuf tid INDIRECT_INDEX_OFFSET_IN_LOG_ADDRESSES True s3) (\<lambda>s4.
     FS_VERIFY (vot_entries [0..<512] (\<lambda>s. BLOCK_GET_INDEX (fs_buffer s)) tid s4) (\<lambda>s5.
     FS_VERIFY (writeVot indirect tid s5) (\<lambda>s6.
     if f_size \<le> DOUBLE_DATA_OFFSET then Some (0, s6)
     else FS_VERIFY (fsReadBlock double (DataBuf tid) tid DOUBLE_INDEX_OFFSET_IN_LOG_ADDRESSES True s6) (\<lambda>s7.
     FS_VERIFY (vot_leaves [0..<512] tid s7) (\<lambda>s8.
     FS_VERIFY (writeVot double tid s8) (\<lambda>s9.
     if f_size \<le> TRIPLE_DATA_OFFSET then Some (0, s9)
     else FS_VERIFY (vot_doubles [0..<512] triple tid s9) (\<lambda>s10.
     FS_VERIFY (writeVot triple tid s10) (\<lambda>s11. Some (0, s11))))))))))))
   }"

section \<open>Directories\<close>

definition setNewInode :: "u32 \<Rightarrow> u32 \<Rightarrow> u32 \<Rightarrow> u32 \<Rightarrow> 'z fs_scheme \<Rightarrow> (u32 \<times> 'z fs_scheme) option" where
  "setNewInode f_id parent_f_id f_type tid s = do {
     assert_c (TID_OK tid);
     let s1 = init_fsbuf (IndirectBuf tid) s;
     (e, a, s2) \<leftarrow> (if IS_DIRECTORY f_type then do {
         b1 \<leftarrow> setNewDirentry (rd (IndirectBuf tid) s1) 0 f_id f_type [0x2e];
         b2 \<leftarrow> setNewDirentry b1 (moveToNextDirentry 0 (DIRENT_GET_LEN b1 0)) parent_f_id f_type [0x2e, 0x2e];
         (e, r, s2) \<leftarrow> allocAndWriteBlockTid (Local init_logical_address) (IndirectBuf tid) DATA_TYPE_DIRENTS CACHE_ENTRY_OFFSET_EMPTY tid
            (wr (IndirectBuf tid) b2 s1);
         Some (e, deref r s2, s2)
       } else Some (0, init_logical_address, s1));
     if e \<noteq> 0 then Some (e, s2)
     else do {
       let s3 = init_fsbuf (IndirectBuf tid) s2;
       let b = INODE_SET_NBYTES (INODE_SET_NBLOCKS (INODE_SET_FILE_TYPE (INODE_SET_FILE_ID (rd (IndirectBuf tid) s3) f_id) f_type) 1) 0;
       let b' = (if IS_DIRECTORY f_type
          then INODE_SET_NBLOCKS (INODE_SET_NBYTES (INODE_SET_DIRECT b 0 (MARK_BLOCK_WITH_HOLE a)) (INODE_FILE_DATA_SIZE + FS_BLOCK_SIZE)) 2
          else b);
       Some (0, wr (IndirectBuf tid) b' s3)
     }
   }"

text \<open>The first entry of a block, from \<open>p\<close> on, that is empty or satisfies \<open>P\<close>.\<close>

fun walk_entries :: "nat \<Rightarrow> (buf \<Rightarrow> nat \<Rightarrow> bool) \<Rightarrow> buf \<Rightarrow> nat \<Rightarrow> nat option" where
  "walk_entries 0 P b p = None"
| "walk_entries (Suc n) P b p = do {
     assert_c (p + 10 \<le> 2048);
     if IS_DIRENT_EMPTY b p \<or> P b p then Some p
     else walk_entries n P b (moveToNextDirentry p (DIRENT_GET_LEN b p))
   }"

definition writeDirEntry :: "u32 \<Rightarrow> u8 list \<Rightarrow> u32 \<Rightarrow> u32 \<Rightarrow> 'z fs_scheme \<Rightarrow> (u32 \<times> 'z fs_scheme) option" where
  "writeDirEntry ino_num f_name f_type tid s = do {
     assert_c (TID_OK tid);
     (e, _, offset, s1) \<leftarrow> findEmptySparseBlock (t_ino_num (transactions s tid)) init_logical_address tid s;
     if e \<noteq> 0 then Some (-1, s1)
     else RES_VERIFY (findIndirectEntriesBlock offset tid s1) (\<lambda>s2.
       RES_VERIFY_AT (readFileBlock (DataBuf tid) (t_ino_num (transactions s2 tid)) offset (TrIno tid) tid s2) (\<lambda>_ s3. do {
         p \<leftarrow> walk_entries 2048 (\<lambda>_ _. False) (rd (DataBuf tid) s3) 0;
         b \<leftarrow> setNewDirentry (rd (DataBuf tid) s3) p ino_num f_type f_name;
         TR_RES_VERIFY tid (writeFileBlock offset FS_BLOCK_SIZE DATA_TYPE_DIRENTS tid init_logical_address True (wr (DataBuf tid) b s3))
           (\<lambda>s4. Some (0, s4))
       }))
   }"

definition deleteDirEntry :: "u32 \<Rightarrow> u32 \<Rightarrow> u32 \<Rightarrow> 'z fs_scheme \<Rightarrow> (u32 \<times> 'z fs_scheme) option" where
  "deleteDirEntry ino_num de_offset tid s = do {
     assert_c (TID_OK tid);
     RES_VERIFY (findIndirectEntriesBlock de_offset tid s) (\<lambda>s1.
     RES_VERIFY_AT (readFileBlock (DataBuf tid) (t_ino_num (transactions s1 tid)) de_offset (TrIno tid) tid s1) (\<lambda>_ s2. do {
       let b = rd (DataBuf tid) s2;
       p \<leftarrow> walk_entries 2048 (\<lambda>b p. DIRENT_GET_INO_NUM b p = ino_num) b 0;
       b1 \<leftarrow> deleteDeFromBlock (DIRENT_GET_LEN b p) (CALC_OFFSET_IN_FILE_BLOCK de_offset) b;
       TR_RES_VERIFY tid (writeFileBlock (de_offset - CALC_OFFSET_IN_FILE_BLOCK de_offset) FS_BLOCK_SIZE DATA_TYPE_DIRENTS tid
           init_logical_address (\<not> IS_DIRENT_EMPTY b1 0) (wr (DataBuf tid) b1 s2)) (\<lambda>s3. Some (0, s3))
     }))
   }"

end
