(* ===== verification/WriteRead.thy ===== *)
theory WriteRead
  imports FilePath FileWrite
begin

text \<open>
  A block written in a transaction is the block read.  The theorem follows a block from
  \<open>writeFileBlock\<close> through the allocation of a page down to the chip, and back up through the transaction's
  inode and \<open>readFileBlock\<close>.
\<close>

unbundle bit_operations_syntax

section \<open>What a write does to the store of blocks\<close>

lemma alloc_stores:
  fixes s :: "'z seq_scheme"
  assumes "open_page p s" "next_ready p s" "is_flash_full s = Some False" "\<not> rd_fail s p"
  obtains B c v d where
    "allocAndWriteBlock log_addr (\<lambda>_ s. s) data onlyVOTs prev cpWritten w 0 s =
       Some (0, reclaimed_logical_addr s, cpWritten, init_buf ((block_written B p c s)\<lparr>valid_eus := v\<rparr>))"
    "eus_ok ((block_written B p c s)\<lparr>valid_eus := v\<rparr>)"
    "stored_block (block_written B p c s) (reclaimed_logical_addr s) = Some d" "same_block d data"
    "\<forall>a e. stored_block s a = Some e \<longrightarrow> plain_page a s \<noteq> Some p \<longrightarrow> stored_block (block_written B p c s) a = Some e"
proof -
  let ?B = "block_image data onlyVOTs prev (sequencing_buffer s)"
  obtain c v where cv: "allocAndWriteBlock log_addr (\<lambda>_ s. s) data onlyVOTs prev cpWritten w 0 s =
      Some (0, reclaimed_logical_addr s, cpWritten, init_buf ((block_written ?B p c s)\<lparr>valid_eus := v\<rparr>))"
    "eus_ok ((block_written ?B p c s)\<lparr>valid_eus := v\<rparr>)"
    by (rule allocAndWriteBlock_open [OF assms(1-3)])
  let ?S = "block_written ?B p c s"
  have p: "nSegments s \<noteq> SEQ_SEGMENTS_COUNT" "plain_page (reclaimed_logical_addr s) s = Some p" "unit_fine p s"
    using assms(1) by (simp_all add: open_page_def)
  note plain = block_written_plain [OF p(1)]
  have fine: "unit_fine q ?S" if "unit_fine q s" for q
    using that block_image_spare(1) by (simp add: unit_fine_def eu_readable_def block_written_good)
  have seg: "\<not> IS_ADDRESS_EMPTY (reclaimed_logical_addr s)" "\<not> IS_CACHED_ADDR (reclaimed_logical_addr s)"
    using p(2) by (auto simp: plain_page_def GET_SEG_MAP_SLOT_FOR_SEG_def IS_ADDRESS_EMPTY_def IS_CACHED_ADDR_def split: if_splits)
  have "stored_block ?S (reclaimed_logical_addr s) = Some (written_page (cells s p) ?B)"
    using seg p fine assms(4) by (simp add: stored_block_def plain written_page_sound)
  moreover have "same_block (written_page (cells s p) ?B) data" by (simp add: same_block_def written_page_byte block_image_data)
  moreover have "\<forall>a e. stored_block s a = Some e \<longrightarrow> plain_page a s \<noteq> Some p \<longrightarrow> stored_block ?S a = Some e"
    using fine by (auto simp: stored_block_def plain split: option.splits if_splits)
  ultimately show thesis using cv by (intro that)
qed

lemma block_written_fs [simp]:
  "transactions (block_written B p c s) = transactions s" "FS_CACHE_BUFFERS (block_written B p c s) = FS_CACHE_BUFFERS s"
  "transactions (init_buf s) = transactions s" "FS_CACHE_BUFFERS (init_buf s) = FS_CACHE_BUFFERS s"
  by (simp_all add: block_written_def INCREMENT_RECLAIMED_OFFSET_def DECREMENT_FREE_COUNT_def programmed_def init_buf_def
    SET_RECLAIMED_OFFSET_def SET_FREE_COUNTER_def)

lemma no_hole_same:
  "stored_block s (MARK_BLOCK_NO_HOLE a) = stored_block s a"
proof -
  have m: "(0x7fffffff :: u32) = mask 31" by (simp add: mask_eq_exp_minus_1)
  have b: "byte0 (MARK_BLOCK_NO_HOLE a) = byte0 a" "byte1 (MARK_BLOCK_NO_HOLE a) = byte1 a" "byte2 (MARK_BLOCK_NO_HOLE a) = byte2 a"
    unfolding MARK_BLOCK_NO_HOLE_def SET_ADDR_FLAG_def m
    by (rule bit_eqI, auto simp: word_addr_def addr_word_def bit_simps dest: bit_imp_le_length)+
  have "GET_LOGICAL_SEGMENT (MARK_BLOCK_NO_HOLE a) = GET_LOGICAL_SEGMENT a" "GET_LOGICAL_OFFSET (MARK_BLOCK_NO_HOLE a) = GET_LOGICAL_OFFSET a"
    by (simp_all add: GET_LOGICAL_SEGMENT_def GET_LOGICAL_OFFSET_def b)
  then show ?thesis by (simp add: stored_block_def plain_page_def IS_ADDRESS_EMPTY_def IS_CACHED_ADDR_def)
qed

section \<open>Writing a block of data\<close>

text \<open>The transaction may write, and the next page of the chip takes the write without a reserve unit.\<close>

definition can_write :: "u32 \<Rightarrow> u32 \<Rightarrow> 'z fs_scheme \<Rightarrow> bool" where
  "can_write tid p s = (TID_OK tid \<and> FS_CACHE_BUFFERS s = 0 \<and> (IS_WRITE_PEMITTED tid s \<or> \<not> IS_MIN_FREE_PAGES_REACHED s) \<and>
     open_page p s \<and> next_ready p s \<and> is_flash_full s = Some False \<and> \<not> rd_fail s p)"

lemma actual_write:
  fixes s :: "'z fs_scheme"
  assumes "can_write tid p s"
  obtains S :: "'z fs_scheme" and d where
    "allocAndWriteBlockTid_actualWrite (Local old) data vots tid s =
       Some (0, Local (reclaimed_logical_addr s), upd_tr tid (prev_log_addr_update (\<lambda>_. reclaimed_logical_addr s)) S)"
    "stored_block S (reclaimed_logical_addr s) = Some d" "same_block d data" "store_ok S" "transactions S = transactions s"
    "\<forall>a e. stored_block s a = Some e \<longrightarrow> plain_page a s \<noteq> Some p \<longrightarrow> stored_block S a = Some e"
proof -
  have ok: "TID_OK tid" "FS_CACHE_BUFFERS s = 0" "open_page p s" "next_ready p s" "is_flash_full s = Some False" "\<not> rd_fail s p"
    using assms by (simp_all add: can_write_def)
  obtain B c v d where *: "allocAndWriteBlock old (\<lambda>_ s. s) data vots (prev_log_addr (transactions s tid)) False fsCheckpointWriter 0 s =
       Some (0, reclaimed_logical_addr s, False, init_buf ((block_written B p c s)\<lparr>valid_eus := v\<rparr>))"
    "eus_ok ((block_written B p c s)\<lparr>valid_eus := v\<rparr>)"
    "stored_block (block_written B p c s) (reclaimed_logical_addr s) = Some d" "same_block d data"
    "\<forall>a e. stored_block s a = Some e \<longrightarrow> plain_page a s \<noteq> Some p \<longrightarrow> stored_block (block_written B p c s) a = Some e"
    by (rule alloc_stores [OF ok(3-6)])
  show thesis
    by (rule that [of "init_buf ((block_written B p c s)\<lparr>valid_eus := v\<rparr>)" d])
      (use * ok in \<open>simp_all add: allocAndWriteBlockTid_actualWrite_def store_ok_def\<close>)
qed

lemma write_data_block:
  fixes s :: "'z fs_scheme"
  assumes "can_write tid p s"
  obtains S :: "'z fs_scheme" and d where
    "allocAndWriteBlockTid (Local old) (DataBuf tid) DATA_TYPE_REGULAR e tid s =
       Some (0, Local (MARK_BLOCK_NO_HOLE (reclaimed_logical_addr s)), upd_tr tid (prev_log_addr_update (\<lambda>_. reclaimed_logical_addr s)) S)"
    "stored_block S (reclaimed_logical_addr s) = Some d" "same_block d (data_buf (transactions s tid))" "store_ok S"
    "transactions S = transactions s"
    "\<forall>a e. stored_block s a = Some e \<longrightarrow> plain_page a s \<noteq> Some p \<longrightarrow> stored_block S a = Some e"
proof -
  have "handleMinPages tid s = Some (0, s)"
    using assms by (auto simp: can_write_def handleMinPages_def numeral_eq_Suc)
  moreover have "\<not> is_cacheable DATA_TYPE_REGULAR tid s" using assms by (simp add: is_cacheable_def can_write_def)
  moreover obtain S d where S: "allocAndWriteBlockTid_actualWrite (Local old) (data_buf (transactions s tid)) False tid s =
       Some (0, Local (reclaimed_logical_addr s), upd_tr tid (prev_log_addr_update (\<lambda>_. reclaimed_logical_addr s)) S)"
    "stored_block S (reclaimed_logical_addr s) = Some d" "same_block d (data_buf (transactions s tid))" "store_ok S" "transactions S = transactions s"
    "\<forall>a e. stored_block s a = Some e \<longrightarrow> plain_page a s \<noteq> Some p \<longrightarrow> stored_block S a = Some e"
    by (rule actual_write [OF assms])
  ultimately have "allocAndWriteBlockTid (Local old) (DataBuf tid) DATA_TYPE_REGULAR e tid s =
       Some (0, Local (MARK_BLOCK_NO_HOLE (reclaimed_logical_addr s)), upd_tr tid (prev_log_addr_update (\<lambda>_. reclaimed_logical_addr s)) S)"
    by (simp add: allocAndWriteBlockTid_def performAlloc_def block_has_hole_def)
  then show thesis using S(2-) by (rule that)
qed

section \<open>The transaction's inode after a write\<close>

lemma upd_tr_same [simp]:
  "upd_tr t f (upd_tr t g s) = upd_tr t (\<lambda>x. f (g x)) s" "transactions (upd_tr t f s) t = f (transactions s t)"
  "store_ok (upd_tr t f s) = store_ok s"
  by (simp_all add: upd_tr_def store_ok_def eus_ok_def eu_good_def)

text \<open>The last steps of a write, as functions of the transaction alone.\<close>

definition raise_offset :: "u32 \<Rightarrow> transaction \<Rightarrow> transaction" where
  "raise_offset m t = (if m > maxWrittenOffset t then t\<lparr>maxWrittenOffset := m\<rparr> else t)"

definition count_block :: "u32 \<Rightarrow> transaction \<Rightarrow> transaction" where
  "count_block off t = (if off <s t_fileSize t then t else newBlocksallocated_update (\<lambda>n. n + 1) t)"

definition grow_size :: "transaction \<Rightarrow> transaction" where
  "grow_size t = (if t_fileOffset t + maxWrittenOffset t > t_fileSize t
     then t\<lparr>t_fileSize := t_fileOffset t + maxWrittenOffset t\<rparr> else t)"

lemma last_steps:
  "changeTransactionMaxOffset tid m s = upd_tr tid (raise_offset m) s"
  "TRANSACTION_CALC_FILE_SIZE tid s = upd_tr tid grow_size s"
  "(if off <s t_fileSize (transactions s tid) then s else upd_tr tid (newBlocksallocated_update (\<lambda>n. n + 1)) s) =
     upd_tr tid (count_block off) s"
  by (simp_all add: changeTransactionMaxOffset_def TRANSACTION_CALC_FILE_SIZE_def upd_tr_def raise_offset_def count_block_def grow_size_def)

lemma upd_tr_const: "upd_tr tid f s = upd_tr tid (\<lambda>_. f (transactions s tid)) s"
  by (simp add: upd_tr_def)

lemma last_steps_keep [simp]:
  "indirect_buf (raise_offset m t) = indirect_buf t" "indirect_buf (count_block off t) = indirect_buf t" "indirect_buf (grow_size t) = indirect_buf t"
  "t_fileOffset (raise_offset m t) = t_fileOffset t" "t_fileOffset (count_block off t) = t_fileOffset t" "t_fileOffset (grow_size t) = t_fileOffset t"
  "t_ino_num (raise_offset m t) = t_ino_num t" "t_ino_num (count_block off t) = t_ino_num t" "t_ino_num (grow_size t) = t_ino_num t"
  "maxWrittenOffset (count_block off t) = maxWrittenOffset t" "m \<le> maxWrittenOffset (raise_offset m t)"
  by (auto simp: raise_offset_def count_block_def grow_size_def not_less)

lemma grow_size_covers: "t_fileOffset t = 0 \<Longrightarrow> maxWrittenOffset t \<le> t_fileSize (grow_size t)"
  by (auto simp: grow_size_def)

text \<open>The inode of the transaction is in memory, and the file has no block at the offset yet.\<close>

definition new_direct_block :: "u32 \<Rightarrow> u32 \<Rightarrow> 'z fs_scheme \<Rightarrow> bool" where
  "new_direct_block tid off s = (1983 \<le> off \<and> off < INDIRECT_DATA_OFFSET \<and> block_start off = off \<and>
     t_fileOffset (transactions s tid) = 0 \<and>
     IS_ADDR_EMPTY (INODE_GET_DIRECT (indirect_buf (transactions s tid)) (unat (CALC_IN_BLOCKS (off - INODE_FILE_DATA_SIZE)))))"

lemma write_direct:
  fixes s :: "'z fs_scheme"
  assumes ok: "can_write tid p s" and hole: "new_direct_block tid off s"
  obtains S :: "'z fs_scheme" and d t where
    "writeFileBlock off len DATA_TYPE_REGULAR tid la True s = Some (0, upd_tr tid (\<lambda>_. t) S)"
    "stored_block S (reclaimed_logical_addr s) = Some d" "same_block d (data_buf (transactions s tid))" "store_ok S"
    "transactions S = transactions s"
    "\<forall>a e. stored_block s a = Some e \<longrightarrow> plain_page a s \<noteq> Some p \<longrightarrow> stored_block S a = Some e"
    "indirect_buf t = INODE_SET_DIRECT (indirect_buf (transactions s tid)) (unat (CALC_IN_BLOCKS (off - INODE_FILE_DATA_SIZE)))
       (MARK_BLOCK_NO_HOLE (reclaimed_logical_addr s))"
    "t_fileOffset t = 0" "t_ino_num t = t_ino_num (transactions s tid)" "off + len \<le> t_fileSize t"
proof -
  let ?e = "CALC_IN_BLOCKS (off - INODE_FILE_DATA_SIZE)"
  have off: "1983 \<le> off" "off < INDIRECT_DATA_OFFSET" "t_fileOffset (transactions s tid) = 0"
    "IS_ADDR_EMPTY (INODE_GET_DIRECT (indirect_buf (transactions s tid)) (unat ?e))"
    using hole by (simp_all add: new_direct_block_def)
  have e: "?e < 10" using off(1,2) direct_entry [OF off(1)] by (simp add: word_less_nat_alt less_mult_imp_div_less)
  have tid: "TID_OK tid" using ok by (simp add: can_write_def)
  have inside: "isOffsetInIndirect off tid s" "IS_INDIRECT_INODE tid s"
    using off by (simp_all add: isOffsetInIndirect_def IS_INDIRECT_EMPTY_def IS_INDIRECT_INODE_def IS_NEGATIVE_def)
  obtain S d where S:
    "allocAndWriteBlockTid (Local (INODE_GET_DIRECT (indirect_buf (transactions s tid)) (unat ?e))) (DataBuf tid) DATA_TYPE_REGULAR
       (DIRECT_INDEX_OFFSET_IN_LOG_ADDRESSES + ?e) tid s =
       Some (0, Local (MARK_BLOCK_NO_HOLE (reclaimed_logical_addr s)), upd_tr tid (prev_log_addr_update (\<lambda>_. reclaimed_logical_addr s)) S)"
    "stored_block S (reclaimed_logical_addr s) = Some d" "same_block d (data_buf (transactions s tid))" "store_ok S"
    "transactions S = transactions s"
    "\<forall>a e. stored_block s a = Some e \<longrightarrow> plain_page a s \<noteq> Some p \<longrightarrow> stored_block S a = Some e"
    by (rule write_data_block [OF ok])
  let ?put = "\<lambda>t. indirect_buf_update (\<lambda>b. INODE_SET_DIRECT b (unat ?e) (MARK_BLOCK_NO_HOLE (reclaimed_logical_addr s)))
    (t\<lparr>prev_log_addr := reclaimed_logical_addr s\<rparr>)"
  let ?f = "\<lambda>t. grow_size (count_block off (raise_offset (off + len) (?put t)))"
  have "writeFileBlock off len DATA_TYPE_REGULAR tid la True s = Some (0, upd_tr tid ?f S)"
    using off e S(1,5) tid
    by (simp add: writeFileBlock_def inside RES_VERIFY_def RES_VERIFY_AT_def Let_def last_steps cong: if_cong)
      (auto simp: upd_tr_def count_block_def not_less)
  moreover have "off + len \<le> t_fileSize (?f (transactions s tid))"
  proof -
    have "off + len \<le> maxWrittenOffset (count_block off (raise_offset (off + len) (?put (transactions s tid))))" by simp
    also have "\<dots> \<le> t_fileSize (?f (transactions s tid))" by (rule grow_size_covers) (simp add: off(3))
    finally show ?thesis .
  qed
  ultimately show thesis using S(2-) off(3) upd_tr_const [of tid ?f S] by (intro that [of "?f (transactions s tid)" S d]) simp_all
qed

section \<open>A block written is the block read\<close>

lemma addr_at_put_other: "i + 4 \<le> j \<or> j + 4 \<le> i \<Longrightarrow> addr_at (addr_put b i a) j = addr_at b j"
  by (auto simp: addr_at_def addr_put_def)

lemma direct_entry_bound: "1983 \<le> off \<Longrightarrow> off < INDIRECT_DATA_OFFSET \<Longrightarrow> CALC_IN_BLOCKS (off - INODE_FILE_DATA_SIZE) < 10"
  using direct_entry [of off] by (simp add: word_less_nat_alt less_mult_imp_div_less)

text \<open>
  C3: in a transaction that may write, with its inode in memory and no block of the file at the offset yet,
  writing a block succeeds; every later read of an offset of that block in the transaction, into any buffer,
  returns the bytes written; the file reaches at least the end of the write; the other direct entries of the
  inode and the blocks stored on other pages are what they were.
\<close>
theorem writeFileBlock_round_trip:
  assumes "can_write tid p s" "new_direct_block tid off s"
  shows "\<exists>s1. writeFileBlock off len DATA_TYPE_REGULAR tid la True s = Some (0, s1) \<and> store_ok s1 \<and>
    (\<forall>b ino n r. 1983 \<le> n \<and> block_start n = off \<and> \<not> held_by_other tid ino s1 \<longrightarrow>
       (\<exists>s2. readFileBlock b ino n r tid s1 = Some (0, r, s2) \<and> (\<forall>i<2048. rd b s2 i = data_buf (transactions s tid) i))) \<and>
    off + len \<le> t_fileSize (transactions s1 tid) \<and> (\<forall>j. j \<noteq> tid \<longrightarrow> transactions s1 j = transactions s j) \<and>
    (\<forall>k<10. k \<noteq> unat (CALC_IN_BLOCKS (off - INODE_FILE_DATA_SIZE)) \<longrightarrow>
       INODE_GET_DIRECT (indirect_buf (transactions s1 tid)) k = INODE_GET_DIRECT (indirect_buf (transactions s tid)) k) \<and>
    (\<forall>a e. stored_block s a = Some e \<longrightarrow> plain_page a s \<noteq> Some p \<longrightarrow> stored_block s1 a = Some e)"
proof -
  let ?e = "CALC_IN_BLOCKS (off - INODE_FILE_DATA_SIZE)"
  obtain S d t where S: "writeFileBlock off len DATA_TYPE_REGULAR tid la True s = Some (0, upd_tr tid (\<lambda>_. t) S)"
    "stored_block S (reclaimed_logical_addr s) = Some d" "same_block d (data_buf (transactions s tid))" "store_ok S"
    "transactions S = transactions s"
    "\<forall>a e. stored_block s a = Some e \<longrightarrow> plain_page a s \<noteq> Some p \<longrightarrow> stored_block S a = Some e"
    "indirect_buf t = INODE_SET_DIRECT (indirect_buf (transactions s tid)) (unat ?e) (MARK_BLOCK_NO_HOLE (reclaimed_logical_addr s))"
    "t_fileOffset t = 0" "off + len \<le> t_fileSize t"
    by (rule write_direct [OF assms])
  let ?s1 = "upd_tr tid (\<lambda>_. t) S"
  have off: "1983 \<le> off" "off < INDIRECT_DATA_OFFSET" using assms(2) by (simp_all add: new_direct_block_def)
  have tid: "TID_OK tid" "tid \<noteq> TID_EMPTY" using assms(1) by (auto simp: can_write_def TID_OK_def)
  have read: "\<exists>s2. readFileBlock b ino n r tid ?s1 = Some (0, r, s2) \<and> (\<forall>i<2048. rd b s2 i = data_buf (transactions s tid) i)"
    if n: "1983 \<le> n" "block_start n = off" "\<not> held_by_other tid ino ?s1" for b ino n r
  proof -
    have "n < INDIRECT_DATA_OFFSET" using start_less [OF n(1), of 22463] off(2) n(2) by simp
    then have ind: "isOffsetInIndirect n tid ?s1" "IS_INDIRECT_INODE tid ?s1" "\<not> n > FS_MAX_FILESIZE"
      using S(8) by (simp_all add: isOffsetInIndirect_def IS_INDIRECT_EMPTY_def IS_INDIRECT_INODE_def IS_NEGATIVE_def word_less_nat_alt)
    have "stored_block ?s1 (MARK_BLOCK_NO_HOLE (reclaimed_logical_addr s)) = Some d" using S(2) by (simp add: no_hole_same)
    from flash.read_first [OF _ this, of b tid ?e] S(4)
    obtain s2 where "fsReadBlock (MARK_BLOCK_NO_HOLE (reclaimed_logical_addr s)) b tid ?e True ?s1 = Some (0, s2)" "flash.holds_block b ?s1 s2 d"
      by auto
    then show ?thesis
      using ind off tid n S(3,7) direct_entry_bound [OF off]
      by (auto simp: readFileBlock_def readFileBlock_over_def readFromTransactionIndirectRead_def Let_def
        INODE_GET_DIRECT_def INODE_SET_DIRECT_def flash.holds_block_def same_block_def simp flip: block_start_def)
  qed
  have "INODE_GET_DIRECT (indirect_buf t) k = INODE_GET_DIRECT (indirect_buf (transactions s tid)) k" if "k \<noteq> unat ?e" for k
    unfolding S(7) INODE_GET_DIRECT_def INODE_SET_DIRECT_def by (rule addr_at_put_other) (use that in arith)
  moreover have "transactions ?s1 j = transactions s j" if "j \<noteq> tid" for j using that S(5) by (simp add: upd_tr_def)
  ultimately show ?thesis using S(1,4,6,9) read by (intro exI [of _ ?s1] conjI) simp_all
qed

section \<open>Witness\<close>

text \<open>A transaction that may write, with the new file 5 in memory, on the layer that writes segment 3 at page 10.\<close>

definition writing_fs :: fs where
  "writing_fs = (seq.extend writing_seq (seq.more blank_fs))\<lparr>transactions := (transactions blank_fs)(0 := (transactions blank_fs 0)
     \<lparr>t_type := T_TYPE_TEMP, t_ino_num := 5, t_fileOffset := 0, t_fileSize := 0, data_buf := (\<lambda>i. of_nat i)\<rparr>)\<rparr>"

lemma writing_fs_open: "can_write 0 5130 writing_fs"
proof -
  have page: "plain_page addr_3_10 writing_fs = Some 5130"
    using mapped_seq_page
    by (simp add: plain_page_def writing_fs_def writing_seq_def mapped_seq_def IS_STATE_RECLAMATION_def GET_SEG_MAP_SLOT_FOR_SEG_def
      seq.defs blank_fs_def)
  have "open_page 5130 writing_fs"
    using page by (simp add: open_page_def writing_fs_def writing_seq_def unit_fine_def page_ok_def eu_good_def eu_readable_def eus_ok_def mapped_seq_def
      seq.defs blank_fs_def)
  moreover have "next_ready 5130 writing_fs"
    by (simp add: next_ready_def writing_fs_def writing_seq_def GET_RECLAIMED_OFFSET_def CALC_OFFSET_IN_EU_def seq.defs blank_fs_def)
  moreover have "is_flash_full writing_fs = Some False"
    by (simp add: is_flash_full_def upt_rec obs_byte_def writing_fs_def writing_seq_def seq.defs blank_fs_def)
  ultimately show ?thesis
    by (simp add: can_write_def TID_OK_def IS_WRITE_PEMITTED_def) (simp add: writing_fs_def seq.defs blank_fs_def writing_seq_def)
qed

lemma writing_fs_hole: "new_direct_block 0 4031 writing_fs"
proof -
  have "block_start 4031 = 4031" "unat (CALC_IN_BLOCKS (4031 - INODE_FILE_DATA_SIZE)) = 1"
    "IS_ADDR_EMPTY \<lparr>byte0 = 255, byte1 = 255, byte2 = 255, byte3 = 255\<rparr>" by code_simp+
  then show ?thesis
    by (simp add: new_direct_block_def writing_fs_def seq.defs blank_fs_def INODE_GET_DIRECT_def addr_at_def)
qed

lemma writeFileBlock_round_trip_witness:
  "\<exists>s1 s2. writeFileBlock 4031 100 DATA_TYPE_REGULAR 0 init_logical_address True writing_fs = Some (0, s1) \<and>
     readFileBlock FsBuf 5 4100 (Local init_logical_address) 0 s1 = Some (0, Local init_logical_address, s2) \<and> rd FsBuf s2 7 = 7"
proof -
  obtain s1 where s1: "writeFileBlock 4031 100 DATA_TYPE_REGULAR 0 init_logical_address True writing_fs = Some (0, s1)"
    "\<And>b ino n r. 1983 \<le> n \<and> block_start n = 4031 \<and> \<not> held_by_other 0 ino s1 \<Longrightarrow>
       \<exists>s2. readFileBlock b ino n r 0 s1 = Some (0, r, s2) \<and> (\<forall>i<2048. rd b s2 i = data_buf (transactions writing_fs 0) i)"
    "\<And>j. j \<noteq> 0 \<Longrightarrow> transactions s1 j = transactions writing_fs j"
    using writeFileBlock_round_trip [OF writing_fs_open writing_fs_hole, of 100 init_logical_address] by auto
  have "transactions s1 1 = transactions blank_fs 1" using s1(3) [of 1] by (simp add: writing_fs_def)
  then have "\<not> held_by_other 0 5 s1" by (simp add: held_by_other_def upt_rec)
  moreover have "block_start 4100 = 4031" by code_simp
  moreover have "data_buf (transactions writing_fs 0) 7 = 7" by (simp add: writing_fs_def)
  ultimately show ?thesis using s1(1) s1(2) [of 4100 5 FsBuf "Local init_logical_address"] by auto
qed

end
