(* ===== verification/Names.thy ===== *)
theory Names
  imports FileWrite
begin

text \<open>
  Path names, and the operations on files that the interface calls (\<^verbatim>\<open>fsUtils.c\<close> and the end of
  \<^verbatim>\<open>transactions.c\<close>): the walk from the root to a file (\<open>namei\<close>), opening, creating and removing files,
  reading directory streams, \<open>fsyncUtil\<close>, \<open>dupUtil\<close> and \<open>closeUtil\<close>.
\<close>

unbundle bit_operations_syntax

section \<open>From a path name to an inode number\<close>

text \<open>The loop over the blocks of a directory.  Every round goes on by a block, and a read past
  \<open>FS_MAX_FILESIZE\<close> (524288 blocks) fails, so the fuel 524290 is never used up.\<close>

fun directory_loop ::
  "nat \<Rightarrow> u8 list \<Rightarrow> u32 \<Rightarrow> u32 \<Rightarrow> u32 \<Rightarrow> u32 \<Rightarrow> addr_ref \<Rightarrow> u32 \<Rightarrow> 'z fs_scheme \<Rightarrow> (u32 \<times> u32 \<times> u32 \<times> u32 \<times> 'z fs_scheme) option" where
  "directory_loop 0 pathname offset ino_num f_size f_type r directoryOffset s = None"
| "directory_loop (Suc n) pathname offset ino_num f_size f_type r directoryOffset s =
     (if f_size \<le>s directoryOffset then Some (FS_ERROR_OFST_OVRFLW, INO_NUM_EMPTY, f_type, directoryOffset, s)
      else do {
        (e, r1, s1) \<leftarrow> readFileBlock FsBuf ino_num directoryOffset r TID_EMPTY s;
        if e \<noteq> 0 then Some (e, INO_NUM_EMPTY, f_type, directoryOffset, s1)
        else do {
          (found, end) \<leftarrow> de_search 2049 (fs_buffer s1) 0 pathname offset directoryOffset;
          case found of
            Some (ino, t) \<Rightarrow> Some (0, ino, t, end, s1)
          | None \<Rightarrow> directory_loop n pathname offset ino_num f_size f_type r1 (ADVANCE_TO_NEXT_BLOCK end) s1
        }
      })"

text \<open>The results are the error, the inode number, the type and the offset of the entry.\<close>

definition compareDirectoryEntries ::
  "u8 list \<Rightarrow> u32 \<Rightarrow> u32 \<Rightarrow> u32 \<Rightarrow> 'z fs_scheme \<Rightarrow> (u32 \<times> u32 \<times> u32 \<times> u32 \<times> 'z fs_scheme) option" where
  "compareDirectoryEntries pathname offset ino_num f_type s = do {
     (f_size, s1) \<leftarrow> getFileSize ino_num s;
     directory_loop 524290 pathname offset ino_num f_size f_type (Local init_logical_address) INODE_FILE_DATA_SIZE s1
   }"

fun namei_loop ::
  "nat \<Rightarrow> u8 list \<Rightarrow> u32 \<Rightarrow> u32 \<Rightarrow> u32 \<Rightarrow> 'z fs_scheme \<Rightarrow> (u32 \<times> u32 \<times> u32 \<times> 'z fs_scheme) option" where
  "namei_loop 0 pathname f_type de_offset ino_num s = None"
| "namei_loop (Suc n) pathname f_type de_offset ino_num s =
     (if \<not> IS_DIRECTORY f_type then Some (-1, f_type, de_offset, s)
      else (let offset = findNextSeperator pathname in
        if offset = 0 then Some (ino_num, f_type, de_offset, s)
        else do {
          (e, ino, t, de, s1) \<leftarrow> compareDirectoryEntries pathname offset ino_num f_type s;
          if e \<noteq> 0 then Some (e, t, de, s1)
          else (case drop (unat offset) pathname of
              [] \<Rightarrow> Some (if ino = INO_NUM_EMPTY then -1 else ino, t, de, s1)
            | _ # rest \<Rightarrow> namei_loop n rest t de ino s1)
        }))"

text \<open>The results are the inode number or a negative error, the type of the file and the offset of its entry;
  \<open>de_offset\<close> is what the caller's variable holds before.\<close>

definition namei :: "u8 list \<Rightarrow> u32 \<Rightarrow> u32 \<Rightarrow> 'z fs_scheme \<Rightarrow> (u32 \<times> u32 \<times> u32 \<times> 'z fs_scheme) option" where
  "namei pathname de_offset ino_num s =
     (if ino_num = INO_NUM_EMPTY \<and> \<not> (case pathname of [] \<Rightarrow> False | c # _ \<Rightarrow> IS_SLASH c) then Some (-1, FTYPE_DIR, de_offset, s)
      else (let ino = (if ino_num = INO_NUM_EMPTY then 1 else ino_num) in
        if \<not> verifyLegalPathname pathname then Some (-1, FTYPE_DIR, de_offset, s)
        else if ino = 1 \<and> pathname = [] then Some (ino, FTYPE_DIR, de_offset, s)
        else namei_loop (Suc (length pathname)) (if ino = 1 then tl pathname else pathname) FTYPE_DIR de_offset ino s))"

definition uninit :: "'z fs_scheme \<Rightarrow> u32" where "uninit s = GET_UINT32 (junk s) 0 0"

text \<open>The length of the path in front of the last name, \<open>None\<close> for an empty name inside the path.\<close>

fun prefix_loop :: "nat \<Rightarrow> u8 list \<Rightarrow> u32 \<Rightarrow> u32 \<Rightarrow> (u32 \<times> u32) option" where
  "prefix_loop 0 pathname offset1 prefix_len = None"
| "prefix_loop (Suc n) [] offset1 prefix_len = Some (offset1, prefix_len)"
| "prefix_loop (Suc n) (_ # pathname) offset1 prefix_len =
     (let offset = findNextSeperator pathname in
      if unat offset = length pathname then Some (offset, prefix_len)
      else if offset = 0 then None
      else prefix_loop n (drop (unat offset) pathname) offset (prefix_len + (offset + 1)))"

text \<open>The prefix is built in the data buffer of the transaction, which must have room for the whole path.
  The results are the error, the inode number of the directory and the offset of the last name.\<close>

definition verifyPrefix :: "u8 list \<Rightarrow> buf_ref \<Rightarrow> 'z fs_scheme \<Rightarrow> (u32 \<times> u32 \<times> u32 \<times> 'z fs_scheme) option" where
  "verifyPrefix pathname temp s =
     (case prefix_loop (Suc (length pathname)) pathname 0 0 of
        None \<Rightarrow> Some (-1, uninit s, 0, s)
      | Some (offset1, n) \<Rightarrow> do {
          let prefix_len = (if offset1 \<noteq> 0 then n + 1 else n);
          assert_c (length pathname < 2048);
          b \<leftarrow> fsStrcpy (Suc (length pathname)) (rd temp s) 0 (str_buf pathname) 0;
          let s1 = wr temp (b(unat prefix_len := 0)) s;
          (dir_num, f_type, _, s2) \<leftarrow> namei (take (unat prefix_len) pathname) (uninit s1) INO_NUM_EMPTY s1;
          Some (if \<not> IS_NEGATIVE dir_num \<and> IS_DIRECTORY f_type then 0 else -1, dir_num, prefix_len, s2)
        })"

section \<open>Opening a file\<close>

definition setOpenFentry :: "u32 \<Rightarrow> u32 \<Rightarrow> u32 \<Rightarrow> u32 \<Rightarrow> 'z fs_scheme \<Rightarrow> (u32 \<times> 'z fs_scheme) option" where
  "setOpenFentry ino_num flags mode f_type s =
     (if IS_CREAT_EXCL flags then Some (FD_EMPTY, s)
      else if IS_DIRECTORY f_type \<and> IS_WRONLY flags then Some (FD_EMPTY, s)
      else if IS_APPEND flags \<and> \<not> IS_WRONLY flags then Some (-1, s)
      else (let v = getVnodeByInodeNum ino_num s;
                vnode_idx = (if v \<noteq> VNODE_EMPTY then v else getFreeVnode s) in
        if v \<noteq> VNODE_EMPTY \<and> isFlagsConflict v flags s then Some (-1, s)
        else if vnode_idx = VNODE_EMPTY then Some (FD_EMPTY, s)
        else (let fd = getFreeOpenFileEntry s in
          if fd = FD_EMPTY then Some (FS_ERROR_FENTRY_MAX, s)
          else do {
            s1 \<leftarrow> setFentry fd flags 0 vnode_idx f_type ino_num s;
            if IS_APPEND flags then do {
              (offset, s2) \<leftarrow> getFileSize ino_num s1;
              Some (fd, upd_file fd (f_offset_update (\<lambda>_. offset)) s2)
            } else Some (fd, s1)
          })))"

section \<open>Creating and removing files\<close>

definition EMPTY_TR_VERIFY :: "u32 \<Rightarrow> bool \<Rightarrow> 'z fs_scheme \<Rightarrow> (u32 \<times> 'z fs_scheme) option \<Rightarrow> (u32 \<times> 'z fs_scheme) option" where
  "EMPTY_TR_VERIFY tid test s k =
     (if \<not> test then do { assert_c (TID_OK tid); Some (-1, init_transaction tid s) } else k)"

text \<open>The end of both operations: the transaction goes on with the directory, \<open>change\<close> its entries and commit.\<close>

definition change_directory ::
  "u32 \<Rightarrow> u32 \<Rightarrow> logical_addr \<Rightarrow> ('z fs_scheme \<Rightarrow> (u32 \<times> 'z fs_scheme) option) \<Rightarrow> 'z fs_scheme \<Rightarrow> (u32 \<times> 'z fs_scheme) option" where
  "change_directory tid dir_num ino0 change s = do {
     let s1 = upd_tr tid (\<lambda>t. t\<lparr>t_ino_num := dir_num, t_fileOffset := -1\<rparr>) s;
     (e, _, s2) \<leftarrow> getInode FsBuf dir_num (TrIno tid) s1;
     TR_RES_VERIFY tid (Some (e, s2)) (\<lambda>s3.
     TR_RES_VERIFY tid (change (init_fsbuf FsBuf
         (upd_tr tid (\<lambda>t. t\<lparr>t_fileSize := INODE_GET_NBYTES (fs_buffer s3), t_f_type := FTYPE_DIR\<rparr>) s3))) (\<lambda>s4.
     TR_RES_VERIFY tid (commitTransaction tid ino0 False True s4) (\<lambda>s5. Some (0, s5))))
   }"

definition createNewFile :: "u32 \<Rightarrow> u8 list \<Rightarrow> 'z fs_scheme \<Rightarrow> (u32 \<times> 'z fs_scheme) option" where
  "createNewFile new_type pathname s =
     (let tid = getFreeTransactionId s in
      EMPTY_TR_VERIFY tid (IS_TRANSACTION_EMPTY tid s) s (do {
        (ino, _, _, s1) \<leftarrow> namei pathname (uninit s) INO_NUM_EMPTY s;
        EMPTY_TR_VERIFY tid (IS_NEGATIVE ino \<and> ino \<noteq> FS_ERROR_IO) s1 (do {
          (e, dir_num, name_offset, s2) \<leftarrow> verifyPrefix pathname (DataBuf tid) s1;
          let name = drop (unat name_offset) pathname;
          EMPTY_TR_VERIFY tid (e = 0) s2 (
          EMPTY_TR_VERIFY tid (verifyNameLen (calcNameLen name)) s2 (do {
            let s3 = init_fsbuf (DataBuf tid) s2;
            EMPTY_TR_VERIFY tid (verifyFileNotOpen dir_num s3 = 0) s3 (do {
              (e4, _, offset, s4) \<leftarrow> findEmptySparseBlock 0 init_logical_address tid s3;
              EMPTY_TR_VERIFY tid (e4 = 0) s4 (do {
                let ino_num = CALC_IN_INODES offset;
                let s5 = upd_tr tid (\<lambda>t. t\<lparr>t_type := T_TYPE_WRITE, t_ino_num := ino_num, t_fileOffset := 0,
                   t_fileSize := -1, t_f_type := new_type\<rparr>) s4;
                TR_RES_VERIFY tid (setNewInode ino_num dir_num new_type tid s5) (\<lambda>s6.
                TR_RES_VERIFY tid (commitInode tid s6) (\<lambda>s7.
                RES_VERIFY (cache_flush_transaction_blocks tid s7) (\<lambda>s8. do {
                  (e9, ino0, s9) \<leftarrow> commitInodeToInode0 (FS_GET_INO0_ADDR s8) ino_num (ino_addr tid s8) tid s8;
                  TR_RES_VERIFY tid (Some (e9, s9)) (\<lambda>s10.
                  RES_VERIFY (change_directory tid dir_num ino0 (writeDirEntry ino_num name new_type tid) s10) (\<lambda>s11.
                  if IS_DIRECTORY new_type then Some (0, s11) else setOpenFentry ino_num CREAT_FLAGS 0 FTYPE_FILE s11))
                })))
              })
            })
          }))
        })
      }))"

text \<open>The result \<open>isEmpty\<close> stays false unless only the first block is used and it has no third entry.\<close>

definition verifyDirectoryEmpty :: "u32 \<Rightarrow> 'z fs_scheme \<Rightarrow> (u32 \<times> bool \<times> 'z fs_scheme) option" where
  "verifyDirectoryEmpty ino_num s = do {
     (e, _, s1) \<leftarrow> getInode FsBuf ino_num (Local init_logical_address) s;
     if e \<noteq> 0 then Some (-1, False, s1)
     else do {
       let ino = fs_buffer s1;
       if list_ex (\<lambda>i. \<not> IS_ADDR_EMPTY (INODE_GET_DIRECT ino i)) [1..<10] then Some (0, False, s1)
       else if \<not> IS_ADDR_EMPTY (INODE_GET_INDIRECT ino) then Some (0, False, s1)
       else if \<not> IS_ADDR_EMPTY (INODE_GET_DOUBLE ino) then Some (0, False, s1)
       else if \<not> IS_ADDR_EMPTY (INODE_GET_TRIPLE ino) then Some (0, False, s1)
       else if IS_ADDR_EMPTY (INODE_GET_DIRECT ino 0) then Some (-1, False, s1)
       else do {
         (e2, s2) \<leftarrow> fsReadBlock (INODE_GET_DIRECT ino 0) FsBuf TID_EMPTY DIRECT_INDEX_OFFSET_IN_LOG_ADDRESSES True s1;
         if e2 \<noteq> 0 then Some (-1, False, s2)
         else do {
           let b = fs_buffer s2;
           let p1 = moveToNextDirentry 0 (DIRENT_GET_LEN b 0);
           assert_c (p1 + 10 \<le> 2048);
           let p2 = moveToNextDirentry p1 (DIRENT_GET_LEN b p1);
           assert_c (p2 + 10 \<le> 2048);
           Some (0, IS_DIRENT_EMPTY b p2, s2)
         }
       }
     }
   }"

text \<open>The last name is neither of the two entries every directory has.\<close>

definition name_differs :: "u8 list \<Rightarrow> u8 list \<Rightarrow> bool" where
  "name_differs dots name = (fsStrcmp (Suc (length dots)) (str_buf dots) 0 (str_buf name) 0 \<noteq> Some 0)"

definition removeFile :: "u32 \<Rightarrow> u8 list \<Rightarrow> 'z fs_scheme \<Rightarrow> (u32 \<times> 'z fs_scheme) option" where
  "removeFile new_type pathname s = do {
     (ino_num, _, de_offset, s1) \<leftarrow> namei pathname (uninit s) INO_NUM_EMPTY s;
     let tid = getFreeTransactionId s1;
     EMPTY_TR_VERIFY tid (IS_TRANSACTION_EMPTY tid s1) s1 (do {
       (e, dir_num, name_offset, s2) \<leftarrow> verifyPrefix pathname (DataBuf tid) s1;
       let name = drop (unat name_offset) pathname;
       EMPTY_TR_VERIFY tid (e = 0) s2 (do {
         (ok, s3) \<leftarrow> (if IS_DIRECTORY new_type then
             (if \<not> name_differs [0x2e, 0x2e] name \<or> \<not> name_differs [0x2e] name \<or> ino_num = 1 then Some (False, s2)
              else do {
                (e3, isEmpty, s3) \<leftarrow> verifyDirectoryEmpty ino_num s2;
                Some (e3 = 0 \<and> isEmpty, s3)
              })
           else Some (True, s2));
         EMPTY_TR_VERIFY tid ok s3 (
         EMPTY_TR_VERIFY tid (verifyFileNotOpen dir_num s3 = 0) s3 (
         EMPTY_TR_VERIFY tid (verifyFileNotOpen ino_num s3 = 0) s3 (do {
           let s4 = upd_tr tid (\<lambda>t. t\<lparr>t_type := T_TYPE_UNLINK, t_ino_num := ino_num, t_f_type := new_type\<rparr>) s3;
           TR_RES_VERIFY tid (votFile tid s4) (\<lambda>s5. do {
             (e6, ino0, s6) \<leftarrow> commitInodeToInode0 (FS_GET_INO0_ADDR s5) ino_num init_logical_address tid s5;
             TR_RES_VERIFY tid (Some (e6, s6)) (\<lambda>s7.
             change_directory tid dir_num ino0 (deleteDirEntry ino_num de_offset tid) s7)
           })
         })))
       })
     })
   }"

section \<open>Directory streams\<close>

definition calc_direct_entry_offset :: "u32 \<Rightarrow> u32" where
  "calc_direct_entry_offset offset =
     (if offset < INDIRECT_DATA_OFFSET
      then CALC_IN_LOG_ADDRESSES (offset - INODE_FILE_DATA_SIZE) + DIRECT_INDEX_OFFSET_IN_LOG_ADDRESSES
      else CALC_LOG_ADDR_OFFSET_IN_BLOCK (CALC_OFFSET_IN_INDIRECT_SIZE (offset - INDIRECT_DATA_OFFSET)))"

definition readDirStreamNextEntry :: "u32 \<Rightarrow> 'z fs_scheme \<Rightarrow> (u32 \<times> 'z fs_scheme) option" where
  "readDirStreamNextEntry d s = do {
     assert_c (DS_OK d \<and> ds_fd (dirstreams s d) < 8);
     let fd = ds_fd (dirstreams s d);
     let offset = f_offset (open_files s fd);
     (e, found, s1) \<leftarrow> (if \<not> IS_DIRENT_BLOCK_FULL offset then do {
         (e, _, s1) \<leftarrow> readFileBlock FsBuf (GET_FILE_ID_BY_FD fd s) offset (DsIno d) TID_EMPTY s;
         let p = unat (CALC_OFFSET_IN_FILE_BLOCK offset);
         if e \<noteq> 0 then Some (-1, False, s1)
         else if \<not> IS_DIRENT_EMPTY (fs_buffer s1) p then Some (0, True, setDirstreamDirEntry d (fs_buffer s1) p offset s1)
         else Some (0, False, s1)
       } else Some (0, False, s));
     if e \<noteq> 0 \<or> found then Some (e, s1)
     else do {
       (e2, block_addr, offset2, s2) \<leftarrow> findNextNonEmptySparseBlock (ds_ino_addr (dirstreams s1 d)) init_logical_address offset TID_EMPTY s1;
       if e2 \<noteq> 0 then Some (-1, s2)
       else FS_VERIFY (fsReadBlock block_addr FsBuf TID_EMPTY (calc_direct_entry_offset offset2) True s2) (\<lambda>s3.
         Some (0, setDirstreamDirEntry d (fs_buffer s3) 0 offset2 s3))
     }
   }"

section \<open>Synchronising, closing and duplicating descriptors\<close>

definition fsyncUtil :: "u32 \<Rightarrow> 'z fs_scheme \<Rightarrow> (u32 \<times> 'z fs_scheme) option" where
  "fsyncUtil fd s =
     (if verifyFd fd s \<noteq> 0 then Some (-1, s)
      else (let tid = findTidByFileId (GET_FILE_ID_BY_FD fd s) s in
        if tid = TID_EMPTY then Some (0, s)
        else FS_VERIFY (commitTransaction tid (FS_GET_INO0_ADDR s) True True s) (\<lambda>s1. Some (0, s1))))"

definition closeUtil :: "u32 \<Rightarrow> 'z fs_scheme \<Rightarrow> (u32 \<times> 'z fs_scheme) option" where
  "closeUtil fd s =
     (if verifyFd fd s \<noteq> 0 then Some (-1, s)
      else FS_VERIFY
        (if IS_WRONLY (f_flags (open_files s fd)) then
           (let tid = findTidByFileId (GET_FILE_ID_BY_FD fd s) s in
            if tid \<noteq> TID_EMPTY then commitTransaction tid (FS_GET_INO0_ADDR s) True True s else Some (0, s))
         else Some (0, s))
        (\<lambda>s1. do { assert_c (VNODE_OK (f_vnode (open_files s1 fd))); Some (0, release_entry fd s1) }))"

definition dupUtil :: "u32 \<Rightarrow> u32 \<Rightarrow> bool \<Rightarrow> 'z fs_scheme \<Rightarrow> (u32 \<times> 'z fs_scheme) option" where
  "dupUtil old_fd new_fd0 is_dup2 s =
     (let new_fd = (if is_dup2 then new_fd0 else getFreeOpenFileEntry s) in
      if \<not> is_dup2 \<and> new_fd = FD_EMPTY then Some (-1, s)
      else if verifyFd old_fd s \<noteq> 0 then Some (-1, s)
      else if \<not> IS_FD_LEGAL new_fd then Some (-1, s)
      else if isFlagsConflict (f_vnode (open_files s old_fd)) (f_flags (open_files s old_fd)) s then Some (-1, s)
      else FS_VERIFY (if \<not> IS_OPEN_FILE_ENTRY_EMPTY new_fd s then closeUtil new_fd s else Some (0, s)) (\<lambda>s1. do {
        let f = open_files s1 old_fd;
        s2 \<leftarrow> setFentry new_fd (f_flags f) (f_offset f) (f_vnode f) (f_ftype f) (GET_FILE_ID_BY_FD old_fd s1) s1;
        Some (new_fd, s2)
      }))"

end
