(* ===== verification/Isort.thy ===== *)
theory Isort
  imports Prelude
begin

text \<open>
  The sort of the entries of a scanned directory (\<^verbatim>\<open>NANDFS/src/fs/insertionsort.c\<close>) on the array of pointers
  that it is given.  The comparison indexes the array with \<open>idx * element_size\<close>, and the exchange stores through
  a pointer that is null; \<open>None\<close> stands for both kinds of access outside of an object.
\<close>

unbundle bit_operations_syntax

definition compare_elements_helper :: "'p list \<Rightarrow> nat \<Rightarrow> nat \<Rightarrow> nat \<Rightarrow> ('p \<Rightarrow> 'p \<Rightarrow> u32) \<Rightarrow> u32 option" where
  "compare_elements_helper base element_size idx1 idx2 comparer = do {
     assert_c (idx1 * element_size < length base \<and> idx2 * element_size < length base);
     Some (comparer (base ! (idx1 * element_size)) (base ! (idx2 * element_size)))
   }"

text \<open>\<open>temp_ptr\<close> is the null pointer when the first element is stored through it.\<close>

definition exchange_elements_helper :: "'p list \<Rightarrow> nat \<Rightarrow> nat \<Rightarrow> 'p list option" where
  "exchange_elements_helper base idx1 idx2 =
     (let temp_ptr = (None :: nat option) in case temp_ptr of None \<Rightarrow> None | Some _ \<Rightarrow> Some (base[idx1 := base ! idx2, idx2 := base ! idx1]))"

text \<open>The inner loop, from \<open>j = n - 1\<close> down.\<close>

fun sink_loop :: "nat \<Rightarrow> nat \<Rightarrow> ('p \<Rightarrow> 'p \<Rightarrow> u32) \<Rightarrow> 'p list \<Rightarrow> 'p list option" where
  "sink_loop 0 element_size comparer base = Some base"
| "sink_loop (Suc j) element_size comparer base = do {
     c \<leftarrow> compare_elements_helper base element_size j (j + 1) comparer;
     if c <s 0 then Some base
     else do {
       base1 \<leftarrow> exchange_elements_helper base j (j + 1);
       sink_loop j element_size comparer base1
     }
   }"

fun sort_loop :: "nat list \<Rightarrow> nat \<Rightarrow> ('p \<Rightarrow> 'p \<Rightarrow> u32) \<Rightarrow> 'p list \<Rightarrow> 'p list option" where
  "sort_loop [] element_size comparer base = Some base"
| "sort_loop (i # is) element_size comparer base = do {
     base1 \<leftarrow> sink_loop i element_size comparer base;
     sort_loop is element_size comparer base1
   }"

definition insertion_sort :: "'p list \<Rightarrow> nat \<Rightarrow> nat \<Rightarrow> ('p \<Rightarrow> 'p \<Rightarrow> u32) \<Rightarrow> 'p list option" where
  "insertion_sort base num_elements element_size comparer = sort_loop [0..<num_elements] element_size comparer base"

section \<open>What the sort does\<close>

text \<open>Since no exchange returns, the sort returns only when there is nothing to exchange.\<close>

lemma sink_loop_result:
  "sink_loop n es comparer base = Some base' \<longleftrightarrow>
     base' = base \<and> (n = 0 \<or> (\<exists>c. compare_elements_helper base es (n - 1) n comparer = Some c \<and> c <s 0))"
  by (cases n) (auto simp: bind_eq_Some_conv exchange_elements_helper_def split: if_splits)

lemma sort_loop_result:
  "sort_loop is es comparer base = Some base' \<longleftrightarrow>
     base' = base \<and> (\<forall>i \<in> set is. i = 0 \<or> (\<exists>c. compare_elements_helper base es (i - 1) i comparer = Some c \<and> c <s 0))"
  by (induction "is") (auto simp: bind_eq_Some_conv sink_loop_result)

lemma insertion_sort_only_sorted:
  "insertion_sort base n es comparer = Some base' \<longleftrightarrow>
     base' = base \<and> (\<forall>i. Suc i < n \<longrightarrow> (\<exists>c. compare_elements_helper base es i (Suc i) comparer = Some c \<and> c <s 0))"
proof -
  have "(\<forall>i \<in> set [0..<n]. i = 0 \<or> P (i - 1) i) \<longleftrightarrow> (\<forall>i. Suc i < n \<longrightarrow> P i (Suc i))" for P :: "nat \<Rightarrow> nat \<Rightarrow> bool"
  proof (intro iffI allI impI ballI)
    fix i
    assume "\<forall>i \<in> set [0..<n]. i = 0 \<or> P (i - 1) i" "Suc i < n"
    then show "P i (Suc i)" using bspec [of "set [0..<n]" _ "Suc i"] by auto
  next
    fix i
    assume "\<forall>i. Suc i < n \<longrightarrow> P i (Suc i)" "i \<in> set [0..<n]"
    then show "i = 0 \<or> P (i - 1) i" by (cases i) auto
  qed
  from this [of "\<lambda>i k. \<exists>c. compare_elements_helper base es i k comparer = Some c \<and> c <s 0"]
  show ?thesis by (simp only: insertion_sort_def sort_loop_result)
qed

lemma insertion_sort_empty: "insertion_sort base 0 es comparer = Some base"
  by (simp add: insertion_sort_def)

end
