(* ===== verification/Api.thy ===== *)
theory Api
  imports Names
begin

text \<open>
  The interface of the file system (\<^verbatim>\<open>NANDFS/src/fs/fs.c\<close>) with mounting (\<open>initializeRamStructs\<close> and
  \<open>handleNoFs\<close> of \<^verbatim>\<open>fsUtils.c\<close>).  Every operation takes the lock of the file system, which without an
  operating system is a word of \<open>filesystem_t\<close>, and gives it back on return.
\<close>

unbundle bit_operations_syntax

section \<open>The lock and the checks of the interface\<close>

text \<open>The first argument is the value -1 in the result type of the function.\<close>

definition FS_MUTEX_LOCK :: "'r \<Rightarrow> ('z fs_scheme \<Rightarrow> ('r \<times> 'z fs_scheme) option) \<Rightarrow> 'z fs_scheme \<Rightarrow> ('r \<times> 'z fs_scheme) option" where
  "FS_MUTEX_LOCK err k s = (if fs_mutex s \<noteq> 0 then Some (err, s) else k (s\<lparr>fs_mutex := 1\<rparr>))"

definition SYS_RETURN :: "'r \<Rightarrow> 'r \<Rightarrow> 'z fs_scheme \<Rightarrow> ('r \<times> 'z fs_scheme) option" where
  "SYS_RETURN err r s = Some (if fs_mutex s = 0 then (err, s) else (r, s\<lparr>fs_mutex := 0\<rparr>))"

definition SYS_VERIFY :: "bool \<Rightarrow> 'z fs_scheme \<Rightarrow> (u32 \<times> 'z fs_scheme) option \<Rightarrow> (u32 \<times> 'z fs_scheme) option" where
  "SYS_VERIFY test s k = (if \<not> test then SYS_RETURN (-1) (-1) s else k)"

definition SYS_RES_VERIFY :: "(u32 \<times> 'z fs_scheme) option \<Rightarrow> ('z fs_scheme \<Rightarrow> (u32 \<times> 'z fs_scheme) option) \<Rightarrow> (u32 \<times> 'z fs_scheme) option" where
  "SYS_RES_VERIFY m k = do { (e, s) \<leftarrow> m; if e \<noteq> 0 then SYS_RETURN (-1) e s else k s }"

definition SYS_TR_VERIFY :: "u32 \<Rightarrow> (u32 \<times> 'z fs_scheme) option \<Rightarrow> ('z fs_scheme \<Rightarrow> (u32 \<times> 'z fs_scheme) option) \<Rightarrow> (u32 \<times> 'z fs_scheme) option" where
  "SYS_TR_VERIFY tid m k = do {
     (e, s) \<leftarrow> m;
     if e \<noteq> 0 then do {
       (e1, s1) \<leftarrow> abortTransaction tid s;
       SYS_VERIFY (e1 = 0) s1 (SYS_RETURN (-1) e s1)
     } else k s
   }"

definition WRITE_VERIFY :: "u32 \<Rightarrow> u32 \<Rightarrow> (u32 \<times> 'z fs_scheme) option \<Rightarrow> ('z fs_scheme \<Rightarrow> (u32 \<times> 'z fs_scheme) option) \<Rightarrow> (u32 \<times> 'z fs_scheme) option" where
  "WRITE_VERIFY tid committed m k = do {
     (e, s) \<leftarrow> m;
     if e \<noteq> 0 then FS_VERIFY (abortTransaction tid s) (\<lambda>s1. Some (committed, s1)) else k s
   }"

definition OPEN_FILE_INC_OFFSET :: "u32 \<Rightarrow> u32 \<Rightarrow> 'z fs_scheme \<Rightarrow> 'z fs_scheme" where
  "OPEN_FILE_INC_OFFSET fd n = upd_file fd (f_offset_update (\<lambda>off. off + n))"

section \<open>Mounting\<close>

definition initializeSequencingStructs :: "'z seq_scheme \<Rightarrow> 'z seq_scheme option" where
  "initializeSequencingStructs s = do {
     s1 \<leftarrow> init_obs_counters s;
     Some ((init_buf (init_seg_map s1))\<lparr>obsolete_byte := 0x7f, lfsr_state := LFSR_STATE_INITIAL\<rparr>)
   }"

definition init_fs :: "'z fs_scheme \<Rightarrow> 'z fs_scheme" where
  "init_fs s = s\<lparr>fs_bytes := init_struct (fs_bytes s) 0 16, fs_mutex := 0xffffffff\<rparr>"

definition initializeRamStructs :: "'z fs_scheme \<Rightarrow> 'z fs_scheme option" where
  "initializeRamStructs s = do {
     s1 \<leftarrow> initializeSequencingStructs s;
     s2 \<leftarrow> init_distreams (init_vnodes (init_file_entries s1));
     Some ((init_fs (cache_init_lru_q (init_transactions (init_fsbuf FsBuf s2))))\<lparr>fs_mutex := 0\<rparr>)
   }"

definition boot_sequencing :: "'z fs_scheme \<Rightarrow> (u32 \<times> 'z fs_scheme) option" where
  "boot_sequencing s = do {
     (e, _, _, s1) \<leftarrow> sequencingBooting (fs_bytes s) 16 fsCheckpointWriter (\<lambda>data s. s\<lparr>fs_bytes := data\<rparr>) s;
     Some (word_of_int e, s1)
   }"

definition handleNoFs :: "'z fs_scheme \<Rightarrow> (u32 \<times> 'z fs_scheme) option" where
  "handleNoFs s = do {
     let tid = getFreeTransactionId s;
     assert_c (TID_OK tid);
     FS_VERIFY (boot_sequencing (upd_tr tid (\<lambda>t. t\<lparr>t_type := T_TYPE_WRITE, t_ino_num := 0\<rparr>) s)) (\<lambda>s1.
     TR_RES_VERIFY tid (setNewInode 1 1 FTYPE_DIR tid s1) (\<lambda>s2. do {
       (e3, r3, s3) \<leftarrow> allocAndWriteBlockTid (Local init_logical_address) (IndirectBuf tid) DATA_TYPE_REGULAR CACHE_ENTRY_OFFSET_EMPTY tid s2;
       TR_RES_VERIFY tid (Some (e3, s3)) (\<lambda>s4. do {
         let s5 = upd_fsbuf (\<lambda>b. INODE_SET_DIRECT (INODE_SET_NBYTES (INODE_SET_NBLOCKS (INODE_SET_FILE_TYPE
             (INODE_SET_FILE_ID b 0) FTYPE_FILE) 2) (INODE_FILE_DATA_SIZE + FS_BLOCK_SIZE)) 0
             (MARK_BLOCK_NO_HOLE (deref r3 s4))) (init_fsbuf FsBuf s4);
         (e6, r6, s6) \<leftarrow> allocAndWriteBlockTid (Local init_logical_address) FsBuf DATA_TYPE_REGULAR CACHE_ENTRY_OFFSET_EMPTY tid s5;
         TR_RES_VERIFY tid (Some (e6, s6)) (\<lambda>s7.
         FS_VERIFY (seq_error (fsCheckpointWriter False (init_transaction tid (FS_SET_INO0_ADDR (deref r6 s7) s7)))) (\<lambda>s8.
         RES_VERIFY (next_free_page s8) (\<lambda>s9. Some (0, init_transaction tid (init_fsbuf FsBuf s9)))))
       })
     }))
   }"

text \<open>The pages of the transactions that were open when the system stopped.\<close>

fun drop_open_transactions :: "nat list \<Rightarrow> 'z fs_scheme \<Rightarrow> (u32 \<times> 'z fs_scheme) option" where
  "drop_open_transactions [] s = SYS_RETURN (-1) 0 (FS_SET_LAST_CLOSED_TID_ADDR init_logical_address s)"
| "drop_open_transactions (i # is) s =
     (if COMPARE_ADDR (FS_GET_TID_LAST_WRITTEN_ADDR i s) (FS_GET_LAST_CLOSED_TID_ADDR s)
      then drop_open_transactions is (FS_SET_TID_LAST_WRITTEN_ADDR i init_logical_address s)
      else do {
        (e, r, s1) \<leftarrow> deleteTransactionPages (Local (FS_GET_TID_LAST_WRITTEN_ADDR i s)) (of_nat i) True s;
        let s2 = FS_SET_TID_LAST_WRITTEN_ADDR i (deref r s1) s1;
        if e \<noteq> 0 then SYS_RETURN (-1) (-1) s2
        else drop_open_transactions is (FS_SET_TID_LAST_WRITTEN_ADDR i init_logical_address s2)
      })"

definition nandfs_fsBooting :: "'z fs_scheme \<Rightarrow> (u32 \<times> 'z fs_scheme) option" where
  "nandfs_fsBooting s = do {
     s1 \<leftarrow> initializeRamStructs s;
     FS_MUTEX_LOCK (-1) (\<lambda>s2.
       SYS_RES_VERIFY (boot_sequencing s2) (\<lambda>s3.
       if IS_FS_EMPTY s3 then do { (res, s4) \<leftarrow> handleNoFs s3; SYS_RETURN (-1) res s4 }
       else SYS_RES_VERIFY (if \<not> IS_ADDR_EMPTY (FS_GET_LAST_CLOSED_TID_ADDR s3)
                            then handleTransactionVOTs (FS_GET_LAST_CLOSED_TID_ADDR s3) True s3 else Some (0, s3))
         (drop_open_transactions [0..<2]))) s1
   }"

definition nandfs_unmount :: "'z fs_scheme \<Rightarrow> (u32 \<times> 'z fs_scheme) option" where
  "nandfs_unmount s = do { s1 \<leftarrow> initializeRamStructs s; Some (0, s1) }"

section \<open>Opening, closing and positioning\<close>

definition nandfs_creat :: "u8 list \<Rightarrow> u32 \<Rightarrow> 'z fs_scheme \<Rightarrow> (u32 \<times> 'z fs_scheme) option" where
  "nandfs_creat pathname mode = FS_MUTEX_LOCK (-1) (\<lambda>s. do {
     (res, s1) \<leftarrow> createNewFile FTYPE_FILE pathname s;
     SYS_RETURN (-1) res s1
   })"

definition nandfs_open :: "u8 list \<Rightarrow> u32 \<Rightarrow> u32 \<Rightarrow> 'z fs_scheme \<Rightarrow> (u32 \<times> 'z fs_scheme) option" where
  "nandfs_open pathname flags mode = FS_MUTEX_LOCK (-1) (\<lambda>s.
     if \<not> (IS_WRONLY flags \<or> IS_RDONLY flags) then Some (-1, s)
     else do {
       (ino_num, f_type, _, s1) \<leftarrow> namei pathname (uninit s) INO_NUM_EMPTY s;
       if IS_NEGATIVE ino_num \<and> \<not> IS_CREAT flags then SYS_RETURN (-1) FD_EMPTY s1
       else if IS_NEGATIVE ino_num then
         (if fs_mutex s1 = 0 then Some (-1, s1) else nandfs_creat pathname 0 (s1\<lparr>fs_mutex := 0\<rparr>))
       else do {
         (res, s2) \<leftarrow> setOpenFentry ino_num flags mode f_type s1;
         SYS_RETURN (-1) res s2
       }
     })"

definition nandfs_close :: "u32 \<Rightarrow> 'z fs_scheme \<Rightarrow> (u32 \<times> 'z fs_scheme) option" where
  "nandfs_close fd = FS_MUTEX_LOCK (-1) (\<lambda>s. do { (res, s1) \<leftarrow> closeUtil fd s; SYS_RETURN (-1) res s1 })"

abbreviation (input) FS_SEEK_SET :: u32 where "FS_SEEK_SET \<equiv> 0"
abbreviation (input) FS_SEEK_CUR :: u32 where "FS_SEEK_CUR \<equiv> 1"
abbreviation (input) FS_SEEK_END :: u32 where "FS_SEEK_END \<equiv> 2"

definition nandfs_lseek :: "u32 \<Rightarrow> u32 \<Rightarrow> u32 \<Rightarrow> 'z fs_scheme \<Rightarrow> (u32 \<times> 'z fs_scheme) option" where
  "nandfs_lseek fd offset whence = FS_MUTEX_LOCK (-1) (\<lambda>s.
     SYS_VERIFY (verifyFd fd s = 0) s (
     SYS_VERIFY (\<not> offset <s 0) s (do {
       (file_size, s1) \<leftarrow> getFileSize (GET_FILE_ID_BY_FD fd s) (init_fsbuf FsBuf s);
       SYS_VERIFY (\<not> IS_NEGATIVE file_size) s1 (
       SYS_VERIFY (whence = FS_SEEK_CUR \<or> whence = FS_SEEK_SET \<or> whence = FS_SEEK_END) s1 (
       let new_offset = (if whence = FS_SEEK_CUR then f_offset (open_files s1 fd) + offset
              else if whence = FS_SEEK_SET then offset else file_size + offset) in
       SYS_VERIFY (new_offset \<le> FS_MAX_FILESIZE) s1 (
       SYS_VERIFY (new_offset \<le>s file_size) s1 (
       SYS_RETURN (-1) new_offset (upd_file fd (f_offset_update (\<lambda>_. new_offset)) s1)))))
     })))"

section \<open>Writing and reading\<close>

text \<open>The whole blocks of a write, \<open>tempCount\<close> bytes being left; the state the loop ends in is handed on.\<close>

fun write_loop ::
  "nat \<Rightarrow> u32 \<Rightarrow> buf \<Rightarrow> u32 \<Rightarrow> u32 \<Rightarrow> u32 \<Rightarrow> u32 \<Rightarrow> (u32 \<Rightarrow> u32 \<Rightarrow> u32 \<Rightarrow> 'z fs_scheme \<Rightarrow> (u32 \<times> 'z fs_scheme) option)
   \<Rightarrow> 'z fs_scheme \<Rightarrow> (u32 \<times> 'z fs_scheme) option" where
  "write_loop 0 fd user tid bytesWritten tempCount committed k s = None"
| "write_loop (Suc n) fd user tid bytesWritten tempCount committed k s =
     (if \<not> tempCount > FS_BLOCK_SIZE then k bytesWritten tempCount committed s
      else (let s1 = wr (DataBuf tid) (fsMemcpy (rd (DataBuf tid) s) 0 user (unat bytesWritten) 2048) s in
        WRITE_VERIFY tid committed
          (writeFileBlock (f_offset (open_files s1 fd)) FS_BLOCK_SIZE DATA_TYPE_REGULAR tid init_logical_address True s1) (\<lambda>s2.
        let s3 = OPEN_FILE_INC_OFFSET fd FS_BLOCK_SIZE s2;
            w = wasCommited (transactions s3 tid)
        in write_loop n fd user tid (bytesWritten + FS_BLOCK_SIZE) (tempCount - FS_BLOCK_SIZE)
             (if w then bytesWritten else committed) k (upd_tr tid (wasCommited_update (\<lambda>_. False)) s3))))"

text \<open>The last, partial block.\<close>

definition write_rest ::
  "u32 \<Rightarrow> buf \<Rightarrow> u32 \<Rightarrow> u32 \<Rightarrow> u32 \<Rightarrow> u32 \<Rightarrow> u32 \<Rightarrow> 'z fs_scheme \<Rightarrow> (u32 \<times> 'z fs_scheme) option" where
  "write_rest fd user tid ino_num bytesWritten tempCount committed s =
     (if tempCount = 0 then SYS_RETURN (-1) bytesWritten s
      else (let fileOffset = f_offset (open_files s fd) in
        WRITE_VERIFY tid committed (do {
            (e, _, s1) \<leftarrow> readFileBlock (DataBuf tid) ino_num fileOffset (TrIno tid) tid s; Some (e, s1)
          }) (\<lambda>s1.
        WRITE_VERIFY tid committed
          (writeFileBlock fileOffset tempCount DATA_TYPE_REGULAR tid init_logical_address True
            (wr (DataBuf tid) (fsMemcpy (rd (DataBuf tid) s1) 0 user (unat bytesWritten) (unat tempCount)) s1)) (\<lambda>s2.
        SYS_RETURN (-1) (bytesWritten + tempCount) (OPEN_FILE_INC_OFFSET fd tempCount s2)))))"

definition nandfs_write :: "u32 \<Rightarrow> buf \<Rightarrow> u32 \<Rightarrow> 'z fs_scheme \<Rightarrow> (u32 \<times> 'z fs_scheme) option" where
  "nandfs_write fd user count = FS_MUTEX_LOCK (-1) (\<lambda>s.
     SYS_VERIFY (verifyFd fd s = 0) s (
     SYS_VERIFY (0 \<le>s count) s (
     SYS_VERIFY (IS_WRONLY (f_flags (open_files s fd))) s (
     if count = 0 then SYS_RETURN (-1) 0 s
     else do {
       let ino_num = GET_FILE_ID_BY_FD fd s;
       (f_size, s1) \<leftarrow> getFileSize ino_num s;
       SYS_VERIFY (f_offset (open_files s1 fd) \<le>s f_size) s1 (do {
         (tid, s2) \<leftarrow> getTidByFileId ino_num s1;
         if tid = TID_EMPTY then SYS_RETURN (-1) 0 s2
         else do {
           let s3 = upd_tr tid (\<lambda>t. t\<lparr>t_type := T_TYPE_WRITE, t_fileSize := f_size, t_f_type := FTYPE_FILE\<rparr>) s2;
           let fileOffset = f_offset (open_files s3 fd);
           (e4, _, s4) \<leftarrow> readFileBlock (DataBuf tid) ino_num fileOffset (Local init_logical_address) tid s3;
           SYS_TR_VERIFY tid (Some (e4, s4)) (\<lambda>s5.
           let in_inode = fileOffset < INODE_FILE_DATA_SIZE;
               pos = (if in_inode then fileOffset else CALC_OFFSET_IN_FILE_BLOCK fileOffset);
               room = (if in_inode then INODE_FILE_DATA_SIZE else FS_BLOCK_SIZE) - pos;
               writeSize = (if count > room then room else count);
               s6 = wr (DataBuf tid) (fsMemcpy (rd (DataBuf tid) s5) (unat pos) user 0 (unat writeSize)) s5 in
           SYS_TR_VERIFY tid
             (writeFileBlock (if in_inode then 0 else fileOffset - pos) (pos + writeSize) DATA_TYPE_REGULAR tid init_logical_address True s6) (\<lambda>s7.
           let s8 = upd_tr tid (wasCommited_update (\<lambda>_. False)) (OPEN_FILE_INC_OFFSET fd writeSize s7);
               tempCount = count - writeSize in
           write_loop (Suc (unat tempCount div 2048)) fd user tid writeSize tempCount 0
             (\<lambda>bytesWritten tempCount committed. write_rest fd user tid ino_num bytesWritten tempCount committed) s8))
         }
       })
     }))))"

text \<open>A read returns the user's buffer with its result.\<close>

fun read_loop ::
  "nat \<Rightarrow> u32 \<Rightarrow> u32 \<Rightarrow> u32 \<Rightarrow> u32 \<Rightarrow> addr_ref \<Rightarrow> u32 \<Rightarrow> u32 \<Rightarrow> u32 \<Rightarrow> buf \<Rightarrow> 'z fs_scheme
   \<Rightarrow> (u32 \<times> addr_ref \<times> u32 \<times> u32 \<times> u32 \<times> buf \<times> 'z fs_scheme) option" where
  "read_loop 0 fd ino_num f_size tid r bytesRead tempCount readSize user s = None"
| "read_loop (Suc n) fd ino_num f_size tid r bytesRead tempCount readSize user s =
     (if \<not> (tempCount > FS_BLOCK_SIZE \<and> readSize = FS_BLOCK_SIZE) then Some (0, r, bytesRead, tempCount, readSize, user, s)
      else do {
        (e, r1, s1) \<leftarrow> readFileBlock FsBuf ino_num (f_offset (open_files s fd)) r tid s;
        if e \<noteq> 0 then Some (e, r1, bytesRead, tempCount, readSize, user, s1)
        else (let user1 = fsMemcpy user (unat bytesRead) (fs_buffer s1) 0 (unat readSize);
                  s2 = OPEN_FILE_INC_OFFSET fd FS_BLOCK_SIZE s1;
                  off = f_offset (open_files s2 fd)
              in read_loop n fd ino_num f_size tid r1 (bytesRead + readSize) (tempCount - readSize)
                   (if f_size <s off + readSize then f_size - off else readSize) user1 s2)
      })"

definition read_return :: "u32 \<Rightarrow> buf \<Rightarrow> 'z fs_scheme \<Rightarrow> ((u32 \<times> buf) \<times> 'z fs_scheme) option" where
  "read_return res user s = SYS_RETURN (-1, user) (res, user) s"

text \<open>The last piece, in the block where the descriptor stands.\<close>

definition read_last_piece ::
  "u32 \<Rightarrow> u32 \<Rightarrow> u32 \<Rightarrow> addr_ref \<Rightarrow> u32 \<Rightarrow> u32 \<Rightarrow> u32 \<Rightarrow> buf \<Rightarrow> 'z fs_scheme \<Rightarrow> ((u32 \<times> buf) \<times> 'z fs_scheme) option" where
  "read_last_piece fd ino_num tid r bytesRead tempCount readSize user s =
     (if readSize = 0 \<or> tempCount = 0 then read_return bytesRead user s
      else do {
        let last_size = (if tempCount <s readSize then tempCount else readSize);
        (e, _, s1) \<leftarrow> readFileBlock FsBuf ino_num (f_offset (open_files s fd)) r tid s;
        if e \<noteq> 0 then read_return (-1) user s1
        else do {
          assert_c (unat last_size \<le> 2048);
          read_return (bytesRead + last_size) (fsMemcpy user (unat bytesRead) (fs_buffer s1) 0 (unat last_size))
            (OPEN_FILE_INC_OFFSET fd last_size s1)
        }
      })"

text \<open>From the first piece on: the file and its size are known.\<close>

definition read_pieces ::
  "u32 \<Rightarrow> u32 \<Rightarrow> u32 \<Rightarrow> u32 \<Rightarrow> buf \<Rightarrow> u32 \<Rightarrow> 'z fs_scheme \<Rightarrow> ((u32 \<times> buf) \<times> 'z fs_scheme) option" where
  "read_pieces fd ino_num f_size fileOffset user count s = do {
     let tid = findTidByFileId ino_num s;
     let in_inode = fileOffset < INODE_FILE_DATA_SIZE;
     let pos = (if in_inode then fileOffset else CALC_OFFSET_IN_FILE_BLOCK fileOffset);
     let room = (if in_inode then INODE_FILE_DATA_SIZE else FS_BLOCK_SIZE) - pos;
     let size0 = (if count > room then room else count);
     let readSize = (if f_size <s fileOffset + size0 then f_size - fileOffset else size0);
     (e2, r2, s2) \<leftarrow> readFileBlock FsBuf ino_num fileOffset (Local init_logical_address) tid s;
     if e2 \<noteq> 0 then read_return (-1) user s2
     else do {
       assert_c (unat pos + unat readSize \<le> 2048);
       let user2 = fsMemcpy user 0 (fs_buffer s2) (unat pos) (unat readSize);
       let s3 = OPEN_FILE_INC_OFFSET fd readSize s2;
       let tempCount = count - readSize;
       let fileOffset3 = f_offset (open_files s3 fd);
       let size3 = (if tempCount > FS_BLOCK_SIZE then FS_BLOCK_SIZE else tempCount);
       let readSize3 = (if f_size <s fileOffset3 + size3 then f_size - fileOffset3 else size3);
       (e4, r4, bytesRead, tempCount4, readSize4, user4, s4) \<leftarrow>
         read_loop (Suc (unat tempCount div 2048)) fd ino_num f_size tid r2 readSize tempCount readSize3 user2 s3;
       if e4 \<noteq> 0 then read_return (-1) user4 s4
       else read_last_piece fd ino_num tid r4 bytesRead tempCount4 readSize4 user4 s4
     }
   }"

definition nandfs_read :: "u32 \<Rightarrow> buf \<Rightarrow> u32 \<Rightarrow> 'z fs_scheme \<Rightarrow> ((u32 \<times> buf) \<times> 'z fs_scheme) option" where
  "nandfs_read fd user count = FS_MUTEX_LOCK (-1, user) (\<lambda>s.
     if verifyFd fd s \<noteq> 0 then read_return (-1) user s
     else if \<not> 0 \<le>s count then read_return (-1) user s
     else if \<not> IS_RDONLY (f_flags (open_files s fd)) then read_return (-1) user s
     else if IS_DIRECTORY (f_ftype (open_files s fd)) then read_return (-1) user s
     else do {
       let ino_num = GET_FILE_ID_BY_FD fd s;
       (f_size, s1) \<leftarrow> getFileSize ino_num s;
       let fileOffset = f_offset (open_files s1 fd);
       if \<not> fileOffset \<le>s f_size then read_return (-1) user s1
       else read_pieces fd ino_num f_size fileOffset user count s1
     })"

section \<open>Directories and names\<close>

definition nandfs_unlink :: "u8 list \<Rightarrow> 'z fs_scheme \<Rightarrow> (u32 \<times> 'z fs_scheme) option" where
  "nandfs_unlink pathname = FS_MUTEX_LOCK (-1) (\<lambda>s. do { (res, s1) \<leftarrow> removeFile FTYPE_FILE pathname s; SYS_RETURN (-1) res s1 })"

definition nandfs_mkdir :: "u8 list \<Rightarrow> u32 \<Rightarrow> 'z fs_scheme \<Rightarrow> (u32 \<times> 'z fs_scheme) option" where
  "nandfs_mkdir pathname mode = FS_MUTEX_LOCK (-1) (\<lambda>s. do { (res, s1) \<leftarrow> createNewFile FTYPE_DIR pathname s; SYS_RETURN (-1) res s1 })"

definition nandfs_rmdir :: "u8 list \<Rightarrow> 'z fs_scheme \<Rightarrow> (u32 \<times> 'z fs_scheme) option" where
  "nandfs_rmdir pathname = FS_MUTEX_LOCK (-1) (\<lambda>s. do { (res, s1) \<leftarrow> removeFile FTYPE_DIR pathname s; SYS_RETURN (-1) res s1 })"

definition nandfs_fsync :: "u32 \<Rightarrow> 'z fs_scheme \<Rightarrow> (u32 \<times> 'z fs_scheme) option" where
  "nandfs_fsync fd = FS_MUTEX_LOCK (-1) (\<lambda>s. do {
     (e, s1) \<leftarrow> fsyncUtil fd s;
     SYS_VERIFY (e = 0) s1 (SYS_RETURN (-1) 0 s1)
   })"

definition nandfs_fdatasync :: "u32 \<Rightarrow> 'z fs_scheme \<Rightarrow> (u32 \<times> 'z fs_scheme) option" where
  "nandfs_fdatasync fd = nandfs_fsync fd"

fun sync_loop :: "nat list \<Rightarrow> 'z fs_scheme \<Rightarrow> 'z fs_scheme option" where
  "sync_loop [] s = Some s"
| "sync_loop (i # is) s =
     (if IS_OPEN_FILE_ENTRY_EMPTY (of_nat i) s then sync_loop is s
      else do { (e, s1) \<leftarrow> fsyncUtil (of_nat i) s; if e \<noteq> 0 then Some s1 else sync_loop is s1 })"

definition nandfs_sync :: "'z fs_scheme \<Rightarrow> (unit \<times> 'z fs_scheme) option" where
  "nandfs_sync = FS_MUTEX_LOCK () (\<lambda>s. do { s1 \<leftarrow> sync_loop [0..<8] s; SYS_RETURN () () s1 })"

text \<open>Pointers returned to the user: \<open>ErrPtr\<close> is the -1 of the lock, \<open>StreamPtr d\<close> points to the stream \<open>d\<close>, or
  to its entry.  A stream that is passed in is \<open>Some d\<close>, or \<open>None\<close> for the null pointer.\<close>

datatype stream_ptr = NullPtr | ErrPtr | StreamPtr u32

definition nandfs_opendir :: "u8 list \<Rightarrow> 'z fs_scheme \<Rightarrow> (stream_ptr \<times> 'z fs_scheme) option" where
  "nandfs_opendir name = FS_MUTEX_LOCK ErrPtr (\<lambda>s. do {
     (ino_num, f_type, _, s1) \<leftarrow> namei name (uninit s) INO_NUM_EMPTY s;
     if IS_NEGATIVE ino_num \<or> \<not> IS_DIRECTORY f_type then SYS_RETURN ErrPtr NullPtr s1
     else (let d = getFreeDirstreamId s1 in
       if d = DS_ID_EMPTY then SYS_RETURN ErrPtr NullPtr s1
       else do {
         (e, r, s2) \<leftarrow> getInode FsBuf ino_num (Local init_logical_address) s1;
         if e \<noteq> 0 then do { s3 \<leftarrow> init_dirstream d s2; SYS_RETURN ErrPtr NullPtr s3 }
         else do {
           (fd, s3) \<leftarrow> setOpenFentry ino_num NANDFS_O_RDONLY 0 FTYPE_DIR (upd_ds d (ds_ino_addr_update (\<lambda>_. deref r s2)) s2);
           if fd = FD_EMPTY then do { s4 \<leftarrow> init_dirstream d s3; SYS_RETURN ErrPtr NullPtr s4 }
           else do {
             assert_c (fd < 8);
             SYS_RETURN ErrPtr (StreamPtr d) (upd_file fd (f_offset_update (\<lambda>_. INODE_FILE_DATA_SIZE)) (upd_ds d (ds_fd_update (\<lambda>_. fd)) s3))
           }
         }
       })
   })"

definition stream_ok :: "u32 option \<Rightarrow> bool" where
  "stream_ok ds = (case ds of None \<Rightarrow> True | Some d \<Rightarrow> DS_OK d)"

definition nandfs_readdir :: "u32 option \<Rightarrow> 'z fs_scheme \<Rightarrow> (stream_ptr \<times> 'z fs_scheme) option" where
  "nandfs_readdir ds = FS_MUTEX_LOCK ErrPtr (\<lambda>s. do {
     assert_c (stream_ok ds);
     if \<not> verifyDirstream ds s then SYS_RETURN ErrPtr NullPtr s
     else do {
       (e, s1) \<leftarrow> readDirStreamNextEntry (the ds) s;
       SYS_RETURN ErrPtr (if e \<noteq> 0 then NullPtr else StreamPtr (the ds)) s1
     }
   })"

definition nandfs_telldir :: "u32 option \<Rightarrow> 'z fs_scheme \<Rightarrow> (u32 \<times> 'z fs_scheme) option" where
  "nandfs_telldir dirs = FS_MUTEX_LOCK (-1) (\<lambda>s. do {
     assert_c (stream_ok dirs);
     if \<not> verifyDirstream dirs s then SYS_RETURN (-1) (-1) s
     else SYS_RETURN (-1) (f_offset (open_files s (ds_fd (dirstreams s (the dirs))))) s
   })"

definition nandfs_dirfd :: "u32 option \<Rightarrow> 'z fs_scheme \<Rightarrow> (u32 \<times> 'z fs_scheme) option" where
  "nandfs_dirfd dirs = FS_MUTEX_LOCK (-1) (\<lambda>s. do {
     assert_c (stream_ok dirs);
     if \<not> verifyDirstream dirs s then SYS_RETURN (-1) (-1) s
     else SYS_RETURN (-1) (ds_fd (dirstreams s (the dirs))) s
   })"

definition nandfs_seekdir :: "u32 option \<Rightarrow> u32 \<Rightarrow> 'z fs_scheme \<Rightarrow> (unit \<times> 'z fs_scheme) option" where
  "nandfs_seekdir dirs offset = FS_MUTEX_LOCK () (\<lambda>s. do {
     assert_c (stream_ok dirs);
     SYS_RETURN () () (if verifyDirstream dirs s
       then upd_file (ds_fd (dirstreams s (the dirs))) (f_offset_update (\<lambda>_. offset)) s else s)
   })"

definition nandfs_rewinddir :: "u32 option \<Rightarrow> 'z fs_scheme \<Rightarrow> (unit \<times> 'z fs_scheme) option" where
  "nandfs_rewinddir dirs = nandfs_seekdir dirs INODE_FILE_DATA_SIZE"

definition nandfs_closedir :: "u32 option \<Rightarrow> 'z fs_scheme \<Rightarrow> (u32 \<times> 'z fs_scheme) option" where
  "nandfs_closedir dir = FS_MUTEX_LOCK (-1) (\<lambda>s. do {
     assert_c (stream_ok dir);
     if \<not> verifyDirstream dir s then SYS_RETURN (-1) (-1) s
     else do { s1 \<leftarrow> init_dirstream (the dir) s; SYS_RETURN (-1) 0 s1 }
   })"

record file_stat =
  st_ino :: u32
  st_size :: u32
  st_blksize :: u32
  st_blocks :: u32
  st_dev :: u64

definition nandfs_stat :: "u8 list \<Rightarrow> file_stat \<Rightarrow> 'z fs_scheme \<Rightarrow> ((u32 \<times> file_stat) \<times> 'z fs_scheme) option" where
  "nandfs_stat path b = FS_MUTEX_LOCK (-1, b) (\<lambda>s. do {
     (ino_num, _, _, s1) \<leftarrow> namei path (uninit s) INO_NUM_EMPTY s;
     if IS_NEGATIVE ino_num then SYS_RETURN (-1, b) (-1, b) s1
     else do {
       let b1 = b\<lparr>st_blksize := 2048, st_ino := ino_num, st_dev := ucast nandReadID\<rparr>;
       (blocks, s2) \<leftarrow> getFileBlocks ino_num s1;
       if IS_NEGATIVE blocks then SYS_RETURN (-1, b1) (-1, b1) s2
       else do {
         let b2 = b1\<lparr>st_blocks := blocks\<rparr>;
         (size, s3) \<leftarrow> getFileSize ino_num s2;
         if IS_NEGATIVE size then SYS_RETURN (-1, b2) (-1, b2) s3
         else (let b3 = b2\<lparr>st_size := size\<rparr> in SYS_RETURN (-1, b3) (0, b3) s3)
       }
     }
   })"

definition nandfs_dup2 :: "u32 \<Rightarrow> u32 \<Rightarrow> 'z fs_scheme \<Rightarrow> (u32 \<times> 'z fs_scheme) option" where
  "nandfs_dup2 old_fd new_fd = FS_MUTEX_LOCK (-1) (\<lambda>s. do { (res, s1) \<leftarrow> dupUtil old_fd new_fd True s; SYS_RETURN (-1) res s1 })"

definition nandfs_dup :: "u32 \<Rightarrow> 'z fs_scheme \<Rightarrow> (u32 \<times> 'z fs_scheme) option" where
  "nandfs_dup old_fd = FS_MUTEX_LOCK (-1) (\<lambda>s. do { (res, s1) \<leftarrow> dupUtil old_fd FD_EMPTY False s; SYS_RETURN (-1) res s1 })"

section \<open>Scanning a directory\<close>

text \<open>
  \<open>accept\<close> is the user's filter, applied to the entry at an offset of a block; \<open>alloc n\<close> tells whether call
  \<open>n\<close> of the user's allocator succeeds.  Each accepted entry costs two calls; the code tests the result of the
  first and writes through the result of the second.  \<open>None\<close> as a list means that the first one failed.
\<close>

fun scan_block ::
  "nat \<Rightarrow> (buf \<Rightarrow> nat \<Rightarrow> bool) \<Rightarrow> (nat \<Rightarrow> bool) \<Rightarrow> buf \<Rightarrow> nat \<Rightarrow> buf list \<Rightarrow> buf \<Rightarrow> (buf list option) option" where
  "scan_block 0 accept alloc b p names fresh = None"
| "scan_block (Suc n) accept alloc b p names fresh = do {
     assert_c (p + 10 \<le> 2048);
     if IS_DIRENT_EMPTY b p then Some (Some names)
     else (let next = moveToNextDirentry p (DIRENT_GET_LEN b p) in
       if \<not> accept b p then scan_block n accept alloc b next names fresh
       else if \<not> alloc (2 * length names) then Some None
       else do {
         assert_c (alloc (2 * length names + 1) \<and> DIRENT_GET_LEN b p \<le> 256);
         scan_block n accept alloc b next (names @ [fsMemcpy fresh 0 b p (unat (DIRENT_GET_LEN b p))]) fresh
       })
   }"

fun scan_loop ::
  "nat \<Rightarrow> u32 \<Rightarrow> u32 \<Rightarrow> (buf \<Rightarrow> nat \<Rightarrow> bool) \<Rightarrow> (nat \<Rightarrow> bool) \<Rightarrow> u32 \<Rightarrow> addr_ref \<Rightarrow> logical_addr \<Rightarrow> buf list \<Rightarrow> 'z fs_scheme
   \<Rightarrow> (buf list option \<times> 'z fs_scheme) option" where
  "scan_loop 0 ino_num f_size accept alloc offset r block_addr names s = None"
| "scan_loop (Suc n) ino_num f_size accept alloc offset r block_addr names s =
     (if \<not> offset <s f_size then Some (Some names, s)
      else do {
        (e, r1, s1) \<leftarrow> readFileBlock FsBuf ino_num offset r TID_EMPTY s;
        if e \<noteq> 0 then Some (None, s1)
        else do {
          res \<leftarrow> scan_block 2049 accept alloc (fs_buffer s1) 0 names (junk s1);
          case res of None \<Rightarrow> Some (None, s1)
          | Some names1 \<Rightarrow> do {
              (e2, a, offset2, s2) \<leftarrow> findNextNonEmptySparseBlock (deref r1 s1) block_addr offset TID_EMPTY s1;
              if e2 = FS_ERROR_OFST_OVRFLW then Some (Some names1, s2)
              else if e2 \<noteq> 0 then Some (None, s2)
              else do {
                (e3, s3) \<leftarrow> fsReadBlock a FsBuf TID_EMPTY CACHE_ENTRY_OFFSET_EMPTY True s2;
                if e3 \<noteq> 0 then Some (None, s3) else scan_loop n ino_num f_size accept alloc offset2 r1 a names1 s3
              }
            }
        }
      })"

text \<open>\<open>None\<close> as a list is the result -1.  The final sort is guarded by a count of 0, where it does nothing.\<close>

definition nandfs_scandir ::
  "u8 list \<Rightarrow> (buf \<Rightarrow> nat \<Rightarrow> bool) \<Rightarrow> (nat \<Rightarrow> bool) \<Rightarrow> 'z fs_scheme \<Rightarrow> (buf list option \<times> 'z fs_scheme) option" where
  "nandfs_scandir dir accept alloc = FS_MUTEX_LOCK None (\<lambda>s. do {
     (ino_num, f_type, _, s1) \<leftarrow> namei dir (uninit s) INO_NUM_EMPTY s;
     if IS_NEGATIVE ino_num \<or> \<not> IS_DIRECTORY f_type then SYS_RETURN None None s1
     else do {
       (f_size, s2) \<leftarrow> getFileSize ino_num s1;
       (names, s3) \<leftarrow> scan_loop 524290 ino_num f_size accept alloc INODE_FILE_DATA_SIZE (Local init_logical_address) init_logical_address [] s2;
       SYS_RETURN None names s3
     }
   })"

end
