(* ===== verification/FileBytes.thy ===== *)
theory FileBytes
  imports FilePath Api
begin

text \<open>
  A file as a sequence of bytes.  A byte is found in the block that the address tree has for its offset; the
  offsets of one block share it.  A reader of a file, which moves along it and changes nothing but buffers, copies
  stretches of a block, and \<open>copied\<close> says that what it has are consecutive bytes.
\<close>

section \<open>The bytes of a file\<close>

definition in_block :: "nat \<Rightarrow> nat" where
  "in_block k = (if k < 1983 then k else (k - 1983) mod 2048)"

definition file_byte_at :: "'z fs_scheme \<Rightarrow> u32 \<Rightarrow> nat \<Rightarrow> u8" where
  "file_byte_at s ino k = the (file_block s ino k) (in_block k)"

lemma file_path_same_block:
  assumes "t < 2048"
  shows "file_path (1983 + 2048 * m + t) = file_path (1983 + 2048 * m)"
proof -
  let ?k = "1983 + 2048 * m"
  have div: "(2048 * c + t) div (2048 * n) = c div n" "(2048 * c) div (2048 * n) = c div n" for c n
    using assms by (simp_all add: div_mult2_eq)
  have mod: "(2048 * c + t) mod (2048 * n) = 2048 * (c mod n) + t" "(2048 * c) mod (2048 * n) = 2048 * (c mod n)" for c n
    using assms by (simp_all add: mod_mult2_eq mod_mult_mult1)
  consider "m < 10" | "10 \<le> m" "m < 522" | "522 \<le> m" "m < 262666" | "262666 \<le> m" by linarith
  then show ?thesis
  proof cases
    case 1
    then have "?k + t < 22463" "?k < 22463" using assms by linarith+
    moreover have "(?k + t - 1983) div 2048 = m" "(?k - 1983) div 2048 = m" using assms by simp_all
    ultimately show ?thesis by (simp add: file_path_def)
  next
    case 2
    define c where "c = m - 10"
    have "?k + t - 22463 = 2048 * c + t" "?k - 22463 = 2048 * c" "22463 \<le> ?k" "?k + t < 1071039" using 2 assms by (simp_all add: c_def)
    then show ?thesis using mod [of c 512] assms by (simp add: file_path_regions(1))
  next
    case 3
    define c where "c = m - 522"
    have "?k + t - 22463 = 2048 * (c + 512) + t" "?k - 22463 = 2048 * (c + 512)" "?k + t - 1071039 = 2048 * c + t" "?k - 1071039 = 2048 * c"
      "1071039 \<le> ?k" "?k + t < 537941951" using 3 assms by (simp_all add: c_def)
    then show ?thesis using mod [of "c + 512" 512] div [of c 512] assms by (simp add: file_path_regions(2))
  next
    case 4
    define c e where "c = m - 262666" and "e = m - 10"
    have k: "?k + t - 22463 = 2048 * e + t" "?k - 22463 = 2048 * e" "?k + t - 537941951 = 2048 * c + t" "?k - 537941951 = 2048 * c"
      "537941951 \<le> ?k" "537941951 \<le> ?k + t" using 4 assms by (simp_all add: c_def e_def)
    have leaf: "(2048 * e + t) mod 0x100000 div 2048 = 2048 * e mod 0x100000 div 2048" using mod [of e 512] assms by simp
    have top: "(2048 * c + t) div 0x20000000 = 2048 * c div 0x20000000" using div [of c 262144] by simp
    have "(2048 * c + t) mod 0x20000000 = 2048 * (c mod 262144) + t" "2048 * c mod 0x20000000 = 2048 * (c mod 262144)"
      using mod [of c 262144] by simp_all
    then have mid: "(2048 * c + t) mod 0x20000000 div 0x100000 = 2048 * c mod 0x20000000 div 0x100000"
      using div [of "c mod 262144" 512] by simp
    show ?thesis by (simp only: file_path_regions(3) [OF k(5)] file_path_regions(3) [OF k(6)] k(1-4) leaf top mid)
  qed
qed

lemma file_path_block: "1983 \<le> k \<Longrightarrow> file_path k = file_path (k - in_block k)"
proof -
  assume "1983 \<le> k"
  then obtain j where k: "k = 1983 + j" using le_Suc_ex by blast
  have "j - j mod 2048 = 2048 * (j div 2048)" "j mod 2048 \<le> j" by (simp_all add: minus_mod_eq_mult_div)
  then have "k - in_block k = 1983 + 2048 * (j div 2048)" by (simp add: k in_block_def)
  moreover have "1983 + 2048 * (j div 2048) + j mod 2048 = k" by (simp add: k)
  ultimately show ?thesis using file_path_same_block [of "j mod 2048" "j div 2048"] by simp
qed

text \<open>Offsets of one block that are inside of the file have the same block.\<close>

lemma file_block_same:
  assumes "k - in_block k = l - in_block l" "file_block s ino k = Some x" "inode_at s ino = Some (a, d)" "l \<le> unat (INODE_GET_NBYTES d)"
    "k < 1983 \<longleftrightarrow> l < 1983"
  shows "file_block s ino l = Some x"
proof -
  have "file_path k = file_path l"
    using assms(1,5) file_path_block [of k] file_path_block [of l] by (cases "k < 1983") (auto simp: file_path_def)
  then show ?thesis using assms by (simp add: file_block_def assert_c_def split: if_splits)
qed

section \<open>Reading one block again\<close>

lemma file_block_upd [simp]:
  "file_block (s\<lparr>open_files := f\<rparr>) = file_block s" "inode_at (s\<lparr>open_files := f\<rparr>) = inode_at s"
  "file_block (s\<lparr>fs_mutex := m\<rparr>) = file_block s" "inode_at (s\<lparr>fs_mutex := m\<rparr>) = inode_at s"
  "store_ok (s\<lparr>open_files := f\<rparr>) = store_ok s" "store_ok (s\<lparr>fs_mutex := m\<rparr>) = store_ok s"
  "quiet n (s\<lparr>open_files := f\<rparr>) = quiet n s" "quiet n (s\<lparr>fs_mutex := m\<rparr>) = quiet n s"
proof -
  note defs = plain_page_def unit_fine_def eu_good_def eu_readable_def IS_STATE_RECLAMATION_def
    GET_RECLAIMED_SEGMENT_SLOT_def GET_SEG_MAP_SLOT_FOR_SEG_def GET_RECLAIMED_SEGMENT_def GET_RECLAIMED_OFFSET_def
  have 1: "stored_block (s\<lparr>open_files := f\<rparr>) = stored_block s" by (rule ext, rule stored_block_cong; simp add: defs)
  have 2: "stored_block (s\<lparr>fs_mutex := m\<rparr>) = stored_block s" by (rule ext, rule stored_block_cong; simp add: defs)
  show inode: "inode_at (s\<lparr>open_files := f\<rparr>) = inode_at s" "inode_at (s\<lparr>fs_mutex := m\<rparr>) = inode_at s"
    by (rule ext, simp add: inode_at_def 1 2 FS_GET_INO0_ADDR_def)+
  show "file_block (s\<lparr>open_files := f\<rparr>) = file_block s" "file_block (s\<lparr>fs_mutex := m\<rparr>) = file_block s"
    by (rule ext, rule ext, simp add: file_block_def inode 1 2)+
  show "store_ok (s\<lparr>open_files := f\<rparr>) = store_ok s" "store_ok (s\<lparr>fs_mutex := m\<rparr>) = store_ok s"
    "quiet n (s\<lparr>open_files := f\<rparr>) = quiet n s" "quiet n (s\<lparr>fs_mutex := m\<rparr>) = quiet n s"
    by (simp_all add: store_ok_def eus_ok_def eu_good_def quiet_def)
qed

lemma reads_into_fs:
  assumes "reads_into FsBuf s s'"
  shows "file_block s' = file_block s" "inode_at s' = inode_at s" "quiet n s' = quiet n s" "open_files s' = open_files s"
    "vnodes s' = vnodes s" "fs_mutex s' = fs_mutex s" "current_user s' = current_user s" "transactions s' = transactions s"
proof -
  show inode: "inode_at s' = inode_at s"
    using flash.frame_content [OF assms] reads_into_sel(1) [OF assms] by (intro ext) (simp add: inode_at_def FS_GET_INO0_ADDR_def)
  show "file_block s' = file_block s" using flash.frame_content [OF assms] by (intro ext) (simp add: file_block_def inode)
  show "quiet n s' = quiet n s" "open_files s' = open_files s" "vnodes s' = vnodes s" "fs_mutex s' = fs_mutex s"
    "current_user s' = current_user s" "transactions s' = transactions s"
    using assms by (auto simp: reads_into_def quiet_def)
qed

text \<open>The address of the inode, once found, is handed to the next read.\<close>

lemma readFileBlock_again:
  assumes ok: "store_ok s" "quiet 0 s" "quiet ino s" "1 \<le> ino" "ino \<le> 524288"
    and ino: "inode_at s ino = Some (a, d)" "off \<le> FS_MAX_FILESIZE" "file_block s ino (unat off) = Some x"
    and r: "r = Local init_logical_address \<or> r = Local a"
  shows "\<exists>s'. readFileBlock FsBuf ino off r TID_EMPTY s = Some (0, Local a, s') \<and> same_block (fs_buffer s') x \<and> store_ok s' \<and> reads_into FsBuf s s'"
proof -
  obtain y where y: "unat off \<le> unat (INODE_GET_NBYTES d)" "descend (stored_block s) d (file_path (unat off)) = Some y"
      "x = (if unat off < 1983 then buf_fill y 1983 65 0xff else y)"
    using file_blockD [OF ino(3)] ino(1) by auto
  have x: "(if off < 1983 then fsMemset d 1983 0xff 65 else y) = x"
    using y(2,3) by (auto simp: file_path_def word_less_nat_alt fsMemset_fill)
  have a: "stored_block s a = Some d" "\<not> IS_ADDR_EMPTY a"
    using ino(1) by (auto simp: inode_at_def bind_eq_Some_conv assert_c_def split: if_splits)
  have "ino \<noteq> 0" using ok(4) by auto
  obtain r0 where r0: "r = Local r0" "\<not> IS_ADDRESS_EMPTY r0 \<Longrightarrow> r0 = a" using r init_logical_address_empty by blast
  have "\<exists>s1. readInodeBlock FsBuf ino r TID_EMPTY s = Some (0, Local a, s1) \<and> flash.holds_block FsBuf s s1 d"
  proof (cases "IS_ADDRESS_EMPTY r0")
    case True
    then show ?thesis using getInode_follows [OF ok(1,2,4,5) ino(1), of FsBuf r0] \<open>ino \<noteq> 0\<close>
      by (auto simp: readInodeBlock_def readInodeBlock_over_def r0(1))
  next
    case False
    then show ?thesis using flash.read_first [OF ok(1) a(1), of FsBuf TID_EMPTY CACHE_ENTRY_OFFSET_EMPTY] \<open>ino \<noteq> 0\<close> r0
      by (auto simp: readInodeBlock_def readInodeBlock_over_def)
  qed
  then obtain s1 where s1: "readInodeBlock FsBuf ino r TID_EMPTY s = Some (0, Local a, s1)" "flash.holds_block FsBuf s s1 d" by blast
  have "off \<le> INODE_GET_NBYTES d" using y(1) by (simp add: word_le_nat_alt)
  from readFileBlock_over_follows [where read_inode = readInodeBlock, OF quiet_not_held [OF ok(3)] ino(2) this s1(1) [unfolded r0(1)] s1(2) a(1) y(2)]
  show ?thesis using \<open>ino \<noteq> 0\<close> unfolding readFileBlock_def x r0(1) by (auto simp: flash.holds_block_def)
qed

lemma getFileSize_reads:
  assumes "store_ok s" "quiet 0 s" "quiet ino s" "1 \<le> ino" "ino \<le> 524288" "inode_at s ino = Some (a, d)"
  shows "\<exists>s'. getFileSize ino s = Some (INODE_GET_NBYTES d, s') \<and> store_ok s' \<and> reads_into FsBuf s s'"
proof -
  let ?s0 = "init_fsbuf FsBuf s"
  have s0: "reads_into FsBuf s ?s0" "store_ok ?s0" 
    using assms(1) reads_into_wr [of FsBuf s] eus_ok_wr(1) [of FsBuf _ s] by (simp_all add: init_fsbuf_def store_ok_def)
  note fs = reads_into_fs [OF s0(1)]
  have tid: "open_tid_loop [0..<2] ino ?s0 = TID_EMPTY"
    using assms(3) by (auto simp: quiet_def upt_rec fs(8))
  obtain s1 where "getInode FsBuf ino (Local init_logical_address) ?s0 = Some (0, Local a, s1)" "flash.holds_block FsBuf ?s0 s1 d"
    using getInode_follows [OF s0(2) _ assms(4,5)] assms(2,6) fs by metis
  then show ?thesis using flash.holds_uint32 [of FsBuf ?s0 s1 d 1984] flash.frame_trans [OF s0(1)] tid
    by (auto simp: getFileSize_def getFileUpdatedInode_def INODE_GET_NBYTES_def flash.holds_block_def)
qed

section \<open>The pieces of a read\<close>

lemma count_positive: "0 \<le>s (x :: u32) \<Longrightarrow> unat x < 0x80000000"
proof -
  assume "0 \<le>s x"
  then have "0 \<le> sint x" "sint x < 0x80000000" using sint_lt [of x] by (simp_all add: word_sle_eq)
  then have "uint x < 0x80000000" by (simp add: uint_sint take_bit_int_eq_self)
  then show ?thesis by (simp only: unat_small)
qed

text \<open>A reader at an offset: the descriptor has moved, buffers have changed, and nothing else.\<close>

definition reader :: "u32 \<Rightarrow> 'z fs_scheme \<Rightarrow> u32 \<Rightarrow> 'z fs_scheme \<Rightarrow> bool" where
  "reader fd s0 off s = (store_ok s \<and> file_block s = file_block s0 \<and> inode_at s = inode_at s0 \<and> (\<forall>n. quiet n s = quiet n s0) \<and>
     open_files s = (open_files s0)(fd := (open_files s0 fd)\<lparr>f_offset := off\<rparr>) \<and> vnodes s = vnodes s0 \<and> fs_mutex s = fs_mutex s0)"

lemma reader_offset: "reader fd s0 off s \<Longrightarrow> f_offset (open_files s fd) = off"
  by (simp add: reader_def)

lemma reader_inc: "reader fd s0 off s \<Longrightarrow> reader fd s0 (off + n) (OPEN_FILE_INC_OFFSET fd n s)"
  by (simp add: reader_def OPEN_FILE_INC_OFFSET_def upd_file_def comp_def)

lemma reader_reads: "reader fd s0 off s \<Longrightarrow> store_ok s' \<Longrightarrow> reads_into FsBuf s s' \<Longrightarrow> reader fd s0 off s'"
  using reads_into_fs [of s s'] by (simp add: reader_def)

text \<open>A file that is not in a transaction, and whose blocks from an offset on can be read.\<close>

definition file_open :: "u32 \<Rightarrow> logical_addr \<Rightarrow> nat \<Rightarrow> nat \<Rightarrow> nat \<Rightarrow> 'z fs_scheme \<Rightarrow> bool" where
  "file_open ino a fsz off0 cnt s0 = (quiet 0 s0 \<and> quiet ino s0 \<and> 1 \<le> ino \<and> ino \<le> 524288 \<and>
     (\<exists>d. inode_at s0 ino = Some (a, d) \<and> unat (INODE_GET_NBYTES d) = fsz) \<and> fsz \<le> 0x40000000 \<and>
     (\<forall>k. off0 \<le> k \<and> k \<le> off0 + cnt \<and> k \<le> fsz \<longrightarrow> file_block s0 ino k \<noteq> None))"

lemma reader_block:
  assumes "file_open ino a fsz off0 cnt s0" "reader fd s0 off s" "r = Local init_logical_address \<or> r = Local a"
    and "off0 \<le> unat k" "unat k \<le> off0 + cnt" "unat k \<le> fsz"
  shows "\<exists>x s'. file_block s0 ino (unat k) = Some x \<and> readFileBlock FsBuf ino k r TID_EMPTY s = Some (0, Local a, s') \<and>
    same_block (fs_buffer s') x \<and> reader fd s0 off s'"
proof -
  obtain x where x: "file_block s0 ino (unat k) = Some x" using assms(1,4-6) by (auto simp: file_open_def)
  obtain d where d: "inode_at s0 ino = Some (a, d)" using assms(1) by (auto simp: file_open_def)
  have "k \<le> FS_MAX_FILESIZE" using assms(1,6) by (auto simp: file_open_def word_le_nat_alt)
  then show ?thesis
    using readFileBlock_again [of s ino a d k x r] x d assms(1-3) reader_reads [OF assms(2)]
    by (auto simp: file_open_def reader_def)
qed

text \<open>What has been copied so far.\<close>

definition copied :: "'z fs_scheme \<Rightarrow> u32 \<Rightarrow> nat \<Rightarrow> buf \<Rightarrow> nat \<Rightarrow> buf \<Rightarrow> bool" where
  "copied s0 ino off0 user0 n user = (\<forall>i. user i = (if i < n then file_byte_at s0 ino (off0 + i) else user0 i))"

lemma in_block_add:
  assumes "in_block k + j < (if k < 1983 then 1983 else 2048)"
  shows "in_block (k + j) = in_block k + j" "k + j < 1983 \<longleftrightarrow> k < 1983"
proof -
  have "in_block (k + j) = in_block k + j \<and> (k + j < 1983 \<longleftrightarrow> k < 1983)"
  proof (cases "k < 1983")
    case True
    then show ?thesis using assms by (simp add: in_block_def)
  next
    case False
    then have "(k - 1983) mod 2048 + j < 2048" using assms by (simp only: in_block_def if_False)
    then have "((k - 1983) mod 2048 + j) mod 2048 = (k - 1983) mod 2048 + j" by (rule mod_less)
    then have "(k - 1983 + j) mod 2048 = (k - 1983) mod 2048 + j" by (simp only: mod_add_left_eq)
    moreover have "k + j - 1983 = k - 1983 + j" "\<not> k + j < 1983" using False by linarith+
    ultimately show ?thesis using False by (simp only: in_block_def if_False)
  qed
  then show "in_block (k + j) = in_block k + j" "k + j < 1983 \<longleftrightarrow> k < 1983" by blast+
qed

lemma copy_block:
  assumes "file_open ino a fsz off0 cnt s0" "copied s0 ino off0 user0 n user" "file_block s0 ino (off0 + n) = Some x" "same_block b x"
    and "in_block (off0 + n) + m \<le> (if off0 + n < 1983 then 1983 else 2048)" "off0 + n + m \<le> fsz"
  shows "copied s0 ino off0 user0 (n + m) (fsMemcpy user n b (in_block (off0 + n)) m)"
proof -
  let ?k = "off0 + n"
  obtain d where d: "inode_at s0 ino = Some (a, d)" "unat (INODE_GET_NBYTES d) = fsz" using assms(1) by (auto simp: file_open_def)
  have "b (in_block ?k + j) = file_byte_at s0 ino (?k + j)" if j: "j < m" for j
  proof -
    have in_k: "in_block (?k + j) = in_block ?k + j" "?k + j < 1983 \<longleftrightarrow> ?k < 1983" using in_block_add [of ?k j] assms(5) j by auto
    then have "?k - in_block ?k = ?k + j - in_block (?k + j)" by simp
    then have "file_block s0 ino (?k + j) = Some x" using file_block_same [OF _ assms(3) d(1)] in_k(2) d(2) assms(6) j by simp
    moreover have "in_block ?k + j < 2048" using assms(5) j by (simp split: if_splits)
    ultimately show ?thesis using assms(4) in_k(1) by (simp add: file_byte_at_def same_block_def)
  qed
  then have "fsMemcpy user n b (in_block ?k) m i = file_byte_at s0 ino (off0 + i)" if "n \<le> i" "i < n + m" for i
  proof -
    obtain j where "i = n + j" using \<open>n \<le> i\<close> le_Suc_ex by blast
    then show ?thesis using that(2) \<open>\<And>j. j < m \<Longrightarrow> _\<close> [of j] by (simp add: fsMemcpy_copy add.assoc)
  qed
  moreover have "fsMemcpy user n b (in_block ?k) m i = user i" if "\<not> (n \<le> i \<and> i < n + m)" for i
    using that by (simp only: fsMemcpy_copy buf_copy_def if_False)
  ultimately show ?thesis using assms(2) unfolding copied_def by (metis le_add1 linorder_not_le order_less_le_trans)
qed

end
