(* ===== verification/ReadFile.thy ===== *)
theory ReadFile
  imports FileBytes
begin

text \<open>
  Reading a file through a descriptor.  \<open>nandfs_read\<close> reads the first block up to its end, then whole blocks in a
  loop and the rest from a last one.  The pieces are consecutive bytes of the file.
\<close>

section \<open>The loop over whole blocks\<close>

text \<open>
  Between two blocks: \<open>br\<close> bytes are copied, \<open>tc\<close> are still wanted, the descriptor stands at the start of a block,
  and \<open>rs\<close>, as far as it matters for \<open>tc\<close>, is what this block has of the file.
\<close>

definition reading ::
  "u32 \<Rightarrow> u32 \<Rightarrow> nat \<Rightarrow> nat \<Rightarrow> nat \<Rightarrow> buf \<Rightarrow> 'z fs_scheme \<Rightarrow> u32 \<Rightarrow> u32 \<Rightarrow> u32 \<Rightarrow> u32 \<Rightarrow> buf \<Rightarrow> 'z fs_scheme \<Rightarrow> bool" where
  "reading fd ino fsz off0 cnt user0 s0 pos br tc rs user s = (reader fd s0 pos s \<and> unat pos = off0 + unat br \<and>
     1983 \<le> unat pos \<and> in_block (unat pos) = 0 \<and> copied s0 ino off0 user0 (unat br) user \<and> unat br + unat tc = cnt \<and>
     unat pos + unat rs \<le> fsz \<and> unat rs \<le> 2048 \<and> min (unat tc) (unat rs) = min (unat tc) (min 2048 (fsz - unat pos)))"

lemma in_block_next: "1983 \<le> k \<Longrightarrow> in_block (k + 2048) = in_block k"
proof -
  assume "1983 \<le> k"
  then have "k + 2048 - 1983 = k - 1983 + 2048" "\<not> k < 1983" "\<not> k + 2048 < 1983" by linarith+
  then show ?thesis by (simp only: in_block_def if_False mod_add_self2)
qed

lemma unat_add_small: "unat (x :: u32) + unat y < 0x100000000 \<Longrightarrow> unat (x + y) = unat x + unat y"
  by (simp add: unat_plus_u32)

text \<open>What is left of the file, computed with signed comparisons.\<close>

lemma rest_of_file:
  fixes f_size pos n :: u32
  assumes "unat f_size = fsz" "fsz \<le> 0x40000000" "unat pos \<le> fsz" "unat n \<le> 2048"
  shows "unat (if f_size <s pos + n then f_size - pos else n) = min (unat n) (fsz - unat pos)"
proof -
  have sum: "unat (pos + n) = unat pos + unat n" using assms by (subst unat_add_small) simp_all
  have "f_size <s pos + n \<longleftrightarrow> fsz < unat pos + unat n" using assms by (subst signed_small) (simp_all add: sum)
  moreover have "unat (f_size - pos) = fsz - unat pos" using assms by (subst unat_sub) (simp_all add: word_le_nat_alt)
  ultimately show ?thesis by auto
qed

lemma read_loop_reads:
  assumes F: "file_open ino a fsz off0 cnt s0" "unat f_size = fsz"
  shows "reading fd ino fsz off0 cnt user0 s0 pos br tc rs user s \<Longrightarrow> r = Local init_logical_address \<or> r = Local a \<Longrightarrow> unat tc div 2048 < n \<Longrightarrow>
    \<exists>pos' br' tc' rs' user' s' r'. read_loop n fd ino f_size TID_EMPTY r br tc rs user s = Some (0, r', br', tc', rs', user', s') \<and>
      reading fd ino fsz off0 cnt user0 s0 pos' br' tc' rs' user' s' \<and> \<not> (tc' > FS_BLOCK_SIZE \<and> rs' = FS_BLOCK_SIZE) \<and>
      (r' = Local init_logical_address \<or> r' = Local a)"
proof (induction n arbitrary: pos br tc rs user s r)
  case (Suc n)
  show ?case
  proof (cases "tc > FS_BLOCK_SIZE \<and> rs = FS_BLOCK_SIZE")
    case False
    then show ?thesis using Suc.prems by auto
  next
    case True
    then have tc: "2048 < unat tc" "rs = 2048" by (simp_all add: word_less_nat_alt)
    have inv: "reader fd s0 pos s" "unat pos = off0 + unat br" "1983 \<le> unat pos" "in_block (unat pos) = 0"
      "copied s0 ino off0 user0 (unat br) user" "unat br + unat tc = cnt" "unat pos + unat rs \<le> fsz"
      using Suc.prems(1) unfolding reading_def by blast+
    have whole: "unat pos + 2048 \<le> fsz" using inv(7) tc(2) by simp
    have size: "fsz \<le> 0x40000000" using F(1) by (simp add: file_open_def)
    obtain x s1 where s1: "file_block s0 ino (unat pos) = Some x" "readFileBlock FsBuf ino pos r TID_EMPTY s = Some (0, Local a, s1)"
      "same_block (fs_buffer s1) x" "reader fd s0 pos s1"
      using reader_block [OF F(1) inv(1) Suc.prems(2), of pos] inv(2,6) whole by auto
    let ?user = "fsMemcpy user (unat br) (fs_buffer s1) 0 (unat rs)"
    let ?s2 = "OPEN_FILE_INC_OFFSET fd FS_BLOCK_SIZE s1"
    let ?pos = "pos + 2048"
    let ?rs = "if f_size <s ?pos + rs then f_size - ?pos else rs"
    have pos: "unat ?pos = unat pos + 2048" using whole size by (subst unat_add_small) simp_all
    have br: "unat (br + rs) = unat br + 2048" using inv(2) whole size tc(2) by (subst unat_add_small) simp_all
    have tc': "unat (tc - rs) = unat tc - 2048" using tc by (subst unat_sub) (simp_all add: word_le_nat_alt)
    have rs: "unat ?rs = min 2048 (fsz - unat ?pos)" using rest_of_file [OF F(2) size, of ?pos rs] pos whole tc(2) by simp
    have "copied s0 ino off0 user0 (unat br + 2048) (fsMemcpy user (unat br) (fs_buffer s1) (in_block (off0 + unat br)) 2048)"
      using copy_block [OF F(1) inv(5) _ s1(3), of 2048] s1(1) inv(2,3,4) whole by simp
    then have "copied s0 ino off0 user0 (unat (br + rs)) ?user" using inv(2,4) br tc(2) by simp
    then have "reading fd ino fsz off0 cnt user0 s0 ?pos (br + rs) (tc - rs) ?rs ?user ?s2"
      using reader_inc [OF s1(4), of 2048] pos br tc' rs inv(2,3,6) whole in_block_next [OF inv(3)] inv(4) tc(1) by (auto simp: reading_def)
    moreover have "unat (tc - rs) div 2048 < n" using Suc.prems(3) tc(1) tc' by (simp add: le_div_geq)
    ultimately have IH: "\<exists>pos' br' tc' rs' user' s' r'. read_loop n fd ino f_size TID_EMPTY (Local a) (br + rs) (tc - rs) ?rs ?user ?s2 =
        Some (0, r', br', tc', rs', user', s') \<and> reading fd ino fsz off0 cnt user0 s0 pos' br' tc' rs' user' s' \<and>
      \<not> (tc' > FS_BLOCK_SIZE \<and> rs' = FS_BLOCK_SIZE) \<and> (r' = Local init_logical_address \<or> r' = Local a)"
      by (intro Suc.IH) simp_all
    have "read_loop (Suc n) fd ino f_size TID_EMPTY r br tc rs user s =
        read_loop n fd ino f_size TID_EMPTY (Local a) (br + rs) (tc - rs) ?rs ?user ?s2"
      using True s1(2) reader_offset [OF inv(1)] reader_offset [OF reader_inc [OF s1(4)], of 2048] by (simp add: Let_def)
    then show ?thesis using IH by simp
  qed
qed simp

section \<open>The whole read\<close>

text \<open>The last piece: what is still wanted and what the file still has, whichever is less.\<close>

lemma read_last:
  assumes F: "file_open ino a fsz off0 cnt s0" "off0 \<le> fsz"
    and R: "reading fd ino fsz off0 cnt user0 s0 pos br tc rs user s" "r = Local init_logical_address \<or> r = Local a"
    and left: "\<not> (tc > FS_BLOCK_SIZE \<and> rs = FS_BLOCK_SIZE)" "cnt < 0x80000000"
  shows "\<exists>n user' s'. read_last_piece fd ino TID_EMPTY r br tc rs user s = read_return n user' s' \<and> unat n = min cnt (fsz - off0) \<and> copied s0 ino off0 user0 (unat n) user' \<and>
      (\<exists>pos'. reader fd s0 pos' s' \<and> unat pos' = off0 + unat n)"
proof -
  have inv: "reader fd s0 pos s" "unat pos = off0 + unat br" "1983 \<le> unat pos" "in_block (unat pos) = 0"
    "copied s0 ino off0 user0 (unat br) user" "unat br + unat tc = cnt" "unat pos + unat rs \<le> fsz" "unat rs \<le> 2048"
    "min (unat tc) (unat rs) = min (unat tc) (min 2048 (fsz - unat pos))"
    using R(1) unfolding reading_def by blast+
  have size: "fsz \<le> 0x40000000" using F(1) by (simp add: file_open_def)
  have "unat rs = 2048 \<longrightarrow> unat tc \<le> 2048"
    using left(1) word_unat_eq_iff [of rs 2048] by (auto simp: word_less_nat_alt)
  then have m: "min (unat tc) (unat rs) = min (unat tc) (fsz - unat pos)" using inv(7-9) by linarith
  let ?m = "if tc <s rs then tc else rs"
  have um: "unat ?m = min (unat tc) (unat rs)"
    using inv(6,8) left(2) by (subst signed_small) auto
  have total: "unat br + min (unat tc) (unat rs) = min cnt (fsz - off0)" using m inv(2,6,7) by linarith
  show ?thesis
  proof (cases "rs = 0 \<or> tc = 0")
    case True
    then have "min (unat tc) (unat rs) = 0" by auto
    then show ?thesis using True total inv(1,2,5) by (intro exI [of _ br] exI [of _ user] exI [of _ s]) (auto simp: read_last_piece_def)
  next
    case False
    obtain x s1 where s1: "file_block s0 ino (unat pos) = Some x" "readFileBlock FsBuf ino pos r TID_EMPTY s = Some (0, Local a, s1)"
      "same_block (fs_buffer s1) x" "reader fd s0 pos s1"
      using reader_block [OF F(1) inv(1) R(2), of pos] inv(2,6,7) by auto
    let ?user = "fsMemcpy user (unat br) (fs_buffer s1) 0 (unat ?m)"
    have n: "unat (br + ?m) = unat br + unat ?m" "unat (pos + ?m) = unat pos + unat ?m"
      using um inv(2,7) size by (subst unat_add_small; simp)+
    have "copied s0 ino off0 user0 (unat br + unat ?m) (fsMemcpy user (unat br) (fs_buffer s1) (in_block (off0 + unat br)) (unat ?m))"
      by (rule copy_block [OF F(1) inv(5) _ s1(3)]) (use s1(1) inv(2,3,4,7,8) um in auto)
    then have "copied s0 ino off0 user0 (unat (br + ?m)) ?user" using inv(2,4) n(1) by simp
    moreover have "unat (br + ?m) = min cnt (fsz - off0)" using n(1) um total by simp
    moreover have "reader fd s0 (pos + ?m) (OPEN_FILE_INC_OFFSET fd ?m s1)" by (rule reader_inc [OF s1(4)])
    moreover have "unat (pos + ?m) = off0 + unat (br + ?m)" using n inv(2) by simp
    moreover have "unat ?m \<le> 2048" using um inv(8) by simp
    ultimately show ?thesis using False s1(2) reader_offset [OF inv(1)]
      by (intro exI [of _ "br + ?m"] exI [of _ ?user] exI [of _ "OPEN_FILE_INC_OFFSET fd ?m s1"]) (auto simp: read_last_piece_def Let_def simp del: unat_plus_u32)
  qed
qed

text \<open>The first piece ends with the block the descriptor stands in.\<close>

definition first_room :: "u32 \<Rightarrow> nat" where
  "first_room off = (if unat off < 1983 then 1983 else 2048) - in_block (unat off)"

lemma first_piece:
  fixes off count f_size :: u32
  assumes "unat f_size = fsz" "fsz \<le> 0x40000000" "unat off \<le> fsz" "unat count < 0x80000000"
  defines "pos \<equiv> if off < INODE_FILE_DATA_SIZE then off else CALC_OFFSET_IN_FILE_BLOCK off"
  defines "room \<equiv> (if off < INODE_FILE_DATA_SIZE then INODE_FILE_DATA_SIZE else FS_BLOCK_SIZE) - pos"
  defines "size0 \<equiv> if count > room then room else count"
  defines "readSize \<equiv> if f_size <s off + size0 then f_size - off else size0"
  shows "unat pos = in_block (unat off)" "unat readSize = min (min (unat count) (first_room off)) (fsz - unat off)"
    "in_block (unat off) + first_room off = (if unat off < 1983 then 1983 else 2048)"
proof -
  have lt: "in_block (unat off) < (if unat off < 1983 then 1983 else 2048)" by (simp add: in_block_def)
  show p: "unat pos = in_block (unat off)"
    using in_file_block [of off] by (simp add: pos_def in_block_def word_less_nat_alt word_le_nat_alt)
  have room: "unat room = first_room off"
    using p lt by (simp add: room_def first_room_def word_less_nat_alt unat_sub word_le_nat_alt split: if_splits)
  then have size0: "unat size0 = min (unat count) (first_room off)" by (simp add: size0_def word_less_nat_alt)
  have "first_room off \<le> 2048" by (cases "unat off < 1983") (simp_all add: first_room_def)
  then have "unat size0 \<le> 2048" using size0 by linarith
  from rest_of_file [OF assms(1-3) this]
  show "unat readSize = min (min (unat count) (first_room off)) (fsz - unat off)" by (simp only: readSize_def size0)
  show "in_block (unat off) + first_room off = (if unat off < 1983 then 1983 else 2048)" using lt by (simp add: first_room_def)
qed

lemma after_first_room:
  "unat p = unat off + first_room off \<Longrightarrow> 1983 \<le> unat p \<and> in_block (unat p) = 0"
proof -
  assume p: "unat p = unat off + first_room off"
  show ?thesis
  proof (cases "unat off < 1983")
    case True
    then have "unat p = 1983" using p by (simp add: first_room_def in_block_def)
    then show ?thesis by (simp add: in_block_def)
  next
    case False
    then obtain j where j: "unat off = 1983 + j" using le_Suc_ex [of 1983 "unat off"] by auto
    then have "unat p = 1983 + 2048 * (j div 2048 + 1)" using p minus_mod_eq_mult_div [of j 2048] by (simp add: first_room_def in_block_def)
    then show ?thesis by (simp add: in_block_def)
  qed
qed

lemma quiet_no_transaction: "quiet ino s \<Longrightarrow> findTidByFileId ino s = TID_EMPTY"
  by (simp add: quiet_def findTidByFileId_def upt_rec)

text \<open>The read once the size of the file is known, from a state \<open>s1\<close> whose buffers alone have changed.\<close>

lemma read_pieces_copies:
  fixes count f_size off :: u32
  assumes F: "file_open ino a fsz (unat off) (unat count) s0" "unat f_size = fsz" "unat off \<le> fsz" "unat count < 0x80000000"
    and s1: "reader fd s0 off s1"
  shows "\<exists>n user' s'. read_pieces fd ino f_size off user count s1 = read_return n user' s' \<and>
    unat n = min (unat count) (fsz - unat off) \<and> copied s0 ino (unat off) user (unat n) user' \<and>
      (\<exists>pos'. reader fd s0 pos' s' \<and> unat pos' = unat off + unat n)"
proof -
  let ?pos = "if off < INODE_FILE_DATA_SIZE then off else CALC_OFFSET_IN_FILE_BLOCK off"
  let ?room = "(if off < INODE_FILE_DATA_SIZE then INODE_FILE_DATA_SIZE else FS_BLOCK_SIZE) - ?pos"
  let ?size0 = "if count > ?room then ?room else count"
  define readSize where "readSize = (if f_size <s off + ?size0 then f_size - off else ?size0)"
  have size: "fsz \<le> 0x40000000" "quiet ino s1" using F(1) s1 by (simp_all add: file_open_def reader_def)
  note piece = first_piece [OF F(2) size(1) F(3,4), folded readSize_def]
  obtain x s2 where s2: "file_block s0 ino (unat off) = Some x" "readFileBlock FsBuf ino off (Local init_logical_address) TID_EMPTY s1 = Some (0, Local a, s2)"
    "same_block (fs_buffer s2) x" "reader fd s0 off s2"
    using reader_block [OF F(1) s1, of "Local init_logical_address" off] F(3) by auto
  let ?user = "fsMemcpy user 0 (fs_buffer s2) (unat ?pos) (unat readSize)"
  let ?s3 = "OPEN_FILE_INC_OFFSET fd readSize s2" and ?off3 = "off + readSize" and ?tc = "count - readSize"
  let ?size3 = "if ?tc > FS_BLOCK_SIZE then FS_BLOCK_SIZE else ?tc"
  define rs where "rs = (if f_size <s ?off3 + ?size3 then f_size - ?off3 else ?size3)"
  have fits: "in_block (unat off) + unat readSize \<le> (if unat off < 1983 then 1983 else 2048)" using piece(2,3) by simp
  have user0: "copied s0 ino (unat off) user 0 user" by (simp add: copied_def)
  have user: "copied s0 ino (unat off) user (unat readSize) ?user"
    using copy_block [OF F(1) user0 _ s2(3), of "unat readSize"] s2(1) fits piece(1,2) F(3) by simp
  have s3: "reader fd s0 ?off3 ?s3" by (rule reader_inc [OF s2(4)])
  have off3: "unat ?off3 = unat off + unat readSize" using piece(2) F(3) size(1) by (subst unat_add_small) simp_all
  have tc: "unat ?tc = unat count - unat readSize" using piece(2) by (subst unat_sub) (simp_all add: word_le_nat_alt)
  have size3: "unat ?size3 = min (unat ?tc) 2048" by (simp add: word_less_nat_alt)
  have "unat ?off3 \<le> fsz" "unat ?size3 \<le> 2048" using off3 piece(2) F(3) size3 by linarith+
  from rest_of_file [OF F(2) size(1) this] have rs: "unat rs = min (min (unat ?tc) 2048) (fsz - unat ?off3)"
    by (simp only: rs_def size3)
  have le: "unat ?pos + unat readSize \<le> 2048" using fits piece(1) by (simp split: if_splits)
  have run: "read_pieces fd ino f_size off user count s1 = do {
       (e4, r4, bytesRead, tempCount4, readSize4, user4, s4) \<leftarrow>
         read_loop (Suc (unat ?tc div 2048)) fd ino f_size TID_EMPTY (Local a) readSize ?tc rs ?user ?s3;
       if e4 \<noteq> 0 then read_return (-1) user4 s4
       else read_last_piece fd ino TID_EMPTY r4 bytesRead tempCount4 readSize4 user4 s4 }"
    unfolding read_pieces_def Let_def quiet_no_transaction [OF size(2)] readSize_def [symmetric]
    using s2(2) le reader_offset [OF s3] by (simp add: rs_def cong: if_cong)
  show ?thesis
  proof (cases "unat ?tc = 0 \<or> unat rs = 0")
    case True
    then have "unat readSize = min (unat count) (fsz - unat off)" using piece(2) tc rs off3 by linarith
    moreover have "?tc = 0 \<or> rs = 0" using True by (simp only: word_unat_eq_iff unat_0)
    then have "read_pieces fd ino f_size off user count s1 = read_return readSize ?user ?s3"
      unfolding run by (auto simp: read_last_piece_def)
    ultimately show ?thesis using user s3 off3 by blast
  next
    case False
    then have "unat readSize = first_room off" using piece(2) tc rs off3 by linarith
    then have next_block: "1983 \<le> unat ?off3 \<and> in_block (unat ?off3) = 0" using after_first_room [of ?off3 off] off3 by simp
    have "reading fd ino fsz (unat off) (unat count) user s0 ?off3 readSize ?tc rs ?user ?s3"
      unfolding reading_def
    proof (intro conjI)
      show "unat readSize + unat ?tc = unat count" using tc piece(2) by linarith
      show "unat ?off3 + unat rs \<le> fsz" "unat rs \<le> 2048" using rs \<open>unat ?off3 \<le> fsz\<close> by linarith+
      show "min (unat ?tc) (unat rs) = min (unat ?tc) (min 2048 (fsz - unat ?off3))" using rs by linarith
    qed (use s3 off3 next_block user in blast)+
    from read_loop_reads [OF F(1,2) this, of "Local a" "Suc (unat ?tc div 2048)"]
    obtain pos' br tc' rs' user' s' r' where L: "read_loop (Suc (unat ?tc div 2048)) fd ino f_size TID_EMPTY (Local a) readSize ?tc rs ?user ?s3 =
        Some (0, r', br, tc', rs', user', s')"
      "reading fd ino fsz (unat off) (unat count) user s0 pos' br tc' rs' user' s'" "\<not> (tc' > FS_BLOCK_SIZE \<and> rs' = FS_BLOCK_SIZE)"
      "r' = Local init_logical_address \<or> r' = Local a" by blast
    have "read_pieces fd ino f_size off user count s1 = read_last_piece fd ino TID_EMPTY r' br tc' rs' user' s'"
      unfolding run L(1) by simp
    then show ?thesis using read_last [OF F(1,3) L(2,4,3) F(4)] by simp
  qed
qed

section \<open>Property\<close>

text \<open>
  C1: \<open>nandfs_read\<close> returns the bytes of the file.  For a descriptor that is open for reading on a file outside of
  transactions, with no cache and the lock free: if the blocks from the descriptor's offset on can be read, up to
  the count or the end of the file, the result is the count or what is left of the file, whichever is less; the
  user's buffer holds exactly these consecutive bytes of the file, over the inode, the direct and the indirect blocks, and
  is unchanged behind them; the descriptor has moved behind them, the lock is free again, and the contents of all
  files, the other descriptors and the vnodes are unchanged.
\<close>
theorem nandfs_read_returns_bytes:
  fixes s :: "'z fs_scheme"
  assumes "file_open (GET_FILE_ID_BY_FD fd s) a fsz (unat off) (unat count) s" "store_ok s" "fs_mutex s = 0"
    and "verifyFd fd s = 0" "IS_RDONLY (f_flags (open_files s fd))" "\<not> IS_DIRECTORY (f_ftype (open_files s fd))"
    and "unat off \<le> fsz" "0 \<le>s count" "f_offset (open_files s fd) = off"
  shows "\<exists>n user' s' pos'. nandfs_read fd user count s = Some ((n, user'), s') \<and> unat n = min (unat count) (fsz - unat off) \<and>
    (\<forall>i. user' i = (if i < unat n then file_byte_at s (GET_FILE_ID_BY_FD fd s) (unat off + i) else user i)) \<and>
    reader fd s pos' s' \<and> unat pos' = unat off + unat n"
proof -
  let ?s = "s\<lparr>fs_mutex := 1\<rparr>" and ?ino = "GET_FILE_ID_BY_FD fd s"
  have ino: "GET_FILE_ID_BY_FD fd ?s = ?ino" "verifyFd fd ?s = verifyFd fd s"
    by (simp_all add: GET_FILE_ID_BY_FD_def verifyFd_def IS_OPEN_FILE_ENTRY_EMPTY_def IS_USER_LEGAL_def)
  have F: "file_open ?ino a fsz (unat off) (unat count) ?s" using assms(1) by (simp add: file_open_def)
  then obtain d where d: "inode_at ?s ?ino = Some (a, d)" "unat (INODE_GET_NBYTES d) = fsz" by (auto simp: file_open_def)
  obtain s1 where s1: "getFileSize ?ino ?s = Some (INODE_GET_NBYTES d, s1)" "store_ok s1" "reads_into FsBuf ?s s1"
    using getFileSize_reads [OF _ _ _ _ _ d(1)] F assms(2) by (auto simp: file_open_def)
  have "(open_files s fd)\<lparr>f_offset := off\<rparr> = open_files s fd" using assms(9) by (cases "open_files s fd") simp
  then have "reader fd ?s off ?s" using assms(2) by (simp add: reader_def)
  from reader_reads [OF this s1(2,3)] have r1: "reader fd ?s off s1" .
  have count: "unat count < 0x80000000" by (rule count_positive [OF assms(8)])
  from read_pieces_copies [OF F d(2) assms(7) count r1, of user]
  obtain n user' s2 pos' where R: "read_pieces fd ?ino (INODE_GET_NBYTES d) off user count s1 = read_return n user' s2"
    "unat n = min (unat count) (fsz - unat off)" "copied ?s ?ino (unat off) user (unat n) user'" "reader fd ?s pos' s2"
    "unat pos' = unat off + unat n" by blast
  have "fsz \<le> 0x40000000" using F by (simp add: file_open_def)
  then have le: "off \<le>s INODE_GET_NBYTES d" using d(2) assms(7) by (subst signed_small) simp_all
  have "nandfs_read fd user count s = read_return n user' s2"
    using assms(3-6,8) ino s1(1) le R(1) reader_offset [OF r1] by (simp add: nandfs_read_def FS_MUTEX_LOCK_def)
  moreover have "read_return n user' s2 = Some ((n, user'), s2\<lparr>fs_mutex := 0\<rparr>)" using R(4) by (simp add: read_return_def SYS_RETURN_def reader_def)
  moreover have "reader fd s pos' (s2\<lparr>fs_mutex := 0\<rparr>)" using R(4) assms(3) by (simp add: reader_def)
  moreover have "\<forall>i. user' i = (if i < unat n then file_byte_at s ?ino (unat off + i) else user i)"
    using R(3) by (simp add: copied_def file_byte_at_def)
  ultimately show ?thesis using R(2,5)
    by (intro exI [of _ n] exI [of _ user'] exI [of _ "s2\<lparr>fs_mutex := 0\<rparr>"] exI [of _ pos']) simp
qed

section \<open>Witness\<close>

text \<open>
  One written page that is inode 0, inode 1 and the second block of both, as in \<open>FilePath\<close>, with a size of 3000
  bytes; descriptor 0 has file 1 open for reading at the last byte of the inode's data.
\<close>

definition inode_page :: buf where
  "inode_page = setECC (INODE_SET_NBYTES (addr_put ((\<lambda>_. 0xff)(0 := 0x42)) 1996 addr_3_10) 3000)"

definition read_fs :: fs where
  "read_fs = tree_fs\<lparr>cells := (\<lambda>_ _. 0xff)(5130 := inode_page),
     open_files := (open_files tree_fs)(0 := \<lparr>f_flags = NANDFS_O_RDONLY, f_uid = 1, f_offset = 1982, f_vnode = 0, f_ftype = FTYPE_FILE\<rparr>),
     vnodes := (vnodes tree_fs)(0 := \<lparr>v_ino_num = 1, nReferences = 1\<rparr>)\<rparr>"

lemma inode_page_bytes:
  "inode_page 0 = 0x42" "inode_page 1 = 0xff" "inode_page 1982 = 0xff" "addr_at inode_page 1996 = addr_3_10" "INODE_GET_NBYTES inode_page = 3000"
proof -
  have "GET_UINT32 inode_page 0 1984 = GET_UINT32 (SET_UINT32 (addr_put ((\<lambda>_. 0xff)(0 := 0x42)) 1996 addr_3_10) 0 1984 3000) 0 1984"
    by (rule GET_UINT32_cong) (simp add: inode_page_def INODE_SET_NBYTES_def)
  then show "INODE_GET_NBYTES inode_page = 3000" by (simp add: INODE_GET_NBYTES_def)
  show "inode_page 0 = 0x42" "inode_page 1 = 0xff" "inode_page 1982 = 0xff" "addr_at inode_page 1996 = addr_3_10"
    by (simp_all add: inode_page_def INODE_SET_NBYTES_def addr_at_def addr_put_def SET_UINT32_byte)
qed

lemma read_fs_sel:
  "fs_mutex read_fs = 0" "FS_CACHE_BUFFERS read_fs = 0" "valid_eus read_fs = valid_eus blank_seq" "transactions read_fs = transactions blank_fs"
  "rd_fail read_fs = (\<lambda>_. False)" "cells read_fs = (\<lambda>_ _. 0xff)(5130 := inode_page)" "fps read_fs" "FS_GET_INO0_ADDR read_fs = addr_3_10"
  "open_files read_fs 0 = \<lparr>f_flags = NANDFS_O_RDONLY, f_uid = 1, f_offset = 1982, f_vnode = 0, f_ftype = FTYPE_FILE\<rparr>"
  "vnodes read_fs 0 = \<lparr>v_ino_num = 1, nReferences = 1\<rparr>" "current_user read_fs = 1"
  by (simp_all add: read_fs_def tree_fs_def blank_fs_def seq.extend_def FS_GET_INO0_ADDR_def)

lemma read_fs_store: "store_ok read_fs" "stored_block read_fs addr_3_10 = Some inode_page" "quiet n read_fs \<longleftrightarrow> n \<noteq> INO_NUM_EMPTY"
proof -
  have "plain_page addr_3_10 read_fs = Some 5130"
    by (simp add: plain_page_def read_fs_def tree_fs_def GET_SEG_MAP_SLOT_FOR_SEG_def IS_STATE_RECLAMATION_def CALC_ADDRESS_def)
  moreover have "unit_fine 5130 read_fs"
    by (simp add: unit_fine_def read_fs_sel eu_readable_def eu_good_def)
  ultimately show "stored_block read_fs addr_3_10 = Some inode_page"
    by (simp add: stored_block_def read_fs_sel IS_ADDRESS_EMPTY_def IS_CACHED_ADDR_def) (simp add: inode_page_def page_sound_setECC)
  show "store_ok read_fs" by (simp add: store_ok_def eus_ok_def read_fs_sel blank_seq_sel)
  show "quiet n read_fs \<longleftrightarrow> n \<noteq> INO_NUM_EMPTY" by (auto simp: quiet_def read_fs_sel intro: exI [of _ 0])
qed

lemma read_fs_inode: "inode_at read_fs 1 = Some (addr_3_10, inode_page)"
  by (simp add: inode_at_def read_fs_sel read_fs_store inode_offset_def inode_page_bytes file_path_def path_addr_def IS_ADDR_EMPTY_def) (code_simp)

lemma read_fs_blocks:
  "k < 1983 \<Longrightarrow> file_block read_fs 1 k = Some (buf_fill inode_page 1983 65 0xff)"
  "1983 \<le> k \<Longrightarrow> k \<le> 3000 \<Longrightarrow> file_block read_fs 1 k = Some inode_page"
  by (simp_all add: file_block_def read_fs_inode inode_page_bytes file_path_def read_fs_store)

lemma nandfs_read_returns_bytes_witness:
  "\<exists>user' s'. nandfs_read 0 (\<lambda>_. 7) 3 read_fs = Some ((3, user'), s') \<and> user' 0 = 0xff \<and> user' 1 = 0x42 \<and> user' 2 = 0xff \<and> user' 3 = 7"
proof -
  have ino: "GET_FILE_ID_BY_FD 0 read_fs = 1" by (simp add: GET_FILE_ID_BY_FD_def IS_OPEN_FILE_ENTRY_EMPTY_def read_fs_sel)
  have "file_open 1 addr_3_10 3000 1982 3 read_fs"
    unfolding file_open_def
  proof (intro conjI allI impI)
    fix k :: nat assume "1982 \<le> k \<and> k \<le> 1982 + 3 \<and> k \<le> 3000"
    then show "file_block read_fs 1 k \<noteq> None" using read_fs_blocks [of k] by (cases "k < 1983") auto
  qed (simp_all add: read_fs_store read_fs_inode inode_page_bytes)
  moreover have "IS_FD_LEGAL 0" by code_simp
  then have "verifyFd 0 read_fs = 0"
    by (simp add: verifyFd_def IS_OPEN_FILE_ENTRY_EMPTY_def IS_USER_LEGAL_def read_fs_sel)
  moreover have "IS_RDONLY NANDFS_O_RDONLY" "\<not> IS_DIRECTORY FTYPE_FILE" "0 \<le>s (3 :: u32)" by code_simp+
  ultimately have "\<exists>n user' s' pos'. nandfs_read 0 (\<lambda>_. 7) 3 read_fs = Some ((n, user'), s') \<and> unat n = min (unat (3 :: u32)) (3000 - unat (1982 :: u32)) \<and>
      (\<forall>i. user' i = (if i < unat n then file_byte_at read_fs (GET_FILE_ID_BY_FD 0 read_fs) (unat (1982 :: u32) + i) else 7)) \<and>
      reader 0 read_fs pos' s' \<and> unat pos' = unat (1982 :: u32) + unat n"
    by (intro nandfs_read_returns_bytes [of 0 read_fs addr_3_10 3000 1982 3 "\<lambda>_. 7"]) (simp_all add: ino read_fs_store read_fs_sel)
  then obtain n user' s' where R: "nandfs_read 0 (\<lambda>_. 7) 3 read_fs = Some ((n, user'), s')" "unat n = 3"
    "\<And>i. user' i = (if i < unat n then file_byte_at read_fs 1 (1982 + i) else 7)" by (auto simp: ino)
  have "n = 3" using R(2) by (simp add: word_unat_eq_iff)
  then show ?thesis using R(1) R(3) [of 0] R(3) [of 1] R(3) [of 2] R(3) [of 3]
    by (simp add: file_byte_at_def read_fs_blocks in_block_def inode_page_bytes inode_page_bytes(2) [simplified])
qed

end
