(* ===== verification/Descriptors.thy ===== *)
theory Descriptors
  imports Api Lru
begin

text \<open>
  Invariants of the tables of open files and vnodes.  \<open>tables_ok\<close>: every open entry points to a vnode, a
  vnode counts the entries that point to it and is free exactly when there are none, and no file has two
  vnodes.  \<open>writers_ok\<close>: a file that is open for writing is open for one user only, and for writing only once.
\<close>

section \<open>The invariants\<close>

definition holds :: "u32 \<Rightarrow> u32 \<Rightarrow> 'z fs_scheme \<Rightarrow> bool" where
  "holds fd v s = (fd < 8 \<and> f_vnode (open_files s fd) = v)"

definition holders :: "u32 \<Rightarrow> 'z fs_scheme \<Rightarrow> u32 set" where
  "holders v s = {fd. holds fd v s}"

definition tables_ok :: "'z fs_scheme \<Rightarrow> bool" where
  "tables_ok s = ((\<forall>fd. fd < 8 \<longrightarrow> f_vnode (open_files s fd) = VNODE_EMPTY \<or> VNODE_OK (f_vnode (open_files s fd))) \<and>
     (\<forall>v. VNODE_OK v \<longrightarrow> nReferences (vnodes s v) = of_nat (card (holders v s)) \<and>
        (v_ino_num (vnodes s v) = INO_NUM_EMPTY \<longleftrightarrow> holders v s = {})) \<and>
     (\<forall>v w. VNODE_OK v \<longrightarrow> VNODE_OK w \<longrightarrow> v_ino_num (vnodes s v) = v_ino_num (vnodes s w) \<longrightarrow>
        v_ino_num (vnodes s v) \<noteq> INO_NUM_EMPTY \<longrightarrow> v = w))"

definition writers_ok :: "'z fs_scheme \<Rightarrow> bool" where
  "writers_ok s = (\<forall>fd gd v. holds fd v s \<longrightarrow> holds gd v s \<longrightarrow> v \<noteq> VNODE_EMPTY \<longrightarrow> fd \<noteq> gd \<longrightarrow>
     IS_WRONLY (f_flags (open_files s fd)) \<longrightarrow>
     \<not> IS_WRONLY (f_flags (open_files s gd)) \<and> f_uid (open_files s gd) = f_uid (open_files s fd))"

lemma upd_simps [simp]:
  "open_files (upd_file fd f s) = (open_files s)(fd := f (open_files s fd))" "vnodes (upd_file fd f s) = vnodes s"
  "open_files (upd_vnode v g s) = open_files s" "vnodes (upd_vnode v g s) = (vnodes s)(v := g (vnodes s v))"
  "current_user (upd_file fd f s) = current_user s" "current_user (upd_vnode v g s) = current_user s"
  by (simp_all add: upd_file_def upd_vnode_def)

lemma VNODE_EMPTY_not_ok [simp]: "\<not> VNODE_OK VNODE_EMPTY"
  by (simp add: VNODE_OK_def)

lemma finite_holders [simp]: "finite (holders v s)"
  by (rule finite_subset [of _ UNIV]) auto

lemma card_holders_small: "card (holders v s) \<le> 8"
proof -
  have "unat ` holders v s \<subseteq> {..<8}" by (auto simp: holders_def holds_def word_less_nat_alt)
  then have "card (unat ` holders v s) \<le> 8" by (metis card_lessThan card_mono finite_lessThan)
  moreover have "inj_on unat (holders v s)" by (rule inj_onI) (simp add: word_unat_eq_iff)
  ultimately show ?thesis by (simp add: card_image)
qed

lemma of_nat_card_holders: "(of_nat (card (holders v s)) :: u32) = 0 \<longleftrightarrow> holders v s = {}"
  using card_holders_small [of v s] by (simp add: unat_eq_0 [symmetric] unat_of_nat take_bit_nat_eq_self)


section \<open>The searches of the tables\<close>

lemma vnode_loop_found:
  "vnode_loop is ino s = v \<Longrightarrow> v \<noteq> VNODE_EMPTY \<Longrightarrow> \<exists>i \<in> set is. v = of_nat i \<and> v_ino_num (vnodes s v) = ino"
  by (induction "is") (auto split: if_splits)

lemma vnode_loop_none:
  "vnode_loop is ino s = VNODE_EMPTY \<Longrightarrow> \<forall>i \<in> set is. i < 6 \<Longrightarrow> i \<in> set is \<Longrightarrow> v_ino_num (vnodes s (of_nat i)) \<noteq> ino"
  by (induction "is") (auto split: if_splits simp: of_nat_eq_0_iff unat_of_nat take_bit_nat_eq_self dest!: arg_cong [of _ _ unat])

lemma VNODE_OK_nat: "VNODE_OK v \<Longrightarrow> \<exists>i. i < 6 \<and> v = of_nat i"
  by (intro exI [of _ "unat v"]) (simp add: VNODE_OK_def word_less_nat_alt)

lemma getVnode_found:
  "getVnodeByInodeNum ino s = v \<Longrightarrow> v \<noteq> VNODE_EMPTY \<Longrightarrow> VNODE_OK v \<and> v_ino_num (vnodes s v) = ino"
  using vnode_loop_found [of "[0..<6]" ino s v]
  by (auto simp: getVnodeByInodeNum_def VNODE_OK_def word_less_nat_alt unat_of_nat take_bit_nat_eq_self)

lemma getVnode_none: "getVnodeByInodeNum ino s = VNODE_EMPTY \<Longrightarrow> VNODE_OK v \<Longrightarrow> v_ino_num (vnodes s v) \<noteq> ino"
  using vnode_loop_none [of "[0..<6]" ino s] VNODE_OK_nat [of v] by (auto simp: getVnodeByInodeNum_def)

lemma free_entry_loop_found:
  "free_entry_loop is s = fd \<Longrightarrow> fd \<noteq> FD_EMPTY \<Longrightarrow> \<exists>i \<in> set is. fd = of_nat i \<and> IS_OPEN_FILE_ENTRY_EMPTY fd s"
  by (induction "is") (auto split: if_splits)

lemma getFreeOpenFileEntry_found:
  "getFreeOpenFileEntry s = fd \<Longrightarrow> fd \<noteq> FD_EMPTY \<Longrightarrow> fd < 8 \<and> f_vnode (open_files s fd) = VNODE_EMPTY"
  using free_entry_loop_found [of "[0..<8]" s fd]
  by (auto simp: getFreeOpenFileEntry_def IS_OPEN_FILE_ENTRY_EMPTY_def word_less_nat_alt unat_of_nat take_bit_nat_eq_self)

lemma conflict_loop_all:
  "\<not> conflict_loop is v flags s \<Longrightarrow> i \<in> set is \<Longrightarrow> f_vnode (open_files s (of_nat i)) = v \<Longrightarrow>
   (IS_RDONLY flags \<and> IS_WRONLY (f_flags (open_files s (of_nat i))) \<longrightarrow> current_user s = f_uid (open_files s (of_nat i))) \<and>
   (IS_WRONLY flags \<longrightarrow> current_user s = f_uid (open_files s (of_nat i)) \<and> \<not> IS_WRONLY (f_flags (open_files s (of_nat i))))"
  by (induction "is") (auto split: if_splits)

lemma no_conflict:
  "\<not> isFlagsConflict v flags s \<Longrightarrow> holds fd v s \<Longrightarrow>
   (IS_RDONLY flags \<and> IS_WRONLY (f_flags (open_files s fd)) \<longrightarrow> current_user s = f_uid (open_files s fd)) \<and>
   (IS_WRONLY flags \<longrightarrow> current_user s = f_uid (open_files s fd) \<and> \<not> IS_WRONLY (f_flags (open_files s fd)))"
  using conflict_loop_all [of "[0..<8]" v flags s "unat fd"]
  by (simp add: isFlagsConflict_def holds_def word_less_nat_alt)

section \<open>Opening and releasing an entry\<close>

lemma small_legal:
  fixes fd :: u32
  assumes "fd < 8"
  shows "IS_FD_LEGAL fd" "\<not> IS_NEGATIVE fd" "fd \<noteq> FD_EMPTY"
proof -
  have "list_all (\<lambda>i. IS_FD_LEGAL (of_nat i) \<and> \<not> IS_NEGATIVE (of_nat i) \<and> of_nat i \<noteq> FD_EMPTY) [0..<8]"
    by code_simp
  then have "\<forall>i \<in> set [0..<8]. IS_FD_LEGAL (of_nat i) \<and> \<not> IS_NEGATIVE (of_nat i) \<and> of_nat i \<noteq> FD_EMPTY"
    by (simp only: list_all_iff)
  from bspec [OF this, of "unat fd"] have "IS_FD_LEGAL fd \<and> \<not> IS_NEGATIVE fd \<and> fd \<noteq> FD_EMPTY"
    using assms by (simp add: word_less_nat_alt)
  then show "IS_FD_LEGAL fd" "\<not> IS_NEGATIVE fd" "fd \<noteq> FD_EMPTY" by auto
qed

lemma IS_FD_LEGAL_small: "IS_FD_LEGAL fd \<Longrightarrow> fd < 8"
  using sint_lt [of fd] by (auto simp: IS_FD_LEGAL_def word_sless_alt word_sle_eq word_less_def uint_sint take_bit_int_eq_self)

lemma holders_setFentry:
  assumes "setFentry fd flags off v t ino s = Some s'" "f_vnode (open_files s fd) = VNODE_EMPTY"
  shows "holders v s' = insert fd (holders v s)" "fd \<notin> holders v s" "w \<noteq> v \<Longrightarrow> w \<noteq> VNODE_EMPTY \<Longrightarrow> holders w s' = holders w s"
  using assms by (auto simp: setFentry_def assert_c_def holders_def holds_def split: if_splits)

lemma setFentry_tables:
  assumes ok: "tables_ok s" and set: "setFentry fd flags off v t ino s = Some s'"
    and free: "f_vnode (open_files s fd) = VNODE_EMPTY" and ino: "ino \<noteq> INO_NUM_EMPTY"
    and v: "v_ino_num (vnodes s v) = ino \<or> v_ino_num (vnodes s v) = INO_NUM_EMPTY \<and> (\<forall>w. VNODE_OK w \<longrightarrow> v_ino_num (vnodes s w) \<noteq> ino)"
  shows "tables_ok s'"
proof -
  have s': "fd < 8" "VNODE_OK v" "s' = upd_vnode v (\<lambda>x. \<lparr>v_ino_num = ino, nReferences = nReferences x + 1\<rparr>)
      (upd_file fd (\<lambda>_. \<lparr>f_flags = flags, f_uid = current_user s, f_offset = off, f_vnode = v, f_ftype = t\<rparr>) s)"
    using set by (auto simp: setFentry_def assert_c_def split: if_splits)
  note h = holders_setFentry [OF set free]
  have "card (holders v s') = Suc (card (holders v s))" using h by simp
  then have refs: "nReferences (vnodes s' v) = of_nat (card (holders v s'))" "v_ino_num (vnodes s' v) = ino"
    using ok s' by (auto simp: tables_ok_def)
  have others: "\<And>w. w \<noteq> v \<Longrightarrow> vnodes s' w = vnodes s w" using s'(3) by simp
  have inj: "w = x" if "VNODE_OK w" "VNODE_OK x" "v_ino_num (vnodes s w) = v_ino_num (vnodes s x)" "v_ino_num (vnodes s w) \<noteq> INO_NUM_EMPTY" for w x
    using ok that unfolding tables_ok_def by blast
  show ?thesis
    unfolding tables_ok_def
  proof (intro conjI allI impI)
    fix gd :: u32 assume "gd < 8"
    then show "f_vnode (open_files s' gd) = VNODE_EMPTY \<or> VNODE_OK (f_vnode (open_files s' gd))"
      using ok s' by (auto simp: tables_ok_def)
  next
    fix w assume w: "VNODE_OK w"
    then have "w \<noteq> VNODE_EMPTY" by auto
    then show "nReferences (vnodes s' w) = of_nat (card (holders w s'))"
      "v_ino_num (vnodes s' w) = INO_NUM_EMPTY \<longleftrightarrow> holders w s' = {}"
      using ok w refs others h ino by (cases "w = v"; auto simp: tables_ok_def)+
  next
    fix w x assume "VNODE_OK w" "VNODE_OK x" "v_ino_num (vnodes s' w) = v_ino_num (vnodes s' x)" "v_ino_num (vnodes s' w) \<noteq> INO_NUM_EMPTY"
    then show "w = x" using inj [of w x] inj [of v x] inj [of w v] refs(2) others [of w] others [of x] v s'(2) ino
      by (cases "w = v"; cases "x = v") auto
  qed
qed


lemma setFentry_writers:
  assumes ok: "writers_ok s" and set: "setFentry fd flags off v t ino s = Some s'"
    and free: "f_vnode (open_files s fd) = VNODE_EMPTY" and mode: "IS_RDONLY flags \<or> IS_WRONLY flags"
    and noc: "\<And>gd. holds gd v s \<Longrightarrow>
      (IS_RDONLY flags \<and> IS_WRONLY (f_flags (open_files s gd)) \<longrightarrow> current_user s = f_uid (open_files s gd)) \<and>
      (IS_WRONLY flags \<longrightarrow> current_user s = f_uid (open_files s gd) \<and> \<not> IS_WRONLY (f_flags (open_files s gd)))"
  shows "writers_ok s'"
proof -
  have s': "VNODE_OK v" "open_files s' = (open_files s)(fd := \<lparr>f_flags = flags, f_uid = current_user s, f_offset = off, f_vnode = v, f_ftype = t\<rparr>)"
    using set by (auto simp: setFentry_def assert_c_def split: if_splits)
  show ?thesis
    unfolding writers_ok_def
  proof (intro allI impI)
    fix gd hd w
    assume *: "holds gd w s'" "holds hd w s'" "w \<noteq> VNODE_EMPTY" "gd \<noteq> hd" "IS_WRONLY (f_flags (open_files s' gd))"
    consider "gd = fd" | "hd = fd" | "gd \<noteq> fd" "hd \<noteq> fd" by blast
    then show "\<not> IS_WRONLY (f_flags (open_files s' hd)) \<and> f_uid (open_files s' hd) = f_uid (open_files s' gd)"
    proof cases
      case 1
      then have "holds hd v s" using * s' by (simp add: holds_def)
      then show ?thesis using 1 * s' noc by simp
    next
      case 2
      then have "holds gd v s" using * s' by (simp add: holds_def)
      then show ?thesis using 2 * s' noc [of gd] mode by auto
    next
      case 3
      then show ?thesis using * s'(2) ok unfolding writers_ok_def holds_def by auto
    qed
  qed
qed

lemma release_entry_simps:
  "open_files (release_entry fd s) = (open_files s)(fd := \<lparr>f_flags = 0, f_uid = 0, f_offset = 0, f_vnode = VNODE_EMPTY, f_ftype = 0\<rparr>)"
  "vnodes (release_entry fd s) = (vnodes s)(f_vnode (open_files s fd) :=
     (if nReferences (vnodes s (f_vnode (open_files s fd))) = 1 then \<lparr>v_ino_num = INO_NUM_EMPTY, nReferences = 0\<rparr>
      else (vnodes s (f_vnode (open_files s fd)))\<lparr>nReferences := nReferences (vnodes s (f_vnode (open_files s fd))) - 1\<rparr>))"
  by (auto simp: release_entry_def init_file_entry_def init_vnode_def Let_def fun_eq_iff)

lemma holders_release:
  assumes "fd < 8" "f_vnode (open_files s fd) = v" "VNODE_OK v"
  shows "holders v (release_entry fd s) = holders v s - {fd}" "fd \<in> holders v s"
    "w \<noteq> v \<Longrightarrow> w \<noteq> VNODE_EMPTY \<Longrightarrow> holders w (release_entry fd s) = holders w s"
  using assms by (auto simp: release_entry_simps(1) holders_def holds_def)

lemma release_entry_tables:
  assumes ok: "tables_ok s" and fd: "fd < 8" "f_vnode (open_files s fd) = v" "v \<noteq> VNODE_EMPTY"
  shows "tables_ok (release_entry fd s)"
proof -
  let ?s = "release_entry fd s"
  have v: "VNODE_OK v" using ok fd by (auto simp: tables_ok_def)
  note h = holders_release [OF fd(1,2) v]
  have "card (holders v s) = Suc (card (holders v ?s))" using card.remove [OF finite_holders h(2)] h(1) by simp
  then have count: "nReferences (vnodes s v) = of_nat (card (holders v ?s)) + 1" using ok v by (simp add: tables_ok_def)
  have one: "nReferences (vnodes s v) = 1 \<longleftrightarrow> holders v ?s = {}" using count of_nat_card_holders [of v ?s] by simp
  have at: "nReferences (vnodes ?s v) = of_nat (card (holders v ?s))" "v_ino_num (vnodes ?s v) = (if holders v ?s = {} then INO_NUM_EMPTY else v_ino_num (vnodes s v))"
    using count one fd by (auto simp: release_entry_simps)
  have others: "\<And>w. w \<noteq> v \<Longrightarrow> vnodes ?s w = vnodes s w" using fd by (simp add: release_entry_simps)
  have inj: "w = x" if "VNODE_OK w" "VNODE_OK x" "v_ino_num (vnodes s w) = v_ino_num (vnodes s x)" "v_ino_num (vnodes s w) \<noteq> INO_NUM_EMPTY" for w x
    using ok that unfolding tables_ok_def by blast
  have used: "v_ino_num (vnodes s v) \<noteq> INO_NUM_EMPTY" using ok v h(2) by (auto simp: tables_ok_def)
  show ?thesis
    unfolding tables_ok_def
  proof (intro conjI allI impI)
    fix gd :: u32 assume "gd < 8"
    then show "f_vnode (open_files ?s gd) = VNODE_EMPTY \<or> VNODE_OK (f_vnode (open_files ?s gd))"
      using ok by (auto simp: tables_ok_def release_entry_simps)
  next
    fix w assume w: "VNODE_OK w"
    then have "w \<noteq> VNODE_EMPTY" by auto
    then show "nReferences (vnodes ?s w) = of_nat (card (holders w ?s))"
      "v_ino_num (vnodes ?s w) = INO_NUM_EMPTY \<longleftrightarrow> holders w ?s = {}"
      using ok w at others [of w] h(3) [of w] used unfolding tables_ok_def by (cases "w = v"; simp)+
  next
    fix w x assume *: "VNODE_OK w" "VNODE_OK x" "v_ino_num (vnodes ?s w) = v_ino_num (vnodes ?s x)" "v_ino_num (vnodes ?s w) \<noteq> INO_NUM_EMPTY"
    have "v_ino_num (vnodes ?s y) = v_ino_num (vnodes s y)" if "v_ino_num (vnodes ?s y) \<noteq> INO_NUM_EMPTY" for y
      using that at(2) others by (cases "y = v") (auto split: if_splits)
    then show "w = x" using * inj by metis
  qed
qed

lemma release_entry_writers:
  assumes "writers_ok s"
  shows "writers_ok (release_entry fd s)"
proof -
  have "holds gd v s \<and> open_files (release_entry fd s) gd = open_files s gd"
    if "holds gd v (release_entry fd s)" "v \<noteq> VNODE_EMPTY" for gd v
    using that by (cases "gd = fd") (simp_all add: holds_def release_entry_simps(1))
  then show ?thesis using assms unfolding writers_ok_def by metis
qed

text \<open>Closing a stream releases its entry.\<close>

lemma init_dirstream_releases:
  assumes "DS_OK d" "ds_fd (dirstreams s d) = fd" "fd < 8" "VNODE_OK (f_vnode (open_files s fd))"
  shows "init_dirstream d s = Some (upd_ds d (\<lambda>_. \<lparr>ds_fd = 0xffffffff, ds_ino_addr = init_logical_address,
     ds_de = init_struct (ds_de (dirstreams s d)) 0 256\<rparr>) (release_entry fd s))"
proof -
  have "fd \<noteq> FD_EMPTY" using small_legal [OF assms(3)] by simp
  then show ?thesis using assms
    by (auto simp: init_dirstream_def assert_c_def release_entry_def Let_def init_vnode_def upd_vnode_def)
qed


section \<open>Properties\<close>

text \<open>The reasons why a file that is not to be appended to cannot be opened.\<close>

definition open_refused :: "u32 \<Rightarrow> u32 \<Rightarrow> u32 \<Rightarrow> 'z fs_scheme \<Rightarrow> bool" where
  "open_refused ino_num flags f_type s =
     (IS_CREAT_EXCL flags \<or> IS_DIRECTORY f_type \<and> IS_WRONLY flags \<or>
      (if getVnodeByInodeNum ino_num s \<noteq> VNODE_EMPTY then isFlagsConflict (getVnodeByInodeNum ino_num s) flags s
       else getFreeVnode s = VNODE_EMPTY) \<or>
      getFreeOpenFileEntry s = FD_EMPTY)"

lemma negative_results: "IS_NEGATIVE 0xffffffff" "IS_NEGATIVE (- 1)" "IS_NEGATIVE (- 2)"
  by code_simp+

lemma setOpenFentry_refused:
  "\<not> IS_APPEND flags \<Longrightarrow> open_refused ino flags t s \<Longrightarrow> \<exists>r. setOpenFentry ino flags mode t s = Some (r, s) \<and> IS_NEGATIVE r"
  by (auto simp: setOpenFentry_def open_refused_def Let_def negative_results)

lemma setOpenFentry_opens:
  assumes "\<not> IS_APPEND flags" "\<not> open_refused ino flags t s"
  shows "\<exists>fd v s'. setOpenFentry ino flags mode t s = Some (fd, s') \<and> setFentry fd flags 0 v t ino s = Some s' \<and>
    fd < 8 \<and> f_vnode (open_files s fd) = VNODE_EMPTY \<and> VNODE_OK v \<and>
    (v_ino_num (vnodes s v) = ino \<and> \<not> isFlagsConflict v flags s \<or>
     v_ino_num (vnodes s v) = INO_NUM_EMPTY \<and> (\<forall>w. VNODE_OK w \<longrightarrow> v_ino_num (vnodes s w) \<noteq> ino))"
proof -
  define v where "v = (if getVnodeByInodeNum ino s \<noteq> VNODE_EMPTY then getVnodeByInodeNum ino s else getFreeVnode s)"
  define fd where "fd = getFreeOpenFileEntry s"
  have fd: "fd < 8" "f_vnode (open_files s fd) = VNODE_EMPTY"
    using getFreeOpenFileEntry_found [of s fd] assms(2) by (auto simp: open_refused_def fd_def)
  have v: "VNODE_OK v" "v_ino_num (vnodes s v) = ino \<and> \<not> isFlagsConflict v flags s \<or>
     v_ino_num (vnodes s v) = INO_NUM_EMPTY \<and> (\<forall>w. VNODE_OK w \<longrightarrow> v_ino_num (vnodes s w) \<noteq> ino)"
    using assms(2) getVnode_found [of ino s] getVnode_found [of INO_NUM_EMPTY s v] getVnode_none [of ino s]
    by (auto simp: open_refused_def v_def getFreeVnode_def split: if_splits)
  obtain s' where s': "setFentry fd flags 0 v t ino s = Some s'" using fd v by (simp add: setFentry_def assert_c_def)
  have "v \<noteq> VNODE_EMPTY" using v(1) by auto
  then have "setOpenFentry ino flags mode t s = Some (fd, s')"
    using assms s' small_legal(3) [OF fd(1)] unfolding setOpenFentry_def open_refused_def v_def [symmetric] fd_def [symmetric] Let_def
    by (auto simp: v_def split: if_splits)
  then show ?thesis using s' fd v by blast
qed

text \<open>
  C10: opening a file (\<open>setOpenFentry\<close>, not for appending, with an access mode) keeps the reference counts
  of the vnodes and the single-writer rule, and ends in one of two ways.  When the open is refused (exclusive
  creation, a directory for writing, a conflict with the present holders of the file, no vnode or no entry
  left) the result is negative and nothing changes.  Otherwise the result is a legal descriptor whose entry
  was free and now holds the file at offset 0, with the flags and the current user.
\<close>
theorem setOpenFentry_keeps_tables:
  assumes "tables_ok s" "writers_ok s" "ino \<noteq> INO_NUM_EMPTY" "IS_RDONLY flags \<or> IS_WRONLY flags" "\<not> IS_APPEND flags"
  shows "\<exists>r s'. setOpenFentry ino flags mode t s = Some (r, s') \<and> tables_ok s' \<and> writers_ok s' \<and>
    (if open_refused ino flags t s then IS_NEGATIVE r \<and> s' = s
     else IS_FD_LEGAL r \<and> IS_OPEN_FILE_ENTRY_EMPTY r s \<and> GET_FILE_ID_BY_FD r s' = ino \<and>
       f_flags (open_files s' r) = flags \<and> f_uid (open_files s' r) = current_user s \<and> f_offset (open_files s' r) = 0 \<and>
       (\<forall>gd. gd \<noteq> r \<longrightarrow> open_files s' gd = open_files s gd))"
proof (cases "open_refused ino flags t s")
  case True
  then show ?thesis using setOpenFentry_refused [OF assms(5) True] assms by auto
next
  case False
  then obtain fd v s' where *: "setOpenFentry ino flags mode t s = Some (fd, s')" "setFentry fd flags 0 v t ino s = Some s'"
      "fd < 8" "f_vnode (open_files s fd) = VNODE_EMPTY" "VNODE_OK v"
      "v_ino_num (vnodes s v) = ino \<and> \<not> isFlagsConflict v flags s \<or>
        v_ino_num (vnodes s v) = INO_NUM_EMPTY \<and> (\<forall>w. VNODE_OK w \<longrightarrow> v_ino_num (vnodes s w) \<noteq> ino)"
    using setOpenFentry_opens [OF assms(5)] by blast
  have "tables_ok s'" using setFentry_tables [OF assms(1) *(2,4) assms(3)] *(6) by blast
  moreover have "\<not> holds gd v s" if "v_ino_num (vnodes s v) = INO_NUM_EMPTY" for gd
    using assms(1) *(5) that by (auto simp: tables_ok_def holders_def)
  then have "writers_ok s'" using setFentry_writers [OF assms(2) *(2,4) assms(4)] no_conflict [of v flags s] *(6) by blast
  moreover have "v \<noteq> VNODE_EMPTY" using *(5) by auto
  then have "GET_FILE_ID_BY_FD fd s' = ino" "f_flags (open_files s' fd) = flags" "f_uid (open_files s' fd) = current_user s"
      "f_offset (open_files s' fd) = 0" "\<forall>gd. gd \<noteq> fd \<longrightarrow> open_files s' gd = open_files s gd"
    using *(2) by (auto simp: setFentry_def assert_c_def GET_FILE_ID_BY_FD_def IS_OPEN_FILE_ENTRY_EMPTY_def split: if_splits)
  ultimately show ?thesis using * False small_legal(1) by (auto simp: IS_OPEN_FILE_ENTRY_EMPTY_def)
qed

lemma closeUtil_reader:
  assumes "tables_ok s" "verifyFd fd s = 0" "\<not> IS_WRONLY (f_flags (open_files s fd))"
  shows "closeUtil fd s = Some (0, release_entry fd s)" "fd < 8" "VNODE_OK (f_vnode (open_files s fd))"
    "f_uid (open_files s fd) = current_user s"
proof -
  show fd: "fd < 8" "f_uid (open_files s fd) = current_user s"
    using assms(2) IS_FD_LEGAL_small by (auto simp: verifyFd_def IS_USER_LEGAL_def split: if_splits)
  then show v: "VNODE_OK (f_vnode (open_files s fd))"
    using assms(1,2) by (auto simp: tables_ok_def verifyFd_def IS_OPEN_FILE_ENTRY_EMPTY_def split: if_splits)
  show "closeUtil fd s = Some (0, release_entry fd s)"
    using assms v by (simp add: closeUtil_def FS_VERIFY_def assert_c_def)
qed

text \<open>
  C11: closing a descriptor that is not open for writing succeeds, keeps the reference counts and the
  single-writer rule, frees the entry and leaves the other entries alone; the file stays open exactly while
  another entry holds it.
\<close>
theorem closeUtil_keeps_tables:
  assumes "tables_ok s" "writers_ok s" "verifyFd fd s = 0" "\<not> IS_WRONLY (f_flags (open_files s fd))"
  shows "\<exists>s'. closeUtil fd s = Some (0, s') \<and> tables_ok s' \<and> writers_ok s' \<and> IS_OPEN_FILE_ENTRY_EMPTY fd s' \<and>
    (\<forall>gd. gd \<noteq> fd \<longrightarrow> open_files s' gd = open_files s gd) \<and>
    (v_ino_num (vnodes s' (f_vnode (open_files s fd))) = INO_NUM_EMPTY \<longleftrightarrow>
      (\<forall>gd. gd < 8 \<longrightarrow> gd \<noteq> fd \<longrightarrow> f_vnode (open_files s gd) \<noteq> f_vnode (open_files s fd)))"
proof -
  let ?v = "f_vnode (open_files s fd)" and ?s = "release_entry fd s"
  note close = closeUtil_reader [OF assms(1,3,4)]
  have fd: "fd < 8" "?v \<noteq> VNODE_EMPTY" using close(2,3) by auto
  have tab: "tables_ok ?s" using assms(1) fd by (intro release_entry_tables) auto
  moreover have "v_ino_num (vnodes ?s ?v) = INO_NUM_EMPTY \<longleftrightarrow> holders ?v s - {fd} = {}"
    using tab close(3) holders_release(1) [OF fd(1) refl close(3)] unfolding tables_ok_def by simp
  ultimately show ?thesis using release_entry_writers [OF assms(2), of fd] close(1)
    by (intro exI [of _ ?s]) (auto simp: release_entry_simps(1) IS_OPEN_FILE_ENTRY_EMPTY_def holders_def holds_def)
qed


section \<open>A freshly initialised file system\<close>

lemma fold_frame: "(\<And>x s. g (f x s) = g s) \<Longrightarrow> g (fold f xs s) = g s"
  by (induction xs arbitrary: s) auto

lemma fold_sets: "(\<And>x s. P x (f x s)) \<Longrightarrow> (\<And>x y s. P x s \<Longrightarrow> P x (f y s)) \<Longrightarrow> x \<in> set xs \<Longrightarrow> P x (fold f xs s)"
  by (induction xs rule: rev_induct) auto

lemma init_counters_frame: "init_counters_loop is s = Some s1 \<Longrightarrow> \<exists>m. s1 = s\<lparr>obs_mem := m\<rparr>"
proof (induction "is" arbitrary: s)
  case Nil
  then show ?case by (auto intro!: exI [of _ "obs_mem s"])
next
  case (Cons i "is")
  then obtain s2 where s2: "change_counter_level OBS_COUNT_NO_OBSOLETES (of_nat i) s = Some s2" "init_counters_loop is s2 = Some s1"
    by (auto simp: bind_eq_Some_conv)
  then obtain m where "s2 = s\<lparr>obs_mem := m\<rparr>" by (auto simp: change_counter_level_def bind_eq_Some_conv Let_def)
  then show ?case using Cons.IH [OF s2(2)] by auto
qed

lemma init_obs_counters_frame: "\<exists>m. init_obs_counters s = Some (s\<lparr>obs_mem := m\<rparr>)"
proof -
  obtain s' where s': "init_obs_counters s = Some s'" using init_obs_counters_levels [of s] by auto
  then obtain s1 where "init_counters_loop [0..<512] s = Some s1" "s' = SET_FREE_COUNTER 0 (SET_OBS_COUNT 0 s1)"
    by (auto simp: init_obs_counters_def bind_eq_Some_conv)
  then have "\<exists>m. s' = s\<lparr>obs_mem := m\<rparr>"
    using init_counters_frame [of "[0..<512]" s s1] by (auto simp: SET_FREE_COUNTER_def SET_OBS_COUNT_def)
  then show ?thesis using s' by auto
qed

lemma initializeSequencingStructs_frame:
  fixes s :: "'z fs_scheme"
  obtains s1 :: "'z fs_scheme" where "initializeSequencingStructs s = Some s1" "FS_CACHE_BUFFERS s1 = FS_CACHE_BUFFERS s"
    "dirstreams s1 = dirstreams s" "current_user s1 = current_user s"
proof -
  obtain m where "init_obs_counters s = Some (s\<lparr>obs_mem := m\<rparr>)" using init_obs_counters_frame [of s] by blast
  then have "initializeSequencingStructs s = Some ((init_buf (init_seg_map (s\<lparr>obs_mem := m\<rparr>)))\<lparr>obsolete_byte := 0x7f, lfsr_state := LFSR_STATE_INITIAL\<rparr>)"
    by (simp add: initializeSequencingStructs_def)
  then show ?thesis by (rule that) (simp_all add: init_buf_def init_seg_map_def Let_def)
qed

lemma init_file_entries_simps:
  "fd < 8 \<Longrightarrow> f_vnode (open_files (init_file_entries s) fd) = VNODE_EMPTY" "dirstreams (init_file_entries s) = dirstreams s"
proof -
  show "dirstreams (init_file_entries s) = dirstreams s"
    unfolding init_file_entries_def by (rule fold_frame) (simp add: init_file_entry_def upd_file_def)
  assume "fd < 8"
  then have "unat fd \<in> set [0..<8]" by (simp add: word_less_nat_alt)
  then have "f_vnode (open_files (init_file_entries s) (of_nat (unat fd))) = VNODE_EMPTY"
    unfolding init_file_entries_def by (rule fold_sets [rotated 2]) (auto simp: init_file_entry_def)
  then show "f_vnode (open_files (init_file_entries s) fd) = VNODE_EMPTY" by simp
qed

lemma init_vnodes_simps:
  "VNODE_OK v \<Longrightarrow> vnodes (init_vnodes s) v = \<lparr>v_ino_num = INO_NUM_EMPTY, nReferences = 0\<rparr>"
  "dirstreams (init_vnodes s) = dirstreams s" "open_files (init_vnodes s) = open_files s"
proof -
  show "dirstreams (init_vnodes s) = dirstreams s" "open_files (init_vnodes s) = open_files s"
    unfolding init_vnodes_def by (rule fold_frame, simp add: init_vnode_def upd_vnode_def)+
  assume "VNODE_OK v"
  then have "unat v \<in> set [0..<6]" by (simp add: VNODE_OK_def word_less_nat_alt)
  then have "vnodes (init_vnodes s) (of_nat (unat v)) = \<lparr>v_ino_num = INO_NUM_EMPTY, nReferences = 0\<rparr>"
    unfolding init_vnodes_def by (rule fold_sets [rotated 2]) (auto simp: init_vnode_def)
  then show "vnodes (init_vnodes s) v = \<lparr>v_ino_num = INO_NUM_EMPTY, nReferences = 0\<rparr>" by simp
qed

lemma init_transactions_simps:
  "TID_OK tid \<Longrightarrow> t_ino_num (transactions (init_transactions s) tid) = INO_NUM_EMPTY"
  "open_files (init_transactions s) = open_files s" "vnodes (init_transactions s) = vnodes s"
  "dirstreams (init_transactions s) = dirstreams s"
proof -
  show "open_files (init_transactions s) = open_files s" "vnodes (init_transactions s) = vnodes s"
    "dirstreams (init_transactions s) = dirstreams s"
    unfolding init_transactions_def by (rule fold_frame, simp add: init_transaction_def upd_tr_def)+
  assume "TID_OK tid"
  then have "unat tid \<in> set [0..<2]" by (simp add: TID_OK_def word_less_nat_alt)
  then have "t_ino_num (transactions (init_transactions s) (of_nat (unat tid))) = INO_NUM_EMPTY"
    unfolding init_transactions_def by (rule fold_sets [rotated 2]) (auto simp: init_transaction_def upd_tr_def)
  then show "t_ino_num (transactions (init_transactions s) tid) = INO_NUM_EMPTY" by simp
qed

lemma cache_init_lru_q_simps:
  "lru_list (cache_init_lru_q s) []" "open_files (cache_init_lru_q s) = open_files s" "vnodes (cache_init_lru_q s) = vnodes s"
  "transactions (cache_init_lru_q s) = transactions s" "dirstreams (cache_init_lru_q s) = dirstreams s" "dirty_count (cache_init_lru_q s) = 0"
proof -
  let ?f = "fold (\<lambda>i. cache_init_by_cid (of_nat i)) [0..<unat (FS_CACHE_BUFFERS s)]"
  have "open_files (?f s) = open_files s" "vnodes (?f s) = vnodes s" "transactions (?f s) = transactions s" "dirstreams (?f s) = dirstreams s"
    by (rule fold_frame, simp add: cache_init_by_cid_def upd_cache_def)+
  then show "open_files (cache_init_lru_q s) = open_files s" "vnodes (cache_init_lru_q s) = vnodes s"
    "transactions (cache_init_lru_q s) = transactions s" "dirstreams (cache_init_lru_q s) = dirstreams s"
    by (simp_all add: cache_init_lru_q_def)
qed (simp_all add: cache_init_lru_q_def lru_list_def)

lemma DS_OK_cases: "DS_OK d \<Longrightarrow> d = 0 \<or> d = 1"
proof -
  assume "DS_OK d"
  then have "unat d = 0 \<or> unat d = 1" by (auto simp: DS_OK_def word_less_nat_alt)
  then show ?thesis by (metis unat_0 unat_1 word_unat_eq_iff)
qed

lemma init_distreams_closed:
  assumes "ds_fd (dirstreams s 0) = FD_EMPTY" "ds_fd (dirstreams s 1) = FD_EMPTY"
  obtains s' where "init_distreams s = Some s'" "open_files s' = open_files s" "vnodes s' = vnodes s"
    "\<forall>d. DS_OK d \<longrightarrow> ds_fd (dirstreams s' d) = FD_EMPTY"
proof -
  let ?empty = "\<lambda>d. upd_ds d (\<lambda>_. \<lparr>ds_fd = FD_EMPTY, ds_ino_addr = init_logical_address, ds_de = init_struct (ds_de (dirstreams s d)) 0 256\<rparr>)"
  have "init_distreams s = Some (?empty 1 (?empty 0 s))"
    using assms by (simp add: init_distreams_def init_dirstream_def assert_c_def DS_OK_def upd_ds_def)
  then show ?thesis by (rule that) (auto simp: upd_ds_def dest!: DS_OK_cases)
qed

lemma tables_ok_all_free:
  assumes "\<And>fd. fd < 8 \<Longrightarrow> f_vnode (open_files s fd) = VNODE_EMPTY"
    and "\<And>v. VNODE_OK v \<Longrightarrow> vnodes s v = \<lparr>v_ino_num = INO_NUM_EMPTY, nReferences = 0\<rparr>"
  shows "tables_ok s"
proof -
  have "holders v s = {}" if "VNODE_OK v" for v using assms(1) that by (auto simp: holders_def holds_def)
  then show ?thesis using assms by (simp add: tables_ok_def)
qed

text \<open>What mounting and unmounting leave, part by part, when no directory stream is open.\<close>

lemma initializeRamStructs_result:
  assumes "ds_fd (dirstreams s 0) = FD_EMPTY" "ds_fd (dirstreams s 1) = FD_EMPTY"
  obtains s' where "initializeRamStructs s = Some s'" "fs_mutex s' = 0" "\<forall>fd. fd < 8 \<longrightarrow> f_vnode (open_files s' fd) = VNODE_EMPTY"
    "\<forall>v. VNODE_OK v \<longrightarrow> vnodes s' v = \<lparr>v_ino_num = INO_NUM_EMPTY, nReferences = 0\<rparr>"
    "\<forall>d. DS_OK d \<longrightarrow> ds_fd (dirstreams s' d) = FD_EMPTY" "\<forall>tid. TID_OK tid \<longrightarrow> IS_TRANSACTION_EMPTY tid s'"
    "lru_list s' []" "dirty_count s' = 0" "IS_FS_EMPTY s'"
proof -
  obtain s1 where s1: "initializeSequencingStructs s = Some s1" "FS_CACHE_BUFFERS s1 = FS_CACHE_BUFFERS s" "dirstreams s1 = dirstreams s"
    by (rule initializeSequencingStructs_frame)
  let ?s2 = "init_vnodes (init_file_entries s1)"
  have ds2: "dirstreams ?s2 = dirstreams s" by (simp add: init_vnodes_simps init_file_entries_simps s1)
  obtain s3 where s3: "init_distreams ?s2 = Some s3" "open_files s3 = open_files ?s2" "vnodes s3 = vnodes ?s2"
      "\<forall>d. DS_OK d \<longrightarrow> ds_fd (dirstreams s3 d) = FD_EMPTY"
    by (rule init_distreams_closed [of ?s2]) (use ds2 assms in auto)
  let ?s4 = "cache_init_lru_q (init_transactions (init_fsbuf FsBuf s3))"
  let ?s = "(init_fs ?s4)\<lparr>fs_mutex := 0\<rparr>"
  show thesis
  proof (rule that [of ?s])
    show "initializeRamStructs s = Some ?s" by (simp add: initializeRamStructs_def s1 s3)
    show "\<forall>fd. fd < 8 \<longrightarrow> f_vnode (open_files ?s fd) = VNODE_EMPTY"
      by (simp add: init_fs_def cache_init_lru_q_simps init_transactions_simps init_fsbuf_def s3 init_vnodes_simps init_file_entries_simps)
    show "\<forall>v. VNODE_OK v \<longrightarrow> vnodes ?s v = \<lparr>v_ino_num = INO_NUM_EMPTY, nReferences = 0\<rparr>"
      by (simp add: init_fs_def cache_init_lru_q_simps init_transactions_simps init_fsbuf_def s3 init_vnodes_simps)
    have "dirstreams ?s = dirstreams s3" by (simp add: init_fs_def cache_init_lru_q_simps init_transactions_simps init_fsbuf_def)
    then show "\<forall>d. DS_OK d \<longrightarrow> ds_fd (dirstreams ?s d) = FD_EMPTY" using s3(4) by simp
    have "IS_TRANSACTION_EMPTY tid ?s" if "TID_OK tid" for tid
      using that word_less_nat_alt [of tid 2] by (auto simp: TID_OK_def IS_TRANSACTION_EMPTY_def init_fs_def cache_init_lru_q_simps init_transactions_simps)
    then show "\<forall>tid. TID_OK tid \<longrightarrow> IS_TRANSACTION_EMPTY tid ?s" by (rule allI [OF impI])
    show "lru_list ?s []" using cache_init_lru_q_simps(1) by (simp add: lru_list_def init_fs_def)
    show "IS_FS_EMPTY ?s"
      by (simp add: IS_FS_EMPTY_def FS_GET_INO0_ADDR_def init_fs_def init_struct_def IS_ADDR_EMPTY_def addr_at_def buf_fill_def addr_word_def)
  qed (simp_all add: init_fs_def cache_init_lru_q_simps)
qed

text \<open>
  C37: \<open>initializeRamStructs\<close>, called on mount and unmount when no directory stream is open, establishes the
  invariants of every table: all descriptors, vnodes, streams and transactions are free, no cache block is
  linked or dirty, no address of inode 0 is known and the lock is free.
\<close>
theorem initializeRamStructs_establishes:
  assumes "ds_fd (dirstreams s 0) = FD_EMPTY" "ds_fd (dirstreams s 1) = FD_EMPTY"
  shows "\<exists>s'. initializeRamStructs s = Some s' \<and> tables_ok s' \<and> writers_ok s' \<and> lru_list s' [] \<and> dirty_count s' = 0 \<and>
    (\<forall>fd. fd < 8 \<longrightarrow> IS_OPEN_FILE_ENTRY_EMPTY fd s') \<and> (\<forall>d. DS_OK d \<longrightarrow> IS_DIRSTREAM_EMPTY d s') \<and>
    (\<forall>tid. TID_OK tid \<longrightarrow> IS_TRANSACTION_EMPTY tid s') \<and> IS_FS_EMPTY s' \<and> fs_mutex s' = 0"
proof -
  obtain s' where s': "initializeRamStructs s = Some s'" "fs_mutex s' = 0" "\<forall>fd. fd < 8 \<longrightarrow> f_vnode (open_files s' fd) = VNODE_EMPTY"
    "\<forall>v. VNODE_OK v \<longrightarrow> vnodes s' v = \<lparr>v_ino_num = INO_NUM_EMPTY, nReferences = 0\<rparr>"
    "\<forall>d. DS_OK d \<longrightarrow> ds_fd (dirstreams s' d) = FD_EMPTY" "\<forall>tid. TID_OK tid \<longrightarrow> IS_TRANSACTION_EMPTY tid s'"
    "lru_list s' []" "dirty_count s' = 0" "IS_FS_EMPTY s'"
    by (rule initializeRamStructs_result [OF assms])
  have "tables_ok s'" using s'(3,4) by (intro tables_ok_all_free) simp_all
  moreover have "holders v s' = {}" if "v \<noteq> VNODE_EMPTY" for v using s'(3) that by (auto simp: holders_def holds_def)
  then have "writers_ok s'" unfolding writers_ok_def by (auto simp: holders_def)
  moreover have "\<forall>fd. fd < 8 \<longrightarrow> IS_OPEN_FILE_ENTRY_EMPTY fd s'" using s'(3) by (simp only: IS_OPEN_FILE_ENTRY_EMPTY_def)
  moreover have "\<forall>d. DS_OK d \<longrightarrow> IS_DIRSTREAM_EMPTY d s'" using s'(5) negative_results by (simp add: IS_DIRSTREAM_EMPTY_def)
  ultimately show ?thesis using s' by blast
qed

text \<open>Streams that were never initialised hold descriptor 0, whose entry has no vnode: mounting then follows it.\<close>

lemma zero_stream_stops: "ds_fd (dirstreams s 0) = 0 \<Longrightarrow> initializeRamStructs s = None"
proof -
  assume zero: "ds_fd (dirstreams s 0) = 0"
  obtain s1 where s1: "initializeSequencingStructs s = Some s1" "dirstreams s1 = dirstreams s"
    by (rule initializeSequencingStructs_frame)
  have "f_vnode (open_files (init_vnodes (init_file_entries s1)) 0) = VNODE_EMPTY"
    by (simp add: init_vnodes_simps init_file_entries_simps)
  then have "init_distreams (init_vnodes (init_file_entries s1)) = None"
    using zero by (simp add: init_distreams_def init_dirstream_def init_vnodes_simps init_file_entries_simps s1(2) assert_c_def DS_OK_def)
  then show ?thesis by (simp add: initializeRamStructs_def s1(1))
qed

section \<open>Closing and opening again\<close>

lemma release_entry_user: "current_user (release_entry fd s) = current_user s"
  by (simp add: release_entry_def init_file_entry_def init_vnode_def Let_def)

lemma free_entry_loop_none:
  "free_entry_loop is s = FD_EMPTY \<Longrightarrow> \<forall>i \<in> set is. i < 8 \<Longrightarrow> i \<in> set is \<Longrightarrow> \<not> IS_OPEN_FILE_ENTRY_EMPTY (of_nat i) s"
  by (induction "is") (auto split: if_splits simp: unat_of_nat take_bit_nat_eq_self dest!: arg_cong [of _ _ unat])

lemma getFreeOpenFileEntry_none: "getFreeOpenFileEntry s = FD_EMPTY \<Longrightarrow> fd < 8 \<Longrightarrow> f_vnode (open_files s fd) \<noteq> VNODE_EMPTY"
  using free_entry_loop_none [of "[0..<8]" s "unat fd"]
  by (auto simp: getFreeOpenFileEntry_def IS_OPEN_FILE_ENTRY_EMPTY_def word_less_nat_alt)

lemma conflict_loop_some:
  "conflict_loop is v flags s \<Longrightarrow> \<not> IS_WRONLY flags \<Longrightarrow>
   \<exists>i \<in> set is. f_vnode (open_files s (of_nat i)) = v \<and> IS_WRONLY (f_flags (open_files s (of_nat i))) \<and>
     current_user s \<noteq> f_uid (open_files s (of_nat i))"
  by (induction "is") (auto split: if_splits)

lemma conflict_reader:
  "isFlagsConflict v flags s \<Longrightarrow> \<not> IS_WRONLY flags \<Longrightarrow>
   \<exists>gd. holds gd v s \<and> IS_WRONLY (f_flags (open_files s gd)) \<and> current_user s \<noteq> f_uid (open_files s gd)"
proof -
  assume "isFlagsConflict v flags s" "\<not> IS_WRONLY flags"
  then obtain i where "i < 8" "f_vnode (open_files s (of_nat i)) = v" "IS_WRONLY (f_flags (open_files s (of_nat i)))"
      "current_user s \<noteq> f_uid (open_files s (of_nat i))"
    using conflict_loop_some [of "[0..<8]" v flags s] by (auto simp: isFlagsConflict_def)
  moreover from this(1) have "(of_nat i :: u32) < 8" by (simp add: word_less_nat_alt unat_of_nat take_bit_nat_eq_self)
  ultimately show ?thesis unfolding holds_def by blast
qed

text \<open>
  C36: a reader never loses a file by closing it: after a descriptor that is not open for writing is closed,
  opening the same file for reading cannot fail, whatever else is open, and gives a legal descriptor of the
  file.
\<close>
theorem close_then_reopen:
  assumes "tables_ok s" "writers_ok s" "verifyFd fd s = 0" "\<not> IS_WRONLY (f_flags (open_files s fd))"
    and "\<not> IS_WRONLY flags" "\<not> IS_APPEND flags" "\<not> IS_CREAT_EXCL flags"
  shows "\<exists>s1 r s2. closeUtil fd s = Some (0, s1) \<and>
    setOpenFentry (GET_FILE_ID_BY_FD fd s) flags mode t s1 = Some (r, s2) \<and> IS_FD_LEGAL r \<and>
    GET_FILE_ID_BY_FD r s2 = GET_FILE_ID_BY_FD fd s"
proof -
  let ?v = "f_vnode (open_files s fd)" and ?s = "release_entry fd s"
  note close = closeUtil_reader [OF assms(1,3,4)]
  have ino: "GET_FILE_ID_BY_FD fd s = v_ino_num (vnodes s ?v)" (is "?ino = _")
    using assms(3) by (auto simp: GET_FILE_ID_BY_FD_def verifyFd_def split: if_splits)
  have same: "holds gd w s \<and> open_files ?s gd = open_files s gd \<and> gd \<noteq> fd" if "holds gd w ?s" "w \<noteq> VNODE_EMPTY" for gd w
    using that by (cases "gd = fd") (simp_all add: holds_def release_entry_simps(1))
  have used: "?ino \<noteq> INO_NUM_EMPTY"
    using assms(1) close(2,3) ino by (auto simp: tables_ok_def holders_def holds_def)
  have "\<not> isFlagsConflict w flags ?s" if w: "w = getVnodeByInodeNum ?ino ?s" "w \<noteq> VNODE_EMPTY" for w
  proof
    assume "isFlagsConflict w flags ?s"
    then obtain gd where gd: "holds gd w ?s" "IS_WRONLY (f_flags (open_files ?s gd))" "current_user ?s \<noteq> f_uid (open_files ?s gd)"
      using conflict_reader assms(5) by blast
    have "VNODE_OK w" "v_ino_num (vnodes ?s w) = ?ino" using getVnode_found w by blast+
    then have "w = ?v"
      using assms(1) close(3) ino used unfolding tables_ok_def by (cases "w = ?v") (auto simp: release_entry_simps(2))
    then have "f_uid (open_files s fd) = f_uid (open_files s gd)"
      using assms(2) same [OF gd(1) w(2)] gd(2) close(2) w(2) unfolding writers_ok_def by (simp add: holds_def)
    then show False using gd(3) same [OF gd(1) w(2)] close(4) by (simp add: release_entry_user)
  qed
  moreover have "getFreeVnode ?s \<noteq> VNODE_EMPTY" if none: "getVnodeByInodeNum ?ino ?s = VNODE_EMPTY"
  proof -
    have "v_ino_num (vnodes ?s ?v) = INO_NUM_EMPTY"
      using getVnode_none [OF none close(3)] ino by (auto simp: release_entry_simps(2) split: if_splits)
    then show ?thesis using getVnode_none [of INO_NUM_EMPTY ?s ?v] close(3) by (auto simp: getFreeVnode_def)
  qed
  moreover have "getFreeOpenFileEntry ?s \<noteq> FD_EMPTY"
    using getFreeOpenFileEntry_none [of ?s fd] close(2) by (auto simp: release_entry_simps(1))
  ultimately have "\<not> open_refused ?ino flags t ?s"
    using assms by (auto simp: open_refused_def)
  then obtain r v s2 where *: "setOpenFentry ?ino flags mode t ?s = Some (r, s2)" "setFentry r flags 0 v t ?ino ?s = Some s2"
      "r < 8" "VNODE_OK v"
    using setOpenFentry_opens [OF assms(6)] by blast
  then have "GET_FILE_ID_BY_FD r s2 = ?ino"
    by (auto simp: setFentry_def assert_c_def GET_FILE_ID_BY_FD_def IS_OPEN_FILE_ENTRY_EMPTY_def)
  then show ?thesis using close(1) *(1) small_legal(1) [OF *(3)] by blast
qed


text \<open>A descriptor that is open for writing conflicts with itself, so it can never be duplicated.\<close>

lemma conflict_of_writer:
  assumes "holds fd v s" "IS_WRONLY flags" "IS_WRONLY (f_flags (open_files s fd))"
  shows "isFlagsConflict v flags s"
  using no_conflict [of v flags s fd] assms by blast

lemma dup_of_writer_refused:
  assumes "IS_WRONLY (f_flags (open_files s fd))"
  shows "dupUtil fd gd is_dup2 s = Some (-1, s)"
proof (cases "verifyFd fd s = 0")
  case True
  then have "fd < 8" using IS_FD_LEGAL_small by (auto simp: verifyFd_def split: if_splits)
  then have "isFlagsConflict (f_vnode (open_files s fd)) (f_flags (open_files s fd)) s"
    using assms by (intro conflict_of_writer [of fd]) (simp_all add: holds_def)
  then show ?thesis by (simp add: dupUtil_def Let_def)
qed (simp add: dupUtil_def Let_def)

section \<open>Witnesses\<close>

lemma blank_tables: "tables_ok blank_fs" "writers_ok blank_fs"
proof -
  show "tables_ok blank_fs" by (rule tables_ok_all_free) (simp_all add: blank_fs_def seq.extend_def)
  show "writers_ok blank_fs" by (simp add: writers_ok_def holds_def)
qed

text \<open>The file 5 open for reading as descriptor 0.\<close>

definition opened_fs :: fs where
  "opened_fs = the (setFentry 0 NANDFS_O_RDONLY 0 0 FTYPE_FILE 5 blank_fs)"

lemma opened_fs_set: "setFentry 0 NANDFS_O_RDONLY 0 0 FTYPE_FILE 5 blank_fs = Some opened_fs"
  by (simp add: opened_fs_def setFentry_def assert_c_def VNODE_OK_def)

lemma opened_fs_open:
  "tables_ok opened_fs" "writers_ok opened_fs" "verifyFd 0 opened_fs = 0" "\<not> IS_WRONLY (f_flags (open_files opened_fs 0))"
proof -
  show "tables_ok opened_fs" by (rule setFentry_tables [OF blank_tables(1) opened_fs_set]) simp_all
  show "writers_ok opened_fs"
    by (rule setFentry_writers [OF blank_tables(2) opened_fs_set]) (simp_all add: IS_RDONLY_def holds_def)
  show "verifyFd 0 opened_fs = 0" "\<not> IS_WRONLY (f_flags (open_files opened_fs 0))"
    by (simp_all add: opened_fs_def setFentry_def assert_c_def VNODE_OK_def verifyFd_def small_legal
      IS_OPEN_FILE_ENTRY_EMPTY_def IS_USER_LEGAL_def IS_WRONLY_def)
qed

lemma initializeRamStructs_establishes_witness: "\<exists>s'. initializeRamStructs blank_fs = Some s' \<and> tables_ok s'"
  using initializeRamStructs_establishes [of blank_fs] by auto

lemma setOpenFentry_keeps_tables_witness:
  "\<exists>r s'. setOpenFentry 5 NANDFS_O_RDONLY 0 FTYPE_FILE blank_fs = Some (r, s') \<and> tables_ok s' \<and> writers_ok s'"
  using setOpenFentry_keeps_tables [OF blank_tables, of 5 NANDFS_O_RDONLY 0 FTYPE_FILE] by (auto simp: IS_RDONLY_def IS_APPEND_def)

lemma closeUtil_keeps_tables_witness: "\<exists>s'. closeUtil 0 opened_fs = Some (0, s') \<and> tables_ok s' \<and> writers_ok s'"
  using closeUtil_keeps_tables [OF opened_fs_open] by blast

lemma close_then_reopen_witness:
  "\<exists>s1 r s2. closeUtil 0 opened_fs = Some (0, s1) \<and>
    setOpenFentry (GET_FILE_ID_BY_FD 0 opened_fs) NANDFS_O_RDONLY 0 FTYPE_FILE s1 = Some (r, s2) \<and> IS_FD_LEGAL r"
  using close_then_reopen [OF opened_fs_open, of NANDFS_O_RDONLY 0 FTYPE_FILE]
  by (auto simp: IS_WRONLY_def IS_APPEND_def IS_CREAT_EXCL_def IS_CREAT_def)

end
