(* ===== verification/Lock.thy ===== *)
theory Lock
  imports Descriptors
begin

text \<open>
  The lock of the file system as a state machine.  A session is a sequence of calls of the interface of
  \<^verbatim>\<open>NANDFS/src/fs/fs.c\<close> on a mounted file system; \<open>api_step\<close> has a rule for each operation and keeps the state
  it leaves.  The theory shows which calls give the lock back, and what a call that does not give it back means
  for the calls that follow.
\<close>

section \<open>Sessions\<close>

datatype api_call =
  Creat "u8 list" u32 | Open "u8 list" u32 u32 | Close u32 | Lseek u32 u32 u32 | Write u32 buf u32 | Read u32 buf u32
  | Unlink "u8 list" | Mkdir "u8 list" u32 | Rmdir "u8 list" | Fsync u32 | Fdatasync u32 | Sync
  | Opendir "u8 list" | Readdir "u32 option" | Telldir "u32 option" | Dirfd "u32 option" | Seekdir "u32 option" u32
  | Rewinddir "u32 option" | Closedir "u32 option" | Stat "u8 list" file_stat | Dup2 u32 u32 | Dup u32
  | Scandir "u8 list" "buf \<Rightarrow> nat \<Rightarrow> bool" "nat \<Rightarrow> bool"

inductive api_step :: "api_call \<Rightarrow> 'z fs_scheme \<Rightarrow> 'z fs_scheme \<Rightarrow> bool" where
  "nandfs_creat p m s = Some (r, s') \<Longrightarrow> api_step (Creat p m) s s'"
| "nandfs_open p f m s = Some (r, s') \<Longrightarrow> api_step (Open p f m) s s'"
| "nandfs_close fd s = Some (r, s') \<Longrightarrow> api_step (Close fd) s s'"
| "nandfs_lseek fd off w s = Some (r, s') \<Longrightarrow> api_step (Lseek fd off w) s s'"
| "nandfs_write fd b n s = Some (r, s') \<Longrightarrow> api_step (Write fd b n) s s'"
| "nandfs_read fd b n s = Some (rb, s') \<Longrightarrow> api_step (Read fd b n) s s'"
| "nandfs_unlink p s = Some (r, s') \<Longrightarrow> api_step (Unlink p) s s'"
| "nandfs_mkdir p m s = Some (r, s') \<Longrightarrow> api_step (Mkdir p m) s s'"
| "nandfs_rmdir p s = Some (r, s') \<Longrightarrow> api_step (Rmdir p) s s'"
| "nandfs_fsync fd s = Some (r, s') \<Longrightarrow> api_step (Fsync fd) s s'"
| "nandfs_fdatasync fd s = Some (r, s') \<Longrightarrow> api_step (Fdatasync fd) s s'"
| "nandfs_sync s = Some (u, s') \<Longrightarrow> api_step Sync s s'"
| "nandfs_opendir p s = Some (d, s') \<Longrightarrow> api_step (Opendir p) s s'"
| "nandfs_readdir ds s = Some (d, s') \<Longrightarrow> api_step (Readdir ds) s s'"
| "nandfs_telldir ds s = Some (r, s') \<Longrightarrow> api_step (Telldir ds) s s'"
| "nandfs_dirfd ds s = Some (r, s') \<Longrightarrow> api_step (Dirfd ds) s s'"
| "nandfs_seekdir ds off s = Some (u, s') \<Longrightarrow> api_step (Seekdir ds off) s s'"
| "nandfs_rewinddir ds s = Some (u, s') \<Longrightarrow> api_step (Rewinddir ds) s s'"
| "nandfs_closedir ds s = Some (r, s') \<Longrightarrow> api_step (Closedir ds) s s'"
| "nandfs_stat p st s = Some (rst, s') \<Longrightarrow> api_step (Stat p st) s s'"
| "nandfs_dup2 fd gd s = Some (r, s') \<Longrightarrow> api_step (Dup2 fd gd) s s'"
| "nandfs_dup fd s = Some (r, s') \<Longrightarrow> api_step (Dup fd) s s'"
| "nandfs_scandir p accept alloc s = Some (names, s') \<Longrightarrow> api_step (Scandir p accept alloc) s s'"

inductive session :: "api_call list \<Rightarrow> 'z fs_scheme \<Rightarrow> 'z fs_scheme \<Rightarrow> bool" where
  Nil: "session [] s s"
| Cons: "api_step c s s1 \<Longrightarrow> session cs s1 s2 \<Longrightarrow> session (c # cs) s s2"

inductive_simps session_simps: "session [] s s2" "session (c # cs) s s2"

lemma session_append: "session (cs @ ds) s s2 \<longleftrightarrow> (\<exists>s1. session cs s s1 \<and> session ds s1 s2)"
  by (induction cs arbitrary: s) (auto simp: session_simps)

section \<open>Operations that give the lock back\<close>

definition unlocks :: "('r \<times> 'z fs_scheme) option \<Rightarrow> bool" where
  "unlocks m = (\<forall>r s. m = Some (r, s) \<longrightarrow> fs_mutex s = 0)"

named_theorems unlock "rules that reduce a computation that gives the lock back to its parts"

lemma unlocks_SYS_RETURN [unlock]: "unlocks (SYS_RETURN err r s)"
  by (simp add: unlocks_def SYS_RETURN_def)

lemma unlocks_bind [unlock]: "(\<And>x. unlocks (f x)) \<Longrightarrow> unlocks (Option.bind m f)"
  by (auto simp: unlocks_def bind_eq_Some_conv)

lemma unlocks_if [unlock]: "(b \<Longrightarrow> unlocks m) \<Longrightarrow> (\<not> b \<Longrightarrow> unlocks n) \<Longrightarrow> unlocks (if b then m else n)"
  by simp

lemma unlocks_Let [unlock]: "(\<And>x. unlocks (f x)) \<Longrightarrow> unlocks (Let v f)"
  by simp

lemma unlocks_case_prod [unlock]: "(\<And>a b. unlocks (f a b)) \<Longrightarrow> unlocks (case p of (a, b) \<Rightarrow> f a b)"
  by (cases p) simp

lemma unlocks_SYS_VERIFY [unlock]: "unlocks k \<Longrightarrow> unlocks (SYS_VERIFY b s k)"
  unfolding SYS_VERIFY_def by (intro unlock)

lemma unlocks_SYS_RES_VERIFY [unlock]: "(\<And>s. unlocks (k s)) \<Longrightarrow> unlocks (SYS_RES_VERIFY m k)"
  unfolding SYS_RES_VERIFY_def by (intro unlock)

lemma unlocks_SYS_TR_VERIFY [unlock]: "(\<And>s. unlocks (k s)) \<Longrightarrow> unlocks (SYS_TR_VERIFY tid m k)"
  unfolding SYS_TR_VERIFY_def by (intro unlock)

lemma unlocks_read_return [unlock]: "unlocks (read_return r user s)"
  unfolding read_return_def by (rule unlock)

lemma unlocks_lock [unlock]: "fs_mutex s = 0 \<Longrightarrow> (\<And>s. unlocks (k s)) \<Longrightarrow> unlocks (FS_MUTEX_LOCK err k s)"
  by (simp add: FS_MUTEX_LOCK_def)

lemma unlocks_Some [unlock]: "fs_mutex s = 0 \<Longrightarrow> unlocks (Some (r, s))"
  by (simp add: unlocks_def)

lemma unlocks_creat [unlock]: "fs_mutex s = 0 \<Longrightarrow> unlocks (nandfs_creat p m s)"
  unfolding nandfs_creat_def by (intro unlock)

lemma unlocks_drop [unlock]: "unlocks (drop_open_transactions ts s)"
  by (induction ts arbitrary: s) (simp_all only: drop_open_transactions.simps, (intro unlock | assumption)+)

lemma unlocks_bind_of: "(\<And>x. m = Some x \<Longrightarrow> unlocks (f x)) \<Longrightarrow> unlocks (Option.bind m f)"
  by (auto simp: unlocks_def bind_eq_Some_conv)

lemma unlocks_unmount [unlock]: "unlocks (nandfs_unmount s)"
  by (auto simp: unlocks_def nandfs_unmount_def initializeRamStructs_def bind_eq_Some_conv)

lemma unlocks_booting [unlock]: "unlocks (nandfs_fsBooting s)"
proof -
  have "fs_mutex s1 = 0" if "initializeRamStructs s = Some s1" for s1
    using that by (auto simp: initializeRamStructs_def bind_eq_Some_conv)
  then show ?thesis unfolding nandfs_fsBooting_def by - (rule unlocks_bind_of, intro unlock, simp_all)
qed

text \<open>The calls that give the lock back on every path: all but a write and an open without an access mode.\<close>

fun releases :: "api_call \<Rightarrow> bool" where
  "releases (Write fd b n) = False"
| "releases (Open p f m) = (IS_WRONLY f \<or> IS_RDONLY f)"
| "releases c = True"

lemma unlocks_open [unlock]:
  assumes "fs_mutex s = 0" "IS_WRONLY f \<or> IS_RDONLY f"
  shows "unlocks (nandfs_open p f m s)"
  unfolding nandfs_open_def by (intro unlock; use assms in simp)

lemmas released_ops = nandfs_close_def nandfs_lseek_def nandfs_read_def read_pieces_def read_last_piece_def nandfs_unlink_def
  nandfs_mkdir_def nandfs_rmdir_def
  nandfs_fsync_def nandfs_fdatasync_def nandfs_sync_def nandfs_opendir_def nandfs_readdir_def nandfs_telldir_def nandfs_dirfd_def
  nandfs_seekdir_def nandfs_rewinddir_def nandfs_closedir_def nandfs_stat_def nandfs_dup2_def nandfs_dup_def nandfs_scandir_def

lemma unlocks_others [unlock]:
  assumes "fs_mutex s = 0"
  shows "unlocks (nandfs_close fd s)" "unlocks (nandfs_lseek fd off w s)" "unlocks (nandfs_read fd b n s)"
    "unlocks (nandfs_unlink p s)" "unlocks (nandfs_mkdir p md s)" "unlocks (nandfs_rmdir p s)" "unlocks (nandfs_fsync fd s)"
    "unlocks (nandfs_fdatasync fd s)" "unlocks (nandfs_sync s)" "unlocks (nandfs_opendir p s)" "unlocks (nandfs_readdir ds s)"
    "unlocks (nandfs_telldir ds s)" "unlocks (nandfs_dirfd ds s)" "unlocks (nandfs_seekdir ds off s)" "unlocks (nandfs_rewinddir ds s)"
    "unlocks (nandfs_closedir ds s)" "unlocks (nandfs_stat p st s)" "unlocks (nandfs_dup2 fd gd s)" "unlocks (nandfs_dup fd s)"
    "unlocks (nandfs_scandir p accept alloc s)"
  unfolding released_ops by (intro unlock assms)+

lemma unlocksD: "unlocks m \<Longrightarrow> m = Some (r, s) \<Longrightarrow> fs_mutex s = 0"
  by (simp add: unlocks_def)

lemma step_releases:
  assumes "api_step c s s'" "fs_mutex s = 0" "releases c"
  shows "fs_mutex s' = 0"
  using assms by (cases rule: api_step.cases) ((simp; fail) | (erule unlocksD [rotated], intro unlock; simp))+

lemma session_releases:
  "session cs s s' \<Longrightarrow> fs_mutex s = 0 \<Longrightarrow> \<forall>c \<in> set cs. releases c \<Longrightarrow> fs_mutex s' = 0"
  by (induction rule: session.induct) (simp_all add: step_releases)

section \<open>A lock that is not given back\<close>

lemma locked_out: "fs_mutex s \<noteq> 0 \<Longrightarrow> FS_MUTEX_LOCK err k s = Some (err, s)"
  by (simp add: FS_MUTEX_LOCK_def)

lemma step_locked_out:
  assumes "api_step c s s'" "fs_mutex s \<noteq> 0"
  shows "s' = s"
  using assms
  by (cases rule: api_step.cases) (simp_all add: released_ops nandfs_creat_def nandfs_open_def nandfs_write_def locked_out)

lemma session_locked_out: "session cs s s' \<Longrightarrow> fs_mutex s \<noteq> 0 \<Longrightarrow> s' = s"
  by (induction rule: session.induct) (auto dest: step_locked_out)


section \<open>Properties\<close>

text \<open>
  C8: a session that starts with a free lock ends with a free lock, whatever the calls return, when it holds no
  write and no open without an access mode: on every path, errors included, each of the other operations gives
  the lock back.
\<close>
theorem lock_discipline:
  assumes "session cs s s'" "fs_mutex s = 0" "\<forall>c \<in> set cs. releases c"
  shows "fs_mutex s' = 0"
  using assms by (rule session_releases)

text \<open>
  C35: an open without an access mode is refused with -1 but keeps the lock.  From then on no session of the
  interface changes anything: opening, reading, writing and closing return -1.  Unmounting or mounting anew, which
  are not calls of a session, give the lock back: whatever they return, the lock is free after them.  If no directory stream is open, unmounting
  returns 0, and every descriptor is free after it, those of the files that were open included.
\<close>
theorem open_without_mode_locks_out:
  assumes "fs_mutex s = 0" "\<not> IS_WRONLY flags" "\<not> IS_RDONLY flags"
  shows "\<exists>s1. nandfs_open path flags mode s = Some (-1, s1) \<and> fs_mutex s1 = 1 \<and>
    (\<forall>cs s2. session cs s1 s2 \<longrightarrow> s2 = s1) \<and>
    (\<forall>p f m. nandfs_open p f m s1 = Some (-1, s1)) \<and> (\<forall>fd. nandfs_close fd s1 = Some (-1, s1)) \<and>
    (\<forall>fd b n. nandfs_write fd b n s1 = Some (-1, s1) \<and> nandfs_read fd b n s1 = Some ((-1, b), s1)) \<and>
    (\<forall>r s2. nandfs_unmount s1 = Some (r, s2) \<or> nandfs_fsBooting s1 = Some (r, s2) \<longrightarrow> fs_mutex s2 = 0) \<and>
    (ds_fd (dirstreams s 0) = FD_EMPTY \<and> ds_fd (dirstreams s 1) = FD_EMPTY \<longrightarrow>
      (\<exists>s2. nandfs_unmount s1 = Some (0, s2) \<and> fs_mutex s2 = 0 \<and> (\<forall>fd < 8. IS_OPEN_FILE_ENTRY_EMPTY fd s2)))"
proof (rule exI [of _ "s\<lparr>fs_mutex := 1\<rparr>"], intro conjI allI impI)
  let ?s1 = "s\<lparr>fs_mutex := 1\<rparr>"
  show "nandfs_open path flags mode s = Some (-1, ?s1)" using assms by (simp add: nandfs_open_def FS_MUTEX_LOCK_def)
  show "s2 = ?s1" if "session cs ?s1 s2" for cs s2 using session_locked_out [OF that] by simp
  show "fs_mutex s2 = 0" if "nandfs_unmount ?s1 = Some (r, s2) \<or> nandfs_fsBooting ?s1 = Some (r, s2)" for r s2
    using that unlocksD [OF unlocks_unmount] unlocksD [OF unlocks_booting] by blast
  assume "ds_fd (dirstreams s 0) = FD_EMPTY \<and> ds_fd (dirstreams s 1) = FD_EMPTY"
  then have closed: "ds_fd (dirstreams ?s1 0) = FD_EMPTY" "ds_fd (dirstreams ?s1 1) = FD_EMPTY" by simp_all
  obtain s2 where "initializeRamStructs ?s1 = Some s2" "fs_mutex s2 = 0" "\<forall>fd. fd < 8 \<longrightarrow> f_vnode (open_files s2 fd) = VNODE_EMPTY"
    by (rule initializeRamStructs_result [OF closed])
  then show "\<exists>s2. nandfs_unmount ?s1 = Some (0, s2) \<and> fs_mutex s2 = 0 \<and> (\<forall>fd < 8. IS_OPEN_FILE_ENTRY_EMPTY fd s2)"
    by (auto simp: nandfs_unmount_def IS_OPEN_FILE_ENTRY_EMPTY_def)
qed (simp_all add: nandfs_open_def nandfs_close_def nandfs_write_def nandfs_read_def locked_out)

lemma lock_discipline_witness: "\<exists>s'. session [Close 3, Seekdir None 0] blank_fs s' \<and> fs_mutex s' = 0"
proof -
  have "nandfs_close 3 blank_fs = Some (-1, blank_fs)" "nandfs_seekdir None 0 blank_fs = Some ((), blank_fs)"
    by (simp_all add: nandfs_close_def nandfs_seekdir_def FS_MUTEX_LOCK_def closeUtil_def verifyFd_def IS_OPEN_FILE_ENTRY_EMPTY_def
      SYS_RETURN_def stream_ok_def verifyDirstream_def assert_c_def blank_fs_def seq.extend_def)
  then have "session [Close 3, Seekdir None 0] blank_fs blank_fs"
    by (metis session.intros api_step.intros(3,17))
  then show ?thesis using lock_discipline [of "[Close 3, Seekdir None 0]" blank_fs blank_fs] by auto
qed

lemma open_without_mode_locks_out_witness:
  "\<exists>s1. nandfs_open [] 0 0 blank_fs = Some (-1, s1) \<and> fs_mutex s1 = 1 \<and> (\<exists>s2. nandfs_unmount s1 = Some (0, s2) \<and> fs_mutex s2 = 0)"
  using open_without_mode_locks_out [of blank_fs 0 "[]" 0] by (auto simp: IS_WRONLY_def IS_RDONLY_def)

end
