(* ===== verification/ArmNand.thy ===== *)
theory ArmNand
  imports Prelude
begin

text \<open>
  The driver of the NAND chip on the LPC2000 board, \<^verbatim>\<open>ARM/peripherals/nand.c\<close>: the chip hangs on
  the pins of port 0, and the driver moves the pins through the registers of the port.  The state holds the
  registers of the port and the \<open>trace\<close>: every change of the pins, every wait and every value read from the
  pins, in order.  What the pins read is the environment's: \<open>pin_values n\<close> is the value of the \<open>n\<close>-th read of
  \<open>IOPIN0\<close>.  \<open>IOSET0\<close> reads as the output latch, \<open>IOCLR0\<close> is a register to write and reads as \<open>clr_read\<close>.

  \<open>cycles\<close> is what happens between the driver and the chip in a trace: a cycle at every rising edge of write enable
  while the chip is selected, a byte the chip gives at every value read while read enable is low, and the sight of the ready pin.  The lemmas compute the cycles of every operation.  The build is the board's, without \<open>DO_ECC\<close>.
  Where the simulator has a function of the same name, the name here ends in \<open>_arm\<close>.
\<close>

unbundle bit_operations_syntax

section \<open>The port\<close>

datatype bus_event = Pins u32 u32 | Wait u32 | Sample u32

record port =
  PINSEL0 :: u32
  PINSEL1 :: u32
  IODIR0 :: u32
  latch :: u32
  clr_read :: u32
  pin_values :: "nat \<Rightarrow> u32"
  pin_reads :: nat
  busywait_iters_per_msec :: u32
  busywait_dummy :: u32
  trace :: "bus_event list"

definition set_pins :: "u32 \<Rightarrow> u32 \<Rightarrow> port \<Rightarrow> port" where
  "set_pins dir out s = s\<lparr>IODIR0 := dir, latch := out, trace := trace s @ [Pins dir out]\<rparr>"

definition IODIR_or :: "u32 \<Rightarrow> port \<Rightarrow> port" where "IODIR_or v s = set_pins (IODIR0 s OR v) (latch s) s"
definition IODIR_and :: "u32 \<Rightarrow> port \<Rightarrow> port" where "IODIR_and v s = set_pins (IODIR0 s AND v) (latch s) s"
definition IOSET_or :: "u32 \<Rightarrow> port \<Rightarrow> port" where "IOSET_or v s = set_pins (IODIR0 s) (latch s OR (latch s OR v)) s"
definition IOCLR_or :: "u32 \<Rightarrow> port \<Rightarrow> port" where "IOCLR_or v s = set_pins (IODIR0 s) (latch s AND NOT (clr_read s OR v)) s"

definition IOPIN :: "port \<Rightarrow> u32 \<times> port" where
  "IOPIN s = (let v = pin_values s (pin_reads s) in (v, s\<lparr>pin_reads := pin_reads s + 1, trace := trace s @ [Sample v]\<rparr>))"

text \<open>The delay loop counts up a variable; the trace keeps the number of its turns.\<close>

definition busywait :: "u32 \<Rightarrow> port \<Rightarrow> port" where
  "busywait usec s = (let iters = (if usec > 32768 then drop_bit 5 (drop_bit 5 usec * busywait_iters_per_msec s)
         else drop_bit 10 (usec * busywait_iters_per_msec s))
     in s\<lparr>busywait_dummy := busywait_dummy s + iters, trace := trace s @ [Wait iters]\<rparr>)"

section \<open>Pins and commands\<close>

abbreviation (input) WRITE_PROTECT_LOW :: u32 where "WRITE_PROTECT_LOW \<equiv> 0x10000"
abbreviation (input) WRITE_ENABLE_LOW :: u32 where "WRITE_ENABLE_LOW \<equiv> 0x20000"
abbreviation (input) ADDRESS_LATCH :: u32 where "ADDRESS_LATCH \<equiv> 0x40000"
abbreviation (input) COMMAND_LATCH :: u32 where "COMMAND_LATCH \<equiv> 0x80000"
abbreviation (input) NAND_IS_READY :: u32 where "NAND_IS_READY \<equiv> 0x100000"
abbreviation (input) READ_ENABLE_LOW :: u32 where "READ_ENABLE_LOW \<equiv> 0x200000"
abbreviation (input) CHIP_ENABLE_LOW :: u32 where "CHIP_ENABLE_LOW \<equiv> 0x400000"
abbreviation (input) IO_0 :: u32 where "IO_0 \<equiv> 0x100"
abbreviation (input) IO_MASK :: u32 where "IO_MASK \<equiv> 0xff00"

abbreviation (input) CMD_READ_ID :: u32 where "CMD_READ_ID \<equiv> 0x90"
abbreviation (input) CMD_READ_PAGE :: u32 where "CMD_READ_PAGE \<equiv> 0x00"
abbreviation (input) CMD_READ_PAGE_SPARE :: u32 where "CMD_READ_PAGE_SPARE \<equiv> 0x50"
abbreviation (input) CMD_PROGRAM_PAGE :: u32 where "CMD_PROGRAM_PAGE \<equiv> 0x80"
abbreviation (input) CMD_PROGRAM_PAGE_A :: u32 where "CMD_PROGRAM_PAGE_A \<equiv> 0x00"
abbreviation (input) CMD_PROGRAM_PAGE_B :: u32 where "CMD_PROGRAM_PAGE_B \<equiv> 0x01"
abbreviation (input) CMD_PROGRAM_PAGE_C :: u32 where "CMD_PROGRAM_PAGE_C \<equiv> 0x50"
abbreviation (input) CMD_PROGRAM_CONFIRM :: u32 where "CMD_PROGRAM_CONFIRM \<equiv> 0x10"
abbreviation (input) CMD_ERASE_SETUP :: u32 where "CMD_ERASE_SETUP \<equiv> 0x60"
abbreviation (input) CMD_ERASE_CONFIRM :: u32 where "CMD_ERASE_CONFIRM \<equiv> 0xd0"
abbreviation (input) CMD_READ_STATUS :: u32 where "CMD_READ_STATUS \<equiv> 0x70"

definition SHIFT_TO_IO :: "u32 \<Rightarrow> u32" where "SHIFT_TO_IO v = push_bit 8 v AND IO_MASK"
definition SHIFT_FROM_IO :: "u32 \<Rightarrow> u32" where "SHIFT_FROM_IO v = drop_bit 8 v"
definition SHIFT_OFFSET_TO_IO :: "u32 \<Rightarrow> u32" where "SHIFT_OFFSET_TO_IO v = drop_bit 8 v AND IO_MASK"
definition SHIFT_PAGE_1_TO_IO :: "u32 \<Rightarrow> u32" where "SHIFT_PAGE_1_TO_IO v = push_bit 8 v AND IO_MASK"
definition SHIFT_PAGE_2_TO_IO :: "u32 \<Rightarrow> u32" where "SHIFT_PAGE_2_TO_IO v = v AND IO_MASK"
definition SHIFT_STATUS :: "u32 \<Rightarrow> u32" where "SHIFT_STATUS v = drop_bit 8 v"
definition ADD_OFFSET_TO_ADDRESS :: "u32 \<Rightarrow> u32 \<Rightarrow> u32" where "ADD_OFFSET_TO_ADDRESS p off = p OR push_bit 16 off"

text \<open>\<open>while(NAND_IS_BUSY());\<close> ends with the first read that shows the chip ready, and never if there is none.\<close>

partial_function (option) wait_ready :: "port \<Rightarrow> port option" where
  "wait_ready s = (let (v, s1) = IOPIN s in if v AND NAND_IS_READY = 0 then wait_ready s1 else Some s1)"

section \<open>One command, one address\<close>

definition nandOpInit :: "port \<Rightarrow> port" where
  "nandOpInit = fold id [
     IOSET_or (CHIP_ENABLE_LOW OR WRITE_ENABLE_LOW OR READ_ENABLE_LOW),
     IOCLR_or (COMMAND_LATCH OR ADDRESS_LATCH OR WRITE_PROTECT_LOW)]"

text \<open>Of the other modules that \<open>nandInit\<close> starts, only the serial line touches the pins of port 0.\<close>

definition uart0_pins :: "port \<Rightarrow> port" where
  "uart0_pins s = s\<lparr>PINSEL0 := (PINSEL0 s AND 0xFFFFFFF0) OR 0x00000001 OR 0x00000004\<rparr>"

definition nandInit_arm :: "port \<Rightarrow> u32 \<times> port" where
  "nandInit_arm s = (0, fold id [
     uart0_pins,
     (\<lambda>s. s\<lparr>PINSEL0 := PINSEL0 s AND NOT 0xFFFF0000\<rparr>),
     (\<lambda>s. s\<lparr>PINSEL1 := PINSEL1 s AND NOT 0x00003FFF\<rparr>),
     IODIR_or (WRITE_PROTECT_LOW OR WRITE_ENABLE_LOW OR ADDRESS_LATCH OR COMMAND_LATCH OR CHIP_ENABLE_LOW OR READ_ENABLE_LOW),
     nandOpInit] s)"

definition nandCommand :: "u32 \<Rightarrow> port \<Rightarrow> port" where
  "nandCommand cmd = fold id [
     IODIR_or IO_MASK,
     IOSET_or (SHIFT_TO_IO cmd),
     IOCLR_or (SHIFT_TO_IO (NOT cmd)),
     IOSET_or COMMAND_LATCH,
     IOCLR_or (WRITE_ENABLE_LOW OR CHIP_ENABLE_LOW),
     busywait 1,
     IOSET_or WRITE_ENABLE_LOW,
     IOCLR_or COMMAND_LATCH]"

definition nandAddressOneCycle :: "u32 \<Rightarrow> port \<Rightarrow> port" where
  "nandAddressOneCycle addr = fold id [
     IODIR_or IO_MASK,
     IOSET_or (SHIFT_TO_IO addr),
     IOCLR_or (SHIFT_TO_IO (NOT addr)),
     IOSET_or ADDRESS_LATCH,
     IOCLR_or WRITE_ENABLE_LOW,
     busywait 1,
     IOSET_or WRITE_ENABLE_LOW,
     busywait 1,
     IOCLR_or ADDRESS_LATCH]"

definition nandAddressTwoCycles :: "u32 \<Rightarrow> port \<Rightarrow> port" where
  "nandAddressTwoCycles addr = fold id [
     IODIR_or IO_MASK,
     IOSET_or (SHIFT_PAGE_1_TO_IO addr),
     IOCLR_or (SHIFT_PAGE_1_TO_IO (NOT addr)),
     IOSET_or ADDRESS_LATCH,
     IOCLR_or WRITE_ENABLE_LOW,
     busywait 1,
     IOSET_or WRITE_ENABLE_LOW,
     IOSET_or (SHIFT_PAGE_2_TO_IO addr),
     IOCLR_or (SHIFT_PAGE_2_TO_IO (NOT addr)),
     IOCLR_or WRITE_ENABLE_LOW,
     busywait 1,
     IOSET_or WRITE_ENABLE_LOW,
     busywait 1,
     IOCLR_or ADDRESS_LATCH]"

definition nandAddressThreeCycles :: "u32 \<Rightarrow> port \<Rightarrow> port" where
  "nandAddressThreeCycles addr = fold id [
     IODIR_or IO_MASK,
     IOSET_or (SHIFT_OFFSET_TO_IO addr),
     IOCLR_or (SHIFT_OFFSET_TO_IO (NOT addr)),
     IOSET_or ADDRESS_LATCH,
     IOCLR_or WRITE_ENABLE_LOW,
     busywait 1,
     IOSET_or WRITE_ENABLE_LOW,
     IOSET_or (SHIFT_PAGE_1_TO_IO addr),
     IOCLR_or (SHIFT_PAGE_1_TO_IO (NOT addr)),
     IOCLR_or WRITE_ENABLE_LOW,
     busywait 1,
     IOSET_or WRITE_ENABLE_LOW,
     IOSET_or (SHIFT_PAGE_2_TO_IO addr),
     IOCLR_or (SHIFT_PAGE_2_TO_IO (NOT addr)),
     IOCLR_or WRITE_ENABLE_LOW,
     busywait 1,
     IOSET_or WRITE_ENABLE_LOW,
     busywait 1,
     IOCLR_or ADDRESS_LATCH]"

section \<open>Reading\<close>

definition nandRead :: "port \<Rightarrow> u32 \<times> port" where
  "nandRead s = (let s1 = fold id [IODIR_and (NOT IO_MASK), IOCLR_or READ_ENABLE_LOW, busywait 1] s;
       (v, s2) = IOPIN s1
     in (SHIFT_FROM_IO (v AND IO_MASK), IOSET_or READ_ENABLE_LOW s2))"

definition nandRelease :: "port \<Rightarrow> port" where
  "nandRelease s = s"

definition nandReadID_arm :: "port \<Rightarrow> u32 \<times> port" where
  "nandReadID_arm s = (let s1 = fold id [nandOpInit, nandCommand CMD_READ_ID, nandAddressOneCycle 0x00, busywait 1, busywait 1] s;
       (id1, s2) = nandRead s1;
       (id2, s3) = nandRead s2
     in (push_bit 8 (ucast (ucast id1 :: u8)) OR ucast (ucast id2 :: u8), nandRelease s3))"

text \<open>The loop that clocks the bytes of a page out of the chip.\<close>

primrec read_bytes :: "nat list \<Rightarrow> buf \<Rightarrow> port \<Rightarrow> buf \<times> port" where
  "read_bytes [] buf s = (buf, s)"
| "read_bytes (idx # is) buf s = (let (v, s1) = IOPIN (IOCLR_or READ_ENABLE_LOW s) in
     read_bytes is (buf(idx := ucast (SHIFT_FROM_IO v))) (IOSET_or READ_ENABLE_LOW s1))"

definition nandReadPageGeneric :: "buf \<Rightarrow> u32 \<Rightarrow> u32 \<Rightarrow> u32 \<Rightarrow> u32 \<Rightarrow> port \<Rightarrow> (u32 \<times> buf \<times> port) option" where
  "nandReadPageGeneric buf p off len cmd s = do {
     s1 \<leftarrow> wait_ready (fold id [nandOpInit, nandCommand cmd, nandAddressThreeCycles (ADD_OFFSET_TO_ADDRESS p off), busywait 15] s);
     let (buf1, s2) = read_bytes [0..<unat len] buf (IODIR_and (NOT IO_MASK) s1);
     Some (0, buf1, s2)
   }"

definition nandReadPageSpare_arm :: "buf \<Rightarrow> u32 \<Rightarrow> u32 \<Rightarrow> u32 \<Rightarrow> port \<Rightarrow> (u32 \<times> buf \<times> port) option" where
  "nandReadPageSpare_arm buf p off len s = nandReadPageGeneric buf p off len CMD_READ_PAGE_SPARE s"

definition nandReadPage_arm :: "buf \<Rightarrow> u32 \<Rightarrow> u32 \<Rightarrow> u32 \<Rightarrow> port \<Rightarrow> (u32 \<times> buf \<times> port) option" where
  "nandReadPage_arm buf p off len s = nandReadPageGeneric buf p off len CMD_READ_PAGE s"

text \<open>\<open>~IO_0\<close> expands to \<open>~1 << 8\<close>, which is not the complement of the mask of pin 8: it clears the pins 0 to 8.\<close>

definition nandReadStatus_arm :: "port \<Rightarrow> u32 \<times> port" where
  "nandReadStatus_arm s = (let s1 = fold id [nandOpInit, nandCommand CMD_READ_STATUS, IODIR_and (push_bit 8 (NOT 1)), busywait 1,
         IOCLR_or READ_ENABLE_LOW, busywait 1] s;
       (v, s2) = IOPIN s1
     in (SHIFT_STATUS (v AND IO_0), IOSET_or READ_ENABLE_LOW s2))"

section \<open>Programming and erasing\<close>

definition nandProgramInit :: "port \<Rightarrow> port" where
  "nandProgramInit = IOSET_or WRITE_PROTECT_LOW"

definition nandProgramFinish :: "port \<Rightarrow> port" where
  "nandProgramFinish = fold id [nandCommand CMD_PROGRAM_PAGE_A, IOCLR_or WRITE_PROTECT_LOW]"

primrec write_bytes :: "nat list \<Rightarrow> buf \<Rightarrow> port \<Rightarrow> port" where
  "write_bytes [] buf s = s"
| "write_bytes (idx # is) buf s = write_bytes is buf (fold id [
     busywait 1,
     IOCLR_or WRITE_ENABLE_LOW,
     IOSET_or (SHIFT_TO_IO (ucast (buf idx))),
     IOCLR_or (SHIFT_TO_IO (NOT (ucast (buf idx)))),
     busywait 1,
     IOSET_or WRITE_ENABLE_LOW] s)"

definition nandProgramPage :: "buf \<Rightarrow> u32 \<Rightarrow> u32 \<Rightarrow> u32 \<Rightarrow> u32 \<Rightarrow> port \<Rightarrow> (u32 \<times> port) option" where
  "nandProgramPage buf addr off len area_cmd s = do {
     s1 \<leftarrow> wait_ready (fold id [nandOpInit, nandProgramInit, nandCommand area_cmd, nandCommand CMD_PROGRAM_PAGE,
        nandAddressThreeCycles (ADD_OFFSET_TO_ADDRESS addr off), IODIR_or IO_MASK,
        write_bytes [0..<unat len] buf, nandCommand CMD_PROGRAM_CONFIRM] s);
     Some (nandReadStatus_arm (nandProgramFinish s1))
   }"

definition nandProgramPageA_arm :: "buf \<Rightarrow> u32 \<Rightarrow> u32 \<Rightarrow> u32 \<Rightarrow> port \<Rightarrow> (u32 \<times> port) option" where
  "nandProgramPageA_arm buf p off len = nandProgramPage buf p off len CMD_PROGRAM_PAGE_A"

definition nandProgramPageB_arm :: "buf \<Rightarrow> u32 \<Rightarrow> u32 \<Rightarrow> u32 \<Rightarrow> port \<Rightarrow> (u32 \<times> port) option" where
  "nandProgramPageB_arm buf p off len = nandProgramPage buf p off len CMD_PROGRAM_PAGE_B"

definition nandProgramPageC_arm :: "buf \<Rightarrow> u32 \<Rightarrow> u32 \<Rightarrow> u32 \<Rightarrow> port \<Rightarrow> (u32 \<times> port) option" where
  "nandProgramPageC_arm buf p off len = nandProgramPage buf p off len CMD_PROGRAM_PAGE_C"

definition nandBruteErase_arm :: "u32 \<Rightarrow> port \<Rightarrow> (u32 \<times> port) option" where
  "nandBruteErase_arm page_in_erase_unit s = do {
     s1 \<leftarrow> wait_ready (fold id [nandOpInit, nandProgramInit, nandCommand CMD_ERASE_SETUP, busywait 1,
        nandAddressTwoCycles page_in_erase_unit, nandCommand CMD_ERASE_CONFIRM, busywait 1] s);
     Some (nandReadStatus_arm (nandProgramFinish s1))
   }"

abbreviation (input) ARM_EU_MASK :: u32 where "ARM_EU_MASK \<equiv> 0xffffffe0"

text \<open>The unit is good if the mark is blank in its first two pages; the buffer starts with unknown bytes.\<close>

definition nandCheckEuStatus_arm :: "buf \<Rightarrow> u32 \<Rightarrow> port \<Rightarrow> (u32 \<times> port) option" where
  "nandCheckEuStatus_arm junk phy_addr s = do {
     (_, spare_buf, s1) \<leftarrow> nandReadPageSpare_arm junk (phy_addr AND ARM_EU_MASK) 0 16 s;
     if spare_buf 5 = 0xff then do {
       (_, spare_buf2, s2) \<leftarrow> nandReadPageSpare_arm spare_buf ((phy_addr AND ARM_EU_MASK) + 1) 0 16 s1;
       Some (if spare_buf2 5 = 0xff then 1 else 0, s2)
     } else Some (0, s1)
   }"

definition nandErase_arm :: "buf \<Rightarrow> u32 \<Rightarrow> port \<Rightarrow> (u32 \<times> port) option" where
  "nandErase_arm junk page_in_erase_unit s = do {
     (good, s1) \<leftarrow> nandCheckEuStatus_arm junk page_in_erase_unit s;
     if good = 0 then Some (0, s1)
     else do {
       s2 \<leftarrow> wait_ready (fold id [nandOpInit, nandProgramInit, nandCommand CMD_ERASE_SETUP, busywait 1,
          nandAddressTwoCycles page_in_erase_unit, nandCommand CMD_ERASE_CONFIRM, busywait 1] s1);
       Some (nandReadStatus_arm (nandProgramFinish s2))
     }
   }"

definition markEuAsBad_arm :: "buf \<Rightarrow> u32 \<Rightarrow> port \<Rightarrow> (u32 \<times> port) option" where
  "markEuAsBad_arm junk page_addr s = do {
     (good, s1) \<leftarrow> nandCheckEuStatus_arm junk page_addr s;
     if good = 0 then Some (1, s1)
     else do {
       (e, s2) \<leftarrow> nandProgramPageC_arm (\<lambda>_. 0x00) (page_addr AND ARM_EU_MASK) 5 1 s1;
       Some (if e \<noteq> 0 then 0 else 1, s2)
     }
   }"

section \<open>What the chip sees\<close>

text \<open>
  The chip takes a cycle when write enable rises while chip enable is low: a command (with the state of write
  protection), an address or data, by the two latch pins.  \<open>Floating\<close> is a cycle whose data pins nobody drives.
  A read of the pins while read enable is low takes the byte the chip gives, \<open>Out\<close>; with read enable high it looks at
  the ready pin, and \<open>Ready\<close> is a look that finds the chip ready.
\<close>

datatype cycle = Command bool u8 | Address u8 | Data u8 | Floating | Ready | Out u8

definition data_pins :: "u32 \<Rightarrow> u8" where "data_pins out = ucast (drop_bit 8 out)"

definition latched :: "u32 \<Rightarrow> u32 \<Rightarrow> cycle" where
  "latched dir out = (if dir AND IO_MASK \<noteq> IO_MASK then Floating
     else if bit out 19 then Command (bit out 16) (data_pins out) else if bit out 18 then Address (data_pins out) else Data (data_pins out))"

definition sampled :: "u32 \<Rightarrow> u32 \<Rightarrow> cycle list" where
  "sampled out v = (if \<not> bit out 21 then [Out (data_pins v)] else if v AND NAND_IS_READY \<noteq> 0 then [Ready] else [])"

primrec cycles :: "u32 \<Rightarrow> bus_event list \<Rightarrow> cycle list" where
  "cycles out [] = []"
| "cycles out (e # es) = (case e of
     Pins dir out' \<Rightarrow> (if \<not> bit out 17 \<and> bit out' 17 \<and> \<not> bit out 22 then [latched dir out'] else []) @ cycles out' es
   | Sample v \<Rightarrow> sampled out v @ cycles out es
   | Wait n \<Rightarrow> cycles out es)"

primrec last_out :: "u32 \<Rightarrow> bus_event list \<Rightarrow> u32" where
  "last_out out [] = out"
| "last_out out (e # es) = last_out (case e of Pins dir out' \<Rightarrow> out' | _ \<Rightarrow> out) es"

lemma cycles_append [simp]: "cycles out (es @ fs) = cycles out es @ cycles (last_out out es) fs"
  by (induction es arbitrary: out) (auto split: bus_event.splits)

lemma last_out_append [simp]: "last_out out (es @ fs) = last_out (last_out out es) fs"
  by (induction es arbitrary: out) auto

text \<open>While read enable is low the chip drives the data pins, so the processor must not.\<close>

definition contends :: "bus_event \<Rightarrow> bool" where
  "contends e = (case e of Pins dir out \<Rightarrow> \<not> bit out 21 \<and> dir AND IO_MASK \<noteq> 0 | _ \<Rightarrow> False)"

definition sends :: "port \<Rightarrow> cycle list \<Rightarrow> bool \<Rightarrow> port \<Rightarrow> bool" where
  "sends s cs clash s' = (\<exists>es. trace s' = trace s @ es \<and> cycles (latch s) es = cs \<and> last_out (latch s) es = latch s' \<and>
     (list_ex contends es \<longrightarrow> clash) \<and> clr_read s' = clr_read s \<and> pin_values s' = pin_values s)"

lemma sends_trans: "sends s cs k s1 \<Longrightarrow> sends s1 cs' k' s2 \<Longrightarrow> sends s (cs @ cs') (k \<or> k') s2"
  unfolding sends_def by (elim exE, rule_tac x = "es @ esa" in exI) auto

text \<open>
  Between operations: the register to clear pins reads 0, the processor drives the control pins, the strobes are high
  and the latches low.
\<close>

definition idle :: "port \<Rightarrow> bool" where
  "idle s = (clr_read s = 0 \<and> bit (IODIR0 s) 16 \<and> bit (IODIR0 s) 17 \<and> bit (IODIR0 s) 18 \<and> bit (IODIR0 s) 19 \<and>
     bit (IODIR0 s) 21 \<and> bit (IODIR0 s) 22 \<and> bit (latch s) 17 \<and> bit (latch s) 21 \<and> \<not> bit (latch s) 18 \<and> \<not> bit (latch s) 19)"

definition selected :: "bool \<Rightarrow> port \<Rightarrow> bool" where
  "selected w s = (idle s \<and> \<not> bit (latch s) 22 \<and> bit (latch s) 16 = w \<and> IODIR0 s AND IO_MASK = IO_MASK)"

lemmas port_simps = set_pins_def IODIR_or_def IODIR_and_def IOSET_or_def IOCLR_or_def busywait_def Let_def

lemma io_mask_bit: "bit IO_MASK n \<longleftrightarrow> 8 \<le> n \<and> n < 16"
proof -
  have "IO_MASK = push_bit 8 (mask 8)" by (simp add: mask_eq_exp_minus_1)
  show ?thesis unfolding \<open>IO_MASK = _\<close> by (auto simp: bit_simps)
qed

lemma driven: "(d OR IO_MASK) AND IO_MASK = IO_MASK"
  by (rule bit_eqI) (auto simp: bit_simps)

lemma cleared: "m' = NOT m \<Longrightarrow> (d AND m') AND m = (0 :: u32)"
  by (rule bit_eqI) (auto simp: bit_simps)

lemma undriven: "(d AND - 0xff01) AND IO_MASK = 0" "(d AND - 0xffff0001) AND 0xffff0000 = 0"
  by (rule cleared, simp)+

text \<open>The data pins follow the bitwise operations of the registers.\<close>

lemma data_pins_bits: "bit (data_pins v) n \<longleftrightarrow> n < 8 \<and> bit v (n + 8)"
  by (auto simp: data_pins_def bit_simps add.commute)

lemma data_pins_ops [simp]:
  "data_pins (v OR w) = data_pins v OR data_pins w" "data_pins (v AND w) = data_pins v AND data_pins w"
  "data_pins (NOT v) = NOT (data_pins v)" "data_pins (push_bit 8 v) = ucast v" "ucast (NOT v) = NOT (ucast v :: u8)"
  by (rule bit_eqI, auto simp: data_pins_bits bit_simps)+

lemma data_pins_shift [simp]:
  "data_pins (drop_bit 8 v) = ucast (drop_bit 16 v)" "ucast (drop_bit 16 (NOT v)) = NOT (ucast (drop_bit 16 v) :: u8)"
  by (rule bit_eqI, auto simp: data_pins_bits bit_simps)+

lemma byte_word: "ucast (ucast (b :: u8) :: u32) = b"
  by (rule bit_eqI) (auto simp: bit_simps)

lemma status_bit: "SHIFT_STATUS (v AND IO_0) = (if bit v 8 then 1 else 0)"
proof -
  have "IO_0 = push_bit 8 1" by simp
  show ?thesis unfolding \<open>IO_0 = _\<close> by (rule bit_eqI) (auto simp: SHIFT_STATUS_def bit_simps intro: gr0I)
qed

lemma data_pins_masks [simp]:
  "data_pins IO_MASK = -1" "data_pins 0x10000 = 0" "data_pins 0x20000 = 0" "data_pins 0x40000 = 0" "data_pins 0x80000 = 0" "data_pins 0x420000 = 0"
  "data_pins (- 0x80001) = -1" "data_pins (- 0x40001) = -1" "data_pins (- 0x20001) = -1" "data_pins (- 0x420001) = -1"
  "data_pins (- 0xff01) = 0"
  by code_simp+

lemmas bus_simps = port_simps sends_def idle_def selected_def contends_def latched_def driven undriven bit_simps io_mask_bit
  SHIFT_TO_IO_def SHIFT_OFFSET_TO_IO_def SHIFT_PAGE_1_TO_IO_def SHIFT_PAGE_2_TO_IO_def

lemma nandCommand_sends:
  assumes "idle s"
  shows "sends s [Command (bit (latch s) 16) (ucast cmd)] False (nandCommand cmd s) \<and> selected (bit (latch s) 16) (nandCommand cmd s)"
  using assms by (simp add: nandCommand_def bus_simps)

lemma nandOpInit_sends:
  assumes "idle s"
  shows "sends s [] False (nandOpInit s) \<and> idle (nandOpInit s) \<and> \<not> bit (latch (nandOpInit s)) 16"
  using assms by (simp add: nandOpInit_def bus_simps)

lemma nandInit_idle: "clr_read s = 0 \<Longrightarrow> idle (snd (nandInit_arm s)) \<and> PINSEL0 (snd (nandInit_arm s)) AND 0xffff0000 = 0"
  by (simp add: nandInit_arm_def nandOpInit_def uart0_pins_def bus_simps)

lemma nandProgramInit_sends:
  assumes "idle s"
  shows "sends s [] False (nandProgramInit s) \<and> idle (nandProgramInit s) \<and> bit (latch (nandProgramInit s)) 16"
  using assms by (simp add: nandProgramInit_def bus_simps)

lemma busywait_sends: "sends s [] False (busywait u s) \<and> (idle (busywait u s) = idle s) \<and> (selected w (busywait u s) = selected w s)"
  by (simp add: bus_simps)

lemma nandAddressOneCycle_sends:
  assumes "selected w s"
  shows "sends s [Address (ucast addr)] False (nandAddressOneCycle addr s) \<and> selected w (nandAddressOneCycle addr s)"
  using assms by (simp add: nandAddressOneCycle_def bus_simps)

lemma nandAddressTwoCycles_sends:
  assumes "selected w s"
  shows "sends s [Address (ucast addr), Address (ucast (drop_bit 8 addr))] False (nandAddressTwoCycles addr s) \<and>
    selected w (nandAddressTwoCycles addr s)"
  using assms by (simp add: nandAddressTwoCycles_def bus_simps data_pins_def [of addr])

lemma nandAddressThreeCycles_sends:
  assumes "selected w s"
  shows "sends s [Address (ucast (drop_bit 16 addr)), Address (ucast addr), Address (ucast (drop_bit 8 addr))] False
      (nandAddressThreeCycles addr s) \<and> selected w (nandAddressThreeCycles addr s)"
  using assms by (simp add: nandAddressThreeCycles_def bus_simps data_pins_def [of addr])

lemma selected_idle: "selected w s \<Longrightarrow> idle s \<and> bit (latch s) 16 = w"
  by (simp add: selected_def)

lemma IOPIN_sends:
  "fst (IOPIN s) = pin_values s (pin_reads s)" "sends s (sampled (latch s) (pin_values s (pin_reads s))) False (snd (IOPIN s))" "latch (snd (IOPIN s)) = latch s" "IODIR0 (snd (IOPIN s)) = IODIR0 s"
  "pin_reads (snd (IOPIN s)) = pin_reads s + 1" "clr_read (snd (IOPIN s)) = clr_read s" "pin_values (snd (IOPIN s)) = pin_values s"
  by (simp_all add: IOPIN_def Let_def bus_simps)

text \<open>Waiting ends at the first read that shows the chip ready.\<close>

definition ready_at :: "port \<Rightarrow> nat \<Rightarrow> bool" where
  "ready_at s k = (pin_values s (pin_reads s + k) AND NAND_IS_READY \<noteq> 0 \<and> (\<forall>j<k. pin_values s (pin_reads s + j) AND NAND_IS_READY = 0))"

lemma ready_first: "\<exists>n\<ge>pin_reads s. pin_values s n AND NAND_IS_READY \<noteq> 0 \<Longrightarrow> \<exists>k. ready_at s k"
proof -
  assume "\<exists>n\<ge>pin_reads s. pin_values s n AND NAND_IS_READY \<noteq> 0"
  then obtain k where k: "pin_values s (pin_reads s + k) AND NAND_IS_READY \<noteq> 0" by (metis le_Suc_ex)
  let ?P = "\<lambda>k. pin_values s (pin_reads s + k) AND NAND_IS_READY \<noteq> 0"
  have "?P (Least ?P)" using k by (rule LeastI)
  moreover have "\<not> ?P j" if "j < Least ?P" for j using that by (rule not_less_Least)
  ultimately have "ready_at s (Least ?P)" by (simp add: ready_at_def)
  then show ?thesis ..
qed

lemma wait_ready_sends:
  assumes "ready_at s k" "bit (latch s) 21"
  shows "\<exists>s'. wait_ready s = Some s' \<and> sends s [Ready] False s' \<and> latch s' = latch s \<and> IODIR0 s' = IODIR0 s \<and> pin_reads s' = pin_reads s + k + 1"
  using assms
proof (induction k arbitrary: s)
  case 0
  then show ?case using IOPIN_sends [of s] by (simp add: wait_ready.simps [of s] ready_at_def split_beta Let_def sampled_def)
next
  case (Suc k)
  have "ready_at (snd (IOPIN s)) k" using Suc.prems by (force simp: ready_at_def IOPIN_sends)
  from Suc.IH [OF this] Suc.prems(2) obtain s' where s': "wait_ready (snd (IOPIN s)) = Some s'" "sends (snd (IOPIN s)) [Ready] False s'" "latch s' = latch s"
    "IODIR0 s' = IODIR0 s" "pin_reads s' = pin_reads s + 1 + k + 1"
    by (auto simp: IOPIN_sends)
  have busy: "pin_values s (pin_reads s) AND NAND_IS_READY = 0" using Suc.prems by (force simp: ready_at_def)
  then have "sampled (latch s) (pin_values s (pin_reads s)) = []" using Suc.prems(2) by (simp add: sampled_def)
  note first = IOPIN_sends(2) [of s, unfolded this]
  from busy have "wait_ready s = Some s'" using s'(1) by (simp add: wait_ready.simps [of s] IOPIN_sends split_beta Let_def)
  then show ?case using s' sends_trans [OF first s'(2)] by simp
qed

lemma wait_never: "\<forall>n\<ge>pin_reads s. pin_values s n AND NAND_IS_READY = 0 \<Longrightarrow> wait_ready s = None"
proof (rule ccontr)
  assume busy: "\<forall>n\<ge>pin_reads s. pin_values s n AND NAND_IS_READY = 0" and "wait_ready s \<noteq> None"
  then obtain s' where "wait_ready s = Some s'" by blast
  then have "\<exists>n\<ge>pin_reads s. pin_values s n AND NAND_IS_READY \<noteq> 0"
  proof (rule wait_ready.raw_induct [where P = "\<lambda>s _. \<exists>n\<ge>pin_reads s. pin_values s n AND NAND_IS_READY \<noteq> 0", rotated])
    fix f :: "port \<Rightarrow> port option" and s s' :: port
    assume IH: "\<And>s s'. f s = Some s' \<Longrightarrow> \<exists>n\<ge>pin_reads s. pin_values s n AND NAND_IS_READY \<noteq> 0"
      and f: "(let (v, s1) = IOPIN s in if v AND NAND_IS_READY = 0 then f s1 else Some s1) = Some s'"
    show "\<exists>n\<ge>pin_reads s. pin_values s n AND NAND_IS_READY \<noteq> 0"
    proof (cases "pin_values s (pin_reads s) AND NAND_IS_READY = 0")
      case True
      then have "f (snd (IOPIN s)) = Some s'" using f by (simp add: split_beta Let_def IOPIN_sends)
      from IH [OF this] show ?thesis by (auto simp: IOPIN_sends intro: Suc_leD)
    next
      case False
      then show ?thesis by blast
    qed
  qed
  then show False using busy by blast
qed

lemma write_bytes_sends:
  assumes "selected w s"
  shows "sends s (map (\<lambda>i. Data (buf i)) is) False (write_bytes is buf s) \<and> selected w (write_bytes is buf s)"
  using assms
proof (induction "is" arbitrary: s)
  case Nil
  then show ?case by (simp add: sends_def)
next
  case (Cons i "is")
  let ?s1 = "fold id [busywait 1, IOCLR_or WRITE_ENABLE_LOW, IOSET_or (SHIFT_TO_IO (ucast (buf i))),
     IOCLR_or (SHIFT_TO_IO (NOT (ucast (buf i)))), busywait 1, IOSET_or WRITE_ENABLE_LOW] s"
  have "sends s [Data (buf i)] False ?s1 \<and> selected w ?s1" using Cons.prems by (simp add: bus_simps byte_word)
  then show ?case using Cons.IH [of ?s1] sends_trans [of s "[Data (buf i)]" False ?s1 "map (\<lambda>i. Data (buf i)) is" False] by simp
qed

lemma read_bytes_sends:
  assumes "idle s" "IODIR0 s AND IO_MASK = 0"
  shows "\<exists>s'. read_bytes [n..<m] buf s = (\<lambda>i. if n \<le> i \<and> i < m then ucast (drop_bit 8 (pin_values s (pin_reads s + (i - n)))) else buf i, s') \<and>
    sends s (map (\<lambda>i. Out (data_pins (pin_values s (pin_reads s + i)))) [0..<m - n]) False s' \<and> idle s' \<and> bit (latch s') 16 = bit (latch s) 16"
  using assms
proof (induction "[n..<m]" arbitrary: n buf s)
  case Nil
  then have "m \<le> n" using upt_eq_Nil_conv [of n m] by auto
  then show ?case using Nil by (auto simp: sends_def fun_eq_iff)
next
  case (Cons i "is")
  have n: "n < m" "is = [Suc n..<m]" "[n..<m] = n # [Suc n..<m]"
    using Cons.hyps(2) upt_eq_Cons_conv [of n m i "is"] by (auto simp: eq_commute upt_rec [of n m])
  let ?s1 = "IOCLR_or READ_ENABLE_LOW s"
  let ?s2 = "IOSET_or READ_ENABLE_LOW (snd (IOPIN ?s1))"
  have step: "sends s [Out (data_pins (pin_values s (pin_reads s)))] False ?s2 \<and> idle ?s2 \<and> IODIR0 ?s2 AND IO_MASK = 0 \<and> bit (latch ?s2) 16 = bit (latch s) 16"
    "fst (IOPIN ?s1) = pin_values s (pin_reads s)" "pin_values ?s2 = pin_values s" "pin_reads ?s2 = pin_reads s + 1"
    using Cons.prems by (simp_all add: bus_simps IOPIN_def Let_def sampled_def)
  from Cons.hyps(1) [OF n(2), of ?s2 "buf(n := ucast (SHIFT_FROM_IO (fst (IOPIN ?s1))))"] step(1)
  obtain s' where s': "read_bytes [Suc n..<m] (buf(n := ucast (SHIFT_FROM_IO (fst (IOPIN ?s1))))) ?s2 =
      (\<lambda>i. if Suc n \<le> i \<and> i < m then ucast (drop_bit 8 (pin_values ?s2 (pin_reads ?s2 + (i - Suc n)))) else
        (buf(n := ucast (SHIFT_FROM_IO (fst (IOPIN ?s1))))) i, s')"
      "sends ?s2 (map (\<lambda>i. Out (data_pins (pin_values ?s2 (pin_reads ?s2 + i)))) [0..<m - Suc n]) False s'" "idle s'"
      "bit (latch s') 16 = bit (latch ?s2) 16" by blast
  have "m - n = Suc (m - Suc n)" using n(1) by simp
  then have "map (\<lambda>i. Out (data_pins (pin_values s (pin_reads s + i)))) [0..<m - n] =
      [Out (data_pins (pin_values s (pin_reads s)))] @ map (\<lambda>i. Out (data_pins (pin_values ?s2 (pin_reads ?s2 + i)))) [0..<m - Suc n]"
    using step(3,4) by (simp add: map_upt_Suc del: upt_Suc)
  then have "sends s (map (\<lambda>i. Out (data_pins (pin_values s (pin_reads s + i)))) [0..<m - n]) False s'"
    using sends_trans [OF conjunct1 [OF step(1)] s'(2)] by simp
  moreover have "read_bytes [n..<m] buf s = (\<lambda>i. if n \<le> i \<and> i < m then ucast (drop_bit 8 (pin_values s (pin_reads s + (i - n)))) else buf i, s')"
    using s'(1) n(1) step(2-4) by (auto simp: n(3) split_beta SHIFT_FROM_IO_def fun_eq_iff Suc_diff_Suc not_less_eq_eq)
  ultimately show ?case using s'(3,4) step(1) by simp
qed

lemma pin_reads_simps [simp]:
  "pin_reads (nandOpInit s) = pin_reads s" "pin_reads (nandCommand c s) = pin_reads s" "pin_reads (nandProgramInit s) = pin_reads s"
  "pin_reads (nandAddressTwoCycles a s) = pin_reads s" "pin_reads (nandAddressThreeCycles a s) = pin_reads s"
  "pin_reads (IODIR_or v s) = pin_reads s" "pin_reads (IODIR_and v s) = pin_reads s" "pin_reads (busywait u s) = pin_reads s"
  "pin_reads (nandProgramFinish s) = pin_reads s"
  by (simp_all add: nandOpInit_def nandCommand_def nandProgramInit_def nandAddressTwoCycles_def nandAddressThreeCycles_def
    nandProgramFinish_def port_simps)

lemma pin_reads_write_bytes [simp]: "pin_reads (write_bytes is buf s) = pin_reads s"
  by (induction "is" arbitrary: s) (simp_all add: port_simps)

lemma sends_then: "sends s cs False s1 \<Longrightarrow> sends s1 cs' k s2 \<Longrightarrow> sends s (cs @ cs') k s2"
  using sends_trans by fastforce

lemma status_command:
  assumes "idle s"
  shows "sends s [Command False 0x70] False (nandCommand CMD_READ_STATUS (nandOpInit s)) \<and>
    selected False (nandCommand CMD_READ_STATUS (nandOpInit s))"
  using nandOpInit_sends [OF assms] nandCommand_sends [of "nandOpInit s" CMD_READ_STATUS]
    sends_then [of s "[]" "nandOpInit s" "[Command False 0x70]"] by auto

text \<open>The status is read while the processor still drives seven of the data pins.\<close>

lemma nandReadStatus_sends:
  assumes "idle s"
  shows "sends s [Command False 0x70, Out (data_pins (pin_values s (pin_reads s)))] True (snd (nandReadStatus_arm s)) \<and> idle (snd (nandReadStatus_arm s)) \<and>
    fst (nandReadStatus_arm s) = (if bit (pin_values s (pin_reads s)) 8 then 1 else 0) \<and> list_ex contends (trace (snd (nandReadStatus_arm s)))"
proof -
  let ?s1 = "nandCommand CMD_READ_STATUS (nandOpInit s)"
  have s1: "sends s [Command False 0x70] False ?s1" "selected False ?s1" using status_command [OF assms] by blast+
  have "(IODIR0 ?s1 AND push_bit 8 (NOT 1)) AND IO_MASK \<noteq> 0"
  proof
    assume "(IODIR0 ?s1 AND push_bit 8 (NOT 1)) AND IO_MASK = 0"
    moreover have "bit (IODIR0 ?s1 AND IO_MASK) 9" using s1(2) io_mask_bit [of 9] by (simp only: selected_def) simp
    then have "bit ((IODIR0 ?s1 AND push_bit 8 (NOT 1)) AND IO_MASK) 9" by (simp add: bit_simps)
    ultimately show False by simp
  qed
  then have "sends ?s1 [Out (data_pins (pin_values ?s1 (pin_reads ?s1)))] True (snd (nandReadStatus_arm s)) \<and> idle (snd (nandReadStatus_arm s)) \<and>
    fst (nandReadStatus_arm s) = (if bit (pin_values ?s1 (pin_reads ?s1)) 8 then 1 else 0) \<and> list_ex contends (trace (snd (nandReadStatus_arm s)))"
    using s1(2) by (simp add: nandReadStatus_arm_def bus_simps IOPIN_def Let_def status_bit sampled_def)
  then show ?thesis using sends_then [OF s1(1)] s1(1) by (auto simp: sends_def)
qed

lemma sends_values: "sends s cs k s' \<Longrightarrow> pin_values s' = pin_values s \<and> clr_read s' = clr_read s"
  by (auto simp: sends_def)

lemma nandProgramFinish_sends:
  assumes "selected True s"
  shows "sends s [Command True 0x00] False (nandProgramFinish s) \<and> idle (nandProgramFinish s)"
proof -
  have c: "sends s [Command True 0x00] False (nandCommand CMD_PROGRAM_PAGE_A s)" "selected True (nandCommand CMD_PROGRAM_PAGE_A s)"
    using nandCommand_sends [of s CMD_PROGRAM_PAGE_A] selected_idle [OF assms] by auto
  moreover have "sends (nandCommand CMD_PROGRAM_PAGE_A s) [] False (nandProgramFinish s) \<and> idle (nandProgramFinish s)"
    using c(2) by (simp add: nandProgramFinish_def bus_simps)
  ultimately show ?thesis using sends_then [OF c(1)] by fastforce
qed

text \<open>
  The end of a write or an erase: wait, reset the pointer of the chip, protect it, and read the status, the lowest bit of
  the byte the chip then gives.
\<close>

definition status_of :: "u8 \<Rightarrow> u32" where "status_of b = (if bit b 0 then 1 else 0)"

lemma finish_sends:
  assumes "selected True s" "\<exists>n\<ge>pin_reads s. pin_values s n AND NAND_IS_READY \<noteq> 0"
  shows "\<exists>s1 k b s'. wait_ready s = Some s1 \<and> ready_at s k \<and> b = data_pins (pin_values s (pin_reads s + k + 1)) \<and>
    nandReadStatus_arm (nandProgramFinish s1) = (status_of b, s') \<and> sends s [Ready, Command True 0x00, Command False 0x70, Out b] True s' \<and> idle s'"
proof -
  obtain k where k: "ready_at s k" using ready_first [OF assms(2)] by blast
  have "bit (latch s) 21" using assms(1) by (simp add: selected_def idle_def)
  from wait_ready_sends [OF k this] obtain s1 where s1: "wait_ready s = Some s1" "sends s [Ready] False s1" "latch s1 = latch s" "IODIR0 s1 = IODIR0 s"
    "pin_reads s1 = pin_reads s + k + 1" by blast
  have sel: "selected True s1" using assms(1) s1(3,4) sends_values [OF s1(2)] by (simp add: selected_def idle_def)
  have f: "sends s1 [Command True 0x00] False (nandProgramFinish s1)" "idle (nandProgramFinish s1)" using nandProgramFinish_sends [OF sel] by blast+
  let ?b = "data_pins (pin_values s (pin_reads s + k + 1))"
  have v: "pin_values (nandProgramFinish s1) = pin_values s" "pin_reads (nandProgramFinish s1) = pin_reads s + k + 1"
    using sends_values [OF f(1)] sends_values [OF s1(2)] s1(5) by simp_all
  obtain x s' where x: "nandReadStatus_arm (nandProgramFinish s1) = (x, s')" by (cases "nandReadStatus_arm (nandProgramFinish s1)")
  have "sends (nandProgramFinish s1) [Command False 0x70, Out ?b] True s'" "idle s'" "x = status_of ?b"
    using nandReadStatus_sends [OF f(2)] x v by (simp_all add: status_of_def data_pins_bits)
  moreover from this have "sends s ([Ready] @ [Command True 0x00] @ [Command False 0x70, Out ?b]) True s'"
    using sends_then [OF s1(2) sends_then [OF f(1)]] by blast
  ultimately show ?thesis using s1(1) x k by auto
qed

lemma program_start:
  assumes "idle s"
  shows "sends s [Command True (ucast cmd)] False (nandCommand cmd (nandProgramInit (nandOpInit s))) \<and>
    selected True (nandCommand cmd (nandProgramInit (nandOpInit s)))"
proof -
  have "sends s [] False (nandOpInit s)" "idle (nandOpInit s)" using nandOpInit_sends [OF assms] by blast+
  moreover from this(2) have "sends (nandOpInit s) [] False (nandProgramInit (nandOpInit s))" "idle (nandProgramInit (nandOpInit s))"
    "bit (latch (nandProgramInit (nandOpInit s))) 16" using nandProgramInit_sends by blast+
  moreover from this(2,3) have "sends (nandProgramInit (nandOpInit s)) [Command True (ucast cmd)] False (nandCommand cmd (nandProgramInit (nandOpInit s)))"
    "selected True (nandCommand cmd (nandProgramInit (nandOpInit s)))" using nandCommand_sends by fastforce+
  ultimately show ?thesis
    using sends_then [of s "[]" "nandOpInit s" "[]" False "nandProgramInit (nandOpInit s)"]
      sends_then [of s "[]" "nandProgramInit (nandOpInit s)"] by simp
qed

lemma bit_u16: "p < 0x10000 \<Longrightarrow> bit (p :: u32) n \<Longrightarrow> n < 16"
proof -
  assume "p < 0x10000" "bit p n"
  then have "take_bit 16 (unat p) = unat p" by (intro take_bit_nat_eq_self) (simp add: word_less_nat_alt)
  then have "take_bit 16 p = p" by (simp only: word_unat_eq_iff unsigned_take_bit_eq)
  then show "n < 16" using \<open>bit p n\<close> by (metis bit_take_bit_iff)
qed

lemma page_address:
  "ucast (ADD_OFFSET_TO_ADDRESS p off) = (ucast p :: u8)" "ucast (drop_bit 8 (ADD_OFFSET_TO_ADDRESS p off)) = (ucast (drop_bit 8 p) :: u8)"
  "p < 0x10000 \<Longrightarrow> ucast (drop_bit 16 (ADD_OFFSET_TO_ADDRESS p off)) = (ucast off :: u8)"
  by (rule bit_eqI, auto simp: ADD_OFFSET_TO_ADDRESS_def bit_simps dest: bit_u16)+

definition page_cycles :: "u32 \<Rightarrow> u32 \<Rightarrow> cycle list" where
  "page_cycles p off = [Address (ucast off), Address (ucast p), Address (ucast (drop_bit 8 p))]"

lemma three_cycles_sends:
  assumes "selected w s" "p < 0x10000"
  shows "sends s (page_cycles p off) False (nandAddressThreeCycles (ADD_OFFSET_TO_ADDRESS p off) s) \<and>
    selected w (nandAddressThreeCycles (ADD_OFFSET_TO_ADDRESS p off) s)"
  using nandAddressThreeCycles_sends [OF assms(1), of "ADD_OFFSET_TO_ADDRESS p off"] assms(2) by (simp add: page_address page_cycles_def)

section \<open>Reading a page\<close>

lemma read_sends:
  assumes "idle s" "p < 0x10000" "\<exists>n\<ge>pin_reads s. pin_values s n AND NAND_IS_READY \<noteq> 0"
  shows "\<exists>k s'. ready_at s k \<and> nandReadPageGeneric buf p off len cmd s =
      Some (0, \<lambda>i. if i < unat len then ucast (drop_bit 8 (pin_values s (pin_reads s + k + 1 + i))) else buf i, s') \<and>
    idle s' \<and> sends s ([Command False (ucast cmd)] @ page_cycles p off @ [Ready] @
      map (\<lambda>i. Out (data_pins (pin_values s (pin_reads s + k + 1 + i)))) [0..<unat len]) False s'"
proof -
  let ?s1 = "nandOpInit s"
  let ?s2 = "nandCommand cmd ?s1"
  let ?s3 = "nandAddressThreeCycles (ADD_OFFSET_TO_ADDRESS p off) ?s2"
  let ?s4 = "busywait 15 ?s3"
  have 1: "sends s [] False ?s1" "idle ?s1" "\<not> bit (latch ?s1) 16" using nandOpInit_sends [OF assms(1)] by blast+
  have 2: "sends ?s1 [Command False (ucast cmd)] False ?s2" "selected False ?s2" using nandCommand_sends [OF 1(2)] 1(3) by simp_all
  have 3: "sends ?s2 (page_cycles p off) False ?s3" "selected False ?s3" using three_cycles_sends [OF 2(2) assms(2)] by blast+
  have 4: "sends ?s3 [] False ?s4" "selected False ?s4" using busywait_sends 3(2) by blast+
  have all: "sends s ([] @ [Command False (ucast cmd)] @ page_cycles p off @ []) False ?s4"
    using sends_then [OF 1(1) sends_then [OF 2(1) sends_then [OF 3(1) 4(1)]]] .
  obtain k where k: "ready_at s k" using ready_first [OF assms(3)] by blast
  then have "ready_at ?s4 k" using sends_values [OF all] by (simp add: ready_at_def)
  moreover have "bit (latch ?s4) 21" using 4(2) by (simp add: selected_def idle_def)
  ultimately obtain s5 where s5: "wait_ready ?s4 = Some s5" "sends ?s4 [Ready] False s5" "latch s5 = latch ?s4"
    "IODIR0 s5 = IODIR0 ?s4" "pin_reads s5 = pin_reads s + k + 1" using wait_ready_sends by force
  let ?s6 = "IODIR_and (NOT IO_MASK) s5"
  have 6: "sends s5 [] False ?s6" "idle ?s6" "IODIR0 ?s6 AND IO_MASK = 0" "pin_values ?s6 = pin_values s"
    using 4(2) s5(3,4) sends_values [OF s5(2)] sends_values [OF all] by (simp_all add: bus_simps)
  obtain s7 where s7: "read_bytes [0..<unat len] buf ?s6 =
      (\<lambda>i. if 0 \<le> i \<and> i < unat len then ucast (drop_bit 8 (pin_values ?s6 (pin_reads ?s6 + (i - 0)))) else buf i, s7)"
      "sends ?s6 (map (\<lambda>i. Out (data_pins (pin_values ?s6 (pin_reads ?s6 + i)))) [0..<unat len - 0]) False s7" "idle s7"
    using read_bytes_sends [OF 6(2,3), of 0 "unat len" buf] by blast
  have "sends s ([Command False (ucast cmd)] @ page_cycles p off @ [Ready] @
      map (\<lambda>i. Out (data_pins (pin_values s (pin_reads s + k + 1 + i)))) [0..<unat len]) False s7"
    using sends_then [OF all sends_then [OF s5(2) sends_then [OF 6(1) s7(2)]]] 6(4) s5(5) by simp
  then show ?thesis using k s5(1,5) s7(1,3) 6(4) by (auto simp: nandReadPageGeneric_def cong: if_cong)
qed

text \<open>
  Looking at a unit takes a read of the spare area of its first page, and of its second page if the first has no mark.
\<close>

definition look :: "u32 \<Rightarrow> u8 list \<Rightarrow> cycle list" where
  "look p bs = [Command False 0x50] @ page_cycles p 0 @ [Ready] @ map Out bs"

lemma look_sends:
  assumes "idle s" "p < 0x10000" "\<exists>n\<ge>pin_reads s. pin_values s n AND NAND_IS_READY \<noteq> 0"
  shows "\<exists>b bs s'. nandReadPageSpare_arm buf p 0 16 s = Some (0, b, s') \<and> length bs = 16 \<and> b 5 = bs ! 5 \<and> idle s' \<and> sends s (look p bs) False s'"
proof -
  obtain k s' where r: "nandReadPageGeneric buf p 0 16 CMD_READ_PAGE_SPARE s =
      Some (0, \<lambda>i. if i < unat (16 :: u32) then ucast (drop_bit 8 (pin_values s (pin_reads s + k + 1 + i))) else buf i, s')" "idle s'"
    "sends s ([Command False (ucast CMD_READ_PAGE_SPARE)] @ page_cycles p 0 @ [Ready] @
      map (\<lambda>i. Out (data_pins (pin_values s (pin_reads s + k + 1 + i)))) [0..<unat (16 :: u32)]) False s'"
    using read_sends [OF assms, of buf 0 16 CMD_READ_PAGE_SPARE] by blast
  let ?bs = "map (\<lambda>i. data_pins (pin_values s (pin_reads s + k + 1 + i))) [0..<16]"
  have "sends s (look p ?bs) False s'" using r(3) by (simp add: look_def comp_def)
  moreover have "?bs ! 5 = ucast (drop_bit 8 (pin_values s (pin_reads s + k + 1 + 5)))" "length ?bs = 16" by (simp_all add: data_pins_def)
  ultimately show ?thesis using r(1,2) by (intro exI [of _ ?bs] exI) (auto simp: nandReadPageSpare_arm_def)
qed

lemma eu_pages: "p < 0x10000 \<Longrightarrow> (p :: u32) AND ARM_EU_MASK < 0x10000" "p < 0x10000 \<Longrightarrow> (p AND ARM_EU_MASK) + 1 < 0x10000"
proof -
  assume p: "p < 0x10000"
  have "\<not> bit ARM_EU_MASK 0" by simp
  then have even: "\<not> bit (p AND ARM_EU_MASK) 0" by (simp add: bit_simps)
  have le: "p AND ARM_EU_MASK \<le> p" by (rule word_and_le2)
  then show "p AND ARM_EU_MASK < 0x10000" using p by simp
  have "p AND ARM_EU_MASK \<noteq> 0xffff" using even by auto
  then have "unat (p AND ARM_EU_MASK) < 0xffff" using le p by (simp add: word_le_nat_alt word_less_nat_alt word_unat_eq_iff)
  then show "(p AND ARM_EU_MASK) + 1 < 0x10000" by (simp add: word_less_nat_alt unat_plus_u32)
qed

lemma check_sends:
  assumes "idle s" "p < 0x10000" "\<forall>k. \<exists>n\<ge>k. pin_values s n AND NAND_IS_READY \<noteq> 0"
  defines "eu \<equiv> p AND ARM_EU_MASK"
  shows "\<exists>bs1 bs2 s'. length bs1 = 16 \<and> length bs2 = 16 \<and>
    nandCheckEuStatus_arm junk p s = Some (if bs1 ! 5 = 0xff \<and> bs2 ! 5 = 0xff then 1 else 0, s') \<and> idle s' \<and>
    sends s (look eu bs1 @ (if bs1 ! 5 = 0xff then look (eu + 1) bs2 else [])) False s'"
proof -
  note pages = eu_pages [OF assms(2), folded eu_def]
  obtain b1 bs1 s1 where s1: "nandReadPageSpare_arm junk eu 0 16 s = Some (0, b1, s1)" "length bs1 = 16" "b1 5 = bs1 ! 5" "idle s1"
    "sends s (look eu bs1) False s1"
    using look_sends [OF assms(1) pages(1), of junk] assms(3) by blast
  have "\<exists>n\<ge>pin_reads s1. pin_values s1 n AND NAND_IS_READY \<noteq> 0" using assms(3) sends_values [OF s1(5)] by simp
  then obtain b2 bs2 s2 where s2: "nandReadPageSpare_arm b1 (eu + 1) 0 16 s1 = Some (0, b2, s2)" "length bs2 = 16" "b2 5 = bs2 ! 5" "idle s2"
    "sends s1 (look (eu + 1) bs2) False s2"
    using look_sends [OF s1(4) pages(2), of b1] by blast
  show ?thesis
  proof (cases "bs1 ! 5 = 0xff")
    case True
    then have "nandCheckEuStatus_arm junk p s = Some (if bs1 ! 5 = 0xff \<and> bs2 ! 5 = 0xff then 1 else 0, s2)"
      using s1(1,3) s2(1,3) by (simp add: nandCheckEuStatus_arm_def eu_def)
    then show ?thesis using True s1(2) s2(2,4) sends_then [OF s1(5) s2(5)] by (intro exI [of _ bs1] exI [of _ bs2] exI [of _ s2]) simp
  next
    case False
    then have "nandCheckEuStatus_arm junk p s = Some (if bs1 ! 5 = 0xff \<and> bs1 ! 5 = 0xff then 1 else 0, s1)"
      using s1(1,3) by (simp add: nandCheckEuStatus_arm_def eu_def)
    then show ?thesis using False s1 by (intro exI [of _ bs1] exI [of _ s1]) simp
  qed
qed

text \<open>The commands of an erase.\<close>

definition erase_command :: "u32 \<Rightarrow> port \<Rightarrow> port" where
  "erase_command p s = busywait 1 (nandCommand CMD_ERASE_CONFIRM (nandAddressTwoCycles p (busywait 1 (nandCommand CMD_ERASE_SETUP
     (nandProgramInit (nandOpInit s))))))"

lemma erase_sends:
  assumes "idle s" "\<forall>k. \<exists>n\<ge>k. pin_values s n AND NAND_IS_READY \<noteq> 0"
  shows "\<exists>s2 b s'. wait_ready (erase_command p s) = Some s2 \<and> nandReadStatus_arm (nandProgramFinish s2) = (status_of b, s') \<and> idle s' \<and>
    sends s [Command True 0x60, Address (ucast p), Address (ucast (drop_bit 8 p)), Command True 0xd0, Ready, Command True 0x00, Command False 0x70, Out b] True s'"
proof -
  let ?s2 = "nandCommand CMD_ERASE_SETUP (nandProgramInit (nandOpInit s))"
  let ?s3 = "nandAddressTwoCycles p (busywait 1 ?s2)"
  let ?s4 = "nandCommand CMD_ERASE_CONFIRM ?s3"
  have 2: "sends s [Command True 0x60] False ?s2" "selected True ?s2" using program_start [OF assms(1), of CMD_ERASE_SETUP] by simp_all
  have b: "sends ?s2 [] False (busywait 1 ?s2)" "selected True (busywait 1 ?s2)" using busywait_sends 2(2) by blast+
  have 3: "sends (busywait 1 ?s2) [Address (ucast p), Address (ucast (drop_bit 8 p))] False ?s3" "selected True ?s3"
    using nandAddressTwoCycles_sends [OF b(2)] by blast+
  have 4: "sends ?s3 [Command True 0xd0] False ?s4" "selected True ?s4"
    using nandCommand_sends [of ?s3 CMD_ERASE_CONFIRM] selected_idle [OF 3(2)] by auto
  have 5: "sends ?s4 [] False (erase_command p s)" "selected True (erase_command p s)" unfolding erase_command_def using busywait_sends 4(2) by blast+
  have all: "sends s ([Command True 0x60] @ [] @ [Address (ucast p), Address (ucast (drop_bit 8 p))] @ [Command True 0xd0] @ []) False (erase_command p s)"
    using sends_then [OF 2(1) sends_then [OF b(1) sends_then [OF 3(1) sends_then [OF 4(1) 5(1)]]]] .
  have "\<exists>n\<ge>pin_reads (erase_command p s). pin_values (erase_command p s) n AND NAND_IS_READY \<noteq> 0"
    using assms(2) sends_values [OF all] by simp
  from finish_sends [OF 5(2) this] obtain s6 b s' where f: "wait_ready (erase_command p s) = Some s6"
    "nandReadStatus_arm (nandProgramFinish s6) = (status_of b, s')"
    "sends (erase_command p s) [Ready, Command True 0x00, Command False 0x70, Out b] True s'" "idle s'" by blast
  from sends_then [OF all f(3)] f(1,2,4) show ?thesis by auto
qed

section \<open>Properties\<close>

text \<open>
  C9: programming a page.  From an idle port, for a page of the chip, and if the chip ever becomes ready,
  \<open>nandProgramPage\<close> returns, and what happens between it and the chip is exactly the program sequence of the data
  sheet: the area command, 0x80, the offset and the two bytes of the page number, every byte of the buffer in order,
  0x10; then the driver waits until it sees the chip ready, for the first time, and only then sends the reset of the
  pointer and the status command; the result is the lowest bit of the byte that the chip gives next.  Write
  protection is off from the first command to the reset and on again for the status.  The port is idle again.
\<close>
theorem nandProgramPage_protocol:
  assumes "idle s" "addr < 0x10000" "\<exists>n\<ge>pin_reads s. pin_values s n AND NAND_IS_READY \<noteq> 0"
  shows "\<exists>k b s'. ready_at s k \<and> b = data_pins (pin_values s (pin_reads s + k + 1)) \<and>
    nandProgramPage buf addr off len area_cmd s = Some (status_of b, s') \<and> idle s' \<and>
    sends s ([Command True (ucast area_cmd), Command True 0x80] @ page_cycles addr off @ map (\<lambda>i. Data (buf i)) [0..<unat len] @
      [Command True 0x10, Ready, Command True 0x00, Command False 0x70, Out b]) True s'"
proof -
  let ?s1 = "nandCommand area_cmd (nandProgramInit (nandOpInit s))"
  let ?s2 = "nandCommand CMD_PROGRAM_PAGE ?s1"
  let ?s3 = "nandAddressThreeCycles (ADD_OFFSET_TO_ADDRESS addr off) ?s2"
  let ?s4 = "IODIR_or IO_MASK ?s3"
  let ?s5 = "write_bytes [0..<unat len] buf ?s4"
  let ?s6 = "nandCommand CMD_PROGRAM_CONFIRM ?s5"
  have 1: "sends s [Command True (ucast area_cmd)] False ?s1" "selected True ?s1" using program_start [OF assms(1)] by blast+
  have 2: "sends ?s1 [Command True 0x80] False ?s2" "selected True ?s2" using nandCommand_sends [of ?s1 CMD_PROGRAM_PAGE] selected_idle [OF 1(2)] by auto
  have 3: "sends ?s2 (page_cycles addr off) False ?s3" "selected True ?s3" using three_cycles_sends [OF 2(2) assms(2)] by blast+
  have 4: "sends ?s3 [] False ?s4" "selected True ?s4" using 3(2) by (simp_all add: bus_simps)
  have 5: "sends ?s4 (map (\<lambda>i. Data (buf i)) [0..<unat len]) False ?s5" "selected True ?s5" using write_bytes_sends [OF 4(2)] by blast+
  have 6: "sends ?s5 [Command True 0x10] False ?s6" "selected True ?s6" using nandCommand_sends [of ?s5 CMD_PROGRAM_CONFIRM] selected_idle [OF 5(2)] by auto
  have all: "sends s ([Command True (ucast area_cmd)] @ [Command True 0x80] @ page_cycles addr off @ [] @ map (\<lambda>i. Data (buf i)) [0..<unat len] @ [Command True 0x10]) False ?s6"
    using sends_then [OF 1(1) sends_then [OF 2(1) sends_then [OF 3(1) sends_then [OF 4(1) sends_then [OF 5(1) 6(1)]]]]] .
  have same: "pin_values ?s6 = pin_values s" "pin_reads ?s6 = pin_reads s" using sends_values [OF all] by simp_all
  then have "\<exists>n\<ge>pin_reads ?s6. pin_values ?s6 n AND NAND_IS_READY \<noteq> 0" using assms(3) by simp
  from finish_sends [OF 6(2) this, unfolded same] obtain s7 k s' where f: "wait_ready ?s6 = Some s7" "ready_at ?s6 k"
    "nandReadStatus_arm (nandProgramFinish s7) = (status_of (data_pins (pin_values s (pin_reads s + k + 1))), s')"
    "sends ?s6 [Ready, Command True 0x00, Command False 0x70, Out (data_pins (pin_values s (pin_reads s + k + 1)))] True s'" "idle s'" by blast
  have "ready_at s k" using f(2) same by (simp add: ready_at_def)
  moreover have "nandProgramPage buf addr off len area_cmd s = Some (status_of (data_pins (pin_values s (pin_reads s + k + 1))), s')"
    using f(1,3) by (simp add: nandProgramPage_def)
  ultimately show ?thesis using sends_then [OF all f(4)] f(5) by (intro exI [of _ k] exI [of _ s'] exI) simp
qed

text \<open>
  C31: reading a page returns, for a page of the chip and if the chip ever becomes ready: the chip gets the command and
  the address of the page and nothing else, with write protection on, is seen ready for the first time and then gives
  the bytes; the buffer holds them, in order, and is unchanged behind the length; and the processor never drives the
  data pins while the chip does.
\<close>
theorem nandReadPage_samples:
  assumes "idle s" "p < 0x10000" "\<exists>n\<ge>pin_reads s. pin_values s n AND NAND_IS_READY \<noteq> 0"
  shows "\<exists>k s'. ready_at s k \<and> nandReadPageGeneric buf p off len cmd s =
      Some (0, \<lambda>i. if i < unat len then ucast (drop_bit 8 (pin_values s (pin_reads s + k + 1 + i))) else buf i, s') \<and>
    idle s' \<and> sends s ([Command False (ucast cmd)] @ page_cycles p off @ [Ready] @
      map (\<lambda>i. Out (data_pins (pin_values s (pin_reads s + k + 1 + i)))) [0..<unat len]) False s'"
  by (rule read_sends [OF assms])

text \<open>
  C23: a bad unit is never erased, and a good one is.  If the chip keeps becoming ready, \<open>nandErase\<close> first reads the
  spare area of the first page of the unit, and that of the second page if the sixth byte the chip gave is 0xff, with
  write protection on.  Unless both marks are 0xff it stops there and returns 0, and the chip gets nothing more; if both are,
  the chip gets exactly the erase sequence with the two bytes of the page, between lifting and restoring write protection, the
  driver waits until it sees the chip ready, and the result is the status the chip then gives.
\<close>
theorem nandErase_arm_guarded:
  assumes "idle s" "p < 0x10000" "\<forall>k. \<exists>n\<ge>k. pin_values s n AND NAND_IS_READY \<noteq> 0"
  shows "\<exists>bs1 bs2 s1 v s'. length bs1 = 16 \<and> length bs2 = 16 \<and>
    sends s (look (p AND 0xffffffe0) bs1 @ (if bs1 ! 5 = 0xff then look ((p AND 0xffffffe0) + 1) bs2 else [])) False s1 \<and>
    nandErase_arm junk p s = Some (v, s') \<and> idle s' \<and>
    (if bs1 ! 5 = 0xff \<and> bs2 ! 5 = 0xff
     then \<exists>b. v = status_of b \<and> sends s1 [Command True 0x60, Address (ucast p), Address (ucast (drop_bit 8 p)), Command True 0xd0,
       Ready, Command True 0x00, Command False 0x70, Out b] True s'
     else v = 0 \<and> s' = s1)"
proof -
  obtain bs1 bs2 s1 where c: "nandCheckEuStatus_arm junk p s = Some (if bs1 ! 5 = 0xff \<and> bs2 ! 5 = 0xff then 1 else 0, s1)" "idle s1"
    "sends s (look (p AND ARM_EU_MASK) bs1 @ (if bs1 ! 5 = 0xff then look ((p AND ARM_EU_MASK) + 1) bs2 else [])) False s1"
    "length bs1 = 16" "length bs2 = 16"
    using check_sends [OF assms, of junk] by blast
  have "\<forall>k. \<exists>n\<ge>k. pin_values s1 n AND NAND_IS_READY \<noteq> 0" using assms(3) sends_values [OF c(3)] by simp
  from erase_sends [OF c(2) this, of p] obtain s2 b s' where e: "wait_ready (erase_command p s1) = Some s2"
    "nandReadStatus_arm (nandProgramFinish s2) = (status_of b, s')" "idle s'"
    "sends s1 [Command True 0x60, Address (ucast p), Address (ucast (drop_bit 8 p)), Command True 0xd0, Ready, Command True 0x00, Command False 0x70, Out b] True s'"
    by blast
  show ?thesis
  proof (cases "bs1 ! 5 = 0xff \<and> bs2 ! 5 = 0xff")
    case True
    then have "nandErase_arm junk p s = Some (status_of b, s')" using c(1) e(1,2) by (simp add: nandErase_arm_def erase_command_def)
    then show ?thesis using True c(3-5) e(3,4) by (intro exI [of _ bs1] exI [of _ bs2] exI [of _ s1] exI [of _ "status_of b"] exI [of _ s']) auto
  next
    case False
    have "nandCheckEuStatus_arm junk p s = Some (0, s1)" using c(1) unfolding if_not_P [OF False] .
    then have "nandErase_arm junk p s = Some (0, s1)" by (simp add: nandErase_arm_def)
    then show ?thesis using False c(2-5) by (intro exI [of _ bs1] exI [of _ bs2] exI [of _ s1] exI [of _ 0] exI [of _ s1]) auto
  qed
qed

section \<open>Witnesses\<close>

text \<open>A port after \<open>nandInit\<close>, on a board whose pins always read ready and good.\<close>

definition idle_port :: port where
  "idle_port = \<lparr>PINSEL0 = 0, PINSEL1 = 0, IODIR0 = 0x6f0000, latch = 0x620000, clr_read = 0, pin_values = (\<lambda>_. 0x10ff00), pin_reads = 0,
     busywait_iters_per_msec = 4096, busywait_dummy = 0, trace = []\<rparr>"

lemma idle_port_idle: "idle idle_port" "pin_values idle_port n AND NAND_IS_READY \<noteq> 0"
  by (simp_all add: idle_def idle_port_def)

lemma idle_port_ready: "\<exists>n\<ge>k. pin_values idle_port n AND NAND_IS_READY \<noteq> 0"
  using idle_port_idle(2) by blast

lemma nandProgramPage_protocol_witness:
  "\<exists>s'. nandProgramPage (\<lambda>i. of_nat i) 0x1234 2 3 CMD_PROGRAM_PAGE_C idle_port = Some (1, s') \<and>
     cycles (latch idle_port) (trace s') = [Command True 0x50, Command True 0x80, Address 2, Address 0x34, Address 0x12,
       Data 0, Data 1, Data 2, Command True 0x10, Ready, Command True 0, Command False 0x70, Out 0xff]"
proof -
  have "trace idle_port = []" "pin_values idle_port = (\<lambda>_. 0x10ff00)" "data_pins 0x10ff00 = 0xff" "status_of 0xff = 1"
    by (simp_all add: idle_port_def data_pins_def status_of_def)
  then show ?thesis
    using nandProgramPage_protocol [of idle_port "0x1234" "\<lambda>i. of_nat i" 2 3 CMD_PROGRAM_PAGE_C] idle_port_idle(1) idle_port_ready
    by (auto simp: sends_def page_cycles_def upt_rec)
qed

lemma nandReadPage_samples_witness:
  "\<exists>b s'. nandReadPageGeneric (\<lambda>_. 0) 7 0 16 CMD_READ_PAGE_SPARE idle_port = Some (0, b, s') \<and> b 3 = 0xff \<and> b 16 = 0 \<and> \<not> list_ex contends (trace s')"
proof -
  have "trace idle_port = []" "pin_values idle_port = (\<lambda>_. 0x10ff00)" by (simp_all add: idle_port_def)
  then show ?thesis
    using nandReadPage_samples [OF idle_port_idle(1) _ idle_port_ready, of 7 "\<lambda>_. 0" 0 16 CMD_READ_PAGE_SPARE] by (auto simp: sends_def)
qed

text \<open>A board whose pins always read ready, with a mark in every byte.\<close>

definition bad_port :: port where "bad_port = idle_port\<lparr>pin_values := (\<lambda>_. 0x100000)\<rparr>"

lemma nandErase_arm_guarded_witness:
  "(\<exists>v s'. nandErase_arm (\<lambda>_. 0) 64 idle_port = Some (v, s') \<and> v \<le> 1 \<and> idle s') \<and>
   (\<exists>v s'. nandErase_arm (\<lambda>_. 0) 64 bad_port = Some (v, s') \<and> idle s')"
proof -
  have "idle bad_port" "\<forall>k. \<exists>n\<ge>k. pin_values bad_port n AND NAND_IS_READY \<noteq> 0"
    using idle_port_idle(1) by (auto simp: bad_port_def idle_def)
  then show ?thesis using nandErase_arm_guarded [of idle_port 64 "\<lambda>_. 0"] nandErase_arm_guarded [of bad_port 64 "\<lambda>_. 0"] idle_port_idle(1) idle_port_ready
    by (auto simp: status_of_def split: if_splits)
qed

end
