(* ===== verification/Board.thy ===== *)
theory Board
  imports Prelude
begin

text \<open>
  The LPC2000 board below the drivers: clocks, pins, interrupts, the serial line, the converter and the delay loop
  (\<^verbatim>\<open>ARM/lpc2000\<close>).  The code reads and writes registers in memory; what a register reads as is up to the hardware,
  so the state holds \<open>bus\<close>, all accesses so far in order, and \<open>device\<close>, the hardware, which answers a read from the
  register and the accesses before it.  What the code relies on is stated of \<open>device\<close>: that a register reads back
  what was written (\<open>keeps\<close>), that a status bit shows up when it is polled (\<open>responsive\<close>).  Registers of 8 and 16 bits
  take the low bits of what is written.  The build is that of \<^verbatim>\<open>ett-arm-stamp.h\<close>, an LPC2119 with a crystal of
  19.66 MHz, where \<^verbatim>\<open>error()\<close> is empty.  The bus here covers all registers; the NAND driver keeps its own, narrower
  model of port 0.
\<close>

unbundle bit_operations_syntax

section \<open>Registers\<close>

datatype reg =
    PINSEL0 | PINSEL1 | PINSEL2 | IODIR0 | IODIR1 | IOSET0 | IOSET1 | IOCLR0 | IOCLR1 | IOPIN0 | IOPIN1
  | PLLCON | PLLCFG | PLLSTAT | PLLFEED | VPBDIV | PREINT | PREFRAC
  | TIMER nat nat
  | U0LCR | U0DLM | U0DLL | U0FCR | U0LSR | U0THR | U0RBR
  | ADCR | ADDR
  | VICIntSelect | VICIntEnable | VICVectAddr | VICVectAddrN nat | VICVectCntlN nat
  | I2CONSET | I2CONCLR | I2STAT | I2DAT | I2ADR | I2SCLH | I2SCLL
  | S0SPCR | S0SPSR | S0SPDR | S0SPCCR | S0SPINT

datatype access = Read reg u32 | Write reg u32 | Delay u32

record board =
  device :: "reg \<Rightarrow> access list \<Rightarrow> u32"
  bus :: "access list"
  iters_per_msec :: u32
  dummy :: u32

definition rd :: "reg \<Rightarrow> 'z board_scheme \<Rightarrow> u32 \<times> 'z board_scheme" where
  "rd r s = (let v = device s r (bus s) in (v, s\<lparr>bus := bus s @ [Read r v]\<rparr>))"

definition wr :: "reg \<Rightarrow> u32 \<Rightarrow> 'z board_scheme \<Rightarrow> 'z board_scheme" where
  "wr r v s = s\<lparr>bus := bus s @ [Write r v]\<rparr>"

definition rd8 :: "reg \<Rightarrow> 'z board_scheme \<Rightarrow> u32 \<times> 'z board_scheme" where
  "rd8 r s = (let (v, s1) = rd r s in (v AND 0xff, s1))"

definition wr8 :: "reg \<Rightarrow> u32 \<Rightarrow> 'z board_scheme \<Rightarrow> 'z board_scheme" where "wr8 r v = wr r (v AND 0xff)"
definition wr16 :: "reg \<Rightarrow> u32 \<Rightarrow> 'z board_scheme \<Rightarrow> 'z board_scheme" where "wr16 r v = wr r (v AND 0xffff)"

text \<open>The assignments \<^verbatim>\<open>r |= v\<close> and \<^verbatim>\<open>r &= v\<close>.\<close>

definition or_reg :: "reg \<Rightarrow> u32 \<Rightarrow> 'z board_scheme \<Rightarrow> 'z board_scheme" where
  "or_reg r v s = (let (x, s1) = rd r s in wr r (x OR v) s1)"

definition and_reg :: "reg \<Rightarrow> u32 \<Rightarrow> 'z board_scheme \<Rightarrow> 'z board_scheme" where
  "and_reg r v s = (let (x, s1) = rd r s in wr r (x AND v) s1)"

definition or_reg8 :: "reg \<Rightarrow> u32 \<Rightarrow> 'z board_scheme \<Rightarrow> 'z board_scheme" where
  "or_reg8 r v s = (let (x, s1) = rd8 r s in wr8 r (x OR v) s1)"

definition and_reg8 :: "reg \<Rightarrow> u32 \<Rightarrow> 'z board_scheme \<Rightarrow> 'z board_scheme" where
  "and_reg8 r v s = (let (x, s1) = rd8 r s in wr8 r (x AND v) s1)"

text \<open>\<open>while (!(r & mask));\<close> polls a register until one of the bits shows.\<close>

partial_function (option) wait_bit :: "reg \<Rightarrow> u32 \<Rightarrow> 'z board_scheme \<Rightarrow> 'z board_scheme option" where
  "wait_bit r m s = (let (v, s1) = rd r s in if v AND m = 0 then wait_bit r m s1 else Some s1)"

section \<open>Pins\<close>

datatype gpio_dir = GPIO_INPUT | GPIO_OUTPUT

definition gpioEnable :: "u8 \<Rightarrow> u8 \<Rightarrow> gpio_dir \<Rightarrow> 'z board_scheme \<Rightarrow> 'z board_scheme option" where
  "gpioEnable port gpio direction s =
     (if port = 0 then do {
        assert_c (gpio < 32);
        let one = push_bit (unat gpio) 1;
        let s1 = (if direction = GPIO_INPUT then and_reg IODIR0 (NOT one) s else or_reg IODIR0 one s);
        let pin_mask = (\<lambda>g. push_bit (unat g) (push_bit (unat g) 3));
        Some (if gpio \<le> 15 then and_reg PINSEL0 (NOT (pin_mask gpio)) s1
              else and_reg PINSEL1 (NOT (pin_mask (gpio - 16))) s1)
      }
      else if port = 1 then do {
        assert_c (gpio < 32);
        let one = push_bit (unat gpio) 1;
        let s1 = (if 26 \<le> gpio \<and> gpio \<le> 31 then and_reg PINSEL2 (NOT (push_bit 2 1)) s else s);
        let s2 = (if 16 \<le> gpio \<and> gpio \<le> 25 then and_reg PINSEL2 (NOT (push_bit 3 1)) s1 else s1);
        Some (if direction = GPIO_INPUT then and_reg IODIR1 (NOT one) s2 else or_reg IODIR1 one s2)
      }
      else Some s)"

text \<open>Any other port ends the function without a value.\<close>

definition gpioRead :: "u8 \<Rightarrow> u8 \<Rightarrow> 'z board_scheme \<Rightarrow> (u32 \<times> 'z board_scheme) option" where
  "gpioRead port gpio s = do {
     assert_c (gpio < 32);
     if port = 0 then (let (v, s1) = rd IOPIN0 s in Some (drop_bit (unat gpio) v AND 1, s1))
     else if port = 1 then (let (v, s1) = rd IOPIN1 s in Some (drop_bit (unat gpio) v AND 1, s1))
     else None
   }"

text \<open>The branches of the two switches have no \<open>break\<close>.\<close>

definition gpioSet :: "u8 \<Rightarrow> u8 \<Rightarrow> 'z board_scheme \<Rightarrow> 'z board_scheme option" where
  "gpioSet port gpio s = do {
     assert_c (gpio < 32 \<or> 2 \<le> port);
     let one = push_bit (unat gpio) 1;
     let s1 = (if port = 0 then or_reg IOSET0 one s else s);
     Some (if port = 0 \<or> port = 1 then or_reg IOSET1 one s1 else s1)
   }"

definition gpioClear :: "u8 \<Rightarrow> u8 \<Rightarrow> 'z board_scheme \<Rightarrow> 'z board_scheme option" where
  "gpioClear port gpio s = do {
     assert_c (gpio < 32 \<or> 2 \<le> port);
     let one = push_bit (unat gpio) 1;
     let s1 = (if port = 0 then or_reg IOCLR0 one s else s);
     Some (if port = 0 \<or> port = 1 then or_reg IOCLR1 one s1 else s1)
   }"

section \<open>Clocks\<close>

definition F_OSC :: u32 where "F_OSC = 19660800"
definition MAX_CCLK :: u32 where "MAX_CCLK = 60000000"
definition MIN_CCO :: u32 where "MIN_CCO = 156000000"

text \<open>The two loops that choose the multiplier and the divider of the PLL.\<close>

partial_function (option) cclk_loop :: "u32 \<Rightarrow> u32 \<Rightarrow> u32 \<Rightarrow> (u32 \<times> u32) option" where
  "cclk_loop min_cclk M_minus_one cclk =
     (if cclk < min_cclk then cclk_loop min_cclk (M_minus_one + 1) (cclk + F_OSC) else Some (M_minus_one, cclk))"

partial_function (option) log_P_loop :: "u32 \<Rightarrow> u32 \<Rightarrow> u32 option" where
  "log_P_loop M_minus_one log_P =
     (if F_OSC * (M_minus_one + 1) * 2 * push_bit (unat log_P) 1 < MIN_CCO then log_P_loop M_minus_one (log_P + 1) else Some log_P)"

text \<open>A divider that is not 1, 2 or 4 leaves \<^verbatim>\<open>pclk\<close> uninitialised.\<close>

definition set_vpb :: "u32 \<Rightarrow> u32 \<Rightarrow> 'z board_scheme \<Rightarrow> (u32 \<times> 'z board_scheme) option" where
  "set_vpb vpb_divider cclk s =
     (if vpb_divider = 1 then Some (cclk, wr8 VPBDIV 1 s)
      else if vpb_divider = 2 then Some (drop_bit 1 cclk, wr8 VPBDIV 2 s)
      else if vpb_divider = 4 then Some (drop_bit 2 cclk, wr8 VPBDIV 0 s)
      else None)"

definition clocksInit :: "u32 \<Rightarrow> u32 \<Rightarrow> 'z board_scheme \<Rightarrow> 'z board_scheme option" where
  "clocksInit min_cclk vpb_divider s = do {
     (M0, cclk) \<leftarrow> cclk_loop min_cclk 0 F_OSC;
     let M_minus_one = (if cclk > MAX_CCLK then 0 else M0);
     log_P \<leftarrow> log_P_loop M_minus_one 0;
     let s1 = wr8 PLLCFG (M_minus_one OR push_bit 5 log_P) s;
     s2 \<leftarrow> wait_bit PLLSTAT 0x400 (wr8 PLLFEED 0x55 (wr8 PLLFEED 0xAA (wr8 PLLCON 1 s1)));
     (pclk, s3) \<leftarrow> set_vpb vpb_divider cclk (wr8 PLLFEED 0x55 (wr8 PLLFEED 0xAA (wr8 PLLCON 3 s2)));
     let (preint, s4) = rd PREINT (wr16 PREINT (drop_bit 15 pclk - 1) s3);
     Some (wr16 PREFRAC (pclk - push_bit 15 ((preint AND 0xffff) + 1)) s4)
   }"

definition clocksGetCclkFreq :: "'z board_scheme \<Rightarrow> u32 \<times> 'z board_scheme" where
  "clocksGetCclkFreq s = (let (v, s1) = rd8 PLLCFG s in (F_OSC * ((v AND 0x1F) + 1), s1))"

text \<open>An 8-bit register is never \<open>0xFFFFFFFF\<close>; the value 3 of the divider ends the function without a value.\<close>

definition clocksGetPclkFreq :: "'z board_scheme \<Rightarrow> (u32 \<times> 'z board_scheme) option" where
  "clocksGetPclkFreq s = (let (v, s1) = rd8 PLLCFG s;
       cclk_freq = F_OSC * ((v AND 0x1F) + 1);
       (d1, s2) = rd8 VPBDIV s1
     in if d1 = 0xFFFFFFFF then Some (d1, s2)
        else (let (d2, s3) = rd8 VPBDIV s2;
                  d = d2 AND 3
              in if d = 1 then Some (cclk_freq, s3)
                 else if d = 2 then Some (drop_bit 1 cclk_freq, s3)
                 else if d = 0 then Some (drop_bit 2 cclk_freq, s3)
                 else None))"

section \<open>Delays\<close>

definition busywait_loop :: "u32 \<Rightarrow> 'z board_scheme \<Rightarrow> 'z board_scheme" where
  "busywait_loop usec s = (let iters = (if usec > 32768 then drop_bit 5 (drop_bit 5 usec * iters_per_msec s)
         else drop_bit 10 (usec * iters_per_msec s))
     in s\<lparr>dummy := dummy s + iters, bus := bus s @ [Delay iters]\<rparr>)"

text \<open>\<open>T0TCR\<close>, \<open>T0TC\<close> and \<open>T0PR\<close> are registers 1, 2 and 3 of timer 0.  A counter that has not moved is a division by zero.\<close>

definition busywaitInit :: "'z board_scheme \<Rightarrow> 'z board_scheme option" where
  "busywaitInit s = do {
     (pclk_freq, s1) \<leftarrow> clocksGetPclkFreq s;
     let s2 = wr (TIMER 0 1) 1 (wr (TIMER 0 3) 0 (wr (TIMER 0 1) 2 (s1\<lparr>iters_per_msec := 1\<rparr>)));
     let (pclk_count, s3) = rd (TIMER 0 2) (busywait_loop 1048576 s2);
     let s4 = wr (TIMER 0 1) 2 s3;
     assert_c (pclk_count \<noteq> 0);
     Some (s4\<lparr>iters_per_msec := pclk_freq div pclk_count\<rparr>)
   }"

section \<open>Interrupts\<close>

definition interruptEnableFIQ :: "u32 \<Rightarrow> 'z board_scheme \<Rightarrow> 'z board_scheme" where
  "interruptEnableFIQ c s = or_reg VICIntEnable c (or_reg VICIntSelect c s)"

text \<open>There are 16 vectored slots; the handler is its address.\<close>

definition interruptEnableVIC :: "u32 \<Rightarrow> u16 \<Rightarrow> u32 \<Rightarrow> 'z board_scheme \<Rightarrow> 'z board_scheme option" where
  "interruptEnableVIC c priority h s = do {
     assert_c (priority < 16 \<and> c < 32);
     let s1 = wr (VICVectAddrN (unat priority)) h s;
     let s2 = wr (VICVectCntlN (unat priority)) (c OR push_bit 5 1) s1;
     Some (or_reg VICIntEnable (push_bit (unat c) 1) (and_reg VICIntSelect (NOT (push_bit (unat c) 1)) s2))
   }"

definition interruptUpdatePriority :: "'z board_scheme \<Rightarrow> 'z board_scheme" where
  "interruptUpdatePriority = wr VICVectAddr 0xff"

section \<open>The serial line\<close>

definition uart0Init :: "u32 \<Rightarrow> 'z board_scheme \<Rightarrow> 'z board_scheme option" where
  "uart0Init baud_rate s = do {
     let s1 = fold id [and_reg PINSEL0 0xFFFFFFF0, or_reg PINSEL0 1, or_reg PINSEL0 4,
         and_reg8 U0LCR 0xFC, or_reg8 U0LCR 3, and_reg8 U0LCR 0xFB, and_reg8 U0LCR 0xF7, and_reg8 U0LCR 0xBF, or_reg8 U0LCR 0x80] s;
     (pclk_freq, s2) \<leftarrow> clocksGetPclkFreq s1;
     assert_c (push_bit 4 baud_rate \<noteq> 0);
     let divisor = pclk_freq div push_bit 4 baud_rate;
     Some (fold id [wr8 U0DLM (drop_bit 8 (divisor AND 0xFF00)), wr8 U0DLL (divisor AND 0xFF),
         and_reg8 U0LCR 0x7F, or_reg8 U0FCR 1, or_reg8 U0FCR 2, or_reg8 U0FCR 4, and_reg8 U0FCR 0x3F] s2)
   }"

definition uart0SendByte :: "'e \<Rightarrow> u8 \<Rightarrow> 'z board_scheme \<Rightarrow> 'z board_scheme option" where
  "uart0SendByte env ch s = do {
     s1 \<leftarrow> (if ch = 10 then do { t \<leftarrow> wait_bit U0LSR 0x20 s; Some (wr8 U0THR 0x0D t) } else Some s);
     s2 \<leftarrow> wait_bit U0LSR 0x20 s1;
     Some (wr8 U0THR (ucast ch) s2)
   }"

definition putchar :: "u32 \<Rightarrow> 'z board_scheme \<Rightarrow> (u32 \<times> 'z board_scheme) option" where
  "putchar ch s = do {
     s1 \<leftarrow> (if ch = 10 then do { t \<leftarrow> wait_bit U0LSR 0x20 s; Some (wr8 U0THR 0x0D t) } else Some s);
     s2 \<leftarrow> wait_bit U0LSR 0x20 s1;
     Some (ch AND 0xff, wr8 U0THR ch s2)
   }"

definition getchar :: "'z board_scheme \<Rightarrow> (u32 \<times> 'z board_scheme) option" where
  "getchar s = do { s1 \<leftarrow> wait_bit U0LSR 1 s; Some (rd8 U0RBR s1) }"

section \<open>The converter\<close>

partial_function (option) adc_clkdiv :: "u32 \<Rightarrow> u32 \<Rightarrow> u8 \<Rightarrow> u8 option" where
  "adc_clkdiv pclk adcclk clkdiv = (if adcclk < pclk then adc_clkdiv pclk (adcclk + 4500000) (clkdiv + 1) else Some clkdiv)"

definition adcInit :: "'z board_scheme \<Rightarrow> 'z board_scheme option" where
  "adcInit s = do {
     (pclk, s1) \<leftarrow> clocksGetPclkFreq s;
     clkdiv \<leftarrow> adc_clkdiv pclk 4500000 0;
     Some (wr ADCR (push_bit 8 (ucast clkdiv)) s1)
   }"

definition adcEnable :: "'z board_scheme \<Rightarrow> 'z board_scheme" where "adcEnable = or_reg ADCR (push_bit 21 1)"
definition adcDisable :: "'z board_scheme \<Rightarrow> 'z board_scheme" where "adcDisable = and_reg ADCR 0xF8DFFFFF"

definition adcInputEnable :: "u8 \<Rightarrow> 'z board_scheme \<Rightarrow> 'z board_scheme" where
  "adcInputEnable ain s =
     (if ain = 0 then or_reg PINSEL1 0x00400000 (and_reg PINSEL1 0xFF7FFFFF s)
      else if ain = 1 then or_reg PINSEL1 0x01000000 (and_reg PINSEL1 0xFDFFFFFF s)
      else if ain = 2 then or_reg PINSEL1 0x04000000 (and_reg PINSEL1 0xF7FFFFFF s)
      else if ain = 3 then or_reg PINSEL1 0x10000000 (and_reg PINSEL1 0xDFFFFFFF s)
      else s)"

partial_function (option) adc_done :: "'z board_scheme \<Rightarrow> (u32 \<times> 'z board_scheme) option" where
  "adc_done s = (let (reading, s1) = rd ADDR s in if reading AND 0x80000000 = 0 then adc_done s1 else Some (reading, s1))"

definition adcOnce :: "u8 \<Rightarrow> 'z board_scheme \<Rightarrow> (u32 \<times> 'z board_scheme) option" where
  "adcOnce ain s = do {
     (reading, s1) \<leftarrow> adc_done (or_reg ADCR (ucast ain OR 0x01000000) s);
     Some (reading AND 0xFFFF, s1)
   }"

definition adcReadReady :: "u8 \<Rightarrow> 'z board_scheme \<Rightarrow> u32 \<times> 'z board_scheme" where
  "adcReadReady ain s = (let (reading, s1) = rd ADDR s in (reading AND 0xFFFF, s1))"

definition adcEveryMatch :: "u8 \<Rightarrow> 'z board_scheme \<Rightarrow> 'z board_scheme" where
  "adcEveryMatch ain = or_reg ADCR (ucast ain OR 0x0C000000)"

section \<open>Bit rates\<close>

text \<open>How often a rate fits into the clock, by adding, plus one.\<close>

partial_function (option) divider_loop :: "u32 \<Rightarrow> u32 \<Rightarrow> u32 \<Rightarrow> u32 \<Rightarrow> u32 option" where
  "divider_loop pclk bitrate divider bitrate_times_divider =
     (if bitrate_times_divider \<le> pclk then divider_loop pclk bitrate (divider + 1) (bitrate_times_divider + bitrate) else Some divider)"

section \<open>What the hardware promises\<close>

text \<open>The writes of a history, and the last value written to a register.\<close>

primrec writes :: "access list \<Rightarrow> (reg \<times> u32) list" where
  "writes [] = []"
| "writes (e # h) = (case e of Write r v \<Rightarrow> (r, v) # writes h | _ \<Rightarrow> writes h)"

definition written :: "reg \<Rightarrow> access list \<Rightarrow> u32 option" where
  "written r h = map_of (rev (writes h)) r"

definition keeps :: "'z board_scheme \<Rightarrow> reg \<Rightarrow> bool" where
  "keeps s r = (\<forall>h v. written r h = Some v \<longrightarrow> device s r h = v)"

text \<open>However it is asked, after some polls in a row the register shows the bit.\<close>

primrec polls :: "(access list \<Rightarrow> u32) \<Rightarrow> reg \<Rightarrow> nat \<Rightarrow> access list \<Rightarrow> access list" where
  "polls d r 0 h = h"
| "polls d r (Suc k) h = polls d r k (h @ [Read r (d h)])"

definition responsive :: "'z board_scheme \<Rightarrow> reg \<Rightarrow> u32 \<Rightarrow> bool" where
  "responsive s r m = (\<forall>h. \<exists>k. device s r (polls (device s r) r k h) AND m \<noteq> 0)"

lemma writes_append [simp]: "writes (g @ h) = writes g @ writes h"
  by (induction g) (simp_all split: access.split)

lemma writes_reads [simp]: "writes (map (Read r) vs) = []"
  by (induction vs) simp_all

lemma written_write [simp]: "written r (h @ [Write r' v]) = (if r = r' then Some v else written r h)"
  by (simp add: written_def)

lemma written_read [simp]: "written r (h @ [Read r' v]) = written r h" "written r (h @ [Delay n]) = written r h"
  "written r (h @ map (Read r') vs) = written r h"
  by (simp_all add: written_def)

lemma keeps_bus [simp]: "keeps (s\<lparr>bus := h\<rparr>) r = keeps s r" "responsive (s\<lparr>bus := h\<rparr>) r m = responsive s r m"
  by (simp_all add: keeps_def responsive_def)

lemma rd_keeps: "keeps s r \<Longrightarrow> written r (bus s) = Some v \<Longrightarrow> rd r s = (v, s\<lparr>bus := bus s @ [Read r v]\<rparr>)"
  by (simp add: rd_def keeps_def)

lemma wait_bit_polls:
  "device s r (polls (device s r) r k (bus s)) AND m \<noteq> 0 \<Longrightarrow> \<exists>vs. wait_bit r m s = Some (s\<lparr>bus := bus s @ map (Read r) vs\<rparr>) \<and> (\<exists>v\<in>set vs. v AND m \<noteq> 0)"
proof (induction k arbitrary: s)
  case 0
  then show ?case by (subst wait_bit.simps) (auto simp: rd_def Let_def intro: exI [of _ "[device s r (bus s)]"])
next
  case (Suc k)
  let ?v = "device s r (bus s)"
  show ?case
  proof (cases "?v AND m = 0")
    case True
    have "\<exists>vs. wait_bit r m (s\<lparr>bus := bus s @ [Read r ?v]\<rparr>) = Some (s\<lparr>bus := bus s @ [Read r ?v]\<rparr>\<lparr>bus := bus (s\<lparr>bus := bus s @ [Read r ?v]\<rparr>) @ map (Read r) vs\<rparr>) \<and> (\<exists>v\<in>set vs. v AND m \<noteq> 0)"
      using Suc by (intro Suc.IH) simp
    then obtain vs where "wait_bit r m (s\<lparr>bus := bus s @ [Read r ?v]\<rparr>) = Some (s\<lparr>bus := bus s @ map (Read r) (?v # vs)\<rparr>)"
      "\<exists>v\<in>set vs. v AND m \<noteq> 0" by auto
    with True show ?thesis by (subst wait_bit.simps) (auto simp: rd_def Let_def intro!: exI [of _ "?v # vs"])
  next
    case False
    then show ?thesis by (subst wait_bit.simps) (auto simp: rd_def Let_def intro: exI [of _ "[?v]"])
  qed
qed

lemma wait_bit_ends:
  assumes "responsive s r m"
  obtains vs where "wait_bit r m s = Some (s\<lparr>bus := bus s @ map (Read r) vs\<rparr>)" "\<exists>v\<in>set vs. v AND m \<noteq> 0"
  using assms wait_bit_polls unfolding responsive_def by blast

section \<open>The clock of the processor\<close>

lemma cclk_loop_steps:
  "(\<forall>i<k. c + of_nat i * F_OSC < n) \<Longrightarrow> \<not> c + of_nat k * F_OSC < n \<Longrightarrow>
   cclk_loop n m c = Some (m + of_nat k, c + of_nat k * F_OSC)"
proof (induction k arbitrary: m c)
  case 0
  then show ?case by (subst cclk_loop.simps) simp
next
  case (Suc k)
  have "c < n" using Suc.prems(1) by (auto dest: spec [of _ 0])
  moreover have "cclk_loop n (m + 1) (c + F_OSC) = Some (m + 1 + of_nat k, c + F_OSC + of_nat k * F_OSC)"
  proof (intro Suc.IH allI impI)
    fix i assume "i < k"
    then show "c + F_OSC + of_nat i * F_OSC < n" using Suc.prems(1)[rule_format, of "Suc i"] by (simp add: algebra_simps)
  next
    show "\<not> c + F_OSC + of_nat k * F_OSC < n" using Suc.prems(2) by (simp add: algebra_simps)
  qed
  ultimately show ?case by (subst cclk_loop.simps) (simp add: algebra_simps)
qed

lemma multiples_of_F_OSC: "k < 218 \<Longrightarrow> unat (F_OSC + of_nat k * F_OSC) = 19660800 * (k + 1)"
proof -
  assume k: "k < 218"
  have "F_OSC + of_nat k * F_OSC = of_nat (19660800 * (k + 1))" by (simp add: F_OSC_def)
  moreover have "unat (of_nat (19660800 * (k + 1)) :: u32) = 19660800 * (k + 1)" using k by (subst unat_of_nat) simp
  ultimately show ?thesis by simp
qed

text \<open>The first loop ends with the first multiple of the crystal's frequency that is enough.\<close>

lemma cclk_loop_least:
  assumes "unat min_cclk \<le> 4286054400"
  obtains k where "k < 218" "cclk_loop min_cclk 0 F_OSC = Some (of_nat k, of_nat (19660800 * (k + 1)))"
    "unat min_cclk \<le> 19660800 * (k + 1)" "\<forall>i<k. 19660800 * (i + 1) < unat min_cclk"
proof -
  let ?P = "\<lambda>k. unat min_cclk \<le> 19660800 * (k + 1)"
  define k where "k = (LEAST k. ?P k)"
  have "?P 217" using assms by simp
  then have k: "?P k" "k \<le> 217" unfolding k_def by (rule LeastI, rule Least_le)
  have lt: "19660800 * (i + 1) < unat min_cclk" if "i < k" for i using not_less_Least [OF that [unfolded k_def]] by simp
  have "F_OSC + of_nat i * F_OSC < min_cclk" if "i < k" for i
    using lt [OF that] that k(2) by (simp add: word_less_nat_alt multiples_of_F_OSC)
  moreover have "\<not> F_OSC + of_nat k * F_OSC < min_cclk" using k by (simp add: word_less_nat_alt multiples_of_F_OSC)
  ultimately have "cclk_loop min_cclk 0 F_OSC = Some (0 + of_nat k, F_OSC + of_nat k * F_OSC)" by (intro cclk_loop_steps) simp_all
  moreover have "F_OSC + of_nat k * F_OSC = of_nat (19660800 * (k + 1))" by (simp add: F_OSC_def)
  ultimately have run: "cclk_loop min_cclk 0 F_OSC = Some (of_nat k, of_nat (19660800 * (k + 1)))" by simp
  show ?thesis by (rule that [OF _ run k(1)]) (use k(2) lt in simp_all)
qed

lemma log_P_loop_values: "log_P_loop 0 0 = Some 2" "log_P_loop 1 0 = Some 1" "log_P_loop 2 0 = Some 1"
  by (simp_all add: log_P_loop.simps F_OSC_def MIN_CCO_def push_bit_eq_mult)

text \<open>The multiplier chosen is 1, 2 or 3; it is the first that is enough, if that is at most 60 MHz.\<close>

lemma clocks_choice:
  assumes "unat min_cclk \<le> 4286054400"
  obtains M0 cclk M P where "cclk_loop min_cclk 0 F_OSC = Some (M0, cclk)" "M = (if cclk > MAX_CCLK then 0 else M0)"
    "log_P_loop M 0 = Some P" "(M, P) \<in> {(0, 2), (1, 1), (2, 1)}"
    "if unat min_cclk \<le> 58982400 then cclk = F_OSC * (M + 1) \<and> min_cclk \<le> cclk \<and> (M = 0 \<or> cclk - F_OSC < min_cclk) else M = 0"
proof -
  obtain k where k: "k < 218" "cclk_loop min_cclk 0 F_OSC = Some (of_nat k, of_nat (19660800 * (k + 1)))"
    "unat min_cclk \<le> 19660800 * (k + 1)" "\<forall>i<k. 19660800 * (i + 1) < unat min_cclk"
    by (rule cclk_loop_least [OF assms])
  have cclk: "unat (of_nat (19660800 * (k + 1)) :: u32) = 19660800 * (k + 1)" using k(1) by (subst unat_of_nat) simp
  then have over: "of_nat (19660800 * (k + 1)) > MAX_CCLK \<longleftrightarrow> 2 < k" by (simp add: word_less_nat_alt MAX_CCLK_def) linarith
  show ?thesis
  proof (cases "2 < k")
    case True
    then have "58982400 < unat min_cclk" using k(4) by (auto dest: spec [of _ 2])
    with True show ?thesis using over log_P_loop_values by (intro that [OF k(2), of 0 2]) simp_all
  next
    case False
    then consider "k = 0" | "k = 1" | "k = 2" by linarith
    then have "(of_nat k, if k = 0 then 2 else 1 :: u32) \<in> {(0 :: u32, 2), (1, 1), (2, 1)}" "log_P_loop (of_nat k) 0 = Some (if k = 0 then 2 else 1)"
      using log_P_loop_values by (cases; simp)+
    moreover have "unat min_cclk \<le> 58982400" using False k(3) by simp
    moreover have "of_nat (19660800 * (k + 1)) = F_OSC * (of_nat k + 1)" by (simp add: F_OSC_def)
    moreover have "min_cclk \<le> of_nat (19660800 * (k + 1))" using k(3) cclk by (simp add: word_le_nat_alt)
    moreover have "of_nat k = (0 :: u32) \<or> of_nat (19660800 * (k + 1)) - F_OSC < min_cclk"
    proof (cases k)
      case (Suc i)
      have "of_nat (19660800 * (k + 1)) - F_OSC = of_nat (19660800 * (i + 1))" by (simp add: Suc F_OSC_def)
      moreover have "unat (of_nat (19660800 * (i + 1)) :: u32) = 19660800 * (i + 1)" using k(1) Suc by (subst unat_of_nat) simp
      moreover have "19660800 * (i + 1) < unat min_cclk" using k(4) Suc by simp
      ultimately have "of_nat (19660800 * (k + 1)) - F_OSC < min_cclk" by (simp only: word_less_nat_alt)
      then show ?thesis ..
    qed simp
    ultimately show ?thesis using over False by (intro that [OF k(2)]) auto
  qed
qed

lemma clocksInit_runs:
  fixes s :: "'z board_scheme"
  assumes "cclk_loop min_cclk 0 F_OSC = Some (M0, cclk)" "M = (if cclk > MAX_CCLK then 0 else M0)" "log_P_loop M 0 = Some P"
    and "vpb \<in> {1, 2, 4}" "responsive s PLLSTAT 0x400" "keeps s PREINT"
  obtains vs preint prefrac where "\<exists>v\<in>set vs. v AND 0x400 \<noteq> 0"
    "clocksInit min_cclk vpb s = Some (s\<lparr>bus := bus s @ [Write PLLCFG ((M OR push_bit 5 P) AND 0xff), Write PLLCON 1, Write PLLFEED 0xAA,
       Write PLLFEED 0x55] @ map (Read PLLSTAT) vs @ [Write PLLCON 3, Write PLLFEED 0xAA, Write PLLFEED 0x55,
       Write VPBDIV (if vpb = 4 then 0 else vpb), Write PREINT preint, Read PREINT preint, Write PREFRAC prefrac]\<rparr>)"
    "preint = (drop_bit 15 (cclk div vpb) - 1) AND 0xffff" "prefrac = (cclk div vpb - push_bit 15 (preint + 1)) AND 0xffff"
proof -
  let ?s1 = "s\<lparr>bus := bus s @ [Write PLLCFG ((M OR push_bit 5 P) AND 0xff), Write PLLCON 1, Write PLLFEED 0xAA, Write PLLFEED 0x55]\<rparr>"
  have "responsive ?s1 PLLSTAT 0x400" using assms(5) by simp
  then obtain vs where vs: "wait_bit PLLSTAT 0x400 ?s1 = Some (?s1\<lparr>bus := bus ?s1 @ map (Read PLLSTAT) vs\<rparr>)" "\<exists>v\<in>set vs. v AND 0x400 \<noteq> 0" by (rule wait_bit_ends)
  define d where "d = drop_bit 15 (cclk div vpb) - 1"
  have pclk: "set_vpb vpb cclk t = Some (cclk div vpb, wr8 VPBDIV (if vpb = 4 then 0 else vpb) t)" for t :: "'z board_scheme"
    using assms(4) by (auto simp: set_vpb_def drop_bit_eq_div)
  have "clocksInit min_cclk vpb s = Some (s\<lparr>bus := bus s @ [Write PLLCFG ((M OR push_bit 5 P) AND 0xff), Write PLLCON 1, Write PLLFEED 0xAA,
       Write PLLFEED 0x55] @ map (Read PLLSTAT) vs @ [Write PLLCON 3, Write PLLFEED 0xAA, Write PLLFEED 0x55,
       Write VPBDIV (if vpb = 4 then 0 else vpb), Write PREINT (d AND 0xffff), Read PREINT (d AND 0xffff),
       Write PREFRAC ((cclk div vpb - push_bit 15 ((d AND 0xffff AND 0xffff) + 1)) AND 0xffff)]\<rparr>)"
    using assms(1-4,6) vs pclk by (auto simp: clocksInit_def d_def wr8_def wr16_def wr_def rd_keeps written_def)
  then show ?thesis by (rule that [OF vs(2)]) (simp_all add: d_def and.assoc)
qed

text \<open>
  What the manual says of the PLL.  The values written to its two registers take effect with a feed, the values 0xAA and 0x55 in
  two accesses in a row.  A PLL that is on locks some time after a feed that has changed it, which \<open>PLLSTAT\<close> shows.  Connecting it to the
  processor is safe only when it has been on with the same setting and has been seen locked; a processor connected otherwise has no clock.
\<close>

record pll =
  held_con :: u32
  held_cfg :: u32
  pll_fed :: bool
  pll_con :: u32
  pll_cfg :: u32
  pll_locked :: bool
  pll_stable :: bool

definition pll_feed :: "pll \<Rightarrow> pll" where
  "pll_feed p = p\<lparr>pll_fed := False, pll_con := held_con p, pll_cfg := held_cfg p,
     pll_locked := (pll_locked p \<and> bit (pll_con p) 0 = bit (held_con p) 0 \<and> pll_cfg p = held_cfg p),
     pll_stable := (\<not> bit (held_con p) 1 \<or> bit (held_con p) 0 \<and> bit (pll_con p) 0 \<and> pll_cfg p = held_cfg p \<and> pll_locked p)\<rparr>"

definition pll_step :: "pll \<Rightarrow> access \<Rightarrow> pll" where
  "pll_step p e = (case e of
       Write r v \<Rightarrow> if r = PLLFEED \<and> v = 0xAA then p\<lparr>pll_fed := True\<rparr>
         else if r = PLLFEED \<and> v = 0x55 \<and> pll_fed p then pll_feed p
         else if r = PLLCON then p\<lparr>pll_fed := False, held_con := v\<rparr>
         else if r = PLLCFG then p\<lparr>pll_fed := False, held_cfg := v\<rparr>
         else p\<lparr>pll_fed := False\<rparr>
     | Read r v \<Rightarrow> p\<lparr>pll_fed := False, pll_locked := (pll_locked p \<or> r = PLLSTAT \<and> bit (pll_con p) 0 \<and> v AND 0x400 \<noteq> 0)\<rparr>
     | Delay n \<Rightarrow> p\<lparr>pll_fed := False\<rparr>)"

definition pll_reset :: pll where
  "pll_reset = \<lparr>held_con = 0, held_cfg = 0, pll_fed = False, pll_con = 0, pll_cfg = 0, pll_locked = False, pll_stable = True\<rparr>"

definition pll_frequency :: "pll \<Rightarrow> nat option" where
  "pll_frequency p = (if \<not> pll_stable p then None else if bit (pll_con p) 1 then Some (19660800 * (unat (pll_cfg p AND 0x1F) + 1)) else Some 19660800)"

text \<open>The frequency at which the processor runs after these accesses since its reset.\<close>

definition processor_clock :: "access list \<Rightarrow> nat option" where
  "processor_clock h = pll_frequency (foldl pll_step pll_reset h)"

lemma pll_polls:
  "foldl pll_step p (map (Read PLLSTAT) vs) =
     p\<lparr>pll_fed := (pll_fed p \<and> vs = []), pll_locked := (pll_locked p \<or> bit (pll_con p) 0 \<and> (\<exists>v\<in>set vs. v AND 0x400 \<noteq> 0))\<rparr>"
proof (induction vs arbitrary: p)
  case (Cons v vs)
  have "(pll_locked p \<or> bit (pll_con p) 0 \<and> v AND 0x400 \<noteq> 0) \<or> bit (pll_con p) 0 \<and> (\<exists>v\<in>set vs. v AND 0x400 \<noteq> 0) \<longleftrightarrow>
    pll_locked p \<or> bit (pll_con p) 0 \<and> (\<exists>v\<in>set (v # vs). v AND 0x400 \<noteq> 0)" by auto
  with Cons show ?case by (simp add: pll_step_def)
qed simp

lemma clock_connected:
  assumes "\<exists>v\<in>set vs. v AND 0x400 \<noteq> 0" "cfg AND 0x1F = M"
  shows "processor_clock (h @ [Write PLLCFG cfg, Write PLLCON 1, Write PLLFEED 0xAA, Write PLLFEED 0x55] @ map (Read PLLSTAT) vs @
    [Write PLLCON 3, Write PLLFEED 0xAA, Write PLLFEED 0x55, Write VPBDIV d, Write PREINT i, Read PREINT i', Write PREFRAC f]) =
    Some (19660800 * (unat M + 1))"
  using assms by (simp add: processor_clock_def pll_polls) (simp add: pll_step_def pll_feed_def pll_frequency_def)

lemma pclk_after:
  assumes "keeps s PLLCFG" "keeps s VPBDIV" "written PLLCFG (bus s) = Some c" "written VPBDIV (bus s) = Some (if vpb = 4 then 0 else vpb)"
    and "vpb \<in> {1, 2, 4}"
  shows "\<exists>s2. clocksGetPclkFreq s = Some (F_OSC * ((c AND 0xff AND 0x1F) + 1) div vpb, s2)"
  using assms by (auto simp: clocksGetPclkFreq_def rd8_def rd_keeps drop_bit_eq_div written_def Let_def and.assoc)

text \<open>The values the loops choose meet the ranges of the data sheet: the CCO runs at 156 to 320 MHz.\<close>

lemma pll_values:
  assumes "(M, P) \<in> {(0 :: u32, 2 :: u32), (1, 1), (2, 1)}" "vpb \<in> {1, 2, 4 :: u32}"
  shows "M < 32 \<and> P < 4" "unat (F_OSC * (M + 1)) = 19660800 * (unat M + 1) \<and> (M = 0 \<or> unat (F_OSC * (M + 1) - F_OSC) = 19660800 * unat M)" "(M OR push_bit 5 P) AND 0xff = M OR push_bit 5 P"
    "(M OR push_bit 5 P) AND 0xff AND 0x1F = M"
    "let cclk = 19660800 * (unat M + 1); cco = cclk * 2 * 2 ^ unat P in cclk \<le> 60000000 \<and> 156000000 \<le> cco \<and> cco \<le> 320000000"
    "let pclk = F_OSC * (M + 1) div vpb; pre = (drop_bit 15 pclk - 1) AND 0xffff; frac = (pclk - push_bit 15 (pre + 1)) AND 0xffff
     in unat pclk = 19660800 * (unat M + 1) div unat vpb \<and> (unat pre + 1) * 32768 + unat frac = unat pclk"
  using assms by (auto simp: Let_def F_OSC_def push_bit_eq_mult drop_bit_eq_div)

text \<open>
  C25: \<open>clocksInit\<close> sets the processor's clock.  On hardware whose PLL locks and whose registers read back, with a
  requested frequency below 4.28 GHz and a divider of the bus of 1, 2 or 4, it ends, and the multiplier and divider
  it writes fit their fields and keep the data sheet's ranges: the processor at most 60 MHz, the PLL's oscillator between 156 and
  320 MHz.  Whatever went before, the PLL has then been fed, seen locked and connected, and the processor runs at the lowest multiple
  of the crystal that is enough, or at the crystal's frequency if no multiple up to 60 MHz is; \<open>clocksGetPclkFreq\<close>
  then returns the frequency of the bus, and in the first case the prescaler of the real-time clock divides it to 32768 Hz.
\<close>
theorem clocksInit_sets_pll:
  fixes s :: "'z board_scheme"
  assumes "unat min_cclk \<le> 4286054400" "vpb \<in> {1, 2, 4}" "responsive s PLLSTAT 0x400"
    and "keeps s PREINT" "keeps s PLLCFG" "keeps s VPBDIV"
  shows "\<exists>s' M P. clocksInit min_cclk vpb s = Some s' \<and> written PLLCFG (bus s') = Some (M OR push_bit 5 P) \<and> M < 32 \<and> P < 4 \<and>
    processor_clock (bus s') = Some (19660800 * (unat M + 1)) \<and>
    (let cclk = 19660800 * (unat M + 1); cco = cclk * 2 * 2 ^ unat P in cclk \<le> 60000000 \<and> 156000000 \<le> cco \<and> cco \<le> 320000000) \<and>
    (if unat min_cclk \<le> 58982400 then unat min_cclk \<le> 19660800 * (unat M + 1) \<and> (M = 0 \<or> 19660800 * unat M < unat min_cclk) else M = 0) \<and>
    (\<exists>pclk s2. clocksGetPclkFreq s' = Some (pclk, s2) \<and> unat pclk = 19660800 * (unat M + 1) div unat vpb \<and>
       (unat min_cclk \<le> 58982400 \<longrightarrow> (\<exists>pre frac. written PREINT (bus s') = Some pre \<and> written PREFRAC (bus s') = Some frac \<and>
          (unat pre + 1) * 32768 + unat frac = unat pclk)))"
proof -
  obtain M0 cclk M P where c: "cclk_loop min_cclk 0 F_OSC = Some (M0, cclk)" "M = (if cclk > MAX_CCLK then 0 else M0)"
    "log_P_loop M 0 = Some P" "(M, P) \<in> {(0, 2), (1, 1), (2, 1)}"
    "if unat min_cclk \<le> 58982400 then cclk = F_OSC * (M + 1) \<and> min_cclk \<le> cclk \<and> (M = 0 \<or> cclk - F_OSC < min_cclk) else M = 0"
    by (rule clocks_choice [OF assms(1)])
  obtain vs pre frac where polled: "\<exists>v\<in>set vs. v AND 0x400 \<noteq> 0" and run:
    "clocksInit min_cclk vpb s = Some (s\<lparr>bus := bus s @ [Write PLLCFG ((M OR push_bit 5 P) AND 0xff), Write PLLCON 1, Write PLLFEED 0xAA,
       Write PLLFEED 0x55] @ map (Read PLLSTAT) vs @ [Write PLLCON 3, Write PLLFEED 0xAA, Write PLLFEED 0x55,
       Write VPBDIV (if vpb = 4 then 0 else vpb), Write PREINT pre, Read PREINT pre, Write PREFRAC frac]\<rparr>)" (is "_ = Some ?s'")
    "pre = (drop_bit 15 (cclk div vpb) - 1) AND 0xffff" "frac = (cclk div vpb - push_bit 15 (pre + 1)) AND 0xffff"
    by (rule clocksInit_runs [OF c(1,2,3) assms(2,3,4)])
  note V = pll_values [OF c(4) assms(2)]
  have W: "written PLLCFG (bus ?s') = Some (M OR push_bit 5 P)" "written VPBDIV (bus ?s') = Some (if vpb = 4 then 0 else vpb)"
    "written PREINT (bus ?s') = Some pre" "written PREFRAC (bus ?s') = Some frac"
    by (simp_all add: written_def V(3))
  have clock: "processor_clock (bus ?s') = Some (19660800 * (unat M + 1))"
    using clock_connected [OF polled V(4) [unfolded and.assoc [symmetric]]] by simp
  have K: "keeps ?s' PLLCFG" "keeps ?s' VPBDIV" using assms(5,6) by simp_all
  obtain s2 where P: "clocksGetPclkFreq ?s' = Some (F_OSC * (((M OR push_bit 5 P) AND 0xff AND 0x1F) + 1) div vpb, s2)"
    using pclk_after [OF K W(1,2) assms(2)] by blast
  let ?p = "F_OSC * (M + 1) div vpb"
  have G: "clocksGetPclkFreq ?s' = Some (?p, s2)" using P by (simp only: V(4))
  have req: "if unat min_cclk \<le> 58982400 then unat min_cclk \<le> 19660800 * (unat M + 1) \<and> (M = 0 \<or> 19660800 * unat M < unat min_cclk) else M = 0"
    using c(5) V(2) by (auto simp: word_le_nat_alt word_less_nat_alt split: if_splits)
  have rtc: "unat min_cclk \<le> 58982400 \<longrightarrow> (unat pre + 1) * 32768 + unat frac = unat ?p"
    using c(5) V(6) run(2,3) by (simp add: Let_def)
  obtain s' where s': "clocksInit min_cclk vpb s = Some s'" "written PLLCFG (bus s') = Some (M OR push_bit 5 P)"
    "written PREINT (bus s') = Some pre" "written PREFRAC (bus s') = Some frac" "clocksGetPclkFreq s' = Some (?p, s2)"
    "processor_clock (bus s') = Some (19660800 * (unat M + 1))"
    using run(1) W(1,3,4) G clock by blast
  have pclk: "unat ?p = 19660800 * (unat M + 1) div unat vpb" using V(6) by (simp add: Let_def)
  have "\<exists>pclk s2. clocksGetPclkFreq s' = Some (pclk, s2) \<and> unat pclk = 19660800 * (unat M + 1) div unat vpb \<and>
       (unat min_cclk \<le> 58982400 \<longrightarrow> (\<exists>pre frac. written PREINT (bus s') = Some pre \<and> written PREFRAC (bus s') = Some frac \<and>
          (unat pre + 1) * 32768 + unat frac = unat pclk))" using s'(3-5) pclk rtc by blast
  then show ?thesis using s'(1,2,6) V(1,5) req by blast
qed

text \<open>A board without anything attached: registers read back, status bits are always set.\<close>

definition bare_board :: board where
  "bare_board = \<lparr>device = (\<lambda>r h. if r \<in> {PLLSTAT, U0LSR} then 0x460 else case written r h of None \<Rightarrow> 0 | Some v \<Rightarrow> v),
     bus = [], iters_per_msec = 1, dummy = 0\<rparr>"

lemma bare_board_keeps: "r \<noteq> PLLSTAT \<Longrightarrow> r \<noteq> U0LSR \<Longrightarrow> keeps bare_board r"
  by (simp add: keeps_def bare_board_def)

lemma bare_board_responsive: "responsive bare_board PLLSTAT 0x400" "responsive bare_board U0LSR 0x20"
  by (auto simp: responsive_def bare_board_def)

lemma clocksInit_sets_pll_witness:
  "\<exists>s' M P. clocksInit 58982400 4 bare_board = Some s' \<and> written PLLCFG (bus s') = Some (M OR push_bit 5 P) \<and>
     processor_clock (bus s') = Some 58982400 \<and> (\<exists>pclk s2. clocksGetPclkFreq s' = Some (pclk, s2) \<and> unat pclk = 14745600)"
  using clocksInit_sets_pll [of 58982400 4 bare_board] bare_board_keeps [of PREINT] bare_board_keeps [of PLLCFG]
    bare_board_keeps [of VPBDIV] bare_board_responsive(1)
  by (fastforce simp: Let_def)

section \<open>The divider of a bit rate\<close>

lemma divider_loop_steps:
  assumes "unat pclk + unat b < 2 ^ 32" "0 < unat b"
  shows "k + n = unat pclk div unat b + 1 \<Longrightarrow> divider_loop pclk b d (of_nat (unat b * k)) = Some (d + of_nat n)"
proof (induction n arbitrary: k d)
  case 0
  then have k: "k = unat pclk div unat b + 1" by simp
  have "unat pclk < unat b * k" unfolding k using assms(2) by (simp add: dividend_less_times_div)
  moreover have "unat b * k \<le> unat pclk + unat b" unfolding k by (simp add: times_div_less_eq_dividend)
  then have "unat (of_nat (unat b * k) :: u32) = unat b * k" using assms(1) by (subst unat_of_nat) simp
  ultimately show ?case by (subst divider_loop.simps) (simp add: word_le_nat_alt del: of_nat_mult)
next
  case (Suc n)
  have "unat b * k \<le> unat b * (unat pclk div unat b)" using Suc.prems by simp
  also have "\<dots> \<le> unat pclk" by (rule times_div_less_eq_dividend)
  finally have le: "unat b * k \<le> unat pclk" .
  then have "unat (of_nat (unat b * k) :: u32) = unat b * k" using unat_lt_u32 [of pclk] by (subst unat_of_nat) simp
  then have "of_nat (unat b * k) \<le> pclk" using le by (simp add: word_le_nat_alt del: of_nat_mult)
  moreover have "of_nat (unat b * k) + b = of_nat (unat b * Suc k)" by (simp add: algebra_simps)
  ultimately have "divider_loop pclk b d (of_nat (unat b * k)) = divider_loop pclk b (d + 1) (of_nat (unat b * Suc k))"
    by (subst divider_loop.simps) (simp del: of_nat_mult add: add.commute)
  also have "\<dots> = Some (d + 1 + of_nat n)" using Suc.prems by (intro Suc.IH) simp
  finally show ?case by (simp add: ac_simps)
qed

lemma divider_loop_quotient:
  assumes "unat pclk + unat b < 2 ^ 32" "0 < unat b"
  obtains d where "divider_loop pclk b 1 b = Some d" "unat (d - 1) = unat pclk div unat b"
proof -
  have "divider_loop pclk b 1 (of_nat (unat b * 1)) = Some (1 + of_nat (unat pclk div unat b))"
    by (rule divider_loop_steps [OF assms]) simp
  moreover have "unat (of_nat (unat pclk div unat b) :: u32) = unat pclk div unat b"
    using le_less_trans [OF div_le_dividend unat_lt_u32 [of pclk]] by (subst unat_of_nat) simp
  ultimately show ?thesis by (intro that [of "1 + of_nat (unat pclk div unat b)"]) simp_all
qed


section \<open>Pins\<close>

text \<open>One bit, and the two bits of a pin in a selection register.\<close>

lemma bit_one_at: "n < 32 \<Longrightarrow> bit (2 ^ n :: u32) i = (i = n)"
  by (auto simp: bit_exp_iff)

lemma bit_pair_at: "n < 16 \<Longrightarrow> i < 32 \<Longrightarrow> bit (push_bit (n + n) 3 :: u32) i = (i div 2 = n)"
proof -
  assume n: "n < 16" and i: "i < 32"
  have "(3 :: u32) = mask 2" by (simp add: mask_eq_exp_minus_1)
  moreover have "bit (mask 2 :: u32) k = (k < 2)" for k unfolding bit_mask_iff by auto
  ultimately have "bit (3 :: u32) k = (k < 2)" for k by (simp only:)
  then have "bit (push_bit (n + n) 3 :: u32) i = (n + n \<le> i \<and> i - (n + n) < 2)"
    using i by (simp add: bit_push_bit_iff)
  also have "\<dots> = (i div 2 = n)" by arith
  finally show ?thesis .
qed

lemma or_reg_keeps: "keeps s r \<Longrightarrow> written r (bus s) = Some v \<Longrightarrow> or_reg r m s = s\<lparr>bus := bus s @ [Read r v, Write r (v OR m)]\<rparr>"
  "keeps s r \<Longrightarrow> written r (bus s) = Some v \<Longrightarrow> and_reg r m s = s\<lparr>bus := bus s @ [Read r v, Write r (v AND m)]\<rparr>"
  by (simp_all add: or_reg_def and_reg_def rd_keeps wr_def)

lemma written_changed: "written r (h @ [Read r1 v, Write r2 w]) = (if r = r2 then Some w else written r h)"
  "written r (h @ [Read r1 v, Write r2 w, Read r3 x, Write r4 y]) = (if r = r4 then Some y else if r = r2 then Some w else written r h)"
  by (simp_all add: written_def)

text \<open>
  \<open>gpioEnable\<close> makes a pin of port 0 a pin for general use.  On a board whose registers read back and have been written, the
  direction bit of the pin becomes the direction asked for, its two selection bits become 0, and every other bit of
  the direction register and of the two selection registers stays.
\<close>
theorem gpioEnable_one_pin:
  fixes g :: u8
  assumes "keeps s IODIR0" "keeps s PINSEL0" "keeps s PINSEL1" "unat g < 32"
    and "written IODIR0 (bus s) = Some d" "written PINSEL0 (bus s) = Some p0" "written PINSEL1 (bus s) = Some p1"
  shows "\<exists>s' d' p0' p1'. gpioEnable 0 g dir s = Some s' \<and> written IODIR0 (bus s') = Some d' \<and>
     written PINSEL0 (bus s') = Some p0' \<and> written PINSEL1 (bus s') = Some p1' \<and>
     (\<forall>i<32. bit d' i = (if i = unat g then dir = GPIO_OUTPUT else bit d i)) \<and>
     (\<forall>i<32. bit p0' i = (bit p0 i \<and> i div 2 \<noteq> unat g)) \<and> (\<forall>i<32. bit p1' i = (bit p1 i \<and> 16 + i div 2 \<noteq> unat g))"
proof -
  let ?one = "2 ^ unat g :: u32"
  define d' where "d' = (if dir = GPIO_INPUT then d AND NOT ?one else d OR ?one)"
  have d: "\<forall>i<32. bit d' i = (if i = unat g then dir = GPIO_OUTPUT else bit d i)"
    using assms(4) by (cases dir) (auto simp: d'_def bit_and_iff bit_or_iff bit_not_iff bit_one_at)
  let ?s1 = "if dir = GPIO_INPUT then and_reg IODIR0 (NOT ?one) s else or_reg IODIR0 ?one s"
  have s1: "?s1 = s\<lparr>bus := bus s @ [Read IODIR0 d, Write IODIR0 d']\<rparr>"
    using assms(1,5) by (simp add: or_reg_keeps d'_def)
  have g: "g < 32" using assms(4) by (simp add: word_less_nat_alt)
  show ?thesis
  proof (cases "g \<le> 15")
    case True
    then have n: "unat g < 16" by (simp add: word_le_nat_alt)
    define p' where "p' = p0 AND NOT (push_bit (unat g + unat g) 3)"
    have "gpioEnable 0 g dir s = Some (s\<lparr>bus := bus s @ [Read IODIR0 d, Write IODIR0 d', Read PINSEL0 p0, Write PINSEL0 p']\<rparr>)"
      using True g s1 assms(2,6) by (simp add: gpioEnable_def Let_def or_reg_keeps written_changed p'_def)
    moreover have "\<forall>i<32. bit p' i = (bit p0 i \<and> i div 2 \<noteq> unat g)"
      using n by (auto simp: p'_def bit_and_iff bit_not_iff bit_pair_at)
    ultimately show ?thesis using d n assms(7) by (auto simp: written_changed)
  next
    case False
    then have "16 \<le> unat g" "unat (g - 16) = unat g - 16" by (simp_all add: word_le_nat_alt unat_sub)
    then obtain m where n: "unat g = 16 + m" "unat (g - 16) = m" "m < 16" using assms(4) by (auto simp: le_iff_add)
    define p' where "p' = p1 AND NOT (push_bit (m + m) 3)"
    have "gpioEnable 0 g dir s = Some (s\<lparr>bus := bus s @ [Read IODIR0 d, Write IODIR0 d', Read PINSEL1 p1, Write PINSEL1 p']\<rparr>)"
      using False g s1 assms(3,7) n(2) by (simp add: gpioEnable_def Let_def or_reg_keeps written_changed p'_def)
    moreover have "\<forall>i<32. bit p' i = (bit p1 i \<and> 16 + i div 2 \<noteq> unat g)"
      using n by (auto simp: p'_def bit_and_iff bit_not_iff bit_pair_at)
    ultimately show ?thesis using d n assms(6) by (auto simp: written_changed)
  qed
qed

lemma gpioEnable_one_pin_witness:
  "\<exists>s' d' p0'. gpioEnable 0 2 GPIO_OUTPUT (bare_board\<lparr>bus := [Write IODIR0 0, Write PINSEL0 0xff, Write PINSEL1 0]\<rparr>) = Some s' \<and>
     written IODIR0 (bus s') = Some d' \<and> written PINSEL0 (bus s') = Some p0' \<and> bit d' 2 \<and> \<not> bit d' 3 \<and> bit p0' 3 \<and> \<not> bit p0' 4 \<and> \<not> bit p0' 5"
proof -
  let ?s = "bare_board\<lparr>bus := [Write IODIR0 0, Write PINSEL0 0xff, Write PINSEL1 0]\<rparr>"
  have "\<exists>s' d' p0' p1'. gpioEnable 0 2 GPIO_OUTPUT ?s = Some s' \<and> written IODIR0 (bus s') = Some d' \<and>
     written PINSEL0 (bus s') = Some p0' \<and> written PINSEL1 (bus s') = Some p1' \<and>
     (\<forall>i<32. bit d' i = (if i = unat (2 :: u8) then GPIO_OUTPUT = GPIO_OUTPUT else bit (0 :: u32) i)) \<and>
     (\<forall>i<32. bit p0' i = (bit (0xff :: u32) i \<and> i div 2 \<noteq> unat (2 :: u8))) \<and> (\<forall>i<32. bit p1' i = (bit (0 :: u32) i \<and> 16 + i div 2 \<noteq> unat (2 :: u8)))"
    by (rule gpioEnable_one_pin) (simp_all add: bare_board_keeps written_def)
  then obtain s' d' p0' where R: "gpioEnable 0 2 GPIO_OUTPUT ?s = Some s'" "written IODIR0 (bus s') = Some d'" "written PINSEL0 (bus s') = Some p0'"
    "\<forall>i<32. bit d' i = (if i = 2 then GPIO_OUTPUT = GPIO_OUTPUT else bit (0 :: u32) i)" "\<forall>i<32. bit p0' i = (bit (0xff :: u32) i \<and> i div 2 \<noteq> 2)" by auto
  show ?thesis
    by (intro exI conjI, rule R(1), rule R(2), rule R(3)) (use R(4,5) in simp_all)
qed

text \<open>The branches of \<open>gpioSet\<close> fall through: the pin of port 1 with the same number is set as well.\<close>

lemma gpioSet_both_ports:
  "g < 32 \<Longrightarrow> \<exists>x y. gpioSet 0 g s = Some (s\<lparr>bus := bus s @ [Read IOSET0 x, Write IOSET0 (x OR 2 ^ unat g), Read IOSET1 y, Write IOSET1 (y OR 2 ^ unat g)]\<rparr>)"
  by (simp add: gpioSet_def or_reg_def rd_def wr_def Let_def) blast

section \<open>Sending a byte\<close>

text \<open>What goes to the line: a line feed is preceded by a carriage return.\<close>

definition uart_bytes :: "u8 \<Rightarrow> (reg \<times> u32) list" where
  "uart_bytes c = (if c = 10 then [(U0THR, 13)] else []) @ [(U0THR, ucast c)]"

lemma uart0SendByte_sends:
  assumes "responsive s U0LSR 0x20"
  obtains h where "uart0SendByte env c s = Some (s\<lparr>bus := bus s @ h\<rparr>)" "writes h = uart_bytes c"
proof -
  obtain vs where vs: "wait_bit U0LSR 0x20 s = Some (s\<lparr>bus := bus s @ map (Read U0LSR) vs\<rparr>)" using wait_bit_ends [OF assms] by metis
  have w: "ucast c AND 0xff = (ucast c :: u32)" for c :: u8
  proof -
    have "ucast c AND (mask 8 :: u32) = ucast c" by (rule bit_word_eqI) (auto simp: bit_and_iff bit_ucast_iff bit_mask_iff dest: bit_imp_le_length)
    moreover have "(mask 8 :: u32) = 0xff" by (simp add: mask_eq_exp_minus_1)
    ultimately show ?thesis by (simp only:)
  qed
  show ?thesis
  proof (cases "c = 10")
    case False
    then show ?thesis using vs by (intro that) (auto simp: uart0SendByte_def wr8_def wr_def w uart_bytes_def)
  next
    case True
    let ?t = "s\<lparr>bus := bus s @ map (Read U0LSR) vs @ [Write U0THR 13]\<rparr>"
    have "responsive ?t U0LSR 0x20" using assms by simp
    then obtain us where us: "wait_bit U0LSR 0x20 ?t = Some (?t\<lparr>bus := bus ?t @ map (Read U0LSR) us\<rparr>)" using wait_bit_ends by metis
    show ?thesis using True vs us by (intro that) (auto simp: uart0SendByte_def wr8_def wr_def w uart_bytes_def)
  qed
qed

end
