(* ===== verification/Print.thy ===== *)
theory Print
  imports Memlib Board "HOL-Library.Signed_Division"
begin

text \<open>
  Printing of \<^verbatim>\<open>ARM/utils/print.c\<close>: strings, hexadecimal and decimal numbers, a byte at a time through a function
  the caller passes.  Its static buffer of 8 bytes is a field of the state; an index outside of it stops the
  program.  \<open>printer\<close> is the interface of the function passed, and the serial line provides it.
\<close>

unbundle bit_operations_syntax

record print_board = board +
  print_buffer :: "u8 list"

section \<open>The functions\<close>

definition put_digit :: "nat \<Rightarrow> u8 \<Rightarrow> 'z print_board_scheme \<Rightarrow> 'z print_board_scheme option" where
  "put_digit i d s = do { assert_c (i < length (print_buffer s)); Some (s\<lparr>print_buffer := (print_buffer s)[i := d]\<rparr>) }"

text \<open>The string is in a byte buffer; a string without an end is read forever.\<close>

partial_function (option) print ::
  "('e \<Rightarrow> u8 \<Rightarrow> 'z print_board_scheme \<Rightarrow> 'z print_board_scheme option) \<Rightarrow> 'e \<Rightarrow> buf \<Rightarrow> nat
   \<Rightarrow> 'z print_board_scheme \<Rightarrow> 'z print_board_scheme option" where
  "print p env str i s = (if str i = 0 then Some s else do { s1 \<leftarrow> p env (str i) s; print p env str (i + 1) s1 })"

text \<open>The second loop of both number printers: the digits from index \<open>n - 1\<close> down to 0.\<close>

primrec print_digits ::
  "('e \<Rightarrow> u8 \<Rightarrow> 'z print_board_scheme \<Rightarrow> 'z print_board_scheme option) \<Rightarrow> 'e \<Rightarrow> nat
   \<Rightarrow> 'z print_board_scheme \<Rightarrow> 'z print_board_scheme option" where
  "print_digits p env 0 s = Some s"
| "print_digits p env (Suc i) s = do {
     assert_c (i < length (print_buffer s));
     s1 \<leftarrow> p env (print_buffer s ! i) s;
     print_digits p env i s1
   }"

primrec hex_loop :: "nat list \<Rightarrow> u32 \<Rightarrow> 'z print_board_scheme \<Rightarrow> 'z print_board_scheme option" where
  "hex_loop [] v s = Some s"
| "hex_loop (i # is) v s = do {
     let d = (ucast (v AND 0xF) :: u8);
     s1 \<leftarrow> put_digit i (if d < 10 then d + 48 else d - 10 + 65) s;
     hex_loop is (drop_bit 4 v) s1
   }"

text \<open>The index is 8 bits wide and signed; it never gets near its end, the buffer is over before.\<close>

definition printHex ::
  "('e \<Rightarrow> u8 \<Rightarrow> 'z print_board_scheme \<Rightarrow> 'z print_board_scheme option) \<Rightarrow> 'e \<Rightarrow> u32 \<Rightarrow> u8
   \<Rightarrow> 'z print_board_scheme \<Rightarrow> 'z print_board_scheme option" where
  "printHex p env v digits s = do {
     s1 \<leftarrow> hex_loop [0..<unat digits] v s;
     print_digits p env (unat digits) s1
   }"

text \<open>The quotient and remainder of C, towards 0; the least number is its own negation.\<close>

definition quotient10 :: "u32 \<Rightarrow> u32" where "quotient10 v = word_of_int (sint v sdiv 10)"
definition remainder10 :: "u32 \<Rightarrow> u32" where "remainder10 v = word_of_int (sint v smod 10)"

lemma sdiv_10: "x sdiv 10 = (if 0 \<le> x then x div 10 else - (- x div 10))" for x :: int
  by (simp add: signed_divide_int_def sgn_if)

lemma sint_quotient10: "sint (quotient10 v) = sint v sdiv 10"
proof -
  have "- (2 ^ 31) \<le> sint v" "sint v < 2 ^ 31" using sint_ge [of v] sint_lt [of v] by simp_all
  then have "- (2 ^ 31) \<le> sint v sdiv 10" "sint v sdiv 10 < 2 ^ 31" by (auto simp: sdiv_10)
  then show ?thesis by (simp add: quotient10_def sint_sbintrunc' signed_take_bit_int_eq_self)
qed

lemma quotient10_less: "v \<noteq> 0 \<Longrightarrow> nat \<bar>sint (quotient10 v)\<bar> < nat \<bar>sint v\<bar>"
proof -
  assume "v \<noteq> 0"
  then have "sint v \<noteq> 0" by (metis signed_0 signed_word_eqI)
  then show ?thesis by (auto simp: sint_quotient10 sdiv_10 abs_if)
qed

function num_loop :: "nat \<Rightarrow> u32 \<Rightarrow> 'z print_board_scheme \<Rightarrow> (nat \<times> 'z print_board_scheme) option" where
  "num_loop i v s = (if v = 0 then Some (i, s) else do {
     s1 \<leftarrow> put_digit i (ucast (remainder10 v) + 48) s;
     num_loop (i + 1) (quotient10 v) s1
   })"
  by pat_completeness auto
termination by (relation "measure (\<lambda>(i, v, s). nat \<bar>sint v\<bar>)") (auto dest: quotient10_less)

declare num_loop.simps [simp del]

definition printNum ::
  "('e \<Rightarrow> u8 \<Rightarrow> 'z print_board_scheme \<Rightarrow> 'z print_board_scheme option) \<Rightarrow> 'e \<Rightarrow> u32
   \<Rightarrow> 'z print_board_scheme \<Rightarrow> 'z print_board_scheme option" where
  "printNum p env v s =
     (if v = 0 then p env 48 s
      else do {
        (digits, s1) \<leftarrow> num_loop 0 (if v <s 0 then - v else v) s;
        s2 \<leftarrow> (if v <s 0 then p env 45 s1 else Some s1);
        print_digits p env digits s2
      })"

text \<open>A string of the program as a buffer; the lines the drivers print of their registers.\<close>

definition literal :: "string \<Rightarrow> buf" where
  "literal cs = (\<lambda>i. if i < length cs then of_char (cs ! i) else 0)"

definition print_line :: "string \<Rightarrow> u32 \<Rightarrow> 'z print_board_scheme \<Rightarrow> 'z print_board_scheme option" where
  "print_line name v s = do {
     s1 \<leftarrow> print uart0SendByte () (literal name) 0 s;
     s2 \<leftarrow> printNum uart0SendByte () v s1;
     print uart0SendByte () (literal [CHR 0x0A]) 0 s2
   }"

section \<open>Numbers as digits\<close>

text \<open>The digits of a number from the last one on, none for 0; what a string of digits means.\<close>

fun digits_from_last :: "nat \<Rightarrow> nat \<Rightarrow> nat list" where
  "digits_from_last b n = (if n = 0 \<or> b \<le> 1 then [] else n mod b # digits_from_last b (n div b))"

declare digits_from_last.simps [simp del]

definition meaning :: "nat \<Rightarrow> nat list \<Rightarrow> nat" where
  "meaning b ds = foldl (\<lambda>a d. a * b + d) 0 ds"

lemma meaning_snoc [simp]: "meaning b [] = 0" "meaning b (ds @ [d]) = meaning b ds * b + d"
  by (simp_all add: meaning_def)

lemma digits_0 [simp]: "digits_from_last b 0 = []"
  by (simp add: digits_from_last.simps)

lemma digits_step: "0 < n \<Longrightarrow> 1 < b \<Longrightarrow> digits_from_last b n = n mod b # digits_from_last b (n div b)"
  by (simp add: digits_from_last.simps [of b n])

lemma meaning_digits: "1 < b \<Longrightarrow> meaning b (rev (digits_from_last b n)) = n"
proof (induction b n rule: digits_from_last.induct)
  case (1 b n)
  then show ?case by (cases "n = 0") (simp_all add: digits_step)
qed

lemma digits_below: "1 < b \<Longrightarrow> d \<in> set (digits_from_last b n) \<Longrightarrow> d < b"
proof (induction b n rule: digits_from_last.induct)
  case (1 b n)
  then show ?case by (cases "n = 0") (auto simp: digits_step)
qed

lemma digits_not_Nil: "0 < n \<Longrightarrow> 1 < b \<Longrightarrow> digits_from_last b n \<noteq> [] \<and> last (digits_from_last b n) \<noteq> 0"
proof (induction b n rule: digits_from_last.induct)
  case (1 b n)
  show ?case
  proof (cases "n div b = 0")
    case True
    then have "n < b" using 1 by (simp add: div_eq_0_iff)
    with 1 True show ?thesis by (simp add: digits_step)
  next
    case False
    with 1 show ?thesis by (simp add: digits_step)
  qed
qed

lemma length_digits: "1 < b \<Longrightarrow> length (digits_from_last b n) \<le> k \<longleftrightarrow> n < b ^ k"
proof (induction b n arbitrary: k rule: digits_from_last.induct)
  case (1 b n)
  show ?case
  proof (cases "n = 0")
    case False
    then have "length (digits_from_last b n) = Suc (length (digits_from_last b (n div b)))" using 1(2) by (simp add: digits_step)
    moreover have "n < b ^ Suc j \<longleftrightarrow> n div b < b ^ j" for j using 1(2) by (simp add: div_less_iff_less_mult mult.commute)
    ultimately show ?thesis using 1 False by (cases k) simp_all
  qed (use 1 in simp)
qed

section \<open>The loops fill the buffer\<close>

text \<open>\<open>filled s i cs\<close>: the state after the characters \<open>cs\<close> have been put into the buffer from index \<open>i\<close> on.\<close>

definition filled :: "'z print_board_scheme \<Rightarrow> nat \<Rightarrow> u8 list \<Rightarrow> 'z print_board_scheme" where
  "filled s i cs = s\<lparr>print_buffer := take i (print_buffer s) @ cs @ drop (i + length cs) (print_buffer s)\<rparr>"

lemma filled_Nil: "filled s i [] = s"
  by (simp add: filled_def)

lemma put_digit_filled:
  "i < length (print_buffer s) \<Longrightarrow> put_digit i c s = Some (filled s i [c])"
  "\<not> i < length (print_buffer s) \<Longrightarrow> put_digit i c s = None"
  by (simp_all add: put_digit_def filled_def upd_conv_take_nth_drop)

lemma filled_filled: "i < length (print_buffer s) \<Longrightarrow> filled (filled s i [c]) (Suc i) cs = filled s i (c # cs)"
  by (simp add: filled_def min_def Suc_diff_le add.commute)

lemma filled_buffer: "i + length cs \<le> length (print_buffer s) \<Longrightarrow> length (print_buffer (filled s i cs)) = length (print_buffer s)"
  "i + length cs \<le> length (print_buffer s) \<Longrightarrow> take (i + length cs) (print_buffer (filled s i cs)) = take i (print_buffer s) @ cs"
  by (simp_all add: filled_def)

abbreviation char_of_digit :: "nat \<Rightarrow> u8" where "char_of_digit d \<equiv> of_nat d + 48"

lemma quotient10_abs: "nat \<bar>sint (quotient10 v)\<bar> = nat \<bar>sint v\<bar> div 10"
  by (auto simp: sint_quotient10 sdiv_10 abs_if nat_div_distrib)

lemma remainder10_digit: "0 \<le> sint v \<Longrightarrow> ucast (remainder10 v) = (of_nat (nat (sint v) mod 10) :: u8)"
proof -
  assume v: "0 \<le> sint v"
  define m where "m = nat (sint v) mod 10"
  have "sint v smod 10 = sint v mod 10" using v by (cases "sint v = 0") (simp_all add: signed_modulo_int_def)
  also have "\<dots> = int m" using v by (simp add: m_def zmod_int)
  finally have "remainder10 v = of_nat m" by (simp add: remainder10_def)
  moreover have "m < 10" by (simp add: m_def)
  then have "m \<in> {0, 1, 2, 3, 4, 5, 6, 7, 8, 9}" by auto
  then have "ucast (of_nat m :: u32) = (of_nat m :: u8)" by auto
  ultimately show ?thesis by (simp add: m_def)
qed

lemma num_loop_digits:
  "i + length (digits_from_last 10 (nat (sint v))) \<le> length (print_buffer s) \<Longrightarrow> 0 \<le> sint v \<Longrightarrow>
   num_loop i v s = Some (i + length (digits_from_last 10 (nat (sint v))), filled s i (map char_of_digit (digits_from_last 10 (nat (sint v)))))"
proof (induction i v s rule: num_loop.induct)
  case (1 i v s)
  show ?case
  proof (cases "v = 0")
    case True
    then show ?thesis by (subst num_loop.simps) (simp add: filled_Nil)
  next
    case False
    let ?n = "nat (sint v)"
    have n: "0 < ?n" using False 1(3) by (metis signed_0 signed_word_eqI order_le_less zero_less_nat_eq)
    have d: "digits_from_last 10 ?n = ?n mod 10 # digits_from_last 10 (?n div 10)" using n by (intro digits_step) simp_all
    have q: "0 \<le> sint (quotient10 v)" "nat (sint (quotient10 v)) = ?n div 10"
      using 1(3) quotient10_abs [of v] by (auto simp: sint_quotient10 sdiv_10)
    have i: "i < length (print_buffer s)" using 1(2) d by simp
    then have p: "put_digit i (ucast (remainder10 v) + 48) s = Some (filled s i [char_of_digit (?n mod 10)])"
      using 1(3) by (simp add: put_digit_filled remainder10_digit)
    have "num_loop (i + 1) (quotient10 v) (filled s i [char_of_digit (?n mod 10)]) =
      Some (i + 1 + length (digits_from_last 10 (?n div 10)), filled (filled s i [char_of_digit (?n mod 10)]) (i + 1) (map char_of_digit (digits_from_last 10 (?n div 10))))"
      using 1(1) [OF False p] 1(2) d q i by (simp add: filled_buffer)
    then show ?thesis using False p d i by (subst num_loop.simps) (simp add: filled_filled)
  qed
qed

lemma num_loop_overruns:
  "length (print_buffer s) < i + length (digits_from_last 10 (nat \<bar>sint v\<bar>)) \<Longrightarrow> i \<le> length (print_buffer s) \<Longrightarrow> num_loop i v s = None"
proof (induction i v s rule: num_loop.induct)
  case (1 i v s)
  let ?n = "nat \<bar>sint v\<bar>"
  have nz: "v \<noteq> 0" using 1(2,3) by auto
  then have "0 < ?n" by (metis signed_0 signed_word_eqI zero_less_abs_iff zero_less_nat_eq)
  then have d: "digits_from_last 10 ?n = ?n mod 10 # digits_from_last 10 (?n div 10)" by (intro digits_step) simp_all
  show ?case
  proof (cases "i < length (print_buffer s)")
    case False
    then show ?thesis using nz by (subst num_loop.simps) (simp add: put_digit_filled)
  next
    case True
    note p = put_digit_filled(1) [OF True, of "ucast (remainder10 v) + 48"]
    have "num_loop (i + 1) (quotient10 v) (filled s i [ucast (remainder10 v) + 48]) = None"
      using 1(1) [OF nz p] 1(2) d True by (simp add: quotient10_abs filled_buffer)
    then show ?thesis using nz p by (subst num_loop.simps) simp
  qed
qed

section \<open>Hexadecimal digits\<close>

abbreviation hex_digit :: "u8 \<Rightarrow> u8" where "hex_digit d \<equiv> if d < 10 then d + 48 else d - 10 + 65"

lemma low_digit: "unat (ucast (v AND 0xF :: u32) :: u8) = unat v mod 16"
proof -
  have "unat (v AND mask 4) = unat v mod 2 ^ 4" by (rule unat_mod_word)
  moreover have "(mask 4 :: u32) = 0xF" by (simp add: mask_eq_exp_minus_1)
  ultimately have e: "unat (v AND 0xF) = unat v mod 16" by simp
  have "unat (ucast (v AND 0xF :: u32) :: u8) = unat (v AND 0xF) mod 256" by (simp add: unsigned_ucast_eq take_bit_eq_mod)
  then show ?thesis unfolding e by simp
qed

lemma hex_loop_digits:
  "i + k \<le> length (print_buffer s) \<Longrightarrow>
   \<exists>ds. hex_loop [i..<i + k] v s = Some (filled s i (map hex_digit ds)) \<and> length ds = k \<and> (\<forall>d\<in>set ds. d < 16) \<and> meaning 16 (rev (map unat ds)) = unat v mod 16 ^ k"
proof (induction k arbitrary: i v s)
  case 0
  then show ?case by (simp add: filled_Nil)
next
  case (Suc k)
  let ?d = "ucast (v AND 0xF) :: u8" and ?s1 = "filled s i [hex_digit (ucast (v AND 0xF))]"
  have i: "i < length (print_buffer s)" using Suc.prems by simp
  have "Suc i + k \<le> length (print_buffer ?s1)" using Suc.prems by (simp add: filled_buffer)
  from Suc.IH [OF this, of "drop_bit 4 v"] obtain ds where ds:
    "hex_loop [Suc i..<Suc i + k] (drop_bit 4 v) ?s1 = Some (filled ?s1 (Suc i) (map hex_digit ds))" "length ds = k" "\<forall>d\<in>set ds. d < 16"
    "meaning 16 (rev (map unat ds)) = unat v div 16 mod 16 ^ k" by (auto simp: unat_drop_bit_u32)
  have l: "[i..<i + Suc k] = i # [Suc i..<Suc i + k]" by (simp add: upt_conv_Cons)
  have "hex_loop [i..<i + Suc k] v s = Some (filled s i (map hex_digit (?d # ds)))"
    using ds(1) i unfolding l by (simp add: put_digit_filled filled_filled)
  moreover have "?d < 16" by (simp add: word_less_nat_alt low_digit)
  moreover have "meaning 16 (rev (map unat (?d # ds))) = unat v mod 16 ^ Suc k"
    using ds(4) by (simp add: low_digit mod_mult2_eq mult.commute)
  ultimately show ?case using ds(2,3) by (intro exI [of _ "?d # ds"]) auto
qed

lemma hex_loop_overruns: "i \<le> length (print_buffer s) \<Longrightarrow> length (print_buffer s) < i + k \<Longrightarrow> hex_loop [i..<i + k] v s = None"
proof (induction k arbitrary: i v s)
  case (Suc k)
  have l: "[i..<i + Suc k] = i # [Suc i..<Suc i + k]" by (simp add: upt_conv_Cons)
  show ?case
  proof (cases "i < length (print_buffer s)")
    case True
    then have "hex_loop [Suc i..<Suc i + k] (drop_bit 4 v) (filled s i [c]) = None" for c using Suc.prems by (intro Suc.IH) (simp_all add: filled_buffer)
    with True show ?thesis unfolding l by (simp add: put_digit_filled)
  next
    case False
    then show ?thesis unfolding l by (simp add: put_digit_filled)
  qed
qed simp

section \<open>What a printer promises\<close>

text \<open>
  The function passed sends \<open>sends c\<close> for the character \<open>c\<close>, where \<open>out\<close> is what has been sent so far, leaves the buffer of the digits alone, and can
  be called again.
\<close>

locale printer =
  fixes p :: "'e \<Rightarrow> u8 \<Rightarrow> 'z print_board_scheme \<Rightarrow> 'z print_board_scheme option"
    and ready :: "'z print_board_scheme \<Rightarrow> bool"
    and out :: "'z print_board_scheme \<Rightarrow> 'o list" and sends :: "u8 \<Rightarrow> 'o list"
  assumes sends_one: "ready s \<Longrightarrow> \<exists>s'. p env c s = Some s' \<and> ready s' \<and> print_buffer s' = print_buffer s \<and> out s' = out s @ sends c"
    and same_buffer: "ready (s\<lparr>print_buffer := b\<rparr>) = ready s" "out (s\<lparr>print_buffer := b\<rparr>) = out s"
begin

lemma print_digits_sends:
  "n \<le> length (print_buffer s) \<Longrightarrow> ready s \<Longrightarrow>
   \<exists>s'. print_digits p env n s = Some s' \<and> ready s' \<and> print_buffer s' = print_buffer s \<and>
     out s' = out s @ concat (map sends (rev (take n (print_buffer s))))"
proof (induction n arbitrary: s)
  case (Suc n)
  obtain s1 where s1: "p env (print_buffer s ! n) s = Some s1" "ready s1" "print_buffer s1 = print_buffer s"
    "out s1 = out s @ sends (print_buffer s ! n)" using sends_one [OF Suc.prems(2)] by blast
  have "n \<le> length (print_buffer s1)" using Suc.prems(1) s1(3) by simp
  from Suc.IH [OF this s1(2)] show ?case using Suc.prems(1) s1 by (auto simp: take_Suc_conv_app_nth)
qed simp

lemma print_sends:
  "is_cstr str i cs \<Longrightarrow> ready s \<Longrightarrow>
   \<exists>s'. print p env str i s = Some s' \<and> ready s' \<and> print_buffer s' = print_buffer s \<and> out s' = out s @ concat (map sends cs)"
proof (induction cs arbitrary: i s)
  case Nil
  then show ?case by (subst print.simps) (simp add: is_cstr_Nil)
next
  case (Cons c cs)
  obtain s1 where s1: "p env c s = Some s1" "ready s1" "print_buffer s1 = print_buffer s" "out s1 = out s @ sends c"
    using sends_one [OF Cons.prems(2)] by blast
  have "is_cstr str (i + 1) cs" using Cons.prems(1) by (simp add: is_cstr_Cons)
  from Cons.IH [OF this s1(2)] show ?case using Cons.prems(1) s1 by (subst print.simps) (auto simp: is_cstr_Cons)
qed

text \<open>The digits put into the buffer from index 0 on come out in reverse order.\<close>

lemma print_filled:
  assumes "length cs \<le> length (print_buffer s)" "ready s"
  shows "\<exists>s'. print_digits p env (length cs) (filled s 0 cs) = Some s' \<and> ready s' \<and>
    length (print_buffer s') = length (print_buffer s) \<and> out s' = out s @ concat (map sends (rev cs))"
proof -
  have "ready (filled s 0 cs)" using assms(2) by (simp add: filled_def same_buffer)
  moreover have "length (print_buffer (filled s 0 cs)) = length (print_buffer s)" "take (length cs) (print_buffer (filled s 0 cs)) = cs"
    using filled_buffer [of 0 cs s] assms(1) by simp_all
  moreover have "out (filled s 0 cs) = out s" by (simp add: filled_def same_buffer)
  ultimately show ?thesis using print_digits_sends [of "length cs" "filled s 0 cs" env] assms(1) by auto
qed

lemma printHex_sends:
  assumes "ready s" "unat digits \<le> length (print_buffer s)"
  shows "\<exists>s' ds. printHex p env v digits s = Some s' \<and> ready s' \<and> length (print_buffer s') = length (print_buffer s) \<and>
    out s' = out s @ concat (map (sends \<circ> hex_digit) ds) \<and>
    length ds = unat digits \<and> (\<forall>d\<in>set ds. d < 16) \<and> meaning 16 (map unat ds) = unat v mod 16 ^ unat digits"
proof -
  obtain ds where ds: "hex_loop [0..<unat digits] v s = Some (filled s 0 (map hex_digit ds))" "length ds = unat digits"
    "\<forall>d\<in>set ds. d < 16" "meaning 16 (rev (map unat ds)) = unat v mod 16 ^ unat digits"
    using hex_loop_digits [of 0 "unat digits" s v] assms(2) by auto
  obtain s' where s': "print_digits p env (unat digits) (filled s 0 (map hex_digit ds)) = Some s'" "ready s'"
    "length (print_buffer s') = length (print_buffer s)" "out s' = out s @ concat (map sends (rev (map hex_digit ds)))"
    using print_filled [of "map hex_digit ds" s env] ds(2) assms by auto
  have "map (sends \<circ> hex_digit) (rev ds) = map sends (rev (map hex_digit ds))" by (simp add: rev_map)
  then have "out s' = out s @ concat (map (sends \<circ> hex_digit) (rev ds))" using s'(4) by (simp only:)
  moreover have "printHex p env v digits s = Some s'" using ds(1) s'(1) by (simp add: printHex_def)
  moreover have "meaning 16 (map unat (rev ds)) = unat v mod 16 ^ unat digits" using ds(4) by (simp only: rev_map)
  ultimately show ?thesis using s'(2,3) ds(2,3) by (intro exI [of _ s'] exI [of _ "rev ds"]) (simp only: set_rev length_rev)
qed

lemma printNum_sends:
  assumes "ready s" "nat \<bar>sint v\<bar> < 10 ^ 8" "length (print_buffer s) = 8"
  shows "\<exists>s' ds. printNum p env v s = Some s' \<and> ready s' \<and> length (print_buffer s') = length (print_buffer s) \<and>
    out s' = out s @ concat (map sends ((if v <s 0 then [45] else []) @ map char_of_digit ds)) \<and>
    (\<forall>d\<in>set ds. d < 10) \<and> meaning 10 ds = nat \<bar>sint v\<bar> \<and> ds \<noteq> [] \<and> (v \<noteq> 0 \<longrightarrow> hd ds \<noteq> 0)"
proof (cases "v = 0")
  case True
  obtain s' where "p env 48 s = Some s'" "ready s'" "print_buffer s' = print_buffer s" "out s' = out s @ sends 48"
    using sends_one [OF assms(1)] by blast
  with True show ?thesis by (intro exI [of _ s'] exI [of _ "[0]"]) (simp add: printNum_def meaning_def)
next
  case False
  let ?w = "if v <s 0 then - v else v" and ?n = "nat \<bar>sint v\<bar>"
  have n: "0 < ?n" using False by (metis signed_0 signed_word_eqI zero_less_abs_iff zero_less_nat_eq)
  have w: "sint ?w = int ?n"
  proof (cases "v <s 0")
    case True
    then have "sint v < 0" by (simp add: word_sless_alt)
    moreover have "sint (- v) = - sint v" using assms(2) by (simp add: sint_word_ariths signed_take_bit_int_eq_self)
    ultimately show ?thesis using True by simp
  qed (simp add: word_sless_alt)
  let ?ds = "digits_from_last 10 ?n"
  have len: "length ?ds \<le> length (print_buffer s)" using assms(2,3) by (simp add: length_digits)
  have loop: "num_loop 0 ?w s = Some (length ?ds, filled s 0 (map char_of_digit ?ds))"
    using num_loop_digits [of 0 ?w s] len w by simp
  obtain t where t: "(if v <s 0 then p env 45 (filled s 0 (map char_of_digit ?ds)) else Some (filled s 0 (map char_of_digit ?ds))) = Some t"
    "ready t" "print_buffer t = print_buffer (filled s 0 (map char_of_digit ?ds))"
    "out t = out s @ concat (map sends (if v <s 0 then [45] else []))"
  proof -
    have r: "ready (filled s 0 (map char_of_digit ?ds))" using assms(1) by (simp add: filled_def same_buffer)
    have b: "out (filled s 0 (map char_of_digit ?ds)) = out s" by (simp add: filled_def same_buffer)
    show ?thesis
    proof (cases "v <s 0")
      case True
      with sends_one [OF r, of env 45] b show ?thesis by (auto intro: that)
    qed (use r b that in simp)
  qed
  have "take (length ?ds) (print_buffer t) = map char_of_digit ?ds" "length (print_buffer t) = length (print_buffer s)"
    using filled_buffer [of 0 "map char_of_digit ?ds" s] len t(3) by simp_all
  then obtain s' where s': "print_digits p env (length ?ds) t = Some s'" "ready s'" "print_buffer s' = print_buffer t"
    "out s' = out t @ concat (map sends (rev (map char_of_digit ?ds)))"
    using print_digits_sends [of "length ?ds" t env] t(2) len by auto
  have "printNum p env v s = Some s'" using False loop t(1) s'(1) by (simp add: printNum_def split: if_splits)
  then show ?thesis using s' t(3,4) \<open>length (print_buffer t) = length (print_buffer s)\<close> n digits_not_Nil [OF n, of 10] meaning_digits [of 10 ?n]
    by (intro exI [of _ s'] exI [of _ "rev ?ds"]) (auto simp: rev_map hd_rev digits_below)
qed

end

section \<open>Printing on the serial line\<close>

interpretation uart: printer uart0SendByte "\<lambda>s. responsive s U0LSR 0x20" "\<lambda>s. writes (bus s)" uart_bytes
proof
  fix s :: "'z print_board_scheme" and env :: 'e and c
  assume "responsive s U0LSR 0x20"
  then obtain h where "uart0SendByte env c s = Some (s\<lparr>bus := bus s @ h\<rparr>)" "writes h = uart_bytes c" by (rule uart0SendByte_sends)
  with \<open>responsive s U0LSR 0x20\<close> show "\<exists>s'. uart0SendByte env c s = Some s' \<and> responsive s' U0LSR 0x20 \<and>
    print_buffer s' = print_buffer s \<and> writes (bus s') = writes (bus s) @ uart_bytes c" by simp
qed (simp_all add: responsive_def)

text \<open>
  C27: \<open>printNum\<close> on the serial line prints a number in decimal.  With a transmitter that gets ready and the buffer of
  8 bytes: a number of at most 8 digits comes out as its digits, most significant first and without leading zeros, after a minus sign if it is
  negative, and nothing else is written; a longer number runs over the buffer.
\<close>
theorem printNum_decimal:
  assumes "responsive s U0LSR 0x20" "length (print_buffer s) = 8"
  shows "if nat \<bar>sint v\<bar> < 100000000
    then \<exists>s' ds. printNum uart0SendByte env v s = Some s' \<and>
      writes (bus s') = writes (bus s) @ concat (map uart_bytes ((if v <s 0 then [45] else []) @ map (\<lambda>d. of_nat d + 48) ds)) \<and>
      (\<forall>d\<in>set ds. d < 10) \<and> meaning 10 ds = nat \<bar>sint v\<bar> \<and> ds \<noteq> [] \<and> (v \<noteq> 0 \<longrightarrow> hd ds \<noteq> 0)
    else printNum uart0SendByte env v s = None"
proof (cases "nat \<bar>sint v\<bar> < 100000000")
  case True
  with uart.printNum_sends [OF assms(1) _ assms(2), of v env] show ?thesis by (simp only: if_True) fastforce
next
  case False
  then have v: "v \<noteq> 0" by auto
  have w: "nat \<bar>sint (if v <s 0 then - v else v)\<bar> = nat \<bar>sint v\<bar>"
  proof (cases "v = 0x80000000")
    case False
    moreover have "sint (0x80000000 :: u32) = - (2 ^ 31)" by simp
    ultimately have "sint v \<noteq> - (2 ^ 31)" by (metis signed_word_eqI)
    moreover have "- (2 ^ 31) \<le> sint v" "sint v < 2 ^ 31" using sint_ge [of v] sint_lt [of v] by simp_all
    ultimately have "sint (- v) = - sint v" by (simp add: sint_word_ariths signed_take_bit_int_eq_self)
    then show ?thesis by simp
  qed simp
  have "\<not> length (digits_from_last 10 (nat \<bar>sint v\<bar>)) \<le> 8" using False by (simp add: length_digits)
  then have "num_loop 0 (if v <s 0 then - v else v) s = None" using assms(2) w by (intro num_loop_overruns) simp_all
  with False v show ?thesis by (simp add: printNum_def)
qed

text \<open>
  \<open>printHex\<close> on the serial line prints the low digits of a number in base 16: as many as asked for, up to 8, leading
  zeros included, most significant first, 0 to 9 and A to F; more than 8 run over the buffer.
\<close>
theorem printHex_digits:
  assumes "responsive s U0LSR 0x20" "length (print_buffer s) = 8"
  shows "if digits \<le> 8
    then \<exists>s' ds. printHex uart0SendByte env v digits s = Some s' \<and>
      writes (bus s') = writes (bus s) @ concat (map (\<lambda>d. uart_bytes (if d < 10 then d + 48 else d - 10 + 65)) ds) \<and>
      length ds = unat digits \<and> (\<forall>d\<in>set ds. d < 16) \<and> meaning 16 (map unat ds) = unat v mod 16 ^ unat digits
    else printHex uart0SendByte env v digits s = None"
proof (cases "digits \<le> 8")
  case True
  then have "unat digits \<le> length (print_buffer s)" using assms(2) by (simp add: word_le_nat_alt)
  from uart.printHex_sends [OF assms(1) this, of env v] True show ?thesis by (auto simp: comp_def)
next
  case False
  then have "hex_loop [0..<0 + unat digits] v s = None" using assms(2) by (intro hex_loop_overruns) (simp_all add: word_le_nat_alt)
  with False show ?thesis by (simp add: printHex_def)
qed

definition bare_print :: print_board where
  "bare_print = \<lparr>device = device bare_board, bus = [], iters_per_msec = 1, dummy = 0, print_buffer = replicate 8 0\<rparr>"

lemma bare_print_ready: "responsive bare_print U0LSR 0x20" "length (print_buffer bare_print) = 8" "bus bare_print = []"
  using bare_board_responsive(2) by (simp_all add: bare_print_def responsive_def)

lemma printNum_decimal_witness:
  "(\<exists>s' ds. printNum uart0SendByte () (-305) bare_print = Some s' \<and>
      writes (bus s') = concat (map uart_bytes ([45] @ map (\<lambda>d. of_nat d + 48) ds)) \<and> meaning 10 ds = 305) \<and>
   printNum uart0SendByte () 123456789 bare_print = None"
proof -
  have "sint (-305 :: u32) = -305" "sint (123456789 :: u32) = 123456789" "(-305 :: u32) <s 0" by code_simp+
  then show ?thesis
    using printNum_decimal [OF bare_print_ready(1,2), where v = "-305" and env = "()"] printNum_decimal [OF bare_print_ready(1,2), where v = 123456789 and env = "()"] bare_print_ready(3)
    by auto
qed

lemma printHex_digits_witness:
  "(\<exists>s' ds. printHex uart0SendByte () 0xBEEF 4 bare_print = Some s' \<and> length ds = 4 \<and> meaning 16 (map unat (ds :: u8 list)) = 0xBEEF) \<and>
   printHex uart0SendByte () 0xBEEF 9 bare_print = None"
  using printHex_digits [OF bare_print_ready(1,2), where digits = 4 and env = "()" and v = "0xBEEF"] printHex_digits [OF bare_print_ready(1,2), where digits = 9 and env = "()" and v = "0xBEEF"]
  by auto

end
