(* ===== verification/Lcd.thy ===== *)
theory Lcd
  imports Print
begin

text \<open>
  The character display of the board, \<^verbatim>\<open>ARM/peripherals/lcd.c\<close>: four data pins, a strobe and a pin that tells commands from
  characters, on port 1.  \<open>port_run\<close> is what the accesses to the port mean to the display, from its power-on in the mode of
  8 data pins to the mode of 4 that the driver sets; \<open>received\<close> are the commands and characters it has got.  How long the
  display takes for each is not part of it.
\<close>

unbundle bit_operations_syntax

section \<open>The functions\<close>

definition LCD_DATA :: u32 where "LCD_DATA = 0x10000 OR 0x20000 OR 0x40000 OR 0x80000"
definition LCD_EN :: u32 where "LCD_EN = 0x100000"
definition LCD_RS :: u32 where "LCD_RS = 0x200000"

definition lcd_rs_set :: "'z board_scheme \<Rightarrow> 'z board_scheme" where "lcd_rs_set = or_reg IOSET1 LCD_RS"
definition lcd_rs_clr :: "'z board_scheme \<Rightarrow> 'z board_scheme" where "lcd_rs_clr = or_reg IOCLR1 LCD_RS"
definition lcd_en_set :: "'z board_scheme \<Rightarrow> 'z board_scheme" where "lcd_en_set = or_reg IOSET1 LCD_EN"
definition lcd_en_clr :: "'z board_scheme \<Rightarrow> 'z board_scheme" where "lcd_en_clr = or_reg IOCLR1 LCD_EN"

definition lcd_write_byte :: "u8 \<Rightarrow> 'z board_scheme \<Rightarrow> 'z board_scheme" where
  "lcd_write_byte val = fold id [
     or_reg IOCLR1 LCD_DATA,
     or_reg IOSET1 (push_bit 16 (ucast (drop_bit 4 val AND 0xF))),
     lcd_en_set, lcd_en_clr, busywait_loop 500,
     or_reg IOCLR1 LCD_DATA,
     or_reg IOSET1 (push_bit 16 (ucast (val AND 0xF))),
     lcd_en_set, lcd_en_clr, busywait_loop 500]"

definition lcdSendCommand :: "u8 \<Rightarrow> 'z board_scheme \<Rightarrow> 'z board_scheme" where
  "lcdSendCommand val = fold id [lcd_rs_clr, lcd_write_byte val, busywait_loop 2048]"

definition lcdInit :: "'z board_scheme \<Rightarrow> 'z board_scheme" where
  "lcdInit = fold id [
     or_reg IODIR1 0x003F0000,
     lcd_rs_clr, lcd_en_clr, busywait_loop 2000,
     lcdSendCommand 0x33, lcdSendCommand 0x32, lcdSendCommand 0x28, lcdSendCommand 0x0C, lcdSendCommand 0x06, lcdSendCommand 0x01]"

definition xxxlcdGotoCursor :: "u8 \<Rightarrow> 'z board_scheme \<Rightarrow> 'z board_scheme" where
  "xxxlcdGotoCursor i = lcdSendCommand (i OR 0x80)"

definition lcdSendByte :: "'e \<Rightarrow> u8 \<Rightarrow> 'z board_scheme \<Rightarrow> 'z board_scheme option" where
  "lcdSendByte env c s = Some (lcd_write_byte c (lcd_rs_set s))"

section \<open>What the display takes\<close>

text \<open>
  The state of the display: whether it takes 8 bits at a time, the first half of a byte in the mode of 4 bits, and the
  bytes so far, \<open>True\<close> marking characters.  In the mode of 8 bits the pins carry the high half of a byte, the pins of the low half are
  not connected.  A command that sets the function, 001 in its highest bits, chooses the mode by bit 4.
\<close>

record lcd_chip =
  wide :: bool
  half :: "u8 option"
  got :: "(bool \<times> u8) list"

definition power_on :: lcd_chip where "power_on = \<lparr>wide = True, half = None, got = []\<rparr>"

definition take_byte :: "bool \<Rightarrow> u8 \<Rightarrow> lcd_chip \<Rightarrow> lcd_chip" where
  "take_byte r b c = \<lparr>wide = (if \<not> r \<and> b AND 0xE0 = 0x20 then bit b 4 else wide c), half = None, got = got c @ [(r, b)]\<rparr>"

definition take_nibble :: "bool \<Rightarrow> u8 \<Rightarrow> lcd_chip \<Rightarrow> lcd_chip" where
  "take_nibble r n c =
     (if wide c then take_byte r (push_bit 4 n) c
      else case half c of None \<Rightarrow> c\<lparr>half := Some n\<rparr> | Some h \<Rightarrow> take_byte r (push_bit 4 h OR n) c)"

text \<open>
  A write to \<open>IOSET1\<close> sets bits of the output latch of the port, one to \<open>IOCLR1\<close> clears them, and \<open>IODIR1\<close> holds which pins are
  outputs.  When the six pins of the display are, it takes the four data pins, with the pin that marks a character, as the strobe falls.
\<close>

definition driven :: "u32 \<Rightarrow> bool" where "driven d = (d AND 0x003F0000 = 0x003F0000)"

definition port_step :: "u32 \<times> u32 \<times> lcd_chip \<Rightarrow> access \<Rightarrow> u32 \<times> u32 \<times> lcd_chip" where
  "port_step = (\<lambda>(l, d, c) e. case e of
       Write r v \<Rightarrow> if r = IOSET1 then (l OR v, d, c)
         else if r = IOCLR1
         then (l AND NOT v, d, if bit l 20 \<and> bit v 20 \<and> driven d then take_nibble (bit l 21) (ucast (drop_bit 16 l AND 0xF)) c else c)
         else if r = IODIR1 then (l, v, c)
         else (l, d, c)
     | _ \<Rightarrow> (l, d, c))"

definition port_run :: "access list \<Rightarrow> u32 \<times> u32 \<times> lcd_chip" where "port_run = foldl port_step (0, 0, power_on)"
definition port_latch :: "access list \<Rightarrow> u32" where "port_latch h = fst (port_run h)"
definition port_dir :: "access list \<Rightarrow> u32" where "port_dir h = fst (snd (port_run h))"
definition lcd_state :: "'z board_scheme \<Rightarrow> lcd_chip" where "lcd_state s = snd (snd (port_run (bus s)))"
definition received :: "'z board_scheme \<Rightarrow> (bool \<times> u8) list" where "received s = got (lcd_state s)"

text \<open>The manual of the processor: \<open>IOSET1\<close> reads as the latch, \<open>IODIR1\<close> as written, and \<open>IOCLR1\<close>, which is only written, as 0 here.\<close>

definition port_reads :: "'z board_scheme \<Rightarrow> bool" where
  "port_reads s = (\<forall>h. device s IOSET1 h = port_latch h \<and> device s IODIR1 h = port_dir h \<and> device s IOCLR1 h = 0)"

text \<open>A display that has been initialised: its pins are outputs, and it is in the mode of 4 bits between two bytes.\<close>

definition lcd_ready :: "'z board_scheme \<Rightarrow> bool" where
  "lcd_ready s = (port_reads s \<and> driven (port_dir (bus s)) \<and> \<not> wide (lcd_state s) \<and> half (lcd_state s) = None)"

section \<open>One nibble\<close>

lemma port_run_snoc [simp]: "port_run [] = (0, 0, power_on)" "port_run (h @ [e]) = port_step (port_run h) e"
  "port_run (h @ [e, e']) = port_step (port_step (port_run h) e) e'"
  by (simp_all add: port_run_def)

lemma port_step_simps [simp]:
  "port_step (l, d, c) (Write IOSET1 v) = (l OR v, d, c)"
  "port_step (l, d, c) (Write IOCLR1 v) =
     (l AND NOT v, d, if bit l 20 \<and> bit v 20 \<and> driven d then take_nibble (bit l 21) (ucast (drop_bit 16 l AND 0xF)) c else c)"
  "port_step (l, d, c) (Write IODIR1 v) = (l, v, c)"
  "port_step x (Read r v) = x" "port_step x (Delay n) = x"
  by (simp_all add: port_step_def split: prod.split)

lemma port_reads_same [simp]: "port_reads (or_reg r v s) = port_reads s" "port_reads (busywait_loop n s) = port_reads s" "port_reads (s\<lparr>bus := h\<rparr>) = port_reads s"
  by (simp_all add: port_reads_def or_reg_def rd_def wr_def busywait_loop_def Let_def)

lemma port_or_reg:
  assumes "port_reads s" "port_run (bus s) = (l, d, c)"
  shows "port_run (bus (or_reg IOSET1 v s)) = (l OR v, d, c)"
    "port_run (bus (or_reg IOCLR1 v s)) =
       (l AND NOT v, d, if bit l 20 \<and> bit v 20 \<and> driven d then take_nibble (bit l 21) (ucast (drop_bit 16 l AND 0xF)) c else c)"
    "port_run (bus (or_reg IODIR1 v s)) = (l, d OR v, c)"
    "port_run (bus (busywait_loop n s)) = (l, d, c)"
  using assms by (simp_all add: or_reg_def rd_def wr_def busywait_loop_def Let_def port_reads_def port_latch_def port_dir_def flip: or.assoc)

lemmas pin_masks = LCD_DATA_def LCD_EN_def LCD_RS_def

lemma lcd_masks: "LCD_DATA = push_bit 16 (mask 4)" "LCD_EN = push_bit 20 1" "LCD_RS = push_bit 21 1" "(0xF :: u32) = mask 4"
  unfolding pin_masks by (simp_all add: mask_eq_exp_minus_1 push_bit_eq_mult)

lemma bit_masks: "bit LCD_DATA i = (16 \<le> i \<and> i < 20)" "bit LCD_EN i = (i = 20)" "bit LCD_RS i = (i = 21)"
  unfolding lcd_masks by (auto simp: bit_push_bit_iff bit_mask_iff bit_1_iff simp del: push_bit_of_1)

text \<open>One half of \<open>lcd_write_byte\<close>: the nibble on the pins, and a pulse of the strobe.\<close>

lemma one_nibble:
  assumes "port_reads s" "port_run (bus s) = (l, d, c)" "driven d" "\<forall>i. bit n i \<longrightarrow> i < 4"
  defines "t \<equiv> lcd_en_clr (lcd_en_set (or_reg IOSET1 (push_bit 16 (ucast (n :: u8))) (or_reg IOCLR1 LCD_DATA s)))"
  obtains l' where "port_run (bus t) = (l', d, take_nibble (bit l 21) n c)" "bit l' 21 = bit l 21" "port_reads t"
proof -
  let ?l1 = "l AND NOT LCD_DATA" and ?v = "push_bit 16 (ucast n) :: u32"
  let ?l2 = "(?l1 OR ?v) OR LCD_EN"
  have a: "port_run (bus (or_reg IOCLR1 LCD_DATA s)) = (?l1, d, c)"
    using port_or_reg(2) [OF assms(1,2), of LCD_DATA] by (simp add: bit_masks)
  have b: "port_run (bus (or_reg IOSET1 ?v (or_reg IOCLR1 LCD_DATA s))) = (?l1 OR ?v, d, c)"
    by (rule port_or_reg(1) [OF _ a]) (simp add: assms(1))
  have e: "port_run (bus (lcd_en_set (or_reg IOSET1 ?v (or_reg IOCLR1 LCD_DATA s)))) = (?l2, d, c)"
    unfolding lcd_en_set_def by (rule port_or_reg(1) [OF _ b]) (simp add: assms(1))
  have f: "port_run (bus t) = (?l2 AND NOT LCD_EN, d,
      if bit ?l2 20 \<and> bit LCD_EN 20 \<and> driven d then take_nibble (bit ?l2 21) (ucast (drop_bit 16 ?l2 AND 0xF)) c else c)"
    unfolding t_def lcd_en_clr_def by (rule port_or_reg(2) [OF _ e]) (simp add: assms(1) lcd_en_set_def)
  have "bit ?l2 20" by (simp add: bit_or_iff bit_masks)
  moreover have r: "bit ?l2 21 = bit l 21" using assms(4) by (auto simp: bit_or_iff bit_and_iff bit_not_iff bit_masks bit_push_bit_iff bit_ucast_iff)
  moreover have "ucast (drop_bit 16 ?l2 AND 0xF) = n"
  proof (rule bit_word_eqI)
    fix i assume "i < LENGTH(8)"
    then show "bit (ucast (drop_bit 16 ?l2 AND 0xF) :: u8) i = bit n i" using assms(4)
      by (auto simp: lcd_masks(4) bit_ucast_iff bit_and_iff bit_or_iff bit_not_iff bit_drop_bit_eq bit_mask_iff bit_masks bit_push_bit_iff)
  qed
  ultimately have "port_run (bus t) = (?l2 AND NOT LCD_EN, d, take_nibble (bit l 21) n c)" using f assms(3) by (simp add: bit_masks)
  moreover have "bit (?l2 AND NOT LCD_EN) 21 = bit l 21" using r by (simp add: bit_and_iff bit_not_iff bit_masks)
  moreover have "port_reads t" using assms(1) by (simp add: t_def lcd_en_clr_def lcd_en_set_def)
  ultimately show ?thesis by (rule that)
qed

section \<open>Bytes\<close>

lemma low_nibble: "(0xF :: u8) = mask 4"
  by (simp add: mask_eq_exp_minus_1)

lemma nibble_small: "bit (x AND 0xF :: u8) i \<Longrightarrow> i < 4"
  by (simp add: low_nibble bit_and_iff bit_mask_iff)

definition two_nibbles :: "bool \<Rightarrow> u8 \<Rightarrow> lcd_chip \<Rightarrow> lcd_chip" where
  "two_nibbles r b c = take_nibble r (b AND 0xF) (take_nibble r (drop_bit 4 b AND 0xF) c)"

text \<open>In the mode of 4 bits, between bytes, two nibbles are the byte, the high one first.\<close>

lemma two_nibbles_byte: "\<not> wide c \<Longrightarrow> half c = None \<Longrightarrow> two_nibbles r b c = take_byte r b c"
proof -
  have "push_bit 4 (drop_bit 4 b AND 0xF) OR (b AND 0xF) = b"
    by (rule bit_word_eqI) (auto simp: low_nibble bit_or_iff bit_and_iff bit_push_bit_iff bit_drop_bit_eq bit_mask_iff)
  then show "\<not> wide c \<Longrightarrow> half c = None \<Longrightarrow> two_nibbles r b c = take_byte r b c"
    by (simp add: two_nibbles_def take_nibble_def take_byte_def)
qed

lemma lcd_write_byte_sends:
  assumes "port_reads s" "port_run (bus s) = (l, d, c)" "driven d"
  obtains l' where "port_run (bus (lcd_write_byte b s)) = (l', d, two_nibbles (bit l 21) b c)" "bit l' 21 = bit l 21" "port_reads (lcd_write_byte b s)"
proof -
  let ?half = "\<lambda>n s. lcd_en_clr (lcd_en_set (or_reg IOSET1 (push_bit 16 (ucast (n :: u8))) (or_reg IOCLR1 LCD_DATA s)))"
  let ?hi = "drop_bit 4 b AND 0xF" and ?lo = "b AND 0xF"
  let ?s1 = "busywait_loop 500 (?half ?hi s)"
  obtain l1 where l1: "port_run (bus (?half ?hi s)) = (l1, d, take_nibble (bit l 21) ?hi c)" "bit l1 21 = bit l 21" "port_reads (?half ?hi s)"
    using one_nibble [OF assms] nibble_small by metis
  have s1: "port_run (bus ?s1) = (l1, d, take_nibble (bit l 21) ?hi c)" "port_reads ?s1" using port_or_reg(4) [OF l1(3,1)] l1(3) by simp_all
  obtain l2 where l2: "port_run (bus (?half ?lo ?s1)) = (l2, d, take_nibble (bit l1 21) ?lo (take_nibble (bit l 21) ?hi c))" "bit l2 21 = bit l1 21"
    "port_reads (?half ?lo ?s1)" using one_nibble [OF s1(2,1) assms(3)] nibble_small by metis
  have e: "lcd_write_byte b s = busywait_loop 500 (?half ?lo ?s1)" by (simp add: lcd_write_byte_def)
  show ?thesis
    by (rule that [of l2]) (use l1(2) l2 port_or_reg(4) [OF l2(3,1)] in \<open>simp_all add: e two_nibbles_def\<close>)
qed

lemma lcdSendByte_sends:
  assumes "port_reads s" "driven (port_dir (bus s))"
  obtains s' where "lcdSendByte env b s = Some s'" "port_reads s'" "port_dir (bus s') = port_dir (bus s)" "lcd_state s' = two_nibbles True b (lcd_state s)"
proof -
  obtain l d c where l: "port_run (bus s) = (l, d, c)" by (cases "port_run (bus s)") auto
  then have d: "driven d" using assms(2) by (simp add: port_dir_def)
  have r: "port_run (bus (lcd_rs_set s)) = (l OR LCD_RS, d, c)" "port_reads (lcd_rs_set s)" "bit (l OR LCD_RS) 21"
    using port_or_reg(1) [OF assms(1) l] assms(1) by (simp_all add: lcd_rs_set_def bit_or_iff bit_masks)
  obtain l' where "port_run (bus (lcd_write_byte b (lcd_rs_set s))) = (l', d, two_nibbles True b c)" "port_reads (lcd_write_byte b (lcd_rs_set s))"
    using lcd_write_byte_sends [OF r(2,1) d, of b] r(3) by metis
  then show ?thesis using l by (intro that [of "lcd_write_byte b (lcd_rs_set s)"]) (simp_all add: lcdSendByte_def lcd_state_def port_dir_def)
qed

lemma lcdSendCommand_sends:
  assumes "port_reads s" "driven (port_dir (bus s))"
  shows "port_reads (lcdSendCommand b s)" "port_dir (bus (lcdSendCommand b s)) = port_dir (bus s)" "lcd_state (lcdSendCommand b s) = two_nibbles False b (lcd_state s)"
proof -
  obtain l d c where l: "port_run (bus s) = (l, d, c)" by (cases "port_run (bus s)") auto
  then have d: "driven d" using assms(2) by (simp add: port_dir_def)
  have r: "port_run (bus (lcd_rs_clr s)) = (l AND NOT LCD_RS, d, c)" "port_reads (lcd_rs_clr s)" "\<not> bit (l AND NOT LCD_RS) 21"
    using port_or_reg(2) [OF assms(1) l, of LCD_RS] assms(1) by (simp_all add: lcd_rs_clr_def bit_and_iff bit_not_iff bit_masks)
  obtain l' where w: "port_run (bus (lcd_write_byte b (lcd_rs_clr s))) = (l', d, two_nibbles False b c)" "port_reads (lcd_write_byte b (lcd_rs_clr s))"
    using lcd_write_byte_sends [OF r(2,1) d, of b] r(3) by metis
  show "port_reads (lcdSendCommand b s)" "port_dir (bus (lcdSendCommand b s)) = port_dir (bus s)" "lcd_state (lcdSendCommand b s) = two_nibbles False b (lcd_state s)"
    using w l port_or_reg(4) [OF w(2,1)] by (simp_all add: lcdSendCommand_def lcd_state_def port_dir_def)
qed

text \<open>A display in the mode of 4 bits gets a character, or a command that does not set the function, and stays so.\<close>

lemma ready_byte:
  assumes "lcd_ready s"
  shows "\<exists>s'. lcdSendByte env b s = Some s' \<and> lcd_ready s' \<and> received s' = received s @ [(True, b)]"
    "b AND 0xE0 \<noteq> 0x20 \<Longrightarrow> lcd_ready (lcdSendCommand b s) \<and> received (lcdSendCommand b s) = received s @ [(False, b)]"
proof -
  have s: "port_reads s" "driven (port_dir (bus s))" "\<not> wide (lcd_state s)" "half (lcd_state s) = None" using assms by (simp_all add: lcd_ready_def)
  obtain s' where "lcdSendByte env b s = Some s'" "port_reads s'" "port_dir (bus s') = port_dir (bus s)" "lcd_state s' = two_nibbles True b (lcd_state s)"
    by (rule lcdSendByte_sends [OF s(1,2)])
  then show "\<exists>s'. lcdSendByte env b s = Some s' \<and> lcd_ready s' \<and> received s' = received s @ [(True, b)]"
    using s by (simp add: two_nibbles_byte lcd_ready_def received_def take_byte_def)
  show "lcd_ready (lcdSendCommand b s) \<and> received (lcdSendCommand b s) = received s @ [(False, b)]" if "b AND 0xE0 \<noteq> 0x20"
    using s lcdSendCommand_sends [OF s(1,2), of b] that by (simp add: two_nibbles_byte lcd_ready_def received_def take_byte_def)
qed

section \<open>Initialisation\<close>

text \<open>Whatever mode the display is in and however much of a byte it has, the first four nibbles end in the mode of 4 bits.\<close>

lemma start_sequence:
  "\<exists>old. two_nibbles False 0x32 (two_nibbles False 0x33 c) = \<lparr>wide = False, half = None, got = old @ [(False, 0x20)]\<rparr>"
proof -
  have n: "drop_bit 4 (0x32 :: u8) AND 0xF = 3" "(0x32 :: u8) AND 0xF = 2" "drop_bit 4 (0x33 :: u8) AND 0xF = 3" "(0x33 :: u8) AND 0xF = 3"
    "push_bit 4 (3 :: u8) = 0x30" "push_bit 4 (2 :: u8) = 0x20" "(0x30 :: u8) OR 3 = 0x33" "(0x30 :: u8) AND 0xE0 = 0x20" "(0x33 :: u8) AND 0xE0 = 0x20"
    "(0x20 :: u8) AND 0xE0 = 0x20" "bit (0x30 :: u8) 4" "bit (0x33 :: u8) 4" "\<not> bit (0x20 :: u8) 4" by code_simp+
  show ?thesis
  proof (cases "wide c")
    case True
    then show ?thesis by (simp add: two_nibbles_def n take_nibble_def take_byte_def del: push_bit_numeral)
  next
    case False
    then show ?thesis
      by (cases "half c"; cases "(push_bit 4 (the (half c)) OR 3) AND 0xE0 = 0x20 \<and> bit (push_bit 4 (the (half c)) OR 3) 4")
        (auto simp: two_nibbles_def n take_nibble_def take_byte_def)
  qed
qed

lemma lcdInit_ready:
  assumes "port_reads s"
  shows "lcd_ready (lcdInit s) \<and> (\<exists>old. received (lcdInit s) = old @ map (Pair False) [0x20, 0x28, 0x0C, 0x06, 0x01])"
proof -
  let ?s0 = "lcd_rs_clr (or_reg IODIR1 0x003F0000 s)"
  let ?s1 = "busywait_loop 2000 (lcd_en_clr ?s0)"
  obtain l d c where l: "port_run (bus s) = (l, d, c)" by (cases "port_run (bus s)") auto
  have d: "driven (d OR 0x003F0000)" unfolding driven_def by (rule bit_word_eqI) (auto simp: bit_simps)
  have "port_run (bus (or_reg IODIR1 0x003F0000 s)) = (l, d OR 0x003F0000, c)" by (rule port_or_reg(3) [OF assms l])
  then have "port_run (bus ?s0) = (l AND NOT LCD_RS, d OR 0x003F0000, c)" "port_reads ?s0"
    using port_or_reg(2) [of "or_reg IODIR1 0x003F0000 s" l "d OR 0x003F0000" c LCD_RS] assms by (simp_all add: lcd_rs_clr_def bit_masks)
  from port_or_reg(2) [OF this(2,1), of LCD_EN] this(2)
  obtain l1 c1 where "port_run (bus (lcd_en_clr ?s0)) = (l1, d OR 0x003F0000, c1)" "port_reads (lcd_en_clr ?s0)" by (simp add: lcd_en_clr_def)
  from port_or_reg(4) [OF this(2,1), of 2000] this(2) have s1: "port_reads ?s1" "driven (port_dir (bus ?s1))" using d by (simp_all add: port_dir_def)
  let ?s2 = "lcdSendCommand 0x33 ?s1" let ?s3 = "lcdSendCommand 0x32 ?s2" let ?s4 = "lcdSendCommand 0x28 ?s3"
  have s2: "port_reads ?s2" "driven (port_dir (bus ?s2))" using lcdSendCommand_sends [OF s1, of "0x33"] s1 by simp_all
  have s3: "port_reads ?s3" "driven (port_dir (bus ?s3))" using lcdSendCommand_sends [OF s2, of "0x32"] s2 by simp_all
  have s4: "port_reads ?s4" "driven (port_dir (bus ?s4))" "lcd_state ?s4 = two_nibbles False 0x28 (lcd_state ?s3)"
    using lcdSendCommand_sends [OF s3, of "0x28"] s3 by simp_all
  obtain old where "lcd_state ?s3 = \<lparr>wide = False, half = None, got = old @ [(False, 0x20)]\<rparr>"
    using start_sequence [of "lcd_state ?s1"] lcdSendCommand_sends(3) [OF s1, of "0x33"] lcdSendCommand_sends(3) [OF s2, of "0x32"] by auto
  moreover have "(0x28 :: u8) AND 0xE0 = 0x20" "\<not> bit (0x28 :: u8) 4" by code_simp+
  ultimately have r4: "lcd_ready ?s4" "received ?s4 = old @ map (Pair False) [0x20, 0x28]"
    using s4 by (simp_all add: two_nibbles_byte take_byte_def lcd_ready_def received_def)
  have c: "(0x0C :: u8) AND 0xE0 \<noteq> 0x20" "(0x06 :: u8) AND 0xE0 \<noteq> 0x20" "(0x01 :: u8) AND 0xE0 \<noteq> 0x20" by code_simp+
  have "lcdInit s = lcdSendCommand 0x01 (lcdSendCommand 0x06 (lcdSendCommand 0x0C ?s4))" by (simp add: lcdInit_def)
  moreover have r5: "lcd_ready (lcdSendCommand 0x0C ?s4)" "received (lcdSendCommand 0x0C ?s4) = old @ map (Pair False) [0x20, 0x28, 0x0C]"
    using ready_byte(2) [OF r4(1) c(1)] r4(2) by simp_all
  moreover have r6: "lcd_ready (lcdSendCommand 0x06 (lcdSendCommand 0x0C ?s4))"
    "received (lcdSendCommand 0x06 (lcdSendCommand 0x0C ?s4)) = old @ map (Pair False) [0x20, 0x28, 0x0C, 0x06]"
    using ready_byte(2) [OF r5(1) c(2)] r5(2) by simp_all
  ultimately show ?thesis using ready_byte(2) [OF r6(1) c(3)] r6(2) by (intro conjI exI [of _ old]) simp_all
qed

section \<open>Printing on the display\<close>

interpretation lcd: printer lcdSendByte lcd_ready received "\<lambda>c. [(True, c)]"
proof
  fix s :: "'z print_board_scheme" and env :: 'e and c
  assume "lcd_ready s"
  then obtain s' where s': "lcdSendByte env c s = Some s'" "lcd_ready s'" "received s' = received s @ [(True, c)]"
    using ready_byte(1) [of s env c] by auto
  moreover have "print_buffer s' = print_buffer s"
  proof -
    have f: "print_buffer (or_reg r v t) = print_buffer t" "print_buffer (busywait_loop n t) = print_buffer t" for r v n and t :: "'z print_board_scheme"
      by (simp_all add: or_reg_def rd_def wr_def busywait_loop_def Let_def)
    show ?thesis using s'(1) by (auto simp: lcdSendByte_def lcd_write_byte_def lcd_rs_set_def lcd_en_set_def lcd_en_clr_def f)
  qed
  ultimately show "\<exists>s'. lcdSendByte env c s = Some s' \<and> lcd_ready s' \<and> print_buffer s' = print_buffer s \<and> received s' = received s @ [(True, c)]" by blast
qed (simp_all add: lcd_ready_def port_reads_def lcd_state_def received_def)

text \<open>
  C26: A string printed on the display is displayed.  When the registers of port 1 read as the manual says, \<open>lcdInit\<close>
  makes the display ready whatever state it and the pins were in: its pins are outputs, it is in the mode of 4 bits, and the last
  five things it has received are the commands that select this mode, two lines, the display on, moving to the right, and clearing.
  On a display that is ready, sending a command that does not change the mode and printing a C string end, and
  the display receives exactly the command and then the characters of the string in order, marked as such, and is ready again.
\<close>
theorem lcd_shows_string:
  fixes s :: "'z print_board_scheme"
  assumes "port_reads s" "is_cstr str i cs" "cmd AND 0xE0 \<noteq> 0x20"
  shows "lcd_ready (lcdInit s) \<and> (\<exists>old. received (lcdInit s) = old @ map (Pair False) [0x20, 0x28, 0x0C, 0x06, 0x01]) \<and>
    (\<forall>t :: 'z print_board_scheme. lcd_ready t \<longrightarrow> (\<exists>t'. print lcdSendByte env str i (lcdSendCommand cmd t) = Some t' \<and> lcd_ready t' \<and>
       received t' = received t @ (False, cmd) # map (Pair True) cs))"
proof -
  have "\<exists>t'. print lcdSendByte env str i (lcdSendCommand cmd t) = Some t' \<and> lcd_ready t' \<and>
    received t' = received t @ (False, cmd) # map (Pair True) cs" if "lcd_ready t" for t :: "'z print_board_scheme"
  proof -
    have c: "lcd_ready (lcdSendCommand cmd t)" "received (lcdSendCommand cmd t) = received t @ [(False, cmd)]"
      using ready_byte(2) [OF that assms(3)] by blast+
    have "concat (map (\<lambda>c. [(True, c)]) cs) = map (Pair True) cs" by (induction cs) simp_all
    with lcd.print_sends [OF assms(2) c(1), of env] c(2) show ?thesis by auto
  qed
  with lcdInit_ready [OF assms(1)] show ?thesis by blast
qed

text \<open>A board with the display alone.\<close>

definition lcd_board :: print_board where
  "lcd_board = \<lparr>device = (\<lambda>r h. if r = IOSET1 then port_latch h else if r = IODIR1 then port_dir h else 0),
     bus = [], iters_per_msec = 1, dummy = 0, print_buffer = replicate 8 0\<rparr>"

lemma lcd_shows_string_witness:
  "\<exists>s' old. print lcdSendByte () ((\<lambda>_. 0)(0 := 79, 1 := 75)) 0 (lcdSendCommand 0x80 (lcdInit lcd_board)) = Some s' \<and>
    received s' = old @ [(False, 0x20), (False, 0x28), (False, 0x0C), (False, 0x06), (False, 0x01), (False, 0x80), (True, 79), (True, 75)]"
proof -
  have "port_reads lcd_board" by (simp add: lcd_board_def port_reads_def)
  moreover have "is_cstr ((\<lambda>_. 0)(0 := 79, 1 := 75)) 0 [79, 75]" by (simp add: is_cstr_Cons is_cstr_Nil)
  moreover have "(0x80 :: u8) AND 0xE0 \<noteq> 0x20" by code_simp
  ultimately show ?thesis using lcd_shows_string [of lcd_board "(\<lambda>_. 0)(0 := 79, 1 := 75)" 0 "[79, 75]" "0x80" "()"] by fastforce
qed

end
