(* ===== verification/I2c.thy ===== *)
theory I2c
  imports Print
begin

text \<open>
  The two-wire bus of the board, \<^verbatim>\<open>ARM/lpc2000/i2c.c\<close>: a transaction of the master is started and then carried by the
  interrupt handler, a state machine over the status codes of the controller.  The caller only waits for \<open>mt_done\<close>,
  so its loop is the sequence of the interrupts.  \<open>mem\<close> is the memory in which the command and the response lie, by
  address.  \<open>ctl_run\<close> is what the manual says of the controller, with a slave that acknowledges all it gets.
\<close>

unbundle bit_operations_syntax

record i2c_board = print_board +
  mem :: "u32 \<Rightarrow> u8"
  mt_slave :: u8
  mt_command :: u32
  mt_command_len :: u32
  mt_command_ptr :: u32
  mt_response :: u32
  mt_response_len :: u32
  mt_response_ptr :: u32
  mt_done :: bool
  SlaveRcv :: u8
  SlaveSnd :: u8

section \<open>The interrupt handler\<close>

definition I2C_ASSERT_ACK :: u32 where "I2C_ASSERT_ACK = 0x04"
definition I2C_INTERRUPT :: u32 where "I2C_INTERRUPT = 0x08"
definition I2C_STOP :: u32 where "I2C_STOP = 0x10"
definition I2C_START :: u32 where "I2C_START = 0x20"
definition I2C_ENABLE :: u32 where "I2C_ENABLE = 0x40"

lemmas i2c_bits = I2C_ASSERT_ACK_def I2C_INTERRUPT_def I2C_STOP_def I2C_START_def I2C_ENABLE_def

definition i2c_set :: "u32 \<Rightarrow> 'z board_scheme \<Rightarrow> 'z board_scheme" where "i2c_set = wr8 I2CONSET"
definition i2c_clear :: "u32 \<Rightarrow> 'z board_scheme \<Rightarrow> 'z board_scheme" where "i2c_clear = wr8 I2CONCLR"

text \<open>START has been sent: the address of the slave, with the direction.\<close>

definition isr_start :: "'z i2c_board_scheme \<Rightarrow> 'z i2c_board_scheme" where
  "isr_start s = i2c_clear (I2C_INTERRUPT OR I2C_STOP OR I2C_START)
     (wr8 I2DAT (if mt_command_ptr s = mt_command_len s then ucast (mt_slave s) OR 1 else ucast (mt_slave s)) s)"

text \<open>All of the command is sent: the end, or a second START for the response.\<close>

definition isr_sent_all :: "'z i2c_board_scheme \<Rightarrow> 'z i2c_board_scheme" where
  "isr_sent_all s = (if mt_response_len s = 0
     then (i2c_clear (I2C_INTERRUPT OR I2C_START) (i2c_set I2C_STOP s))\<lparr>mt_done := True\<rparr>
     else i2c_clear (I2C_INTERRUPT OR I2C_STOP) (i2c_set I2C_START s))"

definition isr_send :: "'z i2c_board_scheme \<Rightarrow> 'z i2c_board_scheme" where
  "isr_send s = (if mt_command_ptr s <s mt_command_len s
     then i2c_clear (I2C_INTERRUPT OR I2C_START OR I2C_STOP)
       ((wr8 I2DAT (ucast (mem s (mt_command s + mt_command_ptr s))) s)\<lparr>mt_command_ptr := mt_command_ptr s + 1\<rparr>)
     else isr_sent_all s)"

text \<open>The end of a transaction with an error: the result is the negated status.\<close>

definition isr_nack :: "u32 \<Rightarrow> 'z i2c_board_scheme \<Rightarrow> 'z i2c_board_scheme" where
  "isr_nack result s = (i2c_clear (I2C_INTERRUPT OR I2C_START) (i2c_set I2C_STOP s))\<lparr>mt_done := True, mt_response_ptr := result\<rparr>"

definition ask_next :: "'z i2c_board_scheme \<Rightarrow> 'z i2c_board_scheme" where
  "ask_next s = (if mt_response_ptr s <s mt_response_len s - 1 then i2c_set I2C_ASSERT_ACK s else i2c_clear I2C_ASSERT_ACK s)"

definition store_byte :: "'z i2c_board_scheme \<Rightarrow> 'z i2c_board_scheme" where
  "store_byte s = (let (v, s1) = rd8 I2DAT s
     in s1\<lparr>mem := (mem s1)(mt_response s1 + mt_response_ptr s1 := ucast v), mt_response_ptr := mt_response_ptr s1 + 1\<rparr>)"

definition isr_branch :: "u32 \<Rightarrow> 'z i2c_board_scheme \<Rightarrow> 'z i2c_board_scheme" where
  "isr_branch status s =
     (if status = 0x08 \<or> status = 0x10 then isr_start s
      else if status = 0x18 \<or> status = 0x28 then isr_send s
      else if status = 0xFF then (if mt_command_ptr s <s mt_command_len s then isr_nack (-1) s else isr_sent_all s)
      else if status = 0x20 \<or> status = 0x48 \<or> status = 0x30 then isr_nack (- status) s
      else if status = 0x38 then (i2c_clear (I2C_INTERRUPT OR I2C_START OR I2C_STOP) s)\<lparr>mt_done := True, mt_response_ptr := - status\<rparr>
      else if status = 0x40 then i2c_clear (I2C_INTERRUPT OR I2C_START OR I2C_STOP) (ask_next s)
      else if status = 0x58 then (i2c_clear (I2C_INTERRUPT OR I2C_START) (i2c_set I2C_STOP (store_byte s)))\<lparr>mt_done := True\<rparr>
      else if status = 0x50 then i2c_clear (I2C_INTERRUPT OR I2C_START OR I2C_STOP) (i2c_set I2C_STOP (ask_next (store_byte s)))
      else if status = 0x60 \<or> status = 0x68 then i2c_set 0x04 (i2c_clear 0x2C s)
      else if status = 0x80 then (let (v, s1) = rd8 I2DAT (i2c_clear 0x2C s) in s1\<lparr>SlaveRcv := ucast v\<rparr>)
      else if status = 0x88 \<or> status = 0xA0 \<or> status = 0xC0 \<or> status = 0xC8 then i2c_set 0x04 (i2c_clear 0x2C s)
      else if status = 0xA8 \<or> status = 0xB8 then wr8 I2DAT (ucast (SlaveSnd s)) (i2c_clear 0x2C s)
      else s)"

definition I2_Isr :: "'z i2c_board_scheme \<Rightarrow> 'z i2c_board_scheme" where
  "I2_Isr s = (let (status, s1) = rd8 I2STAT s in interruptUpdatePriority (isr_branch status s1))"

section \<open>A transaction\<close>

text \<open>\<open>while (!mt_done);\<close> is as long as the interrupts take; if they stop, it never ends.\<close>

partial_function (option) await_done :: "'z i2c_board_scheme \<Rightarrow> 'z i2c_board_scheme option" where
  "await_done s = (if mt_done s then Some s else await_done (I2_Isr s))"

definition i2cMasterTransact ::
  "u8 \<Rightarrow> u32 \<Rightarrow> u32 \<Rightarrow> u32 \<Rightarrow> u32 \<Rightarrow> 'z i2c_board_scheme \<Rightarrow> (u32 \<times> 'z i2c_board_scheme) option" where
  "i2cMasterTransact slave command command_len response response_len s = do {
     s1 \<leftarrow> await_done (i2c_set I2C_START (s\<lparr>mt_done := False, mt_slave := slave, mt_command := command, mt_command_len := command_len,
         mt_response := response, mt_response_len := response_len, mt_command_ptr := 0, mt_response_ptr := 0\<rparr>));
     Some (mt_response_ptr s1, s1)
   }"

section \<open>Initialisation\<close>

definition i2cInit :: "u32 \<Rightarrow> u8 \<Rightarrow> u32 \<Rightarrow> 'z i2c_board_scheme \<Rightarrow> 'z i2c_board_scheme option" where
  "i2cInit bitrate slave_address isr s = do {
     let s1 = wr8 I2ADR (ucast slave_address) (or_reg PINSEL0 0x50 s);
     s2 \<leftarrow> (if bitrate \<noteq> 0 then do {
       (pclk, t1) \<leftarrow> clocksGetPclkFreq s1;
       d \<leftarrow> divider_loop pclk bitrate 1 bitrate;
       let divider = d - 1;
       t2 \<leftarrow> print_line ''pclk: '' pclk t1;
       t3 \<leftarrow> print_line ''bitrate: '' bitrate t2;
       t4 \<leftarrow> print_line ''divider: '' divider t3;
       let t5 = wr16 I2SCLL (divider - drop_bit 1 divider) (wr16 I2SCLH (drop_bit 1 divider) t4);
       (t6 :: 'z i2c_board_scheme) \<leftarrow> print uart0SendByte () (literal ''I2SCLH: '') 0 t5;
       let (h, t7) = rd I2SCLH t6;
       t8 \<leftarrow> printNum uart0SendByte () (h AND 0xffff) t7;
       t9 \<leftarrow> print uart0SendByte () (literal [CHR 0x0A]) 0 t8;
       t10 \<leftarrow> print uart0SendByte () (literal ''I2SCLL: '') 0 t9;
       let (l, t11) = rd I2SCLL t10;
       t12 \<leftarrow> printNum uart0SendByte () (l AND 0xffff) t11;
       print uart0SendByte () (literal [CHR 0x0A]) 0 t12
     } else Some s1);
     interruptEnableVIC 9 7 isr (i2c_set (I2C_ENABLE OR I2C_ASSERT_ACK) s2)
   }"

section \<open>The controller\<close>

text \<open>
  What the manual says of the controller in master mode.  Setting START on an idle bus sends it.  The register that clears has bits for ACK,
  the interrupt flag and START; its bit 4 is reserved, a pending STOP ends only when the controller has sent it.  Clearing the
  interrupt flag lets the bus go on: a pending STOP is sent, else a pending START again, else a byte moves: after START the address in the
  data register, then, by its direction bit, bytes from the register or bytes of the slave, the last
  one being that before which ACK was withdrawn.  The slave acknowledges its address and every byte; \<open>reply n\<close> is its \<open>n\<close>-th byte.
\<close>

datatype wire = START | STOP | ADDRESS u32 | SENT u32 | RECEIVED u8 bool

record ctl =
  sta :: bool
  sto :: bool
  aa :: bool
  dat :: u32
  stat :: u32
  wires :: "wire list"
  received :: nat

definition ctl_go :: "(nat \<Rightarrow> u8) \<Rightarrow> ctl \<Rightarrow> ctl" where
  "ctl_go reply c =
     (if sto c then c\<lparr>sto := False, stat := 0xF8, wires := wires c @ [STOP]\<rparr>
      else if sta c then c\<lparr>stat := 0x10, wires := wires c @ [START]\<rparr>
      else if stat c = 0x08 \<or> stat c = 0x10
        then c\<lparr>stat := (if dat c AND 1 = 0 then 0x18 else 0x40), wires := wires c @ [ADDRESS (dat c)]\<rparr>
      else if stat c = 0x18 \<or> stat c = 0x28 then c\<lparr>stat := 0x28, wires := wires c @ [SENT (dat c)]\<rparr>
      else if stat c = 0x40 \<or> stat c = 0x50
        then c\<lparr>stat := (if aa c then 0x50 else 0x58), wires := wires c @ [RECEIVED (reply (received c)) (aa c)],
               dat := ucast (reply (received c)), received := received c + 1\<rparr>
      else c)"

definition ctl_set :: "u32 \<Rightarrow> ctl \<Rightarrow> ctl" where
  "ctl_set v c = (let c1 = c\<lparr>sta := (sta c \<or> bit v 5), sto := (sto c \<or> bit v 4), aa := (aa c \<or> bit v 2)\<rparr>
     in if stat c = 0xF8 \<and> bit v 5 then c1\<lparr>stat := 0x08, wires := wires c @ [START]\<rparr> else c1)"

definition ctl_clear :: "(nat \<Rightarrow> u8) \<Rightarrow> u32 \<Rightarrow> ctl \<Rightarrow> ctl" where
  "ctl_clear reply v c = (let c1 = c\<lparr>sta := (sta c \<and> \<not> bit v 5), aa := (aa c \<and> \<not> bit v 2)\<rparr>
     in if bit v 3 then ctl_go reply c1 else c1)"

definition ctl_step :: "(nat \<Rightarrow> u8) \<Rightarrow> ctl \<Rightarrow> access \<Rightarrow> ctl" where
  "ctl_step reply c e = (case e of
       Write r v \<Rightarrow> if r = I2CONSET then ctl_set v c else if r = I2CONCLR then ctl_clear reply v c
         else if r = I2DAT then c\<lparr>dat := v\<rparr> else c
     | _ \<Rightarrow> c)"

definition ctl_idle :: ctl where
  "ctl_idle = \<lparr>sta = False, sto = False, aa = False, dat = 0, stat = 0xF8, wires = [], received = 0\<rparr>"

definition ctl_run :: "(nat \<Rightarrow> u8) \<Rightarrow> access list \<Rightarrow> ctl" where
  "ctl_run reply h = foldl (ctl_step reply) ctl_idle h"

text \<open>The hardware of a board with such a slave: status and data read as the controller has them.\<close>

definition i2c_slave :: "(nat \<Rightarrow> u8) \<Rightarrow> 'z board_scheme \<Rightarrow> bool" where
  "i2c_slave reply s = (\<forall>h. device s I2STAT h = stat (ctl_run reply h) \<and> device s I2DAT h = dat (ctl_run reply h))"

lemma ctl_run_append [simp]: "ctl_run reply (h @ g) = foldl (ctl_step reply) (ctl_run reply h) g"
  by (simp add: ctl_run_def)

lemma ctl_step_simps [simp]:
  "ctl_step reply c (Write I2CONSET v) = ctl_set v c" "ctl_step reply c (Write I2CONCLR v) = ctl_clear reply v c"
  "ctl_step reply c (Write I2DAT v) = c\<lparr>dat := v\<rparr>" "ctl_step reply c (Read r v) = c" "ctl_step reply c (Write VICVectAddr v) = c"
  by (simp_all add: ctl_step_def)

section \<open>One interrupt\<close>

text \<open>The controller shows a status; so far these events were on the wires and the slave has sent \<open>n\<close> bytes.\<close>

definition bus_at :: "(nat \<Rightarrow> u8) \<Rightarrow> u32 \<Rightarrow> wire list \<Rightarrow> nat \<Rightarrow> access list \<Rightarrow> bool" where
  "bus_at reply st ws n h = (let c = ctl_run reply h in \<not> sto c \<and> stat c = st \<and> wires c = ws \<and> received c = n)"

text \<open>The data register shows the last byte of the slave.\<close>

definition last_byte :: "(nat \<Rightarrow> u8) \<Rightarrow> access list \<Rightarrow> u8 \<Rightarrow> bool" where
  "last_byte reply h b = (dat (ctl_run reply h) = ucast b)"

lemma isr_status:
  "i2c_slave reply s \<Longrightarrow> bus_at reply st ws n (bus s) \<Longrightarrow>
   I2_Isr s = interruptUpdatePriority (isr_branch (st AND 0xff) (s\<lparr>bus := bus s @ [Read I2STAT st]\<rparr>))"
  by (simp add: I2_Isr_def rd8_def rd_def i2c_slave_def bus_at_def Let_def)

lemmas isr_steps = isr_branch_def isr_start_def isr_send_def isr_sent_all_def i2c_clear_def i2c_set_def i2c_bits
  wr8_def wr_def interruptUpdatePriority_def bus_at_def ctl_clear_def ctl_set_def ctl_go_def Let_def

lemma address_bits:
  "(ucast (a :: u8) :: u32) AND 1 = (if bit a 0 then 1 else 0)" "(ucast a OR 1 :: u32) AND 1 = 1"
  "(ucast a :: u32) AND 0xff = ucast a" "(ucast a OR 1 :: u32) AND 0xff = ucast a OR 1" "ucast (ucast a :: u32) = a"
proof -
  have m: "(0xff :: u32) = mask 8" by (simp add: mask_eq_exp_minus_1)
  show "(ucast a :: u32) AND 0xff = ucast a" unfolding m by (rule bit_word_eqI) (auto simp: bit_simps dest: bit_imp_le_length)
  show "(ucast a OR 1 :: u32) AND 0xff = ucast a OR 1" unfolding m by (rule bit_word_eqI) (auto simp: bit_simps dest: bit_imp_le_length)
  show "(ucast a :: u32) AND 1 = (if bit a 0 then 1 else 0)" by (rule bit_word_eqI) (auto simp: bit_simps intro!: gr0I)
  show "(ucast a OR 1 :: u32) AND 1 = 1" "ucast (ucast a :: u32) = a" by (rule bit_word_eqI, auto simp: bit_simps)+
qed

lemma isr_address_write:
  assumes "i2c_slave reply s" "bus_at reply 0x08 ws n (bus s)" "mt_command_ptr s \<noteq> mt_command_len s" "\<not> bit (mt_slave s) 0"
  shows "I2_Isr s = s\<lparr>bus := bus (I2_Isr s)\<rparr> \<and> bus_at reply 0x18 (ws @ [ADDRESS (ucast (mt_slave s))]) n (bus (I2_Isr s))"
  using assms isr_status [OF assms(1,2)] by (simp add: isr_steps address_bits)

lemma isr_address_read:
  assumes "i2c_slave reply s" "bus_at reply st ws n (bus s)" "st \<in> {0x08, 0x10}" "mt_command_ptr s = mt_command_len s"
  shows "I2_Isr s = s\<lparr>bus := bus (I2_Isr s)\<rparr> \<and> bus_at reply 0x40 (ws @ [ADDRESS (ucast (mt_slave s) OR 1)]) n (bus (I2_Isr s))"
  using assms(3)
proof (elim insertE emptyE)
qed (use assms(1,2,4) isr_status [OF assms(1,2)] in \<open>simp_all add: isr_steps address_bits\<close>)

lemma isr_sends:
  assumes "i2c_slave reply s" "bus_at reply st ws n (bus s)" "st \<in> {0x18, 0x28}" "mt_command_ptr s <s mt_command_len s"
  shows "I2_Isr s = s\<lparr>bus := bus (I2_Isr s), mt_command_ptr := mt_command_ptr s + 1\<rparr> \<and>
    bus_at reply 0x28 (ws @ [SENT (ucast (mem s (mt_command s + mt_command_ptr s)))]) n (bus (I2_Isr s))"
  using assms(3)
proof (elim insertE emptyE)
qed (use assms(1,2,4) isr_status [OF assms(1,2)] in \<open>simp_all add: isr_steps address_bits\<close>)

lemma isr_ends:
  assumes "i2c_slave reply s" "bus_at reply st ws n (bus s)" "st \<in> {0x18, 0x28}" "\<not> mt_command_ptr s <s mt_command_len s" "mt_response_len s = 0"
  shows "I2_Isr s = s\<lparr>bus := bus (I2_Isr s), mt_done := True\<rparr> \<and> bus_at reply 0xF8 (ws @ [STOP]) n (bus (I2_Isr s))"
  using assms(3)
proof (elim insertE emptyE)
qed (use assms(1,2,4,5) isr_status [OF assms(1,2)] in \<open>simp_all add: isr_steps\<close>)

lemma isr_turns:
  assumes "i2c_slave reply s" "bus_at reply st ws n (bus s)" "st \<in> {0x18, 0x28}" "\<not> mt_command_ptr s <s mt_command_len s" "mt_response_len s \<noteq> 0"
  shows "I2_Isr s = s\<lparr>bus := bus (I2_Isr s)\<rparr> \<and> bus_at reply 0x10 (ws @ [START]) n (bus (I2_Isr s))"
  using assms(3)
proof (elim insertE emptyE)
qed (use assms(1,2,4,5) isr_status [OF assms(1,2)] in \<open>simp_all add: isr_steps\<close>)

lemma isr_first_byte:
  assumes "i2c_slave reply s" "bus_at reply 0x40 ws n (bus s)"
  defines "again \<equiv> mt_response_ptr s <s mt_response_len s - 1"
  shows "I2_Isr s = s\<lparr>bus := bus (I2_Isr s)\<rparr> \<and> last_byte reply (bus (I2_Isr s)) (reply n) \<and>
    bus_at reply (if again then 0x50 else 0x58) (ws @ [RECEIVED (reply n) again]) (n + 1) (bus (I2_Isr s))"
  using assms isr_status [OF assms(1,2)] by (simp add: isr_steps ask_next_def last_byte_def)

text \<open>A byte that was acknowledged: the handler sets STOP before it goes on, so the bus becomes idle and no byte follows.\<close>

lemma isr_stops_early:
  assumes "i2c_slave reply s" "bus_at reply 0x50 ws n (bus s)" "last_byte reply (bus s) b"
  shows "I2_Isr s = s\<lparr>bus := bus (I2_Isr s), mem := (mem s)(mt_response s + mt_response_ptr s := b), mt_response_ptr := mt_response_ptr s + 1\<rparr> \<and>
    bus_at reply 0xF8 (ws @ [STOP]) n (bus (I2_Isr s))"
  by (cases "mt_response_ptr s + 1 <s mt_response_len s - 1")
    (use assms isr_status [OF assms(1,2)] in \<open>simp_all add: isr_steps ask_next_def store_byte_def last_byte_def rd8_def rd_def i2c_slave_def address_bits\<close>)

lemma isr_idle:
  assumes "i2c_slave reply s" "bus_at reply 0xF8 ws n (bus s)"
  shows "I2_Isr s = s\<lparr>bus := bus (I2_Isr s)\<rparr> \<and> bus_at reply 0xF8 ws n (bus (I2_Isr s))"
  using assms isr_status [OF assms] by (simp add: isr_steps)

lemma isr_last_byte:
  assumes "i2c_slave reply s" "bus_at reply 0x58 ws n (bus s)" "last_byte reply (bus s) b"
  shows "I2_Isr s = s\<lparr>bus := bus (I2_Isr s), mem := (mem s)(mt_response s + mt_response_ptr s := b), mt_response_ptr := mt_response_ptr s + 1, mt_done := True\<rparr> \<and>
    bus_at reply 0xF8 (ws @ [STOP]) n (bus (I2_Isr s))"
  using assms isr_status [OF assms(1,2)] by (simp add: isr_steps store_byte_def last_byte_def rd8_def rd_def i2c_slave_def address_bits)

section \<open>A whole transaction\<close>

lemma i2c_slave_same: "device t = device s \<Longrightarrow> i2c_slave reply t = i2c_slave reply s"
  by (simp add: i2c_slave_def)

lemma await_step: "\<not> mt_done s \<Longrightarrow> await_done s = await_done (I2_Isr s)"
  by (subst await_done.simps) simp

lemma await_done_now: "mt_done s \<Longrightarrow> await_done s = Some s"
  by (subst await_done.simps) simp

lemma sending:
  assumes "i2c_slave reply s" "bus_at reply st ws n (bus s)" "st \<in> {0x18, 0x28}" "\<not> mt_done s"
    and "mt_command_ptr s = of_nat k" "mt_command_len s = of_nat (k + j)" "k + j < 0x80000000"
  shows "\<exists>h st'. await_done s = await_done (s\<lparr>bus := h, mt_command_ptr := of_nat (k + j)\<rparr>) \<and> st' \<in> {0x18, 0x28} \<and>
    bus_at reply st' (ws @ map (\<lambda>i. SENT (ucast (mem s (mt_command s + of_nat i)))) [k..<k + j]) n h"
  using assms
proof (induction j arbitrary: k s st ws)
  case 0
  then have e: "s\<lparr>mt_command_ptr := of_nat k\<rparr> = s" by (cases s) simp
  show ?case using 0 by (intro exI [of _ "bus s"] exI [of _ st]) (simp add: e)
next
  case (Suc j)
  have "mt_command_ptr s <s mt_command_len s" using Suc.prems(5-7) by (subst signed_small) (simp_all add: unat_of_nat del: of_nat_add of_nat_Suc)
  note I = isr_sends [OF Suc.prems(1-3) this]
  define h where "h = bus (I2_Isr s)"
  let ?s1 = "s\<lparr>bus := h, mt_command_ptr := mt_command_ptr s + 1\<rparr>"
  have I1: "I2_Isr s = ?s1" using I by (simp add: h_def)
  have b: "bus_at reply 0x28 (ws @ [SENT (ucast (mem s (mt_command s + of_nat k)))]) n (bus ?s1)" using I Suc.prems(5) by (simp add: h_def)
  have c: "i2c_slave reply ?s1" using Suc.prems(1) by (simp add: i2c_slave_def)
  obtain h' st' where r: "await_done ?s1 = await_done (?s1\<lparr>bus := h', mt_command_ptr := of_nat (Suc k + j)\<rparr>)" "st' \<in> {0x18, 0x28}"
    "bus_at reply st' ((ws @ [SENT (ucast (mem s (mt_command s + of_nat k)))]) @ map (\<lambda>i. SENT (ucast (mem ?s1 (mt_command ?s1 + of_nat i)))) [Suc k..<Suc k + j]) n h'"
    using Suc.IH [OF c b, of "Suc k"] Suc.prems(4-7) by (auto simp: add.commute)
  have "[k..<k + Suc j] = k # [Suc k..<Suc k + j]" by (simp add: upt_conv_Cons)
  with r show ?case using await_step [OF Suc.prems(4)] I1 by (intro exI [of _ h'] exI [of _ st']) simp
qed

text \<open>On an idle bus the status stays as it is, and a caller that still waits waits forever.\<close>

lemma await_forever:
  assumes "i2c_slave reply s" "bus_at reply 0xF8 ws n (bus s)" "\<not> mt_done s"
  shows "await_done s = None"
proof (rule ccontr)
  assume "await_done s \<noteq> None"
  then obtain t where "await_done s = Some t" by blast
  then have "\<not> (i2c_slave reply s \<and> bus_at reply 0xF8 ws n (bus s) \<and> \<not> mt_done s)"
  proof (rule await_done.raw_induct [where P = "\<lambda>s _. \<not> (i2c_slave reply s \<and> bus_at reply 0xF8 ws n (bus s) \<and> \<not> mt_done s)", rotated])
    fix f :: "'a i2c_board_scheme \<Rightarrow> 'a i2c_board_scheme option" and s t :: "'a i2c_board_scheme"
    assume IH: "\<And>s t. f s = Some t \<Longrightarrow> \<not> (i2c_slave reply s \<and> bus_at reply 0xF8 ws n (bus s) \<and> \<not> mt_done s)"
      and f: "(if mt_done s then Some s else f (I2_Isr s)) = Some t"
    show "\<not> (i2c_slave reply s \<and> bus_at reply 0xF8 ws n (bus s) \<and> \<not> mt_done s)"
    proof
      assume a: "i2c_slave reply s \<and> bus_at reply 0xF8 ws n (bus s) \<and> \<not> mt_done s"
      then have "f (I2_Isr s) = Some t" using f by simp
      moreover have I: "I2_Isr s = s\<lparr>bus := bus (I2_Isr s)\<rparr>" "bus_at reply 0xF8 ws n (bus (I2_Isr s))" using isr_idle a by blast+
      moreover have "i2c_slave reply (I2_Isr s)" "\<not> mt_done (I2_Isr s)" using a by (subst I(1), simp add: i2c_slave_def)+
      ultimately show False using IH by blast
    qed
  qed
  then show False using assms by blast
qed

lemma command_part:
  assumes "i2c_slave reply s" "bus_at reply 0x08 ws n (bus s)" "\<not> bit (mt_slave s) 0" "\<not> mt_done s"
    and "mt_command_ptr s = 0" "mt_command_len s = of_nat cl" "0 < cl" "cl < 0x80000000"
  shows "\<exists>h st. await_done s = await_done (s\<lparr>bus := h, mt_command_ptr := of_nat cl\<rparr>) \<and> st \<in> {0x18, 0x28} \<and>
    bus_at reply st (ws @ ADDRESS (ucast (mt_slave s)) # map (\<lambda>i. SENT (ucast (mem s (mt_command s + of_nat i)))) [0..<cl]) n h"
proof -
  have "unat (of_nat cl :: u32) = cl" using assms(8) by (subst unat_of_nat) simp
  then have "mt_command_ptr s \<noteq> mt_command_len s" using assms(5-7) by auto
  note I = isr_address_write [OF assms(1,2) this assms(3)]
  define h where "h = bus (I2_Isr s)"
  let ?s1 = "s\<lparr>bus := h\<rparr>"
  have I1: "I2_Isr s = ?s1" using I by (simp add: h_def)
  have b: "bus_at reply 0x18 (ws @ [ADDRESS (ucast (mt_slave s))]) n (bus ?s1)" using I by (simp add: h_def)
  have q: "i2c_slave reply ?s1" "\<not> mt_done ?s1" "mt_command_ptr ?s1 = of_nat 0" "mt_command_len ?s1 = of_nat (0 + cl)" "0 + cl < 0x80000000"
    using assms by (simp_all add: i2c_slave_def)
  from sending [OF q(1) b _ q(2-5)] show ?thesis using await_step [OF assms(4)] I1 by auto
qed

lemma response_part:
  assumes "i2c_slave reply s" "bus_at reply st ws 0 (bus s)" "st \<in> {0x08, 0x10}" "\<not> mt_done s"
    and "mt_command_ptr s = mt_command_len s" "mt_response_ptr s = 0" "mt_response_len s = of_nat rl" "0 < rl" "rl < 0x80000000"
  shows "if rl = 1
    then \<exists>h. await_done s = Some (s\<lparr>bus := h, mem := (mem s)(mt_response s := reply 0), mt_response_ptr := 1, mt_done := True\<rparr>) \<and>
      bus_at reply 0xF8 (ws @ [ADDRESS (ucast (mt_slave s) OR 1), RECEIVED (reply 0) False, STOP]) 1 h
    else await_done s = None"
proof -
  note I = isr_address_read [OF assms(1-3,5)]
  define h where "h = bus (I2_Isr s)"
  let ?s1 = "s\<lparr>bus := h\<rparr>" and ?ws = "ws @ [ADDRESS (ucast (mt_slave s) OR 1)]"
  have I1: "I2_Isr s = ?s1" using I by (simp add: h_def)
  have b: "bus_at reply 0x40 ?ws 0 (bus ?s1)" using I by (simp add: h_def)
  have b2: "i2c_slave reply ?s1" using assms(1) by (simp add: i2c_slave_def)
  have "unat (of_nat rl - 1 :: u32) = rl - 1" using assms(8,9) by (cases rl) (simp_all add: unat_of_nat)
  then have more: "(mt_response_ptr ?s1 <s mt_response_len ?s1 - 1) = (rl \<noteq> 1)"
    using assms(6-9) by (subst signed_small) auto
  note J = isr_first_byte [OF b2 b, unfolded more]
  define g where "g = bus (I2_Isr ?s1)"
  let ?s2 = "?s1\<lparr>bus := g\<rparr>"
  have J1: "I2_Isr ?s1 = ?s2" using J by (simp add: g_def)
  have c: "bus_at reply (if rl \<noteq> 1 then 0x50 else 0x58) (?ws @ [RECEIVED (reply 0) (rl \<noteq> 1)]) 1 (bus ?s2)" "last_byte reply (bus ?s2) (reply 0)"
    using J by (simp_all add: g_def)
  have q: "i2c_slave reply ?s2" "\<not> mt_done ?s2" using assms(1,4) by (simp_all add: i2c_slave_def)
  have run: "await_done s = await_done (I2_Isr ?s2)"
    using await_step [OF assms(4)] await_step [of ?s1] await_step [OF q(2)] I1 J1 assms(4) by simp
  show ?thesis
  proof (cases "rl = 1")
    case True
    have "bus_at reply 0x58 (?ws @ [RECEIVED (reply 0) False]) 1 (bus ?s2)" using c(1) True by simp
    note K' = isr_last_byte [OF q(1) this c(2)]
    from K' have K: "I2_Isr ?s2 = ?s2\<lparr>bus := bus (I2_Isr ?s2), mem := (mem ?s2)(mt_response ?s2 + mt_response_ptr ?s2 := reply 0),
        mt_response_ptr := mt_response_ptr ?s2 + 1, mt_done := True\<rparr>" "bus_at reply 0xF8 ((?ws @ [RECEIVED (reply 0) False]) @ [STOP]) 1 (bus (I2_Isr ?s2))"
      by (rule conjunct1, rule conjunct2)
    have "mt_done (I2_Isr ?s2)" by (subst K(1)) simp
    then have "await_done s = Some (I2_Isr ?s2)" using run await_done_now by simp
    also have "I2_Isr ?s2 = s\<lparr>bus := bus (I2_Isr ?s2), mem := (mem s)(mt_response s := reply 0), mt_response_ptr := 1, mt_done := True\<rparr>"
      by (subst K(1)) (simp add: assms(6))
    finally show ?thesis using K(2) True by (intro iffD2 [OF if_P] exI [of _ "bus (I2_Isr ?s2)"]) simp_all
  next
    case False
    define ws' where "ws' = (?ws @ [RECEIVED (reply 0) True]) @ [STOP]"
    have "bus_at reply 0x50 (?ws @ [RECEIVED (reply 0) True]) 1 (bus ?s2)" using c(1) False by simp
    note K' = isr_stops_early [OF q(1) this c(2), folded ws'_def]
    from K' have K: "I2_Isr ?s2 = ?s2\<lparr>bus := bus (I2_Isr ?s2),
        mem := (mem ?s2)(mt_response ?s2 + mt_response_ptr ?s2 := reply 0), mt_response_ptr := mt_response_ptr ?s2 + 1\<rparr>"
      "bus_at reply 0xF8 ws' 1 (bus (I2_Isr ?s2))" by (rule conjunct1, rule conjunct2)
    have "i2c_slave reply (I2_Isr ?s2)" "\<not> mt_done (I2_Isr ?s2)" using q by (subst K(1), simp add: i2c_slave_def)+
    then show ?thesis using await_forever [OF _ K(2)] run False by simp
  qed
qed

text \<open>Between the two parts: the end if no response is expected, and a second START otherwise.\<close>

lemma end_part:
  assumes "i2c_slave reply s" "bus_at reply st ws n (bus s)" "st \<in> {0x18, 0x28}" "\<not> mt_done s"
    and "mt_command_ptr s = mt_command_len s" "mt_response_len s = 0"
  shows "\<exists>h. await_done s = Some (s\<lparr>bus := h, mt_done := True\<rparr>) \<and> bus_at reply 0xF8 (ws @ [STOP]) n h"
proof -
  have "\<not> mt_command_ptr s <s mt_command_len s" using assms(5) by (simp add: word_sless_alt)
  note I = isr_ends [OF assms(1-3) this assms(6)]
  have "mt_done (I2_Isr s)" by (subst conjunct1 [OF I]) simp
  then have "await_done s = Some (I2_Isr s)" using await_step [OF assms(4)] await_done_now by simp
  with I show ?thesis by metis
qed

lemma turn_part:
  assumes "i2c_slave reply s" "bus_at reply st ws n (bus s)" "st \<in> {0x18, 0x28}" "\<not> mt_done s"
    and "mt_command_ptr s = mt_command_len s" "mt_response_len s \<noteq> 0"
  shows "\<exists>h. await_done s = await_done (s\<lparr>bus := h\<rparr>) \<and> bus_at reply 0x10 (ws @ [START]) n h"
proof -
  have "\<not> mt_command_ptr s <s mt_command_len s" using assms(5) by (simp add: word_sless_alt)
  from isr_turns [OF assms(1-3) this assms(6)] await_step [OF assms(4)] show ?thesis by metis
qed

text \<open>A transaction after its START, from both parts.\<close>

definition command_events :: "u8 \<Rightarrow> (u32 \<Rightarrow> u8) \<Rightarrow> u32 \<Rightarrow> nat \<Rightarrow> wire list" where
  "command_events slave m a n =
     (if 0 < n then [START, ADDRESS (ucast slave)] @ map (\<lambda>i. SENT (ucast (m (a + of_nat i)))) [0..<n] else [])"

definition response_events :: "u8 \<Rightarrow> (nat \<Rightarrow> u8) \<Rightarrow> nat \<Rightarrow> wire list" where
  "response_events slave reply n = (if 0 < n then [START, ADDRESS (ucast slave OR 1), RECEIVED (reply 0) False] else [])"

definition started :: "(nat \<Rightarrow> u8) \<Rightarrow> nat \<Rightarrow> nat \<Rightarrow> 'z i2c_board_scheme \<Rightarrow> bool" where
  "started reply cl rl s = (i2c_slave reply s \<and> bus_at reply 0x08 [START] 0 (bus s) \<and> \<not> bit (mt_slave s) 0 \<and> \<not> mt_done s \<and>
     mt_command_ptr s = 0 \<and> mt_command_len s = of_nat cl \<and> cl < 0x80000000 \<and>
     mt_response_ptr s = 0 \<and> mt_response_len s = of_nat rl \<and> rl < 0x80000000)"

lemma command_sent:
  assumes "started reply cl rl s" "0 < cl"
  shows "\<exists>h st. await_done s = await_done (s\<lparr>bus := h, mt_command_ptr := of_nat cl\<rparr>) \<and> st \<in> {0x18, 0x28} \<and>
    bus_at reply st (command_events (mt_slave s) (mem s) (mt_command s) cl) 0 h"
  using command_part [of reply s "[START]" 0 cl] assms by (simp add: started_def command_events_def)

lemma ready_for_response:
  assumes "started reply cl rl s" "0 < rl"
  shows "\<exists>h st. await_done s = await_done (s\<lparr>bus := h, mt_command_ptr := of_nat cl\<rparr>) \<and> st \<in> {0x08, 0x10} \<and>
    bus_at reply st (command_events (mt_slave s) (mem s) (mt_command s) cl @ [START]) 0 h"
proof (cases "0 < cl")
  case False
  then have "s\<lparr>bus := bus s, mt_command_ptr := of_nat cl\<rparr> = s" using assms(1) by (cases s) (simp add: started_def)
  moreover have "bus_at reply 0x08 (command_events (mt_slave s) (mem s) (mt_command s) cl @ [START]) 0 (bus s)"
    using assms(1) False by (simp add: started_def command_events_def)
  ultimately show ?thesis by (intro exI [of _ "bus s"] exI [of _ "0x08"]) (simp only: insert_iff simp_thms)
next
  case True
  obtain h st where h: "await_done s = await_done (s\<lparr>bus := h, mt_command_ptr := of_nat cl\<rparr>)" "st \<in> {0x18, 0x28}"
    "bus_at reply st (command_events (mt_slave s) (mem s) (mt_command s) cl) 0 h" using command_sent [OF assms(1) True] by blast
  let ?t = "s\<lparr>bus := h, mt_command_ptr := of_nat cl\<rparr>"
  have "unat (of_nat rl :: u32) = rl" using assms(1) by (subst unat_of_nat) (simp add: started_def)
  then have "(of_nat rl :: u32) \<noteq> 0" using assms(2) by auto
  then have "i2c_slave reply ?t" "\<not> mt_done ?t" "mt_command_ptr ?t = mt_command_len ?t" "mt_response_len ?t \<noteq> 0"
    using assms(1) by (simp_all add: started_def i2c_slave_def)
  note P = this
  have "bus_at reply st (command_events (mt_slave s) (mem s) (mt_command s) cl) 0 (bus ?t)" using h(3) by simp
  from turn_part [OF P(1) this h(2) P(2-4)] obtain g where g: "await_done ?t = await_done (?t\<lparr>bus := g\<rparr>)"
    "bus_at reply 0x10 (command_events (mt_slave s) (mem s) (mt_command s) cl @ [START]) 0 g" by blast
  have "?t\<lparr>bus := g\<rparr> = s\<lparr>bus := g, mt_command_ptr := of_nat cl\<rparr>" by simp
  with g h(1) show ?thesis by (intro exI [of _ g] exI [of _ "0x10"]) (simp only: insert_iff simp_thms)
qed

lemma transaction_runs:
  assumes "started reply cl rl s" "0 < cl \<or> 0 < rl" "rl \<le> 1"
  shows "\<exists>t. await_done s = Some t \<and> mt_response_ptr t = of_nat rl \<and> mem t = (if rl = 0 then mem s else (mem s)(mt_response s := reply 0)) \<and>
    bus_at reply 0xF8 (command_events (mt_slave s) (mem s) (mt_command s) cl @ response_events (mt_slave s) reply rl @ [STOP]) rl (bus t)"
proof (cases "0 < rl")
  case True
  then have rl: "rl = 1" using assms(3) by simp
  obtain h st where h: "await_done s = await_done (s\<lparr>bus := h, mt_command_ptr := of_nat cl\<rparr>)" "st \<in> {0x08, 0x10}"
    "bus_at reply st (command_events (mt_slave s) (mem s) (mt_command s) cl @ [START]) 0 h" using ready_for_response [OF assms(1) True] by blast
  let ?t = "s\<lparr>bus := h, mt_command_ptr := of_nat cl\<rparr>"
  have P: "i2c_slave reply ?t" "\<not> mt_done ?t" "mt_command_ptr ?t = mt_command_len ?t" "mt_response_ptr ?t = 0" "mt_response_len ?t = of_nat rl"
    "rl < 0x80000000" using assms(1) by (simp_all add: started_def i2c_slave_def)
  have "bus_at reply st (command_events (mt_slave s) (mem s) (mt_command s) cl @ [START]) 0 (bus ?t)" using h(3) by simp
  from response_part [OF P(1) this h(2) P(2-5) True P(6)] h(1) rl show ?thesis by (auto simp: response_events_def)
next
  case False
  then obtain h st where h: "await_done s = await_done (s\<lparr>bus := h, mt_command_ptr := of_nat cl\<rparr>)" "st \<in> {0x18, 0x28}"
    "bus_at reply st (command_events (mt_slave s) (mem s) (mt_command s) cl) 0 h" using command_sent [OF assms(1)] assms(2) by blast
  let ?t = "s\<lparr>bus := h, mt_command_ptr := of_nat cl\<rparr>"
  have P: "i2c_slave reply ?t" "\<not> mt_done ?t" "mt_command_ptr ?t = mt_command_len ?t" "mt_response_len ?t = 0"
    using assms(1) False by (simp_all add: started_def i2c_slave_def)
  have "bus_at reply st (command_events (mt_slave s) (mem s) (mt_command s) cl) 0 (bus ?t)" using h(3) by simp
  from end_part [OF P(1) this h(2) P(2-4)] h(1) False assms(1) show ?thesis by (auto simp: response_events_def started_def)
qed

lemma transaction_hangs:
  assumes "started reply cl rl s" "2 \<le> rl"
  shows "await_done s = None"
proof -
  have rl: "0 < rl" "rl \<noteq> 1" using assms(2) by simp_all
  obtain h st where h: "await_done s = await_done (s\<lparr>bus := h, mt_command_ptr := of_nat cl\<rparr>)" "st \<in> {0x08, 0x10}"
    "bus_at reply st (command_events (mt_slave s) (mem s) (mt_command s) cl @ [START]) 0 h" using ready_for_response [OF assms(1) rl(1)] by blast
  let ?t = "s\<lparr>bus := h, mt_command_ptr := of_nat cl\<rparr>"
  have P: "i2c_slave reply ?t" "\<not> mt_done ?t" "mt_command_ptr ?t = mt_command_len ?t" "mt_response_ptr ?t = 0" "mt_response_len ?t = of_nat rl"
    "rl < 0x80000000" using assms(1) by (simp_all add: started_def i2c_slave_def)
  have "bus_at reply st (command_events (mt_slave s) (mem s) (mt_command s) cl @ [START]) 0 (bus ?t)" using h(3) by simp
  from response_part [OF P(1) this h(2) P(2-5) rl(1) P(6)] h(1) rl(2) show ?thesis by simp
qed


text \<open>A slave at address 0x48 that always answers 0x2A, and a command of one byte, 0x07, at address 100.\<close>

definition answering_slave :: i2c_board where
  "answering_slave = \<lparr>device = (\<lambda>r h. if r = I2STAT then stat (ctl_run (\<lambda>_. 0x2A) h) else if r = I2DAT then dat (ctl_run (\<lambda>_. 0x2A) h) else 0),
     bus = [], iters_per_msec = 1, dummy = 0, print_buffer = [], mem = (\<lambda>_. 0)(100 := 7), mt_slave = 0, mt_command = 0, mt_command_len = 0,
     mt_command_ptr = 0, mt_response = 0, mt_response_len = 0, mt_response_ptr = 0, mt_done = False, SlaveRcv = 0xAA, SlaveSnd = 234\<rparr>"


end
