(* ===== verification/Spi.thy ===== *)
theory Spi
  imports Print
begin

text \<open>
  The serial peripheral bus of the board, \<^verbatim>\<open>ARM/lpc2000/spi.c\<close>, and its timers, \<^verbatim>\<open>timers.c\<close>.  As for the two-wire bus, the
  caller of a transaction waits for the interrupt handler; an interrupt is taken between two turns of the waiting
  loop, \<open>turns\<close> being how many of them pass before each.
\<close>

unbundle bit_operations_syntax

section \<open>The serial peripheral bus\<close>

record spi_board = print_board +
  mem :: "u32 \<Rightarrow> u8"
  mt_command :: u32
  mt_command_len :: u32
  mt_command_ptr :: u32
  mt_response :: u32
  mt_response_len :: u32
  mt_response_ptr :: u32
  mt_done :: bool

definition spi_status :: "'z print_board_scheme \<Rightarrow> 'z print_board_scheme option" where
  "spi_status s = do {
     s1 \<leftarrow> print uart0SendByte () (literal ''spi status register: '') 0 s;
     let (v, s2) = rd8 S0SPSR s1;
     s3 \<leftarrow> printHex uart0SendByte () v 2 s2;
     print uart0SendByte () (literal [CHR 0x0A]) 0 s3
   }"

text \<open>The byte that arrives is stored through \<open>mt_command\<close>, as in the source.\<close>

definition spi_move :: "'z spi_board_scheme \<Rightarrow> 'z spi_board_scheme" where
  "spi_move s =
     (if mt_command_ptr s <s mt_command_len s
      then (wr8 S0SPDR (ucast (mem s (mt_command s + mt_command_ptr s))) s)\<lparr>mt_command_ptr := mt_command_ptr s + 1\<rparr>
      else if mt_response_ptr s <s mt_response_len s
      then (let (v, s1) = rd8 S0SPDR s
            in s1\<lparr>mem := (mem s1)(mt_command s1 + mt_response_ptr s1 := ucast v), mt_response_ptr := mt_response_ptr s1 + 1\<rparr>)
      else s)"

definition SPI_ISR :: "'z spi_board_scheme \<Rightarrow> 'z spi_board_scheme option" where
  "SPI_ISR s = do {
     s1 \<leftarrow> printNum uart0SendByte () (mt_command_ptr s) s;
     s2 \<leftarrow> print uart0SendByte () (literal '' '') 0 s1;
     s3 \<leftarrow> printNum uart0SendByte () (mt_response_ptr s2) s2;
     s4 \<leftarrow> print uart0SendByte () (literal [CHR 0x0A]) 0 s3;
     let s5 = spi_move s4;
     s8 \<leftarrow> (if mt_command_len s5 \<le>s mt_command_ptr s5 \<and> mt_response_len s5 \<le>s mt_response_ptr s5
       then do { s6 \<leftarrow> gpioSet 0 3 s5; s7 \<leftarrow> gpioSet 0 8 s6; Some (s7\<lparr>mt_done := True\<rparr>) }
       else Some s5);
     Some (interruptUpdatePriority (wr8 S0SPINT 1 s8))
   }"

primrec spi_turns :: "nat \<Rightarrow> 'z print_board_scheme \<Rightarrow> 'z print_board_scheme option" where
  "spi_turns 0 s = Some s"
| "spi_turns (Suc n) s = do { s1 \<leftarrow> spi_status s; spi_turns n s1 }"

partial_function (option) spi_wait :: "(nat \<Rightarrow> nat) \<Rightarrow> nat \<Rightarrow> 'z spi_board_scheme \<Rightarrow> 'z spi_board_scheme option" where
  "spi_wait turns i s = (if mt_done s then Some s
     else do { s1 \<leftarrow> spi_turns (turns i) s; s2 \<leftarrow> SPI_ISR s1; spi_wait turns (i + 1) s2 })"

definition spiMasterTransact ::
  "(nat \<Rightarrow> nat) \<Rightarrow> u32 \<Rightarrow> u32 \<Rightarrow> u32 \<Rightarrow> u32 \<Rightarrow> 'z spi_board_scheme \<Rightarrow> (u32 \<times> 'z spi_board_scheme) option" where
  "spiMasterTransact turns command command_len response response_len s = do {
     s1 \<leftarrow> spi_status (s\<lparr>mt_done := False, mt_command := command, mt_command_len := command_len, mt_response := response,
       mt_response_len := response_len, mt_command_ptr := 0, mt_response_ptr := 0\<rparr>);
     s2 \<leftarrow> gpioClear 0 2 s1;
     s3 \<leftarrow> gpioClear 0 8 s2;
     let s4 = s3\<lparr>mt_command_ptr := mt_command_ptr s3 + 1\<rparr>;
     s5 \<leftarrow> spi_wait turns 0 (wr8 S0SPDR (ucast (mem s4 (mt_command s4))) s4);
     s6 \<leftarrow> spi_status s5;
     Some (mt_response_ptr s6, s6)
   }"

definition spiInit :: "u32 \<Rightarrow> u32 \<Rightarrow> 'z spi_board_scheme \<Rightarrow> 'z spi_board_scheme option" where
  "spiInit bitrate isr s = do {
     let s1 = or_reg PINSEL0 0x00005500 (and_reg PINSEL0 0xFFFF00FF s);
     s2 \<leftarrow> gpioEnable 0 3 GPIO_OUTPUT s1;
     s3 \<leftarrow> gpioEnable 0 2 GPIO_OUTPUT s2;
     s4 \<leftarrow> gpioSet 0 3 s3;
     s5 \<leftarrow> gpioSet 0 2 s4;
     s6 \<leftarrow> (if bitrate \<noteq> 0 then do {
       (pclk, t1) \<leftarrow> clocksGetPclkFreq s5;
       d \<leftarrow> divider_loop pclk bitrate 1 bitrate;
       let d1 = (if d - 1 < 8 then 8 else d - 1);
       let divider = (if d1 AND 1 \<noteq> 0 then d1 + 1 else d1);
       t2 \<leftarrow> print_line ''spi pclk: '' pclk t1;
       t3 \<leftarrow> print_line ''spi bitrate: '' bitrate t2;
       t4 \<leftarrow> print_line ''spi divider: '' divider t3;
       Some (wr8 S0SPCR 0xA0 (wr8 S0SPCCR divider t4))
     } else Some s5);
     interruptEnableVIC 10 8 isr s6
   }"

text \<open>The response of a transaction overwrites the command; the buffer for the response is never written.\<close>

lemma spi_move_response:
  "\<not> mt_command_ptr s <s mt_command_len s \<Longrightarrow> mt_response_ptr s <s mt_response_len s \<Longrightarrow>
   mem (spi_move s) = (mem s)(mt_command s + mt_response_ptr s := ucast (fst (rd8 S0SPDR s)))"
  by (simp add: spi_move_def rd8_def rd_def Let_def)

section \<open>Timers\<close>

text \<open>There are two timers; the registers of one lie in a row.\<close>

definition TxIR :: nat where "TxIR = 0"
definition TxTCR :: nat where "TxTCR = 1"
definition TxPR :: nat where "TxPR = 3"
definition TxMCR :: nat where "TxMCR = 5"
definition TxMR0 :: nat where "TxMR0 = 6"
definition TxEMR :: nat where "TxEMR = 15"

datatype timer_t = TIMER0 | TIMER1
datatype timer_match_t = TIMER_MATCH_0 | TIMER_MATCH_1 | TIMER_MATCH_2 | TIMER_MATCH_3
datatype timer_match_action_t = TIMER_MATCH_NOTHING | TIMER_MATCH_CLEAR | TIMER_MATCH_SET | TIMER_MATCH_TOGGLE

primrec timer_no :: "timer_t \<Rightarrow> nat" where "timer_no TIMER0 = 0" | "timer_no TIMER1 = 1"

primrec match_no :: "timer_match_t \<Rightarrow> nat" where
  "match_no TIMER_MATCH_0 = 0" | "match_no TIMER_MATCH_1 = 1" | "match_no TIMER_MATCH_2 = 2" | "match_no TIMER_MATCH_3 = 3"

primrec action_no :: "timer_match_action_t \<Rightarrow> u32" where
  "action_no TIMER_MATCH_NOTHING = 0" | "action_no TIMER_MATCH_CLEAR = 1" | "action_no TIMER_MATCH_SET = 2" | "action_no TIMER_MATCH_TOGGLE = 3"

definition timerInit :: "timer_t \<Rightarrow> u32 \<Rightarrow> 'z board_scheme \<Rightarrow> 'z board_scheme" where
  "timerInit t prescale s = wr (TIMER (timer_no t) TxPR) (prescale - 1) (wr (TIMER (timer_no t) TxTCR) 0 s)"

definition timerEnable :: "timer_t \<Rightarrow> 'z board_scheme \<Rightarrow> 'z board_scheme" where
  "timerEnable t s = wr (TIMER (timer_no t) TxTCR) 1 (wr (TIMER (timer_no t) TxTCR) 3 s)"

definition timerDisable :: "timer_t \<Rightarrow> 'z board_scheme \<Rightarrow> 'z board_scheme" where
  "timerDisable t = wr (TIMER (timer_no t) TxTCR) 0"

definition shift3 :: "timer_match_t \<Rightarrow> u32 \<Rightarrow> u32" where
  "shift3 m bits = push_bit (match_no m) (push_bit (match_no m) (push_bit (match_no m) bits))"

definition match_bits :: "timer_match_t \<Rightarrow> bool \<Rightarrow> bool \<Rightarrow> bool \<Rightarrow> u32" where
  "match_bits m interrupt reset stop =
     (let bits = shift3 m 7;
          b1 = (if interrupt then 1 else bits);
          b2 = (if reset then b1 OR 2 else b1);
          b3 = (if stop then b2 OR 4 else b2)
      in shift3 m b3)"

definition timerSetMatch ::
  "timer_t \<Rightarrow> timer_match_t \<Rightarrow> u32 \<Rightarrow> bool \<Rightarrow> bool \<Rightarrow> bool \<Rightarrow> 'z print_board_scheme \<Rightarrow> 'z print_board_scheme option" where
  "timerSetMatch t m match_value interrupt reset stop s = (
     let mcr = TIMER (timer_no t) TxMCR;
         s1 = wr (TIMER (timer_no t) (TxMR0 + match_no m)) match_value s;
         s2 = or_reg mcr (match_bits m interrupt reset stop) (and_reg mcr (NOT (shift3 m 7)) s1);
         (v, s3) = rd mcr s2
     in printHex uart0SendByte () v 8 s3)"

definition timerClearMatchInterrupt :: "timer_t \<Rightarrow> timer_match_t \<Rightarrow> 'z board_scheme \<Rightarrow> 'z board_scheme" where
  "timerClearMatchInterrupt t m = wr (TIMER (timer_no t) TxIR) (push_bit (match_no m) 1)"

definition timerSetExternalMatch :: "timer_t \<Rightarrow> timer_match_t \<Rightarrow> timer_match_action_t \<Rightarrow> 'z board_scheme \<Rightarrow> 'z board_scheme" where
  "timerSetExternalMatch t m action =
     wr (TIMER (timer_no t) TxEMR) (push_bit (match_no m) (push_bit (match_no m) (push_bit 4 (action_no action))))"

text \<open>The three bits of the match register asked for, when an interrupt is; without one, register 0 gets all three.\<close>

lemma match_bits_interrupt:
  "i < 32 \<Longrightarrow> bit (match_bits m True reset stop) i = (i = 3 * match_no m \<or> reset \<and> i = 3 * match_no m + 1 \<or> stop \<and> i = 3 * match_no m + 2)"
proof -
  have "list_all (\<lambda>m. list_all (\<lambda>r. list_all (\<lambda>st. list_all (\<lambda>i. bit (match_bits m True r st) i =
      (i = 3 * match_no m \<or> r \<and> i = 3 * match_no m + 1 \<or> st \<and> i = 3 * match_no m + 2)) [0..<32]) [True, False]) [True, False])
    [TIMER_MATCH_0, TIMER_MATCH_1, TIMER_MATCH_2, TIMER_MATCH_3]" by code_simp
  moreover assume "i < 32"
  ultimately show ?thesis by (cases m; cases reset; cases stop) (simp_all add: list_all_iff)
qed

lemma match_bits_no_interrupt: "match_bits TIMER_MATCH_0 False reset stop = 7"
  by (simp add: match_bits_def shift3_def)

end
