(* ===== verification/PathLookup.thy ===== *)
theory PathLookup
  imports ReadFile
begin

text \<open>
  From a path name to a file.  A directory is a file whose blocks are lists of entries; \<open>walk\<close> follows a list of names
  from one directory to the next.  The loops of \<open>namei\<close> over names, blocks and entries do the same.
\<close>

section \<open>Directories\<close>

text \<open>
  Inode \<open>ino\<close> is a directory with the blocks of entries \<open>bs\<close>, outside of any transaction; block \<open>k\<close> starts at offset
  1983 + 2048 k of the file, behind the bytes of the inode, and every block has been filled as insertion does.
\<close>

definition directory :: "'z fs_scheme \<Rightarrow> u32 \<Rightarrow> dentry list list \<Rightarrow> bool" where
  "directory s ino bs = (1 \<le> ino \<and> ino \<le> 524288 \<and> quiet ino s \<and>
     (\<exists>a d. inode_at s ino = Some (a, d) \<and> unat (INODE_GET_NBYTES d) \<le> 0x40000000 \<and>
       unat (INODE_GET_NBYTES d) \<le> 1983 + 2048 * length bs \<and> (bs \<noteq> [] \<longrightarrow> 1983 + 2048 * (length bs - 1) < unat (INODE_GET_NBYTES d))) \<and>
     (\<forall>k<length bs. \<exists>b. file_block s ino (1983 + 2048 * k) = Some b \<and> dir_block b (bs ! k) \<and> des_fit (bs ! k)))"

text \<open>The first entry with a name: its inode number, its type and its offset in the directory.\<close>

fun dir_lookup :: "u8 list \<Rightarrow> nat \<Rightarrow> dentry list list \<Rightarrow> (u32 \<times> u32 \<times> u32) option" where
  "dir_lookup name d [] = None"
| "dir_lookup name d (es # bs) =
     (case dropWhile (\<lambda>e. snd (snd e) \<noteq> name) es of
        [] \<Rightarrow> dir_lookup name (d + 2048) bs
      | (t, ino, _) # _ \<Rightarrow> Some (ino, t, of_nat (d + des_size (takeWhile (\<lambda>e. snd (snd e) \<noteq> name) es))))"

text \<open>From a file found so far along the names: the file they lead to, with the offset of its entry.\<close>

fun walk :: "(u32 \<Rightarrow> dentry list list option) \<Rightarrow> u32 \<times> u32 \<times> u32 \<Rightarrow> u8 list list \<Rightarrow> (u32 \<times> u32 \<times> u32) option" where
  "walk dirs f [] = Some f"
| "walk dirs (ino, t, off) (name # names) =
     (if \<not> IS_DIRECTORY t then None else do {
        bs \<leftarrow> dirs ino;
        f \<leftarrow> dir_lookup name 1983 bs;
        walk dirs f names
      })"

text \<open>The directories of a tree: those that are known are there, and every entry of type directory is one.\<close>

definition dir_tree :: "'z fs_scheme \<Rightarrow> (u32 \<Rightarrow> dentry list list option) \<Rightarrow> bool" where
  "dir_tree s dirs = (dirs 1 \<noteq> None \<and> (\<forall>ino bs. dirs ino = Some bs \<longrightarrow> directory s ino bs \<and>
     (\<forall>e\<in>set (concat bs). IS_DIRECTORY (fst e) \<longrightarrow> dirs (fst (snd e)) \<noteq> None)))"

text \<open>A name of a path, and the path with the names.\<close>

definition path_name :: "u8 list \<Rightarrow> bool" where
  "path_name n = (n \<noteq> [] \<and> length n \<le> 246 \<and> (\<forall>c\<in>set n. 0x20 \<le> c \<and> c < 0x80 \<and> c \<noteq> 0x2f))"

fun path_of :: "u8 list list \<Rightarrow> u8 list" where
  "path_of [] = []"
| "path_of [n] = n"
| "path_of (n # ns) = n @ 0x2f # path_of ns"

section \<open>One directory\<close>

lemma dir_block_same: "same_block b x \<Longrightarrow> dir_block x es \<Longrightarrow> dir_block b es"
proof -
  assume a: "same_block b x" "dir_block x es"
  then have "des_at b 0 es = des_at x 0 es" by (intro des_at_cong) (simp add: same_block_def dir_block_def)
  with a show ?thesis by (auto simp: dir_block_def same_block_def)
qed

lemma des_many: "10 * length es \<le> des_size es"
  by (induction es) (auto simp: de_size_def)

lemma des_fit_size: "des_fit es \<Longrightarrow> des_at b p es \<Longrightarrow> des_size es < 2048"
proof (cases es rule: rev_cases)
  case (snoc xs e)
  assume "des_fit es" "des_at b p es"
  then have "des_size xs \<le> 1791" "de_at b (p + des_size xs) e" using snoc by (auto simp: des_fit_def des_at_append)
  then show ?thesis using snoc by (auto simp: de_at_def de_size_def)
qed simp

lemma unat_offset: "k < 0x80000000 \<Longrightarrow> unat (of_nat k :: u32) = k"
  by (subst unat_of_nat) simp

lemma dir_block_start: "1983 + 2048 * k + 2048 \<le> 0x80000000 \<Longrightarrow> Dirents.block_start (of_nat (1983 + 2048 * k))"
proof -
  assume k: "1983 + 2048 * k + 2048 \<le> 0x80000000"
  have "CALC_OFFSET_IN_FILE_BLOCK (of_nat (1983 + 2048 * k) + of_nat i) = of_nat i" if "i < 2048" for i
  proof -
    have o: "unat (of_nat (1983 + 2048 * k) + of_nat i :: u32) = 1983 + 2048 * k + i"
      using k that unat_offset [of "1983 + 2048 * k + i"] by (simp only: of_nat_add [symmetric])
    then have "1983 \<le> (of_nat (1983 + 2048 * k) + of_nat i :: u32)" by (simp only: word_le_nat_alt) simp
    from in_file_block [OF this] o have "unat (CALC_OFFSET_IN_FILE_BLOCK (of_nat (1983 + 2048 * k) + of_nat i)) = i" using that by simp
    then show ?thesis using that by (simp add: word_unat_eq_iff unat_of_nat)
  qed
  then show ?thesis by (simp only: Dirents.block_start_def) blast
qed

lemma separator_at:
  "path_name name \<Longrightarrow> rest = [] \<or> hd rest = 0x2f \<Longrightarrow> findNextSeperator (name @ rest) = of_nat (length name)"
proof -
  assume n: "path_name name" and r: "rest = [] \<or> hd rest = 0x2f"
  have "findNextSeperator rest = 0" using r by (cases rest) (auto simp: IS_SLASH_def)
  moreover have "\<forall>c\<in>set name. \<not> IS_SLASH c" using n by (auto simp: path_name_def IS_SLASH_def)
  ultimately show ?thesis by (induction name) auto
qed

lemma search_block:
  assumes "dir_block b es" "des_fit es" "Dirents.block_start d" "path_name name" "0 \<notin> set rest"
  shows "de_search 2049 b 0 (name @ rest) (of_nat (length name)) d = Some (de_lookup name es d)"
proof -
  have "10 * length es \<le> 2048" using des_many [of es] assms(1) by (simp add: dir_block_def)
  moreover have "0 \<notin> set (name @ rest)" "length name \<le> 246" using assms(4,5) by (auto simp: path_name_def)
  ultimately show ?thesis
    using de_search_finds_aux [of b 0 es "[]" d name rest 2049] assms(1-3) by (simp add: dir_block_def)
qed

text \<open>The loop over the blocks of a directory, from block \<open>k\<close> on.\<close>

lemma directory_loop_finds:
  fixes s :: "'z fs_scheme"
  assumes "directory s ino bs" "quiet 0 s" "inode_at s ino = Some (a, d)" "path_name name" "0 \<notin> set rest"
  shows "k + j = length bs \<Longrightarrow> j < n \<Longrightarrow> reads_into FsBuf s t \<Longrightarrow> store_ok t \<Longrightarrow> r = Local init_logical_address \<or> r = Local a \<Longrightarrow>
    \<exists>s'. directory_loop n (name @ rest) (of_nat (length name)) ino (INODE_GET_NBYTES d) f_type r (of_nat (1983 + 2048 * k)) t =
       Some (case dir_lookup name (1983 + 2048 * k) (drop k bs) of
           None \<Rightarrow> (-4, INO_NUM_EMPTY, f_type, of_nat (1983 + 2048 * length bs), s')
         | Some (i, ft, off) \<Rightarrow> (0, i, ft, off, s')) \<and> reads_into FsBuf s s' \<and> store_ok s'"
proof (induction j arbitrary: k n t r)
  case 0
  then obtain m where n: "n = Suc m" by (cases n) auto
  have k: "k = length bs" using 0 by simp
  have "unat (INODE_GET_NBYTES d) \<le> 0x40000000" "unat (INODE_GET_NBYTES d) \<le> 1983 + 2048 * length bs" "bs = [] \<or> 1983 + 2048 * (length bs - 1) < unat (INODE_GET_NBYTES d)"
    using assms(1,3) by (auto simp: directory_def)
  moreover from this have "1983 + 2048 * length bs < 0x80000000" by (cases bs) auto
  ultimately have "INODE_GET_NBYTES d \<le>s of_nat (1983 + 2048 * k)"
    unfolding k using unat_offset [of "1983 + 2048 * length bs"] by (subst signed_small) (linarith+)
  then show ?case using 0 by (simp add: n k)
next
  case (Suc j)
  then obtain m where n: "n = Suc m" "j < m" by (cases n) auto
  have k: "k < length bs" using Suc.prems(1) by simp
  have size: "unat (INODE_GET_NBYTES d) \<le> 0x40000000" "1983 + 2048 * (length bs - 1) < unat (INODE_GET_NBYTES d)" and ino: "1 \<le> ino" "ino \<le> 524288" "quiet ino s"
    using assms(1,3) k by (auto simp: directory_def)
  obtain b where b: "file_block s ino (1983 + 2048 * k) = Some b" "dir_block b (bs ! k)" "des_fit (bs ! k)"
    using assms(1) k by (auto simp: directory_def)
  define off where "off = (of_nat (1983 + 2048 * k) :: u32)"
  have le: "1983 + 2048 * k < unat (INODE_GET_NBYTES d)" using size(2) k by simp
  then have u: "unat off = 1983 + 2048 * k" using size(1) unat_offset [of "1983 + 2048 * k"] by (simp add: off_def)
  have more: "\<not> INODE_GET_NBYTES d \<le>s off" using size(1) le u by (subst signed_small) simp_all
  note fs = reads_into_fs [OF Suc.prems(3)]
  have "off \<le> FS_MAX_FILESIZE" using u le size(1) by (simp add: word_le_nat_alt)
  then obtain s1 where s1: "readFileBlock FsBuf ino off r TID_EMPTY t = Some (0, Local a, s1)" "same_block (fs_buffer s1) b" "store_ok s1" "reads_into FsBuf t s1"
    using readFileBlock_again [of t ino a d off b r] Suc.prems(4,5) assms(2,3) ino b(1) u fs by auto
  have blk: "dir_block (fs_buffer s1) (bs ! k)" by (rule dir_block_same [OF s1(2) b(2)])
  have start: "Dirents.block_start off" unfolding off_def by (rule dir_block_start) (use le size(1) in simp)
  note S = search_block [OF blk b(3) start assms(4,5)]
  have r1: "reads_into FsBuf s s1" by (rule flash.frame_trans [OF Suc.prems(3) s1(4)])
  have step: "directory_loop n (name @ rest) (of_nat (length name)) ino (INODE_GET_NBYTES d) f_type r off t =
      (case de_lookup name (bs ! k) off of
         (Some (i, ft), end) \<Rightarrow> Some (0, i, ft, end, s1)
       | (None, end) \<Rightarrow> directory_loop m (name @ rest) (of_nat (length name)) ino (INODE_GET_NBYTES d) f_type (Local a) (ADVANCE_TO_NEXT_BLOCK end) s1)"
    using more s1(1) S by (simp add: n split: prod.split option.split)
  have drop: "drop k bs = bs ! k # drop (Suc k) bs" using k by (simp add: Cons_nth_drop_Suc)
  show ?case
  proof (cases "dropWhile (\<lambda>e. snd (snd e) \<noteq> name) (bs ! k)")
    case (Cons e es)
    then show ?thesis using step s1(3) r1 unfolding off_def by (cases e) (auto simp: drop de_lookup_def)
  next
    case Nil
    have size_k: "des_size (bs ! k) < 2048" using des_fit_size [OF b(3)] blk by (auto simp: dir_block_def)
    have all: "takeWhile (\<lambda>e. snd (snd e) \<noteq> name) (bs ! k) = bs ! k" using takeWhile_dropWhile_id [of "\<lambda>e. snd (snd e) \<noteq> name" "bs ! k"] Nil by simp
    then have l: "de_lookup name (bs ! k) off = (None, off + of_nat (des_size (bs ! k)))" unfolding de_lookup_def Nil all by simp
    have "CALC_OFFSET_IN_FILE_BLOCK (off + of_nat (des_size (bs ! k))) = of_nat (des_size (bs ! k))"
      using start size_k by (simp only: Dirents.block_start_def)
    then have "ADVANCE_TO_NEXT_BLOCK (off + of_nat (des_size (bs ! k))) = of_nat (1983 + 2048 * Suc k)"
      by (simp add: ADVANCE_TO_NEXT_BLOCK_def off_def)
    with step l have "directory_loop n (name @ rest) (of_nat (length name)) ino (INODE_GET_NBYTES d) f_type r off t =
      directory_loop m (name @ rest) (of_nat (length name)) ino (INODE_GET_NBYTES d) f_type (Local a) (of_nat (1983 + 2048 * Suc k)) s1" by simp
    moreover have "dir_lookup name (1983 + 2048 * k) (drop k bs) = dir_lookup name (1983 + 2048 * Suc k) (drop (Suc k) bs)"
      unfolding drop dir_lookup.simps Nil by simp
    ultimately show ?thesis using Suc.IH [of "Suc k" m s1 "Local a"] Suc.prems(1) n(2) r1 s1(3) unfolding off_def by simp
  qed
qed

lemma compareDirectoryEntries_finds:
  assumes "directory s ino bs" "quiet 0 s" "store_ok s" "path_name name" "0 \<notin> set rest"
  shows "\<exists>s'. compareDirectoryEntries (name @ rest) (of_nat (length name)) ino f_type s =
       Some (case dir_lookup name 1983 bs of
           None \<Rightarrow> (-4, INO_NUM_EMPTY, f_type, of_nat (1983 + 2048 * length bs), s')
         | Some (i, ft, off) \<Rightarrow> (0, i, ft, off, s')) \<and> reads_into FsBuf s s' \<and> store_ok s'"
proof -
  obtain a d where d: "inode_at s ino = Some (a, d)" "unat (INODE_GET_NBYTES d) \<le> 0x40000000" "bs \<noteq> [] \<longrightarrow> 1983 + 2048 * (length bs - 1) < unat (INODE_GET_NBYTES d)"
    and ino: "1 \<le> ino" "ino \<le> 524288" "quiet ino s"
    using assms(1) by (auto simp: directory_def)
  obtain s1 where s1: "getFileSize ino s = Some (INODE_GET_NBYTES d, s1)" "store_ok s1" "reads_into FsBuf s s1"
    using getFileSize_reads [OF assms(3,2) ino(3,1,2) d(1)] by blast
  have "length bs < 524290" using d(2,3) by (cases bs) auto
  then show ?thesis
    using directory_loop_finds [OF assms(1,2) d(1) assms(4,5), of 0 "length bs" 524290 s1 "Local init_logical_address" f_type] s1
    by (simp add: compareDirectoryEntries_def)
qed

section \<open>All names of a path\<close>

lemma directory_reads: "reads_into FsBuf s t \<Longrightarrow> directory t = directory s"
  by (intro ext) (simp add: directory_def reads_into_fs)

lemma dir_lookup_entry: "dir_lookup name d bs = Some (ino, t, off) \<Longrightarrow> \<exists>e\<in>set (concat bs). fst e = t \<and> fst (snd e) = ino"
proof (induction bs arbitrary: d)
  case (Cons es bs)
  note prems = Cons.prems
  show ?case
  proof (cases "dropWhile (\<lambda>e. snd (snd e) \<noteq> name) es")
    case Nil
    have "dir_lookup name (d + 2048) bs = Some (ino, t, off)" using Cons.prems unfolding dir_lookup.simps Nil by simp
    then show ?thesis using Cons.IH by fastforce
  next
    case (Cons e es')
    then have "e \<in> set es" using set_dropWhileD [of e _ es] by (metis list.set_intros(1))
    moreover have "fst e = t \<and> fst (snd e) = ino" using prems unfolding dir_lookup.simps Cons by (cases e) simp
    ultimately show ?thesis by auto
  qed
qed simp

lemma path_of_chars: "\<forall>n\<in>set names. path_name n \<Longrightarrow> c \<in> set (path_of names) \<Longrightarrow> 0x20 \<le> c \<and> c < 0x80"
  by (induction names rule: path_of.induct) (auto simp: path_name_def)

lemma reads_into_same: "reads_into FsBuf s s"
proof -
  have "s = wr FsBuf (fs_buffer s) (s\<lparr>valid_eus := valid_eus s, sequencing_buffer := sequencing_buffer s\<rparr>)" by (cases s) simp
  then show ?thesis unfolding reads_into_def by blast
qed

lemma path_of_length: "\<forall>n\<in>set names. path_name n \<Longrightarrow> length names \<le> length (path_of names)"
  by (induction names rule: path_of.induct) (auto simp: path_name_def Suc_le_eq)

lemma path_legal: "\<forall>c\<in>set path. 0x20 \<le> c \<and> c < 0x80 \<Longrightarrow> verifyLegalPathname path"
  using path_scan_correct [of path] by simp

text \<open>One name: the entry in the directory that the walk has come to.\<close>

lemma one_name:
  assumes "dir_tree s dirs" "quiet 0 s" "reads_into FsBuf s t" "store_ok t" "path_name name" "0 \<notin> set rest"
    and "IS_DIRECTORY f_type" "dirs ino \<noteq> None"
  obtains s' bs where "dirs ino = Some bs" "reads_into FsBuf s s'" "store_ok s'"
    "compareDirectoryEntries (name @ rest) (of_nat (length name)) ino f_type t =
       Some (case dir_lookup name 1983 bs of
           None \<Rightarrow> (-4, INO_NUM_EMPTY, f_type, of_nat (1983 + 2048 * length bs), s')
         | Some (i, ft, off) \<Rightarrow> (0, i, ft, off, s'))"
    "\<And>i ft off. dir_lookup name 1983 bs = Some (i, ft, off) \<Longrightarrow> IS_DIRECTORY ft \<Longrightarrow> dirs i \<noteq> None"
proof -
  obtain bs where bs: "dirs ino = Some bs" using assms(8) by blast
  then have d: "directory t ino bs" "\<forall>e\<in>set (concat bs). IS_DIRECTORY (fst e) \<longrightarrow> dirs (fst (snd e)) \<noteq> None"
    using assms(1) directory_reads [OF assms(3)] by (simp_all add: dir_tree_def)
  have q: "quiet 0 t" using assms(2) reads_into_fs(3) [OF assms(3)] by simp
  obtain s' where s': "compareDirectoryEntries (name @ rest) (of_nat (length name)) ino f_type t =
       Some (case dir_lookup name 1983 bs of
           None \<Rightarrow> (-4, INO_NUM_EMPTY, f_type, of_nat (1983 + 2048 * length bs), s')
         | Some (i, ft, off) \<Rightarrow> (0, i, ft, off, s'))" "reads_into FsBuf t s'" "store_ok s'"
    using compareDirectoryEntries_finds [OF d(1) q assms(4-6)] by blast
  moreover have "dirs i \<noteq> None" if "dir_lookup name 1983 bs = Some (i, ft, off)" "IS_DIRECTORY ft" for i ft off
    using dir_lookup_entry [OF that(1)] that(2) d(2) by blast
  ultimately show thesis using that [OF bs flash.frame_trans [OF assms(3) s'(2)]] by blast
qed

definition walked :: "(u32 \<times> u32 \<times> u32) option \<Rightarrow> (u32 \<times> u32 \<times> u32 \<times> 'z fs_scheme) option \<Rightarrow> 'z fs_scheme \<Rightarrow> bool" where
  "walked w r s = (\<exists>s'. (case w of Some (ino, t, off) \<Rightarrow> r = Some (ino, t, off, s') | None \<Rightarrow> \<exists>e t off. r = Some (e, t, off, s') \<and> IS_NEGATIVE e) \<and>
     reads_into FsBuf s s')"

lemma name_length: "path_name n \<Longrightarrow> unat (of_nat (length n) :: u32) = length n \<and> (of_nat (length n) :: u32) \<noteq> 0"
proof -
  assume n: "path_name n"
  then have "unat (of_nat (length n) :: u32) = length n" using unat_offset [of "length n"] by (simp add: path_name_def)
  moreover from this have "(of_nat (length n) :: u32) \<noteq> 0" using n by (auto simp: path_name_def)
  ultimately show ?thesis by blast
qed

lemma negative_errors: "IS_NEGATIVE (-1)" "IS_NEGATIVE (-4)"
  by (code_simp)+

lemma namei_loop_walks:
  assumes "dir_tree s dirs" "quiet 0 s"
  shows "names \<noteq> [] \<Longrightarrow> \<forall>n\<in>set names. path_name n \<Longrightarrow> reads_into FsBuf s t \<Longrightarrow> store_ok t \<Longrightarrow> length names \<le> n \<Longrightarrow>
    (IS_DIRECTORY f_type \<Longrightarrow> dirs ino \<noteq> None) \<Longrightarrow>
    walked (walk dirs (ino, f_type, off) names) (namei_loop n (path_of names) f_type off ino t) s"
proof (induction names arbitrary: n f_type ino off t rule: path_of.induct)
  case (2 name)
  then obtain m where n: "n = Suc m" by (cases n) auto
  show ?case
  proof (cases "IS_DIRECTORY f_type")
    case False
    then show ?thesis using 2(3) negative_errors by (auto simp: walked_def n)
  next
    case True
    have p: "path_name name" using 2(2) by simp
    have sep: "findNextSeperator name = of_nat (length name)" using separator_at [OF p, of "[]"] by simp
    with one_name [OF assms 2(3,4) p _ True 2(6) [OF True], of "[]"] obtain s' bs where S: "dirs ino = Some bs" "reads_into FsBuf s s'"
      "compareDirectoryEntries (name @ []) (of_nat (length name)) ino f_type t =
       Some (case dir_lookup name 1983 bs of
           None \<Rightarrow> (-4, INO_NUM_EMPTY, f_type, of_nat (1983 + 2048 * length bs), s')
         | Some (i, ft, off) \<Rightarrow> (0, i, ft, off, s'))" by (metis empty_iff list.set(1))
    then show ?thesis using True sep name_length [OF p] negative_errors
      by (cases "dir_lookup name 1983 bs") (auto simp: walked_def n)
  qed
next
  case (3 name m ms)
  then obtain k where n: "n = Suc k" by (cases n) auto
  let ?rest = "path_of (m # ms)"
  show ?case
  proof (cases "IS_DIRECTORY f_type")
    case False
    then show ?thesis using 3(4) negative_errors by (auto simp: walked_def n)
  next
    case True
    have p: "path_name name" and ps: "\<forall>n\<in>set (m # ms). path_name n" using 3(3) by simp_all
    have sep: "findNextSeperator (name @ 0x2f # ?rest) = of_nat (length name)" using separator_at [OF p, of "0x2f # ?rest"] by simp
    have "0 \<notin> set (0x2f # ?rest)" using path_of_chars [OF ps, of 0] by auto
    with one_name [OF assms 3(4,5) p _ True 3(7) [OF True]] obtain s' bs where S: "dirs ino = Some bs" "reads_into FsBuf s s'" "store_ok s'"
      "compareDirectoryEntries (name @ 0x2f # ?rest) (of_nat (length name)) ino f_type t =
       Some (case dir_lookup name 1983 bs of
           None \<Rightarrow> (-4, INO_NUM_EMPTY, f_type, of_nat (1983 + 2048 * length bs), s')
         | Some (i, ft, off) \<Rightarrow> (0, i, ft, off, s'))"
      "\<And>i ft off. dir_lookup name 1983 bs = Some (i, ft, off) \<Longrightarrow> IS_DIRECTORY ft \<Longrightarrow> dirs i \<noteq> None" by metis
    show ?thesis
    proof (cases "dir_lookup name 1983 bs")
      case None
      then show ?thesis using True sep S(1,2,4) name_length [OF p] negative_errors by (auto simp: walked_def n)
    next
      case (Some f)
      then obtain i ft o2 where f: "dir_lookup name 1983 bs = Some (i, ft, o2)" by (cases f) auto
      have "walked (walk dirs (i, ft, o2) (m # ms)) (namei_loop k ?rest ft o2 i s') s"
        by (rule 3(1)) (use ps S(2,3) 3(6) n S(5) [OF f] in auto)
      moreover have "namei_loop n (path_of (name # m # ms)) f_type off ino t = namei_loop k ?rest ft o2 i s'"
        using True sep S(4) f name_length [OF p] by (simp add: n)
      ultimately show ?thesis using True S(1) f by simp
    qed
  qed
qed simp

section \<open>Property\<close>

text \<open>
  C2: \<open>namei\<close> finds the file a path leads to.  In a tree of directories that is stored on the chip, outside of transactions and
  with no cache, an absolute path with the given names results in the inode number, the type and the directory offset that the walk
  from the root along the names ends with, and in a negative error exactly when the walk fails: a name is missing in its
  directory, or a file that is no directory is followed by another name.  The search changes only buffers and
  the table of known erase units; it reads every block of a directory up to its size, and always ends.
\<close>
theorem namei_walks:
  assumes "dir_tree s dirs" "quiet 0 s" "store_ok s" "\<forall>n\<in>set names. path_name n"
  shows "\<exists>s'. (case walk dirs (1, FTYPE_DIR, de_offset) names of
      Some (ino, t, off) \<Rightarrow> namei (0x2f # path_of names) de_offset INO_NUM_EMPTY s = Some (ino, t, off, s')
    | None \<Rightarrow> \<exists>e t off. namei (0x2f # path_of names) de_offset INO_NUM_EMPTY s = Some (e, t, off, s') \<and> IS_NEGATIVE e) \<and> reads_into FsBuf s s'"
proof -
  have legal: "verifyLegalPathname (0x2f # path_of names)" using path_of_chars [OF assms(4)] path_legal [of "0x2f # path_of names"] by auto
  have start: "namei (0x2f # path_of names) de_offset INO_NUM_EMPTY s = namei_loop (Suc (Suc (length (path_of names)))) (path_of names) FTYPE_DIR de_offset 1 s"
    using legal by (simp add: namei_def IS_SLASH_def del: namei_loop.simps verifyLegalPathname.simps)
  have same: "reads_into FsBuf s s" by (rule reads_into_same)
  show ?thesis
  proof (cases names)
    case Nil
    then show ?thesis unfolding start using same by (auto simp: IS_DIRECTORY_def)
  next
    case (Cons n ns)
    then have "names \<noteq> []" "length names \<le> Suc (Suc (length (path_of names)))"
      using path_of_length [of names] assms(4) by auto
    with namei_loop_walks [OF assms(1,2) _ assms(4) same assms(3), of "Suc (Suc (length (path_of names)))" FTYPE_DIR 1 de_offset]
    show ?thesis unfolding start walked_def using assms(1) by (simp add: dir_tree_def del: namei_loop.simps)
  qed
qed

section \<open>Witness\<close>

text \<open>
  A chip with three pages of segment 3: inode 0, whose first block is inode 1; inode 1, whose first block is a
  directory; the entries of this directory, itself under the name \<open>.\<close> and the file 9 under the name \<open>ab\<close>.
\<close>

definition addr_in_3 :: "u32 \<Rightarrow> logical_addr" where
  "addr_in_3 k = setLogicalOffset (setLogicalSegment init_logical_address 3) k"

definition node_page :: "logical_addr \<Rightarrow> buf" where
  "node_page a = setECC (INODE_SET_NBYTES (addr_put (\<lambda>_. 0xff) 1996 a) 3000)"

definition root_page :: buf where
  "root_page = setECC (\<lambda>i. if i < 23 then [1, 1, 0, 0, 0, 11, 0, 0, 0, 46, 0, 2, 9, 0, 0, 0, 12, 0, 0, 0, 97, 98, 0] ! i else 0xff)"

definition walk_fs :: fs where
  "walk_fs = tree_fs\<lparr>cells := (\<lambda>_ _. 0xff)(5130 := node_page (addr_in_3 11), 5131 := node_page (addr_in_3 12), 5132 := root_page)\<rparr>"

definition root_entries :: "dentry list" where "root_entries = [(FTYPE_DIR, 1, [46]), (FTYPE_FILE, 9, [97, 98])]"

lemma node_page_fields: "addr_at (node_page a) 1996 = a" "INODE_GET_NBYTES (node_page a) = 3000"
proof -
  have "GET_UINT32 (node_page a) 0 1984 = GET_UINT32 (SET_UINT32 (addr_put (\<lambda>_. 0xff) 1996 a) 0 1984 3000) 0 1984"
    by (rule GET_UINT32_cong) (simp add: node_page_def INODE_SET_NBYTES_def)
  then show "INODE_GET_NBYTES (node_page a) = 3000" by (simp add: INODE_GET_NBYTES_def)
  show "addr_at (node_page a) 1996 = a" by (simp add: node_page_def INODE_SET_NBYTES_def addr_at_def addr_put_def SET_UINT32_byte)
qed

lemma root_page_block: "dir_block root_page root_entries" "des_fit root_entries"
  by (auto simp: dir_block_def de_at_def de_size_def des_fit_def root_entries_def DIRENT_GET_TYPE_def DIRENT_GET_INO_NUM_def
      DIRENT_GET_LEN_def GET_UINT32_def GET_BYTE_def root_page_def is_cstr_Cons is_cstr_Nil)

lemma addr_in_3_parts [simp]:
  "GET_LOGICAL_SEGMENT (addr_in_3 10) = 3" "GET_LOGICAL_OFFSET (addr_in_3 10) = 10" "addr_3_10 = addr_in_3 10"
  "GET_LOGICAL_SEGMENT (addr_in_3 11) = 3" "GET_LOGICAL_OFFSET (addr_in_3 11) = 11"
  "GET_LOGICAL_SEGMENT (addr_in_3 12) = 3" "GET_LOGICAL_OFFSET (addr_in_3 12) = 12"
  by (simp_all add: addr_in_3_def addr_3_10_def offset_part.get_put segment_part.get_put)

lemma walk_fs_sel:
  "FS_CACHE_BUFFERS walk_fs = 0" "valid_eus walk_fs = valid_eus blank_seq" "transactions walk_fs = transactions blank_fs"
  "rd_fail walk_fs = (\<lambda>_. False)" "fps walk_fs" "FS_GET_INO0_ADDR walk_fs = addr_in_3 10"
  "cells walk_fs = (\<lambda>_ _. 0xff)(5130 := node_page (addr_in_3 11), 5131 := node_page (addr_in_3 12), 5132 := root_page)"
  by (simp_all add: walk_fs_def tree_fs_def blank_fs_def seq.extend_def FS_GET_INO0_ADDR_def)

lemma walk_fs_store: "store_ok walk_fs" "n \<noteq> INO_NUM_EMPTY \<Longrightarrow> quiet n walk_fs"
  by (simp_all add: store_ok_def eus_ok_def walk_fs_sel blank_seq_sel quiet_def)

lemma walk_fs_blocks:
  "stored_block walk_fs (addr_in_3 10) = Some (node_page (addr_in_3 11))"
  "stored_block walk_fs (addr_in_3 11) = Some (node_page (addr_in_3 12))" "stored_block walk_fs (addr_in_3 12) = Some root_page"
proof -
  have "plain_page (addr_in_3 10) walk_fs = Some 5130" "plain_page (addr_in_3 11) walk_fs = Some 5131" "plain_page (addr_in_3 12) walk_fs = Some 5132"
    by (simp_all add: plain_page_def walk_fs_def tree_fs_def GET_SEG_MAP_SLOT_FOR_SEG_def IS_STATE_RECLAMATION_def CALC_ADDRESS_def)
  moreover have "unit_fine 5130 walk_fs" "unit_fine 5131 walk_fs" "unit_fine 5132 walk_fs"
    by (simp_all add: unit_fine_def walk_fs_sel eu_readable_def eu_good_def)
  ultimately show "stored_block walk_fs (addr_in_3 10) = Some (node_page (addr_in_3 11))"
    "stored_block walk_fs (addr_in_3 11) = Some (node_page (addr_in_3 12))" "stored_block walk_fs (addr_in_3 12) = Some root_page"
    by (simp_all add: stored_block_def walk_fs_sel IS_ADDRESS_EMPTY_def IS_CACHED_ADDR_def node_page_def root_page_def page_sound_setECC)
qed

lemma walk_fs_directory: "directory walk_fs 1 [root_entries]"
proof -
  have "\<not> IS_ADDR_EMPTY (addr_in_3 11)" by code_simp
  then have i: "inode_at walk_fs 1 = Some (addr_in_3 11, node_page (addr_in_3 12))"
    by (simp add: inode_at_def walk_fs_sel walk_fs_blocks inode_offset_def node_page_fields file_path_def path_addr_def)
  then have "file_block walk_fs 1 1983 = Some root_page"
    by (simp add: file_block_def node_page_fields file_path_def walk_fs_blocks)
  with i show ?thesis by (simp add: directory_def walk_fs_store node_page_fields root_page_block)
qed

lemma namei_walks_witness:
  "(\<exists>s'. namei [0x2f, 46, 0x2f, 97, 98] 0 INO_NUM_EMPTY walk_fs = Some (9, FTYPE_FILE, 1994, s')) \<and>
   (\<exists>e t off s'. namei [0x2f, 97, 98, 0x2f, 46] 0 INO_NUM_EMPTY walk_fs = Some (e, t, off, s') \<and> IS_NEGATIVE e)"
proof -
  let ?dirs = "[1 \<mapsto> [root_entries]]"
  have tree: "dir_tree walk_fs ?dirs" using walk_fs_directory by (auto simp: dir_tree_def root_entries_def IS_DIRECTORY_def)
  have names: "\<forall>n\<in>set [[46], [97, 98]]. path_name n" "\<forall>n\<in>set [[97, 98], [46]]. path_name n" by (simp_all add: path_name_def)
  have q: "quiet 0 walk_fs" by (rule walk_fs_store) simp
  have "walk ?dirs (1, FTYPE_DIR, 0) [[46], [97, 98]] = Some (9, FTYPE_FILE, 1994)" "walk ?dirs (1, FTYPE_DIR, 0) [[97, 98], [46]] = None"
    by (simp_all add: root_entries_def IS_DIRECTORY_def de_size_def)
  with namei_walks [OF tree q walk_fs_store(1) names(1), of 0] namei_walks [OF tree q walk_fs_store(1) names(2), of 0]
  show ?thesis by auto
qed

end
