(* ===== verification/Spec2Isabelle.thy ===== *)
theory Spec2Isabelle
  imports Ecc Nand Spare Addr Lfsr SegMap Reserve Memlib Blocks Reclaim CopyBack Segments Checkpoint Boot
    FsTypes Dirents Tables Cache Lru FileRead FilePath Transact FileWrite WriteRead Names Isort Api
    FileBytes ReadFile Descriptors Lock ArmNand Board Print Lcd I2c Spi PathLookup
begin

text \<open>
  A verification library for NANDFS, a file system for raw NAND flash.  It models the program of
  \<^verbatim>\<open>NANDFS/src\<close> with the simulated chip of \<^verbatim>\<open>SIM\<close>, function by function, and proves what its parts promise.

  \<^bold>\<open>The program.\<close>  Four layers call each other downwards.  The interface (\<^verbatim>\<open>fs/fs.c\<close>) takes the lock and calls
  the file layer (\<^verbatim>\<open>fs/fsUtils.c\<close>, \<^verbatim>\<open>fs/transactions.c\<close>, \<^verbatim>\<open>fs/cache.c\<close>): tables of open files, vnodes, streams and
  transactions, and files as trees of block addresses rooted in inodes, the inodes being the blocks of inode 0.
  The sequencing layer (\<^verbatim>\<open>sequencing/sequencing.c\<close>, \<^verbatim>\<open>sequencingUtils.c\<close>) stores blocks under logical addresses
  (segment, offset), appends them to the current segment, counts obsolete pages, copies the valid pages of the
  worst segment away, replaces bad erase units by reserve units, wears slots evenly, and writes checkpoints from
  which it recovers.  The driver (\<^verbatim>\<open>SIM/peripherals/nand.c\<close>) reads, programs and erases pages with a code that
  repairs single bit errors (\<^verbatim>\<open>SIM/utils/yaffs_ecc.c\<close>).

  \<^bold>\<open>State.\<close>  The records extend each other as the layers do: \<open>nand\<close> (the simulation file by pages, the write
  counts, the environment's failing pages) is extended by \<open>seq\<close> (segment map, obsolete counters, random register,
  page buffer) and by \<open>fs\<close> (cache blocks, transactions, vnodes, open files, streams, the 16 bytes and the lock of
  \<^verbatim>\<open>filesystem_t\<close>, \<^verbatim>\<open>fs_buffer\<close>).  A global variable is a field; a function of a lower layer runs on any extension of
  its record.  A C function becomes a HOL function of the same name that returns its result, the buffers and
  pointers it writes through, and the new state, inside an option: \<open>None\<close> is a failed \<^verbatim>\<open>assert\<close>, \<^verbatim>\<open>exit\<close>, an access
  outside of an array, or a loop that has used up its fuel.  Both \<^verbatim>\<open>int32_t\<close> and \<^verbatim>\<open>uint32_t\<close> are words of 32
  bits, signed comparisons are written with \<open><s\<close>.  Pointers to buffers and addresses inside the state are the
  references \<open>buf_ref\<close> and \<open>addr_ref\<close>.  Macros that return early (\<^verbatim>\<open>RES_VERIFY\<close>, \<^verbatim>\<open>SYS_VERIFY\<close>) take the rest of the
  function as an argument.

  \<^bold>\<open>Theories and sources.\<close>

  \<^item> \<open>Prelude\<close>: types, stopping, buffers, words.  \<open>Memlib\<close>: \<^verbatim>\<open>memlib.c\<close> and \<^verbatim>\<open>string_lib.c\<close>.
  \<^item> \<open>Ecc\<close>: \<^verbatim>\<open>yaffs_ecc.c\<close>.  \<open>Nand\<close>: the simulated chip.  \<open>Spare\<close>: the fields of the spare area and of segment
    headers (\<^verbatim>\<open>nand.h\<close>, \<^verbatim>\<open>sequencing.h\<close>).
  \<^item> \<open>Addr\<close>: logical addresses and page numbers.  \<open>Lfsr\<close>: \<^verbatim>\<open>lfsr.c\<close>.  \<open>SegMap\<close>: segment map, counters, the table of
    units known to be good.  \<open>Reserve\<close>: reserve units and the translation of addresses.
  \<^item> \<open>Blocks\<close>, \<open>Reclaim\<close>, \<open>CopyBack\<close>: block input and output, obsolete pages, erasure, the segment to reclaim, copies.
    \<open>Segments\<close>: wear leveling, segment headers, the next free page, writing a block, \<open>commit\<close>.
    \<open>Checkpoint\<close> and \<open>Boot\<close>: search of the checkpoint, recovery of the segment map, \<open>sequencingBooting\<close>.
  \<^item> \<open>FsTypes\<close>: \<^verbatim>\<open>fs.h\<close>, \<^verbatim>\<open>fsUtils.h\<close>.  \<open>Dirents\<close>: directory blocks and path scans.  \<open>Tables\<close> and \<open>Descriptors\<close>: the
    tables and their invariants.  \<open>Cache\<close> and \<open>Lru\<close>: \<^verbatim>\<open>cache.c\<close> and the list it keeps.
  \<^item> \<open>FileRead\<close> and \<open>FilePath\<close>: reading files and the tree they are.  \<open>Transact\<close> and \<open>FileWrite\<close>: transactions and
    writing; \<open>WriteRead\<close>: a block from the write to the read.  \<open>Names\<close>: name lookup, creation, removal, descriptors.  \<open>Api\<close> and \<open>Lock\<close>: the \<^verbatim>\<open>nandfs_\<close> operations, mounting, and
    their lock as a state machine; \<open>FileBytes\<close> and \<open>ReadFile\<close>: a file as bytes, and \<^verbatim>\<open>nandfs_read\<close>; \<open>PathLookup\<close>: from a path to a
    file.  \<open>Isort\<close>: \<^verbatim>\<open>insertionsort.c\<close>.
  \<^item> \<open>ArmNand\<close>: the driver of the chip on the board, \<^verbatim>\<open>ARM/peripherals/nand.c\<close>, down to the pins; it has the interface
    of \<open>Nand\<close> with small pages, and nothing above it is built on it here.
  \<^item> \<open>Board\<close>: the registers of the board and \<^verbatim>\<open>clocks.c\<close>, \<^verbatim>\<open>gpio.c\<close>, \<^verbatim>\<open>interrupts.c\<close>, \<^verbatim>\<open>uart0.c\<close>, \<^verbatim>\<open>adc.c\<close>,
    \<^verbatim>\<open>busywait.c\<close> of \<^verbatim>\<open>ARM/lpc2000\<close>.  \<open>Print\<close>: \<^verbatim>\<open>ARM/utils/print.c\<close>.  \<open>Lcd\<close>: \<^verbatim>\<open>ARM/peripherals/lcd.c\<close>.  \<open>I2c\<close>: \<^verbatim>\<open>i2c.c\<close>.  \<open>Spi\<close>:
    \<^verbatim>\<open>spi.c\<close> and \<^verbatim>\<open>timers.c\<close>.  Their state is
    the list of all accesses to registers so far; the hardware is a function that answers a read from that list.
\<close>

text \<open>
  \<^bold>\<open>What is shown.\<close>

  \<^item> Driver: the code repairs any single flipped bit of a chunk or of its code; a page programmed is the page read;
    erasing touches one unit; a unit marked bad stays as it is.  The locale \<open>block_code\<close> states the laws of a
    correcting code and is interpreted on the two functions.
  \<^item> Encodings: each field of the spare area, of addresses and of page numbers is read back as written and leaves
    the other fields alone (locales \<open>spare_field\<close> and \<open>addr_part\<close>); the 4-bit counters do not disturb each other
    (\<open>level_counters\<close>); the random register never runs dry.
  \<^item> Sequencing: the nested searches of reserve units equal one search in a list (\<open>eu_search\<close>); translation never
    leads to a bad unit; the best segment is chosen for reclamation; copying back a unit equals taking the longest
    prefix of used pages; marking a page obsolete counts it once; the choice of a slot and the search of a free
    page end; a block written is the block read; the last used page of a unit is found by bisection.
  \<^item> Files: entries of a directory block are a list, and inserting, deleting and searching work on that list; the
    cache's links are a list in order of use and a touch moves a block to its front; reading a block of a file
    equals walking a tree of blocks over an abstract store (\<open>block_store\<close>), on the flash below; the arithmetic of
    offsets stays inside the arrays and gives distinct entries to distinct blocks.  A block
    written in a transaction is the block read, through the inode, the allocation of a page and the chip.
  \<^item> Interface: \<^verbatim>\<open>namei\<close> ends with the file that a walk through the directories along the names ends with;
    \<^verbatim>\<open>nandfs_read\<close>, block by block, copies the next bytes of the file at the descriptor's offset, as
    many as there are, and moves the offset behind them; opening and closing keep the reference counts and the rule of one writer; mounting establishes
    them; a reader can always reopen what it closed; calls give the lock back, except for two cases, and a lock
    that is kept stops every later call until the next mounting or unmounting.
  \<^item> Board: the pin movements of programming, reading and erasing are the command sequences of the data sheet, with the
    wait until the chip is seen ready in its place and the status it gives as the result; a bad unit, by the marks
    the chip gives, is never erased, and a read never has both sides drive the data pins.  The PLL is fed, seen locked and
    connected, and the processor's clock is within the ranges of the data sheet; a transaction on the two-wire bus puts the command on the
    wires and a response of one byte into memory, and never returns with a longer one; the display is
    initialised from any state, and numbers and strings reach the serial line and the display as they are (locale
    \<open>printer\<close>, interpreted on both).

  \<^bold>\<open>Fuel.\<close>  Loops whose source has no static bound carry fuel.  The scan of a slot has 1024 pages (fuel 1024, and 1025
  for the copy of wear leveling); no more than 509 segments can be tried for a free page (fuel 509); a walk over
  the pages of a transaction has at most 524288 pages (fuel 524289); a file has at most 524288 blocks (fuel
  524290); a directory block holds at most 2048 entries (fuel 2049); at most two transactions can be aborted to
  make room (fuel 4); a list of cache blocks is no longer than the number of blocks (that number plus one).
  Loops over spans that shrink (\<open>pick_slot\<close>, the searches of \<open>Checkpoint\<close>, string scans) take their fuel as an argument or
  from the size of the span.  Termination is a theorem where the bound is not evident: \<open>pick_slot_terminates\<close>,
  \<open>free_page_loop_terminates\<close>, \<open>lru_searches_terminate\<close>.

  \<^bold>\<open>The build.\<close>  The macros have the values of the simulation build: large pages (2048 and 64 bytes), 64 pages in an
  erase unit, 2^19 pages, 512 slots of 1024 pages, error correction on, no \<^verbatim>\<open>Debug\<close>, no profiling, no operating system
  (the lock is a word), little-endian, 32-bit \<^verbatim>\<open>size_t\<close>.  The number of cache blocks is a field; it is 0 in the shipped
  configuration.  An uninitialised local buffer holds the arbitrary bytes \<open>junk\<close> of the state.

  \<^bold>\<open>Not modelled.\<close>  The start-up code of the board in assembler; how long the display and the chip take, but for the waits the
  driver makes until it sees the chip ready; the tests, the printing
  of the simulator and profiling, the closing and flushing of the simulation file, and the message texts of
  failures.  The caller's allocator and filter of \<^verbatim>\<open>nandfs_scandir\<close> are arguments; the release of a list of names is not
  modelled.  The function pointer to the checkpoint writer is an argument of the sequencing layer; inside \<open>commit\<close> of the file
  system it is never followed (\<open>commit_one_page\<close>).
\<close>

end
